(* ===== verification/Prelude.thy ===== *)
theory Prelude
  imports Main "HOL-Library.State_Monad" "HOL-Library.AList" "HOL-Library.Product_Lexorder"
begin

text \<open>
  What every component of the development shares.

  \<^item> Effects. A Go function that talks to Postgres, Redis or an ID generator is a value of
    the library's state monad. Three judgements about such a program carry all proofs about
    effects: \<open>valid P m Q\<close> (a Hoare triple), \<open>keeps f m\<close> (the component \<open>f\<close> of the state is the
    same afterwards) and \<open>preserves I m\<close> (the invariant \<open>I\<close> is kept). The rules for
    sequencing, branching and loops are collected in \<open>io_intros\<close>, so that a component proof
    reduces to the primitive operations.
  \<^item> Decimal text. \<open>itoa\<close> is \<open>strconv.FormatInt(n, 10)\<close> and \<open>ParseInt64\<close> is
    \<open>strconv.ParseInt(s, 10, 64)\<close>.
  \<^item> Go's truncating integer division, and list facts for the SQL queries.
\<close>

section \<open>Programs with effects\<close>

abbreviation ret :: "'a \<Rightarrow> ('s, 'a) state" where
  "ret x \<equiv> State_Monad.return x"

abbreviation get_st :: "('s, 's) state" where
  "get_st \<equiv> State_Monad.get"

abbreviation put_st :: "'s \<Rightarrow> ('s, unit) state" where
  "put_st s \<equiv> State_Monad.set s"

text \<open>Reading one component of the state, and replacing the state by a function of it.\<close>

definition gets :: "('s \<Rightarrow> 'a) \<Rightarrow> ('s, 'a) state" where
  "gets f = State (\<lambda>s. (f s, s))"

definition modify :: "('s \<Rightarrow> 's) \<Rightarrow> ('s, unit) state" where
  "modify f = State (\<lambda>s. ((), f s))"

lemma run_gets [simp]: "run_state (gets f) s = (f s, s)"
  by (simp add: gets_def)

lemma run_modify [simp]: "run_state (modify f) s = ((), f s)"
  by (simp add: modify_def)

text \<open>A loop over a list whose body only has effects (\<open>for _, x := range xs\<close>).\<close>

primrec for_each :: "'a list \<Rightarrow> ('a \<Rightarrow> ('s, unit) state) \<Rightarrow> ('s, unit) state" where
  "for_each [] f = ret ()"
| "for_each (x # xs) f = do { _ \<leftarrow> f x; for_each xs f }"

definition exec_st :: "('s, 'a) state \<Rightarrow> 's \<Rightarrow> 's" where
  "exec_st m s = snd (run_state m s)"

definition eval_st :: "('s, 'a) state \<Rightarrow> 's \<Rightarrow> 'a" where
  "eval_st m s = fst (run_state m s)"

section \<open>Judgements about programs\<close>

definition valid :: "('s \<Rightarrow> bool) \<Rightarrow> ('s, 'a) state \<Rightarrow> ('a \<Rightarrow> 's \<Rightarrow> bool) \<Rightarrow> bool" where
  "valid P m Q \<longleftrightarrow> (\<forall>s. P s \<longrightarrow> Q (fst (run_state m s)) (snd (run_state m s)))"

definition keeps :: "('s \<Rightarrow> 'b) \<Rightarrow> ('s, 'a) state \<Rightarrow> bool" where
  "keeps f m \<longleftrightarrow> (\<forall>s. f (snd (run_state m s)) = f s)"

definition preserves :: "('s \<Rightarrow> bool) \<Rightarrow> ('s, 'a) state \<Rightarrow> bool" where
  "preserves I m \<longleftrightarrow> (\<forall>s. I s \<longrightarrow> I (snd (run_state m s)))"

named_theorems io_intros "introduction rules for keeps and preserves"
named_theorems wp_intros "introduction rules for valid"

lemma validI: "(\<And>s. P s \<Longrightarrow> Q (fst (run_state m s)) (snd (run_state m s))) \<Longrightarrow> valid P m Q"
  by (simp add: valid_def)

lemma validD: "valid P m Q \<Longrightarrow> P s \<Longrightarrow> run_state m s = (a, s') \<Longrightarrow> Q a s'"
  unfolding valid_def by (metis fst_conv snd_conv)

lemma valid_run: "valid P m Q \<Longrightarrow> P s \<Longrightarrow> Q (fst (run_state m s)) (snd (run_state m s))"
  by (simp add: valid_def)

lemma valid_bind [wp_intros]:
  "valid P m R \<Longrightarrow> (\<And>a. valid (R a) (f a) Q) \<Longrightarrow> valid P (State_Monad.bind m f) Q"
  by (auto simp: valid_def split: prod.splits)

lemma valid_return [wp_intros]: "(\<And>s. P s \<Longrightarrow> Q x s) \<Longrightarrow> valid P (ret x) Q"
  by (simp add: valid_def)

lemma valid_if [wp_intros]:
  "(b \<Longrightarrow> valid P m Q) \<Longrightarrow> (\<not> b \<Longrightarrow> valid P m' Q) \<Longrightarrow> valid P (if b then m else m') Q"
  by simp

lemma valid_option [wp_intros]:
  "(x = None \<Longrightarrow> valid P m Q) \<Longrightarrow> (\<And>y. x = Some y \<Longrightarrow> valid P (f y) Q)
   \<Longrightarrow> valid P (case x of None \<Rightarrow> m | Some y \<Rightarrow> f y) Q"
  by (cases x) simp_all

lemma valid_sum [wp_intros]:
  "(\<And>e. x = Inl e \<Longrightarrow> valid P (g e) Q) \<Longrightarrow> (\<And>y. x = Inr y \<Longrightarrow> valid P (f y) Q)
   \<Longrightarrow> valid P (case x of Inl e \<Rightarrow> g e | Inr y \<Rightarrow> f y) Q"
  by (cases x) simp_all

lemma valid_prod [wp_intros]:
  "(\<And>a b. x = (a, b) \<Longrightarrow> valid P (f a b) Q) \<Longrightarrow> valid P (case x of (a, b) \<Rightarrow> f a b) Q"
  by (cases x) simp_all

lemma valid_weaken: "valid P' m Q \<Longrightarrow> (\<And>s. P s \<Longrightarrow> P' s) \<Longrightarrow> valid P m Q"
  by (simp add: valid_def)

lemma valid_post: "valid P m Q' \<Longrightarrow> (\<And>a s. Q' a s \<Longrightarrow> Q a s) \<Longrightarrow> valid P m Q"
  by (simp add: valid_def)

lemma valid_conj: "valid P m Q \<Longrightarrow> valid P m R \<Longrightarrow> valid P m (\<lambda>a s. Q a s \<and> R a s)"
  by (simp add: valid_def)

lemma keepsD: "keeps f m \<Longrightarrow> run_state m s = (a, s') \<Longrightarrow> f s' = f s"
  unfolding keeps_def by (metis snd_conv)

lemma keeps_run: "keeps f m \<Longrightarrow> f (snd (run_state m s)) = f s"
  by (simp add: keeps_def)

lemma keeps_bind [io_intros]:
  "keeps f m \<Longrightarrow> (\<And>a. keeps f (g a)) \<Longrightarrow> keeps f (State_Monad.bind m g)"
  by (simp add: keeps_def split: prod.splits) (metis snd_conv)

lemma keeps_return [io_intros]: "keeps f (ret x)"
  by (simp add: keeps_def)

lemma keeps_gets [io_intros]: "keeps f (gets g)"
  by (simp add: keeps_def)

lemma keeps_modify: "(\<And>s. f (g s) = f s) \<Longrightarrow> keeps f (modify g)"
  by (simp add: keeps_def)

lemma keeps_if [io_intros]: "(b \<Longrightarrow> keeps f m) \<Longrightarrow> (\<not> b \<Longrightarrow> keeps f m') \<Longrightarrow> keeps f (if b then m else m')"
  by simp

lemma keeps_option [io_intros]:
  "(x = None \<Longrightarrow> keeps f m) \<Longrightarrow> (\<And>y. x = Some y \<Longrightarrow> keeps f (g y))
   \<Longrightarrow> keeps f (case x of None \<Rightarrow> m | Some y \<Rightarrow> g y)"
  by (cases x) simp_all

lemma keeps_sum [io_intros]:
  "(\<And>e. x = Inl e \<Longrightarrow> keeps f (h e)) \<Longrightarrow> (\<And>y. x = Inr y \<Longrightarrow> keeps f (g y))
   \<Longrightarrow> keeps f (case x of Inl e \<Rightarrow> h e | Inr y \<Rightarrow> g y)"
  by (cases x) simp_all

lemma keeps_prod [io_intros]:
  "(\<And>a b. x = (a, b) \<Longrightarrow> keeps f (g a b)) \<Longrightarrow> keeps f (case x of (a, b) \<Rightarrow> g a b)"
  by (cases x) simp_all

lemma keeps_list [io_intros]:
  "(x = [] \<Longrightarrow> keeps f m) \<Longrightarrow> (\<And>y ys. x = y # ys \<Longrightarrow> keeps f (g y ys))
   \<Longrightarrow> keeps f (case x of [] \<Rightarrow> m | y # ys \<Rightarrow> g y ys)"
  by (cases x) simp_all

lemma keeps_for_each [io_intros]: "(\<And>x. x \<in> set xs \<Longrightarrow> keeps f (g x)) \<Longrightarrow> keeps f (for_each xs g)"
  by (induction xs) (auto intro!: keeps_bind keeps_return)

lemma preservesD: "preserves I m \<Longrightarrow> I s \<Longrightarrow> run_state m s = (a, s') \<Longrightarrow> I s'"
  unfolding preserves_def by (metis snd_conv)

lemma preserves_run: "preserves I m \<Longrightarrow> I s \<Longrightarrow> I (snd (run_state m s))"
  by (simp add: preserves_def)

lemma preserves_valid: "preserves I m \<longleftrightarrow> valid I m (\<lambda>_. I)"
  by (simp add: preserves_def valid_def)

lemma preserves_bind [io_intros]:
  "preserves I m \<Longrightarrow> (\<And>a. preserves I (g a)) \<Longrightarrow> preserves I (State_Monad.bind m g)"
  by (simp add: preserves_def split: prod.splits) (metis snd_conv)

lemma preserves_return [io_intros]: "preserves I (ret x)"
  by (simp add: preserves_def)

lemma preserves_gets [io_intros]: "preserves I (gets g)"
  by (simp add: preserves_def)

lemma preserves_if [io_intros]:
  "(b \<Longrightarrow> preserves I m) \<Longrightarrow> (\<not> b \<Longrightarrow> preserves I m') \<Longrightarrow> preserves I (if b then m else m')"
  by simp

lemma preserves_option [io_intros]:
  "(x = None \<Longrightarrow> preserves I m) \<Longrightarrow> (\<And>y. x = Some y \<Longrightarrow> preserves I (g y))
   \<Longrightarrow> preserves I (case x of None \<Rightarrow> m | Some y \<Rightarrow> g y)"
  by (cases x) simp_all

lemma preserves_sum [io_intros]:
  "(\<And>e. x = Inl e \<Longrightarrow> preserves I (h e)) \<Longrightarrow> (\<And>y. x = Inr y \<Longrightarrow> preserves I (g y))
   \<Longrightarrow> preserves I (case x of Inl e \<Rightarrow> h e | Inr y \<Rightarrow> g y)"
  by (cases x) simp_all

lemma preserves_prod [io_intros]:
  "(\<And>a b. x = (a, b) \<Longrightarrow> preserves I (g a b)) \<Longrightarrow> preserves I (case x of (a, b) \<Rightarrow> g a b)"
  by (cases x) simp_all

lemma preserves_list [io_intros]:
  "(x = [] \<Longrightarrow> preserves I m) \<Longrightarrow> (\<And>y ys. x = y # ys \<Longrightarrow> preserves I (g y ys))
   \<Longrightarrow> preserves I (case x of [] \<Rightarrow> m | y # ys \<Rightarrow> g y ys)"
  by (cases x) simp_all

lemma preserves_for_each [io_intros]:
  "(\<And>x. x \<in> set xs \<Longrightarrow> preserves I (g x)) \<Longrightarrow> preserves I (for_each xs g)"
  by (induction xs) (auto intro!: preserves_bind preserves_return)

text \<open>An invariant of one component is kept by a program that keeps the component.\<close>

lemma keeps_preserves: "keeps f m \<Longrightarrow> preserves (\<lambda>s. I (f s)) m"
  by (simp add: keeps_def preserves_def)

lemma keeps_comp: "keeps f m \<Longrightarrow> keeps (\<lambda>s. g (f s)) m"
  by (simp add: keeps_def)

lemma keeps_pair: "keeps f m \<Longrightarrow> keeps g m \<Longrightarrow> keeps (\<lambda>s. (f s, g s)) m"
  by (simp add: keeps_def)

section \<open>Decimal text\<close>

definition digit_char :: "nat \<Rightarrow> char" where
  "digit_char n = char_of (48 + n)"

definition digit_val :: "char \<Rightarrow> nat option" where
  "digit_val c = (let k = (of_char c :: nat) in if 48 \<le> k \<and> k \<le> 57 then Some (k - 48) else None)"

fun nat_dec :: "nat \<Rightarrow> string" where
  "nat_dec n = (if n < 10 then [digit_char n] else nat_dec (n div 10) @ [digit_char (n mod 10)])"

declare nat_dec.simps [simp del]

definition itoa :: "int \<Rightarrow> string" where
  "itoa n = (if n < 0 then CHR ''-'' # nat_dec (nat (- n)) else nat_dec (nat n))"

fun parse_digits :: "nat \<Rightarrow> string \<Rightarrow> nat option" where
  "parse_digits acc [] = Some acc"
| "parse_digits acc (c # cs) =
     (case digit_val c of None \<Rightarrow> None | Some d \<Rightarrow> parse_digits (10 * acc + d) cs)"

definition parse_nat :: "string \<Rightarrow> nat option" where
  "parse_nat s = (if s = [] then None else parse_digits 0 s)"

definition int64_range :: "int \<Rightarrow> bool" where
  "int64_range n \<longleftrightarrow> - (2 ^ 63) \<le> n \<and> n < 2 ^ 63"

text \<open>The digits with an optional sign, before the range check.\<close>

definition parse_int :: "string \<Rightarrow> int option" where
  "parse_int s = (case s of [] \<Rightarrow> None
     | c # cs \<Rightarrow> if c = CHR ''-'' then map_option (\<lambda>n. - int n) (parse_nat cs)
                 else if c = CHR ''+'' then map_option int (parse_nat cs)
                 else map_option int (parse_nat s))"

definition ParseInt64 :: "string \<Rightarrow> int option" where
  "ParseInt64 s = (case parse_int s of None \<Rightarrow> None | Some n \<Rightarrow> if int64_range n then Some n else None)"

text \<open>The value \<open>ParseInt\<close> returns beside an error the caller ignores: 0, or the nearest bound.\<close>

definition ParseInt64_value :: "string \<Rightarrow> int" where
  "ParseInt64_value s = (case parse_int s of None \<Rightarrow> 0 | Some n \<Rightarrow> max (- (2 ^ 63)) (min (2 ^ 63 - 1) n))"

lemma digit_val_digit_char [simp]: "d < 10 \<Longrightarrow> digit_val (digit_char d) = Some d"
  by (simp add: digit_val_def digit_char_def Let_def)

lemma nat_dec_nonempty [simp]: "nat_dec n \<noteq> []"
  by (subst nat_dec.simps) simp

lemma parse_digits_append:
  "parse_digits a (xs @ ys) = (case parse_digits a xs of None \<Rightarrow> None | Some b \<Rightarrow> parse_digits b ys)"
  by (induction xs arbitrary: a) (auto split: option.splits)

lemma parse_digits_nat_dec: "parse_digits 0 (nat_dec n) = Some n"
proof (induction n rule: nat_dec.induct)
  case (1 n)
  then show ?case
    by (subst nat_dec.simps) (simp add: parse_digits_append)
qed

lemma parse_nat_nat_dec [simp]: "parse_nat (nat_dec n) = Some n"
  by (simp add: parse_nat_def parse_digits_nat_dec)

lemma nat_dec_digits: "c \<in> set (nat_dec n) \<Longrightarrow> \<exists>d<10. c = digit_char d"
proof (induction n rule: nat_dec.induct)
  case (1 n)
  then show ?case
    by (subst (asm) (2) nat_dec.simps) (auto split: if_splits intro: exI [of _ "n mod 10"])
qed

lemma digit_char_neq:
  "d < 10 \<Longrightarrow> digit_char d \<noteq> CHR '':''" "d < 10 \<Longrightarrow> digit_char d \<noteq> CHR ''-''"
  "d < 10 \<Longrightarrow> digit_char d \<noteq> CHR ''+''"
  by (auto simp: digit_char_def dest!: arg_cong [where f = "of_char :: char \<Rightarrow> nat"])

lemma colon_not_in_nat_dec [simp]: "CHR '':'' \<notin> set (nat_dec n)"
  using nat_dec_digits digit_char_neq(1) by metis

lemma hd_nat_dec_not_sign: "nat_dec n = c # cs \<Longrightarrow> c \<noteq> CHR ''-'' \<and> c \<noteq> CHR ''+''"
  using nat_dec_digits [of c n] digit_char_neq(2,3) by auto

lemma colon_not_in_itoa [simp]: "CHR '':'' \<notin> set (itoa n)"
  by (simp add: itoa_def)

lemma itoa_nonempty [simp]: "itoa n \<noteq> []"
  by (simp add: itoa_def)

lemma parse_int_itoa [simp]: "parse_int (itoa n) = Some n"
proof (cases "n < 0")
  case True
  then show ?thesis by (simp add: parse_int_def itoa_def)
next
  case False
  obtain c cs where c: "nat_dec (nat n) = c # cs" by (cases "nat_dec (nat n)") auto
  with hd_nat_dec_not_sign [OF c] False show ?thesis
    using parse_nat_nat_dec [of "nat n"] by (simp add: parse_int_def itoa_def)
qed

lemma ParseInt64_itoa [simp]: "int64_range n \<Longrightarrow> ParseInt64 (itoa n) = Some n"
  by (simp add: ParseInt64_def)

lemma ParseInt64_value_itoa [simp]: "int64_range n \<Longrightarrow> ParseInt64_value (itoa n) = n"
  by (simp add: ParseInt64_value_def int64_range_def)

lemma ParseInt64_range: "ParseInt64 s = Some n \<Longrightarrow> int64_range n"
  by (simp add: ParseInt64_def split: option.splits if_splits)

lemma nat_dec_inject [simp]: "nat_dec m = nat_dec n \<longleftrightarrow> m = n"
  by (metis option.inject parse_nat_nat_dec)

lemma nat_dec_not_minus: "nat_dec n \<noteq> CHR ''-'' # cs"
  using hd_nat_dec_not_sign by blast

lemma itoa_inject [simp]: "itoa m = itoa n \<longleftrightarrow> m = n"
  using nat_dec_not_minus nat_dec_not_minus [symmetric]
  by (auto simp: itoa_def)

text \<open>Splitting at the first separator: what \<open>strings.Split\<close> and Lua's \<open>string.find\<close> do.\<close>

fun split_at :: "char \<Rightarrow> string \<Rightarrow> string \<times> string option" where
  "split_at c [] = ([], None)"
| "split_at c (x # xs) =
     (if x = c then ([], Some xs)
      else (case split_at c xs of (a, b) \<Rightarrow> (x # a, b)))"

fun strings_Split :: "char \<Rightarrow> string \<Rightarrow> string list" where
  "strings_Split c [] = [[]]"
| "strings_Split c (x # xs) =
     (if x = c then [] # strings_Split c xs
      else (case strings_Split c xs of [] \<Rightarrow> [[x]] | p # ps \<Rightarrow> (x # p) # ps))"

lemma split_at_append [simp]: "c \<notin> set xs \<Longrightarrow> split_at c (xs @ c # ys) = (xs, Some ys)"
  by (induction xs) auto

lemma split_at_none [simp]: "c \<notin> set xs \<Longrightarrow> split_at c xs = (xs, None)"
  by (induction xs) auto

lemma strings_Split_nosep [simp]: "c \<notin> set xs \<Longrightarrow> strings_Split c xs = [xs]"
  by (induction xs) auto

lemma strings_Split_append [simp]:
  "c \<notin> set xs \<Longrightarrow> strings_Split c (xs @ c # ys) = xs # strings_Split c ys"
  by (induction xs) auto

lemma append_colon_inject:
  fixes c :: char
  shows "c \<notin> set xs \<Longrightarrow> c \<notin> set xs' \<Longrightarrow> xs @ c # ys = xs' @ c # ys' \<longleftrightarrow> xs = xs' \<and> ys = ys'"
proof -
  assume a: "c \<notin> set xs" "c \<notin> set xs'"
  show "xs @ c # ys = xs' @ c # ys' \<longleftrightarrow> xs = xs' \<and> ys = ys'" (is "?l = ?r")
  proof
    assume ?l
    then have "split_at c (xs @ c # ys) = split_at c (xs' @ c # ys')" by (simp only:)
    then show ?r by (simp only: split_at_append [OF a(1)] split_at_append [OF a(2)]) simp
  qed simp
qed

definition HasPrefix :: "string \<Rightarrow> string \<Rightarrow> bool" where
  "HasPrefix s p \<longleftrightarrow> take (length p) s = p"

lemma HasPrefix_append [simp]: "HasPrefix (p @ s) p"
  by (simp add: HasPrefix_def)

section \<open>Go's integer division\<close>

definition go_div :: "int \<Rightarrow> int \<Rightarrow> int" where
  "go_div a b = sgn a * sgn b * (\<bar>a\<bar> div \<bar>b\<bar>)"

definition go_mod :: "int \<Rightarrow> int \<Rightarrow> int" where
  "go_mod a b = a - b * go_div a b"

lemma go_div_nonneg: "0 \<le> a \<Longrightarrow> 0 < b \<Longrightarrow> go_div a b = a div b"
  by (cases "a = 0") (simp_all add: go_div_def)

lemma go_mod_nonneg: "0 \<le> a \<Longrightarrow> 0 < b \<Longrightarrow> go_mod a b = a mod b"
  by (simp add: go_mod_def go_div_nonneg minus_mult_div_eq_mod)

lemma go_div_mod_inject:
  "b \<noteq> 0 \<Longrightarrow> go_div a b = go_div a' b \<Longrightarrow> go_mod a b = go_mod a' b \<Longrightarrow> a = a'"
  by (simp add: go_mod_def)

text \<open>Rounding up: \<open>(x + d - 1) / d\<close>.\<close>

lemma div_round_up:
  fixes x d :: int
  assumes "0 < d" "0 < x"
  shows "x \<le> d * ((d - 1 + x) div d)" "d * ((d - 1 + x) div d - 1) < x" "0 < (d - 1 + x) div d"
proof -
  have m: "d * ((d - 1 + x) div d) + (d - 1 + x) mod d = d - 1 + x"
    by (simp only: mult_div_mod_eq)
  have b: "(d - 1 + x) mod d < d" "0 \<le> (d - 1 + x) mod d"
    using assms(1) by (simp_all only: pos_mod_bound pos_mod_sign)
  show "x \<le> d * ((d - 1 + x) div d)" using m b by linarith
  show "d * ((d - 1 + x) div d - 1) < x" using m b unfolding right_diff_distrib mult_1_right by linarith
  show "0 < (d - 1 + x) div d" using assms by (simp add: pos_imp_zdiv_pos_iff)
qed

section \<open>Rows of a table\<close>

text \<open>\<open>SELECT ... ORDER BY key LIMIT 1\<close>, gorm's \<open>First\<close>.\<close>

definition first_by :: "('a \<Rightarrow> 'k :: linorder) \<Rightarrow> ('a \<Rightarrow> bool) \<Rightarrow> 'a list \<Rightarrow> 'a option" where
  "first_by key P xs = (case sort_key key (filter P xs) of [] \<Rightarrow> None | x # _ \<Rightarrow> Some x)"

lemma first_by_Some: "first_by key P xs = Some x \<Longrightarrow> x \<in> set xs \<and> P x"
  unfolding first_by_def
  by (metis (no_types, lifting) list.case_eq_if list.set_sel(1) mem_Collect_eq option.distinct(1)
      option.inject set_filter set_sort)

lemma first_by_None: "first_by key P xs = None \<longleftrightarrow> (\<forall>x \<in> set xs. \<not> P x)"
proof -
  have "first_by key P xs = None \<longleftrightarrow> sort_key key (filter P xs) = []"
    by (auto simp: first_by_def split: list.splits)
  also have "\<dots> \<longleftrightarrow> filter P xs = []"
    by (metis set_empty set_sort)
  finally show ?thesis by (simp add: filter_empty_conv)
qed

text \<open>\<open>UPDATE ... SET f WHERE P\<close>.\<close>

definition update_where :: "('a \<Rightarrow> bool) \<Rightarrow> ('a \<Rightarrow> 'a) \<Rightarrow> 'a list \<Rightarrow> 'a list" where
  "update_where P f xs = map (\<lambda>x. if P x then f x else x) xs"

lemma update_where_simps [simp]:
  "update_where P f [] = []"
  "update_where P f (x # xs) = (if P x then f x else x) # update_where P f xs"
  by (simp_all add: update_where_def)

lemma length_update_where [simp]: "length (update_where P f xs) = length xs"
  by (simp add: update_where_def)

lemma map_update_where: "(\<And>x. P x \<Longrightarrow> g (f x) = g x) \<Longrightarrow> map g (update_where P f xs) = map g xs"
  by (auto simp: update_where_def)

lemma set_update_where: "set (update_where P f xs) = (\<lambda>x. if P x then f x else x) ` set xs"
  by (simp add: update_where_def)

lemma update_where_none: "(\<And>x. x \<in> set xs \<Longrightarrow> \<not> P x) \<Longrightarrow> update_where P f xs = xs"
  by (auto simp: update_where_def intro: map_idI)

lemma filter_map_commute:
  "(\<And>x. P (f x) = P x) \<Longrightarrow> filter P (map f xs) = map f (filter P xs)"
  by (induction xs) auto

end
