(* ===== verification/PMTypes.thy ===== *)
theory PMTypes
  imports Prelude
begin

text \<open>
  The data of the modelled services: the rows of their Postgres tables
  (\<open>rpc/pm/dal/db.go\<close>, \<open>rpc/pm/dal/relations.go\<close>, \<open>rpc/auth/dal/db.go\<close>), the response messages they build, the errors
  their functions return, and the values they store in Redis. Go's \<open>int64\<close>, \<open>int32\<close> and
  \<open>int16\<close> identifiers and counters are \<open>int\<close>: the code compares and copies them and does no
  arithmetic on them that could overflow, except where a theory says so. A pointer that may
  be nil is an \<open>option\<close>.
\<close>

section \<open>Errors\<close>

text \<open>
  The sentinel errors the code compares with \<open>errors.Is\<close> are constructors of their own; every
  other error of the code is its text. Errors of the two stores are constructors too: a
  command that failed in transit, a constraint that refused a row, the empty result of
  gorm's \<open>First\<close> and of Redis' \<open>GET\<close>.
\<close>

datatype err =
    RecordNotFound
  | RedisNil
  | WrongType
  | NilClient
  | DriverErr string
  | UniqueViolation string
  | ForeignKeyViolation string
  | NotNullViolation string
  | CheckViolation string
  | TxAborted
  | ErrText string
  | ErrNotFriends
  | ErrNotBlocked
  | ErrAlreadyBlocked
  | ErrFriendRequestAlreadyPending
  | ErrFriendRequestNotPending
  | ErrFriendRequestBlocked
  | ErrItemNotAvailable
  | ErrInProgress

fun err_text :: "err \<Rightarrow> string" where
  "err_text RecordNotFound = ''record not found''"
| "err_text RedisNil = ''redis: nil''"
| "err_text WrongType = ''WRONGTYPE Operation against a key holding the wrong kind of value''"
| "err_text NilClient = ''cache unavailable''"
| "err_text (DriverErr s) = s"
| "err_text (UniqueViolation c) = ''duplicate key value violates unique constraint '' @ c"
| "err_text (ForeignKeyViolation c) = ''insert violates foreign key constraint '' @ c"
| "err_text (NotNullViolation c) = ''null value violates not-null constraint '' @ c"
| "err_text (CheckViolation c) = ''new row violates check constraint '' @ c"
| "err_text TxAborted = ''commit unexpectedly resulted in rollback''"
| "err_text (ErrText s) = s"
| "err_text ErrNotFriends = ''not friends''"
| "err_text ErrNotBlocked = ''not blocked''"
| "err_text ErrAlreadyBlocked = ''already blocked''"
| "err_text ErrFriendRequestAlreadyPending = ''friend request already pending''"
| "err_text ErrFriendRequestNotPending = ''request is no longer pending''"
| "err_text ErrFriendRequestBlocked = ''request cannot be accepted while either side is blocked''"
| "err_text ErrItemNotAvailable =
     ''ITEM_NOT_AVAILABLE: this broadcast is deleted or not distributed and cannot open a conversation''"
| "err_text ErrInProgress =
     ''MESSAGE_SEND_IN_PROGRESS: an identical message is already being sent; wait before retrying''"

type_synonym 'a res = "err + 'a"

section \<open>Rows\<close>

record Conversation =
  cConvID :: int
  cParticipantA :: int
  cParticipantB :: int
  cInitiatorID :: int
  cLastSenderID :: int
  cOriginType :: string
  cOriginID :: int
  cMsgCount :: int
  cStatus :: int
  cTopicStatus :: int
  cUpdatedAt :: int
  cParticipantAName :: string
  cParticipantBName :: string

record PrivateMessage =
  mMsgID :: int
  mConvID :: int
  mSenderID :: int
  mReceiverID :: int
  mContent :: string
  mIsRead :: bool
  mCreatedAt :: int
  mSenderName :: string
  mReceiverName :: string

record ConversationTopicEvent =
  evEventID :: int
  evConvID :: int
  evActorID :: int
  evPreviousStatus :: int
  evNewStatus :: int
  evCreatedAt :: int

record UserRelation =
  rID :: int
  rFromUID :: int
  rToUID :: int
  rRelType :: int
  rCreatedAt :: int
  rRemark :: string

record FriendRequest =
  fID :: int
  fFromUID :: int
  fToUID :: int
  fStatus :: int
  fGreeting :: string
  fRemark :: string
  fCreatedAt :: int
  fUpdatedAt :: int

record Friend =
  frRelationID :: int
  frAgentID :: int
  frAgentName :: string
  frBio :: string
  frFriendSince :: int
  frRemark :: string

record AgentProfile =
  apAgentName :: string
  apBio :: string

text \<open>
  The columns of \<open>agents\<close>, \<open>raw_items\<close> and \<open>processed_items\<close> that the modelled services read.
  Other services write these tables; here they are part of the state and change only by the
  login service, which notes when an address was verified. \<open>aActive\<close> is \<open>identity_state = 'active'\<close>.
\<close>

record AgentRow =
  aAgentID :: int
  aShortID :: string
  aEmail :: string
  aEmailKind :: string
  aAgentName :: string
  aAgentNameEn :: string
  aBio :: string
  aEmailVerifiedAt :: "int option"
  aProfileCompletedAt :: "int option"
  aIsOfficial :: bool
  aActive :: bool

record ItemRow =
  iItemID :: int
  iAuthorAgentID :: int

record ProcessedRow =
  pItemID :: int
  pStatus :: int
  pExpectedResponse :: "string option"
  pSummary :: "string option"

text \<open>The rows of the login service (\<open>rpc/auth/dal\<close>).\<close>

record AuthEmailChallenge =
  chChallengeID :: string
  chLoginMethod :: string
  chEmail :: "string option"
  chCodeHash :: string
  chStatus :: int
  chAttemptCount :: int
  chMaxAttempts :: int
  chExpireAt :: int
  chCreatedAt :: int
  chConsumedAt :: "int option"
  chClientIP :: "string option"
  chUserAgent :: "string option"

record AgentSession =
  ssSessionID :: int
  ssAgentID :: int
  ssTokenHash :: string
  ssStatus :: int
  ssExpireAt :: int
  ssCreatedAt :: int
  ssLastSeenAt :: int
  ssClientIP :: "string option"
  ssUserAgent :: "string option"

text \<open>
  The tables that the query for the newer kind of session joins with \<open>agents\<close>: the columns it
  names. The services that write them are not modelled.
\<close>

record CredentialSession =
  csAccessTokenHash :: string
  csPrincipalID :: int
  csAudience :: string
  csRevokedAt :: "int option"
  csExpiresAt :: int
  csAccessRefreshRequired :: bool
  csScopes :: "string list"

record AgentPrincipal =
  prPrincipalID :: int
  prAgentID :: int
  prStatus :: string
  prRevokedAt :: "int option"

record AgentOnboarding =
  obAgentID :: int
  obState :: string

text \<open>
  The rows of the notification service (\<open>rpc/notification/dal\<close>) and of the milestones
  (\<open>pkg/milestone/dal\<close>), and the columns of \<open>item_stats\<close> the milestones read.
\<close>

record InboxNotification =
  ibNotificationID :: int
  ibAgentID :: int
  ibSourceType :: string
  ibSourceID :: int
  ibDedupeKey :: string
  ibEventKind :: string
  ibOrderID :: int
  ibOrderVersion :: int
  ibPayloadJSON :: string
  ibOccurredAt :: int
  ibReceivedAt :: int
  ibExpiresAt :: int
  ibAcknowledgedAt :: "int option"
  ibLastDeliveryError :: string

record NotificationDelivery =
  ndDeliveryID :: int
  ndSourceType :: string
  ndSourceID :: int
  ndAgentID :: int
  ndDeliveredAt :: int

record SystemNotification =
  snNotificationID :: int
  snType :: string
  snContent :: string
  snStatus :: int
  snAudienceType :: string
  snAudienceExpression :: string
  snStartAt :: int
  snEndAt :: int
  snOfflineAt :: int
  snCreatedAt :: int
  snUpdatedAt :: int

record MilestoneRule =
  mrRuleID :: int
  mrMetricKey :: string
  mrThreshold :: int
  mrRuleEnabled :: bool
  mrContentTemplate :: string
  mrCreatedAt :: int
  mrUpdatedAt :: int

record MilestoneEvent =
  meEventID :: int
  meItemID :: int
  meAuthorAgentID :: int
  meRuleID :: int
  meMetricKey :: string
  meThreshold :: int
  meCounterValue :: int
  meNotificationContent :: string
  meNotificationStatus :: int
  meQueuedAt :: int
  meNotifiedAt :: int
  meTriggeredAt :: int

record ItemStats =
  isItemID :: int
  isAuthorAgentID :: int
  isConsumedCount :: int
  isScoreNeg1Count :: int
  isScore0Count :: int
  isScore1Count :: int
  isScore2Count :: int
  isTotalScore :: int
  isCreatedAt :: int
  isUpdatedAt :: int

text \<open>The feedback log (\<open>pipeline/consumer/feedback_log_dal.go\<close>), without its serial number, which nothing reads.\<close>

record FeedbackLog =
  flStreamMessageID :: nat
  flClientKey :: string
  flSurfaced :: "bool option"
  flImpressionSource :: string
  flContractVersion :: string
  flImpressionID :: string
  flAgentID :: int
  flItemID :: int
  flScore :: int
  flFeedbackAt :: int
  flCreatedAt :: int

record database =
  conversations :: "Conversation list"
  private_messages :: "PrivateMessage list"
  topic_events :: "ConversationTopicEvent list"
  user_relations :: "UserRelation list"
  friend_requests :: "FriendRequest list"
  agents :: "AgentRow list"
  raw_items :: "ItemRow list"
  processed_items :: "ProcessedRow list"
  auth_email_challenges :: "AuthEmailChallenge list"
  agent_sessions :: "AgentSession list"
  agent_credential_sessions :: "CredentialSession list"
  agent_principals :: "AgentPrincipal list"
  agent_onboarding_v2 :: "AgentOnboarding list"
  notification_inbox :: "InboxNotification list"
  notification_deliveries :: "NotificationDelivery list"
  system_notifications :: "SystemNotification list"
  milestone_rules :: "MilestoneRule list"
  milestone_events :: "MilestoneEvent list"
  item_stats :: "ItemStats list"
  feedback_logs :: "FeedbackLog list"
  rel_seq :: int
  event_seq :: int
  session_seq :: int
  delivery_seq :: int

section \<open>Messages of the service and cached values\<close>

record BaseResp =
  Code :: int
  Msg :: string

abbreviation base_resp :: "int \<Rightarrow> string \<Rightarrow> BaseResp" where
  "base_resp c m \<equiv> \<lparr>Code = c, Msg = m\<rparr>"

abbreviation success :: BaseResp where
  "success \<equiv> base_resp 0 ''success''"

record PMMessage =
  pmMsgId :: int
  pmConvId :: int
  pmSenderId :: int
  pmReceiverId :: int
  pmContent :: string
  pmIsRead :: bool
  pmCreatedAt :: int
  pmSenderName :: string
  pmReceiverName :: string
  pmSenderIsOfficial :: bool

record FetchPMResp =
  fpMessages :: "PMMessage list"
  fpNextCursor :: int
  fpBaseResp :: BaseResp

record ConvInfo =
  ciParticipantA :: int
  ciParticipantB :: int
  ciStatus :: int
  ciOriginType :: string

record PMNotification =
  nNotificationID :: string
  nType :: string
  nContent :: string
  nCreatedAt :: int
  nFriendUID :: int
  nPeerShortID :: string
  nPeerDisplayName :: string

record MilestoneNotification =
  mnNotificationID :: string
  mnType :: string
  mnContent :: string
  mnCreatedAt :: int

record activePayload =
  acNotificationID :: int
  acType :: string
  acContent :: string
  acStatus :: int
  acAudienceType :: string
  acStartAt :: int
  acEndAt :: int
  acOfflineAt :: int
  acCreatedAt :: int
  acAudienceExpression :: string

text \<open>Search (\<open>idl/record_search.thrift\<close>).\<close>

record SearchReq =
  sqOwnerAgentId :: int
  sqQuery :: string
  sqCursor :: int
  sqLimit :: int
  sqStatus :: string

record SearchRecord =
  hitId :: int
  hitTitle :: string
  hitPreview :: string
  hitStatus :: string
  hitUpdatedAt :: int
  hitConversationId :: "int option"
  hitPeerId :: "int option"
  hitShortId :: "string option"

record SearchResp =
  spItems :: "SearchRecord list"
  spNextCursor :: int
  spHasMore :: bool
  spBaseResp :: BaseResp

record VerifyLoginResp =
  vrAgentId :: int
  vrAccessToken :: string
  vrExpiresAt :: int
  vrIsNewAgent :: bool
  vrNeedsProfileCompletion :: bool
  vrProfileCompletedAt :: "int option"
  vrBaseResp :: BaseResp

text \<open>
  A string value in Redis. \<open>Bytes\<close> is text the code formats itself; \<open>Num n\<close> is the decimal
  rendering of \<open>n\<close>, which is both what \<open>INCR\<close> keeps and what \<open>json.Marshal\<close> makes of an
  \<open>int64\<close>; the other constructors stand for the JSON document of a Go value, which the code
  only writes with \<open>json.Marshal\<close> and reads back with \<open>json.Unmarshal\<close>.
\<close>

datatype payload =
    Bytes string
  | Num int
  | JConvInfo ConvInfo
  | JFetchPM FetchPMResp
  | JNotif PMNotification
  | JVerifyLogin VerifyLoginResp
  | JMilestone MilestoneNotification
  | JActive activePayload
  | JSearch SearchResp

text \<open>\<open>json.Unmarshal(data, &v)\<close> for \<open>v int64\<close>: JSON \<open>null\<close> is accepted and leaves 0.\<close>

fun json_int64 :: "payload \<Rightarrow> int option" where
  "json_int64 (Num n) = Some n"
| "json_int64 (Bytes s) = (if s = ''null'' then Some 0 else ParseInt64 s)"
| "json_int64 _ = None"

fun json_ConvInfo :: "payload \<Rightarrow> ConvInfo option" where
  "json_ConvInfo (JConvInfo i) = Some i"
| "json_ConvInfo _ = None"

fun json_VerifyLoginResp :: "payload \<Rightarrow> VerifyLoginResp option" where
  "json_VerifyLoginResp (JVerifyLogin r) = Some r"
| "json_VerifyLoginResp _ = None"

fun json_PMNotification :: "payload \<Rightarrow> PMNotification option" where
  "json_PMNotification (JNotif n) = Some n"
| "json_PMNotification _ = None"

fun json_MilestoneNotification :: "payload \<Rightarrow> MilestoneNotification option" where
  "json_MilestoneNotification (JMilestone n) = Some n"
| "json_MilestoneNotification _ = None"

fun json_activePayload :: "payload \<Rightarrow> activePayload option" where
  "json_activePayload (JActive p) = Some p"
| "json_activePayload _ = None"

fun json_SearchResp :: "payload \<Rightarrow> SearchResp option" where
  "json_SearchResp (JSearch r) = Some r"
| "json_SearchResp _ = None"

fun json_FetchPMResp :: "payload \<Rightarrow> FetchPMResp option" where
  "json_FetchPMResp (JFetchPM r) = Some r"
| "json_FetchPMResp _ = None"

end
