(* ===== verification/Store.thy ===== *)
theory Store
  imports PMTypes
begin

text \<open>
  The state every request handler works on, and the primitive operations on it.

  \<^item> \<open>world\<close> holds the Postgres tables, the Redis keyspace, the clock, the ID generators and
    the random source of the process, the goroutines started and not yet run, and what was
    published.
  \<^item> Every command to a store first takes one entry of \<open>w_env\<close>: how much time passes and
    whether the command works (\<open>Fine\<close>), is lost before it has an effect (\<open>Lost\<close>) or has its
    effect while the reply is lost (\<open>Unacked\<close>). A theorem about all worlds is a theorem about
    all timings and all patterns of failure; an empty \<open>w_env\<close> is a world where time stands still
    and every command works.
  \<^item> The Redis commands are the fragment of Redis the code uses, with expiry. A key is a
    constructor with the numbers or the text its format takes; \<open>render_key\<close> is the wire key, and
    different constructors never collide on the wire, which is shown below.
  \<^item> \<open>transaction\<close> is gorm's \<open>DB.Transaction\<close> over Postgres: an error of the body, an error of any
    statement inside it, or a failed commit restores the tables (sequences keep their value,
    as in Postgres). Its end releases the advisory locks taken inside it.
  \<^item> The wrappers of \<open>pkg/cache/redis.go\<close> and \<open>pkg/cache/sets.go\<close>.
\<close>

section \<open>Keys\<close>

datatype search_scope = ScopeMessages | ScopeFriends

fun scope_name :: "search_scope \<Rightarrow> string" where
  "scope_name ScopeMessages = ''pm-message''"
| "scope_name ScopeFriends = ''pm-friend''"

datatype rkey =
    PMItemOwner int
  | PMItemResponse int
  | PMConversation int
  | PMConversationMap int int int
  | PMFetch int
  | Friends int
  | Blocks int
  | FriendCount int
  | IceBucket int
  | IceLock int
  | SendDedupe string
  | SendRequest string
  | FriendRequestRate int
  | PMNotify int
  | AuthVerify string
  | AuthSession string
  | LoginActive string
  | LoginStartIP string
  | LoginVerifyIP string
  | MilestoneNotify int
  | SystemActive
  | SearchRate search_scope int
  | SearchFills search_scope int
  | SearchResult search_scope int string
  | HighQualityCount

fun render_key :: "rkey \<Rightarrow> string" where
  "render_key (PMItemOwner i) = ''pm:itemowner:'' @ itoa i"
| "render_key (PMItemResponse i) = ''pm:itemresp:'' @ itoa i"
| "render_key (PMConversation i) = ''pm:conv:'' @ itoa i"
| "render_key (PMConversationMap a b i) =
     ''pm:convmap:'' @ itoa a @ '':'' @ itoa b @ '':'' @ itoa i"
| "render_key (PMFetch i) = ''pm:fetch:'' @ itoa i"
| "render_key (Friends i) = ''friend:'' @ itoa i"
| "render_key (Blocks i) = ''block:'' @ itoa i"
| "render_key (FriendCount i) = ''friend_count:'' @ itoa i"
| "render_key (IceBucket i) = ''pm:ice:h:'' @ itoa i"
| "render_key (IceLock i) = ''pm:lock:'' @ itoa i"
| "render_key (SendDedupe h) = ''pm:send:dedupe:v1:'' @ h"
| "render_key (SendRequest h) = ''pm:send:request:v1:'' @ h"
| "render_key (FriendRequestRate i) = ''ratelimit:friend_request:'' @ itoa i"
| "render_key (PMNotify i) = ''pm:notify:'' @ itoa i"
| "render_key (AuthVerify c) = ''auth:verify:result:'' @ c"
| "render_key (AuthSession h) = ''auth:session:'' @ h"
| "render_key (LoginActive h) = ''auth:login:email:active:'' @ h"
| "render_key (LoginStartIP ip) = ''auth:login:start:email:ip:'' @ ip"
| "render_key (LoginVerifyIP ip) = ''auth:login:verify:email:ip:'' @ ip"
| "render_key (MilestoneNotify i) = ''milestone:notify:'' @ itoa i"
| "render_key SystemActive = ''notify:system:active''"
| "render_key (SearchRate s i) = ''search:rate:v1:'' @ scope_name s @ '':'' @ itoa i"
| "render_key (SearchFills s i) = ''search:rate:v1:'' @ (scope_name s @ ''-fills'') @ '':'' @ itoa i"
| "render_key (SearchResult s i h) = ''search:cache:v1:'' @ scope_name s @ '':'' @ itoa i @ '':'' @ h"
| "render_key HighQualityCount = ''stats:high_quality_count''"

section \<open>The state\<close>

datatype rval =
    RStr payload
  | RSet "int list"
  | RHash "(string \<times> payload) list"

type_synonym redis = "rkey \<Rightarrow> (rval \<times> int option) option"

datatype outcome = Fine | Lost string | Unacked string

text \<open>What a \<open>go\<close> statement starts: the handlers never wait for these.\<close>

datatype task =
    TFriendRequestNotification int int int string string string
  | TFriendResponseNotification int int int string string string string
  | TDeletePending "(int \<times> int) list"
  | TActivity int string string string
  | TIncrHighQuality

text \<open>What is published on the channel \<open>pm:push:<agent>\<close>, and the wake-up on \<open>notification:push:<agent>\<close> with the source,
  the notification and its sequence.\<close>

datatype push_payload =
    PushText string
  | PushFriendResponse string string string string
  | PushWake string string string

text \<open>
  A Redis stream read by one consumer group. The identifiers of entries, which Redis makes from its clock, are
  numbers in the order of insertion. Entries up to \<open>b_trimmed\<close> have been evicted; \<open>b_entries\<close> and
  \<open>b_dead\<close> are everything ever added to the stream and to the dead-letter stream. \<open>b_pel\<close> holds the entries delivered
  and not acknowledged, \<open>b_seen\<close> the sorted set of markers
  with its expiry.
\<close>

record XMessage =
  xID :: nat
  xValues :: "(string \<times> string) list"

record XPendingExt =
  xpID :: nat
  xpConsumer :: string
  xpDelivered :: int
  xpRetryCount :: int

record DeadLetter =
  dlOriginalID :: nat
  dlRetryCount :: int
  dlPayload :: string
  dlTruncated :: bool
  dlFailedAt :: int

record broker =
  b_entries :: "XMessage list"
  b_trimmed :: nat
  b_group :: bool
  b_last :: nat
  b_pel :: "XPendingExt list"
  b_dead :: "DeadLetter list"
  b_seen :: "(nat \<times> int) list"
  b_seen_until :: int

record world =
  w_db :: database
  w_redis :: redis
  w_now :: int
  w_env :: "(nat \<times> outcome) list"
  w_in_tx :: bool
  w_tx_failed :: bool
  w_locks :: "int list"
  w_rdb_nil :: bool
  w_conv_ids :: "int res list"
  w_msg_ids :: "int res list"
  w_req_ids :: "int res list"
  w_tokens :: "string res list"
  w_uuids :: "nat \<Rightarrow> string"
  w_uuid_next :: nat
  w_otps :: "int res list"
  w_mails :: "(string \<times> string) list"
  w_tasks :: "task list"
  w_pushes :: "(int \<times> push_payload) list"
  w_streams :: "(string \<times> (string \<times> string) list) list"
  w_event_ids :: "int res list"
  w_rule_cache :: "(string \<times> (MilestoneRule list \<times> int)) list"
  w_mq :: broker

type_synonym 'a io = "(world, 'a) state"

text \<open>Time stands still and nothing fails; no transaction is open and the client is there.\<close>

definition quiet :: "world \<Rightarrow> bool" where
  "quiet w \<longleftrightarrow> w_env w = [] \<and> \<not> w_rdb_nil w \<and> \<not> w_in_tx w \<and> \<not> w_tx_failed w"

definition empty_db :: database where
  "empty_db = \<lparr>conversations = [], private_messages = [], topic_events = [], user_relations = [],
     friend_requests = [], agents = [], raw_items = [], processed_items = [],
     auth_email_challenges = [], agent_sessions = [], agent_credential_sessions = [], agent_principals = [],
     agent_onboarding_v2 = [], notification_inbox = [], notification_deliveries = [], system_notifications = [],
     milestone_rules = [], milestone_events = [], item_stats = [], feedback_logs = [],
     rel_seq = 1, event_seq = 1, session_seq = 1, delivery_seq = 1\<rparr>"

definition empty_world :: world where
  "empty_world = \<lparr>w_db = empty_db, w_redis = Map.empty, w_now = 0, w_env = [], w_in_tx = False,
     w_tx_failed = False, w_locks = [], w_rdb_nil = False, w_conv_ids = [], w_msg_ids = [],
     w_req_ids = [], w_tokens = [], w_uuids = nat_dec, w_uuid_next = 0, w_otps = [], w_mails = [], w_tasks = [], w_pushes = [], w_streams = [],
     w_event_ids = [], w_rule_cache = [],
     w_mq = \<lparr>b_entries = [], b_trimmed = 0, b_group = False, b_last = 0, b_pel = [], b_dead = [], b_seen = [], b_seen_until = 0\<rparr>\<rparr>"

section \<open>Redis commands\<close>

type_synonym 'a rcmd = "int \<Rightarrow> redis \<Rightarrow> 'a res \<times> redis"

text \<open>The value of a key at time \<open>t\<close>: an expired key is absent.\<close>

definition live :: "int \<Rightarrow> redis \<Rightarrow> rkey \<Rightarrow> rval option" where
  "live t rs k = (case rs k of None \<Rightarrow> None
     | Some (v, None) \<Rightarrow> Some v
     | Some (v, Some e) \<Rightarrow> if t < e then Some v else None)"

definition expiry :: "int \<Rightarrow> redis \<Rightarrow> rkey \<Rightarrow> int option" where
  "expiry t rs k = (case rs k of None \<Rightarrow> None | Some (v, e) \<Rightarrow> if live t rs k = None then None else e)"

definition GET :: "rkey \<Rightarrow> payload rcmd" where
  "GET k t rs = (case live t rs k of None \<Rightarrow> (Inl RedisNil, rs)
     | Some (RStr p) \<Rightarrow> (Inr p, rs) | Some _ \<Rightarrow> (Inl WrongType, rs))"

text \<open>\<open>SET key value\<close> with a lifetime in milliseconds; 0 means none.\<close>

definition SET :: "rkey \<Rightarrow> payload \<Rightarrow> int \<Rightarrow> unit rcmd" where
  "SET k p ttl t rs = (Inr (), rs(k \<mapsto> (RStr p, if 0 < ttl then Some (t + ttl) else None)))"

definition SETNX :: "rkey \<Rightarrow> payload \<Rightarrow> int \<Rightarrow> bool rcmd" where
  "SETNX k p ttl t rs = (case live t rs k of
       None \<Rightarrow> (Inr True, rs(k \<mapsto> (RStr p, if 0 < ttl then Some (t + ttl) else None)))
     | Some _ \<Rightarrow> (Inr False, rs))"

fun DEL :: "rkey list \<Rightarrow> unit rcmd" where
  "DEL [] t rs = (Inr (), rs)"
| "DEL (k # ks) t rs = DEL ks t (rs(k := None))"

definition EXISTS :: "rkey \<Rightarrow> bool rcmd" where
  "EXISTS k t rs = (Inr (live t rs k \<noteq> None), rs)"

definition EXPIRE :: "rkey \<Rightarrow> int \<Rightarrow> bool rcmd" where
  "EXPIRE k ttl t rs = (case live t rs k of None \<Rightarrow> (Inr False, rs)
     | Some v \<Rightarrow> (Inr True, rs(k \<mapsto> (v, Some (t + ttl)))))"

text \<open>\<open>PTTL\<close>: -2 without the key, -1 without an expiry.\<close>

definition PTTL :: "rkey \<Rightarrow> int rcmd" where
  "PTTL k t rs = (case live t rs k of None \<Rightarrow> (Inr (-2), rs)
     | Some _ \<Rightarrow> (case expiry t rs k of None \<Rightarrow> (Inr (-1), rs) | Some e \<Rightarrow> (Inr (e - t), rs)))"

definition INCR :: "rkey \<Rightarrow> int rcmd" where
  "INCR k t rs = (case live t rs k of
       None \<Rightarrow> (Inr 1, rs(k \<mapsto> (RStr (Num 1), None)))
     | Some (RStr (Num n)) \<Rightarrow> (Inr (n + 1), rs(k \<mapsto> (RStr (Num (n + 1)), expiry t rs k)))
     | Some _ \<Rightarrow> (Inl WrongType, rs))"

definition SADD :: "rkey \<Rightarrow> int list \<Rightarrow> unit rcmd" where
  "SADD k xs t rs = (case live t rs k of
       None \<Rightarrow> (Inr (), rs(k \<mapsto> (RSet (remdups xs), None)))
     | Some (RSet ys) \<Rightarrow> (Inr (), rs(k \<mapsto> (RSet (remdups (xs @ ys)), expiry t rs k)))
     | Some _ \<Rightarrow> (Inl WrongType, rs))"

text \<open>A set that becomes empty is removed.\<close>

definition SREM :: "rkey \<Rightarrow> int \<Rightarrow> unit rcmd" where
  "SREM k x t rs = (case live t rs k of
       None \<Rightarrow> (Inr (), rs)
     | Some (RSet ys) \<Rightarrow>
         (let zs = removeAll x ys
          in (Inr (), if zs = [] then rs(k := None) else rs(k \<mapsto> (RSet zs, expiry t rs k))))
     | Some _ \<Rightarrow> (Inl WrongType, rs))"

definition SISMEMBER :: "rkey \<Rightarrow> int \<Rightarrow> bool rcmd" where
  "SISMEMBER k x t rs = (case live t rs k of None \<Rightarrow> (Inr False, rs)
     | Some (RSet ys) \<Rightarrow> (Inr (x \<in> List.set ys), rs) | Some _ \<Rightarrow> (Inl WrongType, rs))"

definition HGET :: "rkey \<Rightarrow> string \<Rightarrow> payload option rcmd" where
  "HGET k f t rs = (case live t rs k of None \<Rightarrow> (Inr None, rs)
     | Some (RHash h) \<Rightarrow> (Inr (map_of h f), rs) | Some _ \<Rightarrow> (Inl WrongType, rs))"

definition HSET :: "rkey \<Rightarrow> string \<Rightarrow> payload \<Rightarrow> unit rcmd" where
  "HSET k f p t rs = (case live t rs k of
       None \<Rightarrow> (Inr (), rs(k \<mapsto> (RHash [(f, p)], None)))
     | Some (RHash h) \<Rightarrow> (Inr (), rs(k \<mapsto> (RHash (AList.update f p h), expiry t rs k)))
     | Some _ \<Rightarrow> (Inl WrongType, rs))"

definition HDEL :: "rkey \<Rightarrow> string list \<Rightarrow> unit rcmd" where
  "HDEL k fs t rs = (case live t rs k of
       None \<Rightarrow> (Inr (), rs)
     | Some (RHash h) \<Rightarrow>
         (let h' = filter (\<lambda>e. fst e \<notin> List.set fs) h
          in (Inr (), if h' = [] then rs(k := None) else rs(k \<mapsto> (RHash h', expiry t rs k))))
     | Some _ \<Rightarrow> (Inl WrongType, rs))"

definition HVALS :: "rkey \<Rightarrow> payload list rcmd" where
  "HVALS k t rs = (case live t rs k of None \<Rightarrow> (Inr [], rs)
     | Some (RHash h) \<Rightarrow> (Inr (map snd h), rs) | Some _ \<Rightarrow> (Inl WrongType, rs))"

text \<open>A \<open>MULTI\<close>/\<open>EXEC\<close> pipeline: the commands in order, as one step.\<close>

definition seq_cmd :: "'a rcmd \<Rightarrow> 'b rcmd \<Rightarrow> 'b rcmd" where
  "seq_cmd c d t rs = (case c t rs of (_, rs') \<Rightarrow> d t rs')"

section \<open>Commands, statements and transactions as effects\<close>

definition io_step :: "outcome io" where
  "io_step = State (\<lambda>w. case w_env w of [] \<Rightarrow> (Fine, w)
     | (d, oc) # rest \<Rightarrow> (oc, w\<lparr>w_env := rest, w_now := w_now w + int d\<rparr>))"

definition now_ms :: "int io" where
  "now_ms = gets w_now"

definition redis_cmd :: "'a rcmd \<Rightarrow> 'a res io" where
  "redis_cmd c = do {
     oc \<leftarrow> io_step;
     w \<leftarrow> get_st;
     if w_rdb_nil w then ret (Inl NilClient)
     else (case c (w_now w) (w_redis w) of (r, rs) \<Rightarrow>
       (case oc of
          Fine \<Rightarrow> do { _ \<leftarrow> put_st (w\<lparr>w_redis := rs\<rparr>); ret r }
        | Lost e \<Rightarrow> ret (Inl (DriverErr e))
        | Unacked e \<Rightarrow> do { _ \<leftarrow> put_st (w\<lparr>w_redis := rs\<rparr>); ret (Inl (DriverErr e)) })) }"

text \<open>
  One SQL statement. A statement that fails inside a transaction leaves the transaction
  aborted: Postgres refuses every later statement of it.
\<close>

definition db_stmt :: "(database \<Rightarrow> 'a res \<times> database) \<Rightarrow> 'a res io" where
  "db_stmt f = do {
     oc \<leftarrow> io_step;
     w \<leftarrow> get_st;
     if w_tx_failed w then ret (Inl TxAborted)
     else (case oc of
          Fine \<Rightarrow> (case f (w_db w) of
              (Inl e, d) \<Rightarrow> do { _ \<leftarrow> put_st (w\<lparr>w_tx_failed := w_in_tx w\<rparr>); ret (Inl e) }
            | (Inr x, d) \<Rightarrow> do { _ \<leftarrow> put_st (w\<lparr>w_db := d\<rparr>); ret (Inr x) })
        | Lost e \<Rightarrow> do { _ \<leftarrow> put_st (w\<lparr>w_tx_failed := w_in_tx w\<rparr>); ret (Inl (DriverErr e)) }
        | Unacked e \<Rightarrow>
            if w_in_tx w then do { _ \<leftarrow> put_st (w\<lparr>w_tx_failed := True\<rparr>); ret (Inl (DriverErr e)) }
            else (case f (w_db w) of
                (Inl e', d) \<Rightarrow> ret (Inl (DriverErr e))
              | (Inr x, d) \<Rightarrow> do { _ \<leftarrow> put_st (w\<lparr>w_db := d\<rparr>); ret (Inl (DriverErr e)) })) }"

text \<open>A query: a statement that changes no row.\<close>

definition db_query :: "(database \<Rightarrow> 'a) \<Rightarrow> 'a res io" where
  "db_query q = db_stmt (\<lambda>d. (Inr (q d), d))"

definition rollback_db :: "database \<Rightarrow> database \<Rightarrow> database" where
  "rollback_db d0 d1 = d0\<lparr>rel_seq := rel_seq d1, event_seq := event_seq d1\<rparr>"

definition transaction :: "'a res io \<Rightarrow> 'a res io" where
  "transaction body = do {
     oc \<leftarrow> io_step;
     (case oc of
        Lost e \<Rightarrow> ret (Inl (DriverErr e))
      | Unacked e \<Rightarrow> ret (Inl (DriverErr e))
      | Fine \<Rightarrow> do {
          d0 \<leftarrow> gets w_db;
          _ \<leftarrow> modify (\<lambda>w. w\<lparr>w_in_tx := True, w_tx_failed := False\<rparr>);
          r \<leftarrow> body;
          failed \<leftarrow> gets w_tx_failed;
          _ \<leftarrow> modify (\<lambda>w. w\<lparr>w_in_tx := False, w_tx_failed := False, w_locks := []\<rparr>);
          (case r of
             Inl e \<Rightarrow> do { _ \<leftarrow> modify (\<lambda>w. w\<lparr>w_db := rollback_db d0 (w_db w)\<rparr>); ret (Inl e) }
           | Inr x \<Rightarrow>
               if failed then do {
                 _ \<leftarrow> modify (\<lambda>w. w\<lparr>w_db := rollback_db d0 (w_db w)\<rparr>); ret (Inl TxAborted) }
               else do {
                 oc' \<leftarrow> io_step;
                 (case oc' of
                    Fine \<Rightarrow> ret (Inr x)
                  | Lost e \<Rightarrow> do {
                      _ \<leftarrow> modify (\<lambda>w. w\<lparr>w_db := rollback_db d0 (w_db w)\<rparr>); ret (Inl (DriverErr e)) }
                  | Unacked e \<Rightarrow> ret (Inl (DriverErr e))) }) }) }"

text \<open>The pattern \<open>x, err := f(); if err != nil { return err }\<close>.\<close>

definition and_then :: "'a res io \<Rightarrow> ('a \<Rightarrow> 'b res io) \<Rightarrow> 'b res io" where
  "and_then m f = do { r \<leftarrow> m; (case r of Inl e \<Rightarrow> ret (Inl e) | Inr x \<Rightarrow> f x) }"

text \<open>\<open>x, _ := f()\<close>: the zero value beside an ignored error.\<close>

definition value_or :: "'a \<Rightarrow> 'a res \<Rightarrow> 'a" where
  "value_or z r = (case r of Inl _ \<Rightarrow> z | Inr x \<Rightarrow> x)"

text \<open>
  The interface \<open>NextID() (int64, error)\<close> of an ID generator, and the random source: a supply
  of results, with an error when the supply has none.
\<close>

definition next_conv_id :: "int res io" where
  "next_conv_id = State (\<lambda>w. case w_conv_ids w of [] \<Rightarrow> (Inl (ErrText ''no id''), w)
     | x # xs \<Rightarrow> (x, w\<lparr>w_conv_ids := xs\<rparr>))"

definition next_msg_id :: "int res io" where
  "next_msg_id = State (\<lambda>w. case w_msg_ids w of [] \<Rightarrow> (Inl (ErrText ''no id''), w)
     | x # xs \<Rightarrow> (x, w\<lparr>w_msg_ids := xs\<rparr>))"

definition next_req_id :: "int res io" where
  "next_req_id = State (\<lambda>w. case w_req_ids w of [] \<Rightarrow> (Inl (ErrText ''no id''), w)
     | x # xs \<Rightarrow> (x, w\<lparr>w_req_ids := xs\<rparr>))"

definition next_event_id :: "int res io" where
  "next_event_id = State (\<lambda>w. case w_event_ids w of [] \<Rightarrow> (Inl (ErrText ''no id''), w)
     | x # xs \<Rightarrow> (x, w\<lparr>w_event_ids := xs\<rparr>))"

definition next_token :: "string res io" where
  "next_token = State (\<lambda>w. case w_tokens w of [] \<Rightarrow> (Inl (ErrText ''no randomness''), w)
     | x # xs \<Rightarrow> (x, w\<lparr>w_tokens := xs\<rparr>))"

text \<open>\<open>uuid.New().String()\<close>, \<open>rand.Int\<close> for a one-time code, and the mail sender.\<close>

definition next_uuid :: "string io" where
  "next_uuid = State (\<lambda>w. (w_uuids w (w_uuid_next w), w\<lparr>w_uuid_next := Suc (w_uuid_next w)\<rparr>))"

definition next_otp :: "int res io" where
  "next_otp = State (\<lambda>w. case w_otps w of [] \<Rightarrow> (Inl (ErrText ''no randomness''), w)
     | x # xs \<Rightarrow> (x, w\<lparr>w_otps := xs\<rparr>))"

definition send_mail :: "string \<Rightarrow> string \<Rightarrow> unit res io" where
  "send_mail to code = do {
     oc \<leftarrow> io_step;
     w \<leftarrow> get_st;
     (case oc of
        Fine \<Rightarrow> do { _ \<leftarrow> put_st (w\<lparr>w_mails := w_mails w @ [(to, code)]\<rparr>); ret (Inr ()) }
      | Lost e \<Rightarrow> ret (Inl (DriverErr e))
      | Unacked e \<Rightarrow> do { _ \<leftarrow> put_st (w\<lparr>w_mails := w_mails w @ [(to, code)]\<rparr>); ret (Inl (DriverErr e)) }) }"

text \<open>\<open>go f()\<close>, \<open>PUBLISH\<close> on a push channel and \<open>XADD\<close> on a stream.\<close>

definition spawn :: "task \<Rightarrow> unit io" where
  "spawn tk = modify (\<lambda>w. w\<lparr>w_tasks := w_tasks w @ [tk]\<rparr>)"

definition publish_push :: "int \<Rightarrow> push_payload \<Rightarrow> unit res io" where
  "publish_push agent p = do {
     oc \<leftarrow> io_step;
     w \<leftarrow> get_st;
     if w_rdb_nil w then ret (Inl NilClient)
     else (case oc of
        Fine \<Rightarrow> do { _ \<leftarrow> put_st (w\<lparr>w_pushes := w_pushes w @ [(agent, p)]\<rparr>); ret (Inr ()) }
      | Lost e \<Rightarrow> ret (Inl (DriverErr e))
      | Unacked e \<Rightarrow> do {
          _ \<leftarrow> put_st (w\<lparr>w_pushes := w_pushes w @ [(agent, p)]\<rparr>); ret (Inl (DriverErr e)) }) }"

definition xadd :: "string \<Rightarrow> (string \<times> string) list \<Rightarrow> unit res io" where
  "xadd stream vs = do {
     oc \<leftarrow> io_step;
     w \<leftarrow> get_st;
     if w_rdb_nil w then ret (Inl NilClient)
     else (case oc of
        Fine \<Rightarrow> do { _ \<leftarrow> put_st (w\<lparr>w_streams := w_streams w @ [(stream, vs)]\<rparr>); ret (Inr ()) }
      | Lost e \<Rightarrow> ret (Inl (DriverErr e))
      | Unacked e \<Rightarrow> do {
          _ \<leftarrow> put_st (w\<lparr>w_streams := w_streams w @ [(stream, vs)]\<rparr>); ret (Inl (DriverErr e)) }) }"

section \<open>The cache wrappers\<close>

definition cache_Read :: "rkey \<Rightarrow> payload res io" where
  "cache_Read k = do { n \<leftarrow> gets w_rdb_nil; if n then ret (Inl NilClient) else redis_cmd (GET k) }"

definition cache_Write :: "rkey \<Rightarrow> payload \<Rightarrow> int \<Rightarrow> unit res io" where
  "cache_Write k p ttl =
     do { n \<leftarrow> gets w_rdb_nil; if n then ret (Inl NilClient) else redis_cmd (SET k p ttl) }"

definition cache_Remove :: "rkey list \<Rightarrow> unit res io" where
  "cache_Remove ks = do { n \<leftarrow> gets w_rdb_nil; if n then ret (Inl NilClient) else redis_cmd (DEL ks) }"

definition cache_ReplaceSet :: "rkey \<Rightarrow> int list \<Rightarrow> int \<Rightarrow> unit res io" where
  "cache_ReplaceSet k members ttl = do {
     n \<leftarrow> gets w_rdb_nil;
     if n then ret (Inl NilClient)
     else redis_cmd
       (if members = [] then DEL [k]
        else seq_cmd (seq_cmd (DEL [k]) (SADD k members)) (\<lambda>t rs. (Inr (), snd (EXPIRE k ttl t rs)))) }"

definition cache_Exists :: "rkey \<Rightarrow> bool res io" where
  "cache_Exists k = do { n \<leftarrow> gets w_rdb_nil; if n then ret (Inl NilClient) else redis_cmd (EXISTS k) }"

definition cache_IsMember :: "rkey \<Rightarrow> int \<Rightarrow> bool res io" where
  "cache_IsMember k x =
     do { n \<leftarrow> gets w_rdb_nil; if n then ret (Inl NilClient) else redis_cmd (SISMEMBER k x) }"

section \<open>Laws of the primitives\<close>

lemma live_set [simp]: "live t (rs(k \<mapsto> (v, e))) k = (case e of None \<Rightarrow> Some v | Some x \<Rightarrow> if t < x then Some v else None)"
  by (simp add: live_def split: option.splits)

lemma live_other [simp]: "k' \<noteq> k \<Longrightarrow> live t (rs(k := x)) k' = live t rs k'"
  by (simp add: live_def)

lemma live_del [simp]: "live t (rs(k := None)) k = None"
  by (simp add: live_def)

lemma DEL_result: "fst (DEL ks t rs) = Inr ()"
  by (induction ks arbitrary: rs) auto

lemma DEL_apply: "snd (DEL ks t rs) = (\<lambda>k. if k \<in> List.set ks then None else rs k)"
  by (induction ks arbitrary: rs) (auto simp: fun_eq_iff)

lemma DEL_eq: "DEL ks t rs = (Inr (), \<lambda>k. if k \<in> List.set ks then None else rs k)"
  using DEL_result DEL_apply by (metis prod.collapse)

lemma itoa_triple_inject:
  "itoa a @ CHR '':'' # itoa b @ CHR '':'' # itoa c = itoa a' @ CHR '':'' # itoa b' @ CHR '':'' # itoa c'
   \<longleftrightarrow> a = a' \<and> b = b' \<and> c = c'"
  by (simp add: append_colon_inject)

lemma scope_name_text:
  "scope_name s @ CHR '':'' # x = scope_name s' @ CHR '':'' # y \<longleftrightarrow> s = s' \<and> x = y"
  "scope_name s @ CHR '':'' # x \<noteq> scope_name s' @ CHR ''-'' # y"
  "scope_name s @ CHR ''-'' # x \<noteq> scope_name s' @ CHR '':'' # y"
  "scope_name s @ CHR ''-'' # x = scope_name s' @ CHR ''-'' # y \<longleftrightarrow> s = s' \<and> x = y"
  by (cases s; cases s'; simp)+

text \<open>Different keys of the modelled services have different names on the wire, so no component reads
  or overwrites another's value, and the typed keyspace of the model is the keyspace of Redis.\<close>

theorem render_key_inject: "render_key k = render_key k' \<longleftrightarrow> k = k'"
  by (cases k; cases k'; simp add: itoa_triple_inject scope_name_text append_colon_inject)

subsection \<open>What the primitives leave alone\<close>

lemmas io_defs = io_step_def redis_cmd_def db_stmt_def publish_push_def xadd_def spawn_def
  next_conv_id_def next_msg_id_def next_req_id_def next_token_def now_ms_def

lemma run_io_step: "\<exists>oc e n. run_state io_step w = (oc, w\<lparr>w_env := e, w_now := n\<rparr>)"
proof (cases "w_env w")
  case Nil
  then have "run_state io_step w = (Fine, w\<lparr>w_env := [], w_now := w_now w\<rparr>)"
    by (cases w) (simp add: io_step_def)
  then show ?thesis by blast
next
  case (Cons x xs)
  then show ?thesis by (cases x) (auto simp: io_step_def)
qed

text \<open>The three ways a command ends: done, not done, done without the caller knowing.\<close>

lemma run_redis_cmd:
  obtains e n where
    "run_state (redis_cmd c) w =
       (fst (c n (w_redis w)), w\<lparr>w_env := e, w_now := n, w_redis := snd (c n (w_redis w))\<rparr>)"
  | e n er where "run_state (redis_cmd c) w = (Inl er, w\<lparr>w_env := e, w_now := n\<rparr>)"
  | e n er where "run_state (redis_cmd c) w =
       (Inl er, w\<lparr>w_env := e, w_now := n, w_redis := snd (c n (w_redis w))\<rparr>)"
proof -
  obtain oc e n where st: "run_state io_step w = (oc, w\<lparr>w_env := e, w_now := n\<rparr>)"
    using run_io_step by blast
  obtain r rs where c: "c n (w_redis w) = (r, rs)" by force
  consider (nil) "w_rdb_nil w" | (fine) "\<not> w_rdb_nil w" "oc = Fine"
    | (lost) er where "\<not> w_rdb_nil w" "oc = Lost er" | (unacked) er where "\<not> w_rdb_nil w" "oc = Unacked er"
    by (cases oc) auto
  then show ?thesis
  proof cases
    case nil
    with st show ?thesis by (intro that(2)) (simp add: redis_cmd_def)
  next
    case fine
    with st c show ?thesis by (intro that(1) [where n = n and e = e]) (simp add: redis_cmd_def)
  next
    case lost
    with st c show ?thesis by (intro that(2)) (simp add: redis_cmd_def)
  next
    case unacked
    with st c show ?thesis by (intro that(3) [where n = n and e = e]) (simp add: redis_cmd_def)
  qed
qed

lemma run_db_stmt:
  obtains x d e n where "run_state (db_stmt f) w = (Inr x, w\<lparr>w_env := e, w_now := n, w_db := d\<rparr>)"
    "f (w_db w) = (Inr x, d)" "\<not> w_tx_failed w"
  | e n er b where "run_state (db_stmt f) w = (Inl er, w\<lparr>w_env := e, w_now := n, w_tx_failed := b\<rparr>)"
    "w_in_tx w \<Longrightarrow> b" "\<not> w_in_tx w \<Longrightarrow> w_tx_failed w \<or> \<not> b"
  | x d e n er where "run_state (db_stmt f) w = (Inl er, w\<lparr>w_env := e, w_now := n, w_db := d\<rparr>)"
    "f (w_db w) = (Inr x, d)" "\<not> w_in_tx w" "\<not> w_tx_failed w"
proof -
  obtain oc e n where st: "run_state io_step w = (oc, w\<lparr>w_env := e, w_now := n\<rparr>)"
    using run_io_step by blast
  have flag: "w\<lparr>w_env := e, w_now := n, w_tx_failed := w_tx_failed w\<rparr> = w\<lparr>w_env := e, w_now := n\<rparr>"
    by (cases w) simp
  show ?thesis
  proof (cases "w_tx_failed w")
    case True
    with st have "run_state (db_stmt f) w = (Inl TxAborted, w\<lparr>w_env := e, w_now := n, w_tx_failed := True\<rparr>)"
      using flag by (simp add: db_stmt_def)
    with True show ?thesis by (intro that(2)) auto
  next
    case False
    obtain r d where f: "f (w_db w) = (r, d)" by force
    have flag': "w\<lparr>w_env := e, w_now := n, w_tx_failed := False\<rparr> = w\<lparr>w_env := e, w_now := n\<rparr>"
      using flag False by simp
    consider (ok) x where "oc = Fine" "r = Inr x" | (sql) er where "oc = Fine" "r = Inl er"
      | (lost) er where "oc = Lost er" | (utx) er where "oc = Unacked er" "w_in_tx w"
      | (uok) er x where "oc = Unacked er" "\<not> w_in_tx w" "r = Inr x"
      | (ubad) er er' where "oc = Unacked er" "\<not> w_in_tx w" "r = Inl er'"
      by (cases oc; cases r) auto
    then show ?thesis
    proof cases
      case ok
      with st False f show ?thesis by (intro that(1)) (auto simp: db_stmt_def)
    next
      case sql
      with st False f show ?thesis
        by (intro that(2) [where b = "w_in_tx w"]) (auto simp: db_stmt_def)
    next
      case lost
      with st False f show ?thesis
        by (intro that(2) [where b = "w_in_tx w"]) (auto simp: db_stmt_def)
    next
      case utx
      with st False f show ?thesis
        by (intro that(2) [where b = True]) (auto simp: db_stmt_def)
    next
      case uok
      with st False f show ?thesis by (intro that(3)) (auto simp: db_stmt_def)
    next
      case ubad
      with st False f flag' show ?thesis
        by (intro that(2) [where b = False and e = e and n = n and er = "DriverErr er"]) (auto simp: db_stmt_def)
    qed
  qed
qed

text \<open>The clock never runs backwards.\<close>

lemma io_step_time: "run_state io_step w = (oc, w') \<Longrightarrow> w_now w \<le> w_now w'"
  by (auto simp: io_step_def split: list.splits)

lemma redis_cmd_time: "run_state (redis_cmd c) w = (r, w') \<Longrightarrow> w_now w \<le> w_now w'"
proof -
  assume run: "run_state (redis_cmd c) w = (r, w')"
  obtain oc w1 where st: "run_state io_step w = (oc, w1)" by force
  have "w_now w' = w_now w1"
    using run st by (auto simp: redis_cmd_def split: prod.splits if_splits outcome.splits)
  with io_step_time [OF st] show ?thesis by simp
qed

definition advances :: "'a io \<Rightarrow> bool" where
  "advances m \<longleftrightarrow> (\<forall>w. w_now w \<le> w_now (snd (run_state m w)))"

lemma advancesD: "advances m \<Longrightarrow> run_state m w = (x, w') \<Longrightarrow> w_now w \<le> w_now w'"
  unfolding advances_def by (metis snd_conv)

lemma advances_redis_cmd [io_intros]: "advances (redis_cmd c)"
  unfolding advances_def by (metis prod.collapse redis_cmd_time)

lemma advances_return [io_intros]: "advances (ret x)"
  by (simp add: advances_def)

lemma advances_bind [io_intros]:
  "advances m \<Longrightarrow> (\<And>a. advances (f a)) \<Longrightarrow> advances (State_Monad.bind m f)"
  by (auto simp: advances_def split: prod.splits) (metis order_trans snd_conv)

lemma advances_if [io_intros]: "(b \<Longrightarrow> advances m) \<Longrightarrow> (\<not> b \<Longrightarrow> advances m') \<Longrightarrow> advances (if b then m else m')"
  by simp

lemma advances_sum [io_intros]:
  "(\<And>e. x = Inl e \<Longrightarrow> advances (g e)) \<Longrightarrow> (\<And>y. x = Inr y \<Longrightarrow> advances (f y))
   \<Longrightarrow> advances (case x of Inl e \<Rightarrow> g e | Inr y \<Rightarrow> f y)"
  by (cases x) simp_all

text \<open>A world in which every command works, however much time passes.\<close>

definition reliable :: "world \<Rightarrow> bool" where
  "reliable w \<longleftrightarrow> (\<forall>x \<in> set (w_env w). snd x = Fine) \<and> \<not> w_rdb_nil w \<and> \<not> w_in_tx w \<and> \<not> w_tx_failed w"

lemma quiet_reliable: "quiet w \<Longrightarrow> reliable w"
  by (simp add: quiet_def reliable_def)

lemma reliable_redis_cmd:
  assumes "reliable w"
  obtains e n where "run_state (redis_cmd c) w =
      (fst (c n (w_redis w)), w\<lparr>w_env := e, w_now := n, w_redis := snd (c n (w_redis w))\<rparr>)"
    "w_now w \<le> n" "reliable (w\<lparr>w_env := e, w_now := n, w_redis := snd (c n (w_redis w))\<rparr>)"
proof (cases "w_env w")
  case Nil
  obtain r rs where c: "c (w_now w) (w_redis w) = (r, rs)" by force
  have same: "w\<lparr>w_env := [], w_now := w_now w, w_redis := rs\<rparr> = w\<lparr>w_redis := rs\<rparr>"
    using Nil by (cases w) simp
  show ?thesis
    using assms Nil c same
    by (intro that [where e = "[]" and n = "w_now w"]) (auto simp: redis_cmd_def io_step_def reliable_def)
next
  case (Cons x xs)
  obtain d oc where x: "x = (d, oc)" by force
  obtain r rs where c: "c (w_now w + int d) (w_redis w) = (r, rs)" by force
  show ?thesis
    using assms Cons x c
    by (intro that [where e = xs and n = "w_now w + int d"]) (auto simp: redis_cmd_def io_step_def reliable_def)
qed

lemma io_step_env: "w_env (snd (run_state io_step w)) = tl (w_env w)"
  by (auto simp: io_step_def split: list.splits)

text \<open>A command that would leave the keyspace alone: its reply, or an error of the driver.\<close>

lemma redis_cmd_reply:
  assumes run: "run_state (redis_cmd c) w = (r, w1)" and c: "c (w_now w1) (w_redis w) = (v, w_redis w)"
  shows "w_redis w1 = w_redis w \<and> w_db w1 = w_db w \<and>
    (r = v \<and> (reliable w \<longrightarrow> reliable w1) \<or> (r = Inl NilClient \<or> (\<exists>s. r = Inl (DriverErr s))) \<and> \<not> reliable w)"
proof -
  obtain oc e n where st: "run_state io_step w = (oc, w\<lparr>w_env := e, w_now := n\<rparr>)"
    using run_io_step by blast
  have n: "w_now w1 = n"
    using run st by (auto simp: redis_cmd_def split: prod.splits if_splits outcome.splits)
  have e: "e = tl (w_env w)" using io_step_env [of w] st by simp
  have "oc = (case w_env w of [] \<Rightarrow> Fine | x # _ \<Rightarrow> snd x)"
    using st by (auto simp: io_step_def split: list.splits)
  then have rel: "reliable w \<Longrightarrow> oc = Fine \<and> (\<forall>x \<in> set e. snd x = Fine) \<and> \<not> w_rdb_nil w"
    unfolding e by (cases "w_env w") (auto simp: reliable_def)
  let ?w = "w\<lparr>w_env := e, w_now := n\<rparr>"
  let ?w' = "w\<lparr>w_env := e, w_now := n, w_redis := w_redis w\<rparr>"
  have c': "c n (w_redis w) = (v, w_redis w)" using c n by simp
  have "run_state (redis_cmd c) w = (if w_rdb_nil w then (Inl NilClient, ?w)
      else (case oc of Fine \<Rightarrow> (v, ?w') | Lost s \<Rightarrow> (Inl (DriverErr s), ?w) | Unacked s \<Rightarrow> (Inl (DriverErr s), ?w')))"
    using st c' by (simp add: redis_cmd_def split: outcome.splits)
  with run have w1: "w1 = ?w \<or> w1 = ?w'"
    and r: "r = v \<and> \<not> w_rdb_nil w \<or> (r = Inl NilClient \<or> (\<exists>s. r = Inl (DriverErr s))) \<and> \<not> (oc = Fine \<and> \<not> w_rdb_nil w)"
    by (auto split: if_splits outcome.splits)
  from w1 have sel: "w_redis w1 = w_redis w" "w_db w1 = w_db w" by auto
  from w1 have "reliable w1 \<longleftrightarrow> (\<forall>x \<in> set e. snd x = Fine) \<and> \<not> w_rdb_nil w \<and> \<not> w_in_tx w \<and> \<not> w_tx_failed w"
    by (elim disjE) (simp_all add: reliable_def)
  moreover have "reliable w \<Longrightarrow> \<not> w_in_tx w \<and> \<not> w_tx_failed w" by (simp add: reliable_def)
  ultimately show ?thesis using rel r sel by blast
qed

lemma reliable_db_query:
  assumes "reliable w"
  obtains e n where "run_state (db_query q) w = (Inr (q (w_db w)), w\<lparr>w_env := e, w_now := n\<rparr>)"
    "w_now w \<le> n" "reliable (w\<lparr>w_env := e, w_now := n\<rparr>)"
proof (cases "w_env w")
  case Nil
  have same: "w\<lparr>w_env := [], w_now := w_now w\<rparr> = w" using Nil by (cases w) simp
  show ?thesis
    using assms Nil same
    by (intro that [where e = "[]" and n = "w_now w"]) (auto simp: db_query_def db_stmt_def io_step_def reliable_def)
next
  case (Cons x xs)
  obtain d oc where x: "x = (d, oc)" by force
  show ?thesis
    using assms Cons x
    by (intro that [where e = xs and n = "w_now w + int d"]) (auto simp: db_query_def db_stmt_def io_step_def reliable_def)
qed

lemma keeps_io_step:
  "(\<And>w e n. f (w\<lparr>w_env := e, w_now := n\<rparr>) = f w) \<Longrightarrow> keeps f io_step"
  unfolding keeps_def using run_io_step by (metis snd_conv)

lemma keeps_get [io_intros]: "keeps f get_st"
  by (simp add: keeps_def)

lemma keeps_redis_cmd:
  assumes "\<And>w e n. f (w\<lparr>w_env := e, w_now := n\<rparr>) = f w" "\<And>w rs. f (w\<lparr>w_redis := rs\<rparr>) = f w"
  shows "keeps f (redis_cmd c)"
  unfolding keeps_def
proof
  fix s
  show "f (snd (run_state (redis_cmd c) s)) = f s"
    by (cases rule: run_redis_cmd [of c s]) (auto simp: assms)
qed

lemma keeps_db_stmt:
  assumes "\<And>w e n. f (w\<lparr>w_env := e, w_now := n\<rparr>) = f w" "\<And>w d. f (w\<lparr>w_db := d\<rparr>) = f w"
    "\<And>w b. f (w\<lparr>w_tx_failed := b\<rparr>) = f w"
  shows "keeps f (db_stmt c)"
  unfolding keeps_def
proof
  fix s
  show "f (snd (run_state (db_stmt c) s)) = f s"
    by (cases rule: run_db_stmt [of c s]) (auto simp: assms)
qed

lemma keeps_publish_push:
  "(\<And>w e n. f (w\<lparr>w_env := e, w_now := n\<rparr>) = f w) \<Longrightarrow> (\<And>w x. f (w\<lparr>w_pushes := x\<rparr>) = f w)
   \<Longrightarrow> keeps f (publish_push a p)"
  by (auto simp: keeps_def publish_push_def io_step_def split: list.splits outcome.splits)

lemma keeps_xadd:
  "(\<And>w e n. f (w\<lparr>w_env := e, w_now := n\<rparr>) = f w) \<Longrightarrow> (\<And>w x. f (w\<lparr>w_streams := x\<rparr>) = f w)
   \<Longrightarrow> keeps f (xadd a p)"
  by (auto simp: keeps_def xadd_def io_step_def split: list.splits outcome.splits)

lemma keeps_spawn: "(\<And>w x. f (w\<lparr>w_tasks := x\<rparr>) = f w) \<Longrightarrow> keeps f (spawn tk)"
  by (simp add: keeps_def spawn_def)

lemma keeps_next_conv_id: "(\<And>w x. f (w\<lparr>w_conv_ids := x\<rparr>) = f w) \<Longrightarrow> keeps f next_conv_id"
  by (auto simp: keeps_def next_conv_id_def split: list.splits)

lemma keeps_next_msg_id: "(\<And>w x. f (w\<lparr>w_msg_ids := x\<rparr>) = f w) \<Longrightarrow> keeps f next_msg_id"
  by (auto simp: keeps_def next_msg_id_def split: list.splits)

lemma keeps_next_req_id: "(\<And>w x. f (w\<lparr>w_req_ids := x\<rparr>) = f w) \<Longrightarrow> keeps f next_req_id"
  by (auto simp: keeps_def next_req_id_def split: list.splits)

lemma keeps_next_token: "(\<And>w x. f (w\<lparr>w_tokens := x\<rparr>) = f w) \<Longrightarrow> keeps f next_token"
  by (auto simp: keeps_def next_token_def split: list.splits)

lemma keeps_and_then [io_intros]:
  "keeps f m \<Longrightarrow> (\<And>x. keeps f (g x)) \<Longrightarrow> keeps f (and_then m g)"
  by (auto simp: and_then_def intro!: io_intros)

lemma preserves_and_then [io_intros]:
  "preserves I m \<Longrightarrow> (\<And>x. preserves I (g x)) \<Longrightarrow> preserves I (and_then m g)"
  by (auto simp: and_then_def intro!: io_intros)

text \<open>The database is kept by everything but statements, the cache by everything but commands.\<close>

lemma keeps_db_prims [io_intros]:
  "keeps w_db io_step" "keeps w_db (redis_cmd c)" "keeps w_db (publish_push a p)"
  "keeps w_db (xadd s vs)" "keeps w_db (spawn tk)" "keeps w_db next_conv_id"
  "keeps w_db next_msg_id" "keeps w_db next_req_id" "keeps w_db next_token" "keeps w_db now_ms"
  by (auto intro!: keeps_io_step keeps_redis_cmd keeps_publish_push keeps_xadd keeps_spawn
      keeps_next_conv_id keeps_next_msg_id keeps_next_req_id keeps_next_token
      simp: now_ms_def keeps_gets)

lemma keeps_redis_prims [io_intros]:
  "keeps w_redis io_step" "keeps w_redis (db_stmt c)" "keeps w_redis (publish_push a p)"
  "keeps w_redis (xadd s vs)" "keeps w_redis (spawn tk)" "keeps w_redis next_conv_id"
  "keeps w_redis next_msg_id" "keeps w_redis next_req_id" "keeps w_redis next_token"
  "keeps w_redis now_ms"
  by (auto intro!: keeps_io_step keeps_db_stmt keeps_publish_push keeps_xadd keeps_spawn
      keeps_next_conv_id keeps_next_msg_id keeps_next_req_id keeps_next_token
      simp: now_ms_def keeps_gets)

lemma keeps_db_query [io_intros]: "keeps w_db (db_query q)" "keeps w_redis (db_query q)"
proof -
  show "keeps w_db (db_query q)"
    unfolding keeps_def db_query_def
  proof
    fix s
    show "w_db (snd (run_state (db_stmt (\<lambda>d. (Inr (q d), d))) s)) = w_db s"
      by (cases rule: run_db_stmt [of "\<lambda>d. (Inr (q d), d)" s]) auto
  qed
  show "keeps w_redis (db_query q)"
    by (auto simp: db_query_def intro!: io_intros)
qed

lemmas cache_defs = cache_Read_def cache_Write_def cache_Remove_def cache_ReplaceSet_def
  cache_Exists_def cache_IsMember_def

lemma keeps_db_cache [io_intros]:
  "keeps w_db (cache_Read k)" "keeps w_db (cache_Write k p ttl)" "keeps w_db (cache_Remove ks)"
  "keeps w_db (cache_ReplaceSet k ms ttl)" "keeps w_db (cache_Exists k)" "keeps w_db (cache_IsMember k x)"
  by (auto simp: cache_defs intro!: io_intros)

subsection \<open>Invariants over tables and keys\<close>

text \<open>
  An invariant relating the tables and the keyspace, as a predicate of both. What a handler
  has to show is only what its commands and statements do.
\<close>

abbreviation on_stores :: "(database \<Rightarrow> redis \<Rightarrow> bool) \<Rightarrow> world \<Rightarrow> bool" where
  "on_stores I \<equiv> \<lambda>w. I (w_db w) (w_redis w)"

lemma preserves_stores_keeps:
  "keeps w_db m \<Longrightarrow> keeps w_redis m \<Longrightarrow> preserves (on_stores I) m"
  by (simp add: preserves_def keeps_def)

lemma preserves_stores_prims [io_intros]:
  "preserves (on_stores I) io_step" "preserves (on_stores I) (publish_push a p)"
  "preserves (on_stores I) (xadd s vs)" "preserves (on_stores I) (spawn tk)"
  "preserves (on_stores I) next_conv_id" "preserves (on_stores I) next_msg_id"
  "preserves (on_stores I) next_req_id" "preserves (on_stores I) next_token"
  "preserves (on_stores I) now_ms" "preserves (on_stores I) (db_query q)"
  by (auto intro!: preserves_stores_keeps io_intros)

lemma preserves_redis_cmd:
  assumes "\<And>t d rs. I d rs \<Longrightarrow> I d (snd (c t rs))"
  shows "preserves (on_stores I) (redis_cmd c)"
  unfolding preserves_def
proof (intro allI impI)
  fix s
  assume "on_stores I s"
  then show "on_stores I (snd (run_state (redis_cmd c) s))"
    by (cases rule: run_redis_cmd [of c s]) (auto simp: assms)
qed

lemma preserves_db_stmt:
  assumes "\<And>d rs x d'. I d rs \<Longrightarrow> f d = (Inr x, d') \<Longrightarrow> I d' rs"
  shows "preserves (on_stores I) (db_stmt f)"
  unfolding preserves_def
proof (intro allI impI)
  fix s
  assume "on_stores I s"
  then show "on_stores I (snd (run_state (db_stmt f) s))"
    by (cases rule: run_db_stmt [of f s]) (auto intro: assms)
qed

subsection \<open>Bodies of transactions\<close>

text \<open>
  \<open>tx_valid P m Q\<close>: run inside a transaction from tables that satisfy \<open>P\<close>, the program either
  returns an error, or leaves the transaction aborted, or returns \<open>x\<close> with tables satisfying
  \<open>Q x\<close>. The first two end in a rollback.
\<close>

definition tx_state :: "(database \<Rightarrow> bool) \<Rightarrow> world \<Rightarrow> bool" where
  "tx_state P w \<longleftrightarrow> w_in_tx w \<and> (w_tx_failed w \<or> P (w_db w))"

definition tx_valid :: "(database \<Rightarrow> bool) \<Rightarrow> 'a res io \<Rightarrow> ('a \<Rightarrow> database \<Rightarrow> bool) \<Rightarrow> bool" where
  "tx_valid P m Q \<longleftrightarrow>
     valid (tx_state P) m (\<lambda>r w. w_in_tx w \<and> (case r of Inl _ \<Rightarrow> True | Inr x \<Rightarrow> tx_state (Q x) w))"

named_theorems tx_intros "introduction rules for tx_valid"

lemma tx_db_stmt [tx_intros]:
  "tx_valid P (db_stmt f) (\<lambda>x d'. \<exists>d. P d \<and> f d = (Inr x, d'))"
  unfolding tx_valid_def
proof (rule validI)
  fix s
  assume "tx_state P s"
  then show "w_in_tx (snd (run_state (db_stmt f) s)) \<and>
    (case fst (run_state (db_stmt f) s) of Inl _ \<Rightarrow> True
     | Inr x \<Rightarrow> tx_state (\<lambda>d'. \<exists>d. P d \<and> f d = (Inr x, d')) (snd (run_state (db_stmt f) s)))"
    by (cases rule: run_db_stmt [of f s]) (auto simp: tx_state_def)
qed

lemma tx_weaken:
  assumes "tx_valid P m Q" "\<And>x d. Q x d \<Longrightarrow> Q' x d"
  shows "tx_valid P m Q'"
  using assms unfolding tx_valid_def valid_def tx_state_def by (fastforce split: sum.splits)

lemma tx_pre:
  assumes "tx_valid P m Q" "\<And>d. P' d \<Longrightarrow> P d"
  shows "tx_valid P' m Q"
  using assms unfolding tx_valid_def valid_def tx_state_def by blast

lemma tx_db_query [tx_intros]: "tx_valid P (db_query q) (\<lambda>x d. P d \<and> x = q d)"
  unfolding db_query_def by (rule tx_weaken, rule tx_db_stmt) auto

lemma tx_and_then [tx_intros]:
  assumes m: "tx_valid P m R" and f: "\<And>x. tx_valid (R x) (f x) Q"
  shows "tx_valid P (and_then m f) Q"
  unfolding tx_valid_def
proof (rule validI)
  fix s
  assume s: "tx_state P s"
  obtain r s' where r: "run_state m s = (r, s')" by force
  show "w_in_tx (snd (run_state (and_then m f) s)) \<and>
    (case fst (run_state (and_then m f) s) of Inl _ \<Rightarrow> True
     | Inr x \<Rightarrow> tx_state (Q x) (snd (run_state (and_then m f) s)))"
  proof (cases r)
    case (Inl e)
    then show ?thesis
      using validD [OF m [unfolded tx_valid_def] s r] r by (simp add: and_then_def)
  next
    case (Inr x)
    then have "tx_state (R x) s'"
      using validD [OF m [unfolded tx_valid_def] s r] by simp
    moreover have "run_state (and_then m f) s = run_state (f x) s'"
      using r Inr by (simp add: and_then_def)
    ultimately show ?thesis
      using valid_run [OF f [unfolded tx_valid_def], of x s'] by (simp only:)
  qed
qed

lemma tx_return [tx_intros]: "(\<And>d. P d \<Longrightarrow> Q x d) \<Longrightarrow> tx_valid P (ret (Inr x)) Q"
  unfolding tx_valid_def tx_state_def by (auto intro!: validI)

lemma tx_error [tx_intros]: "tx_valid P (ret (Inl e)) Q"
  unfolding tx_valid_def tx_state_def by (auto intro!: validI)

lemma tx_if [tx_intros]:
  "(b \<Longrightarrow> tx_valid P m Q) \<Longrightarrow> (\<not> b \<Longrightarrow> tx_valid P m' Q) \<Longrightarrow> tx_valid P (if b then m else m') Q"
  by simp

lemma tx_option [tx_intros]:
  "(x = None \<Longrightarrow> tx_valid P m Q) \<Longrightarrow> (\<And>y. x = Some y \<Longrightarrow> tx_valid P (f y) Q)
   \<Longrightarrow> tx_valid P (case x of None \<Rightarrow> m | Some y \<Rightarrow> f y) Q"
  by (cases x) simp_all

text \<open>A program that does not touch the transaction (an ID generator, the clock).\<close>

lemma tx_frame:
  assumes "keeps w_db m" "keeps w_in_tx m" "keeps w_tx_failed m"
    and "\<And>a. tx_valid P (f a) Q"
  shows "tx_valid P (State_Monad.bind m f) Q"
  unfolding tx_valid_def
proof (rule validI)
  fix s
  assume s: "tx_state P s"
  obtain a s' where r: "run_state m s = (a, s')" by force
  then have "tx_state P s'"
    using s keepsD [OF assms(1) r] keepsD [OF assms(2) r] keepsD [OF assms(3) r]
    by (simp add: tx_state_def)
  moreover have "run_state (State_Monad.bind m f) s = run_state (f a) s'"
    using r by simp
  ultimately show "w_in_tx (snd (run_state (State_Monad.bind m f) s)) \<and>
    (case fst (run_state (State_Monad.bind m f) s) of Inl _ \<Rightarrow> True
     | Inr x \<Rightarrow> tx_state (Q x) (snd (run_state (State_Monad.bind m f) s)))"
    using valid_run [OF assms(4) [unfolded tx_valid_def], of s' a] by (simp only:)
qed

text \<open>A statement whose error the code ignores: an aborted transaction stays aborted.\<close>

lemma tx_ignore_stmt:
  assumes "tx_valid (\<lambda>d'. \<exists>x d. P d \<and> g d = (Inr x, d')) m Q"
  shows "tx_valid P (State_Monad.bind (db_stmt g) (\<lambda>_. m)) Q"
  unfolding tx_valid_def
proof (rule validI)
  fix s
  assume s: "tx_state P s"
  obtain a s' where r: "run_state (db_stmt g) s = (a, s')" by force
  have "tx_state (\<lambda>d'. \<exists>x d. P d \<and> g d = (Inr x, d')) s'"
    using s r by (cases rule: run_db_stmt [of g s]) (auto simp: tx_state_def)
  moreover have "run_state (State_Monad.bind (db_stmt g) (\<lambda>_. m)) s = run_state m s'"
    using r by simp
  ultimately show "w_in_tx (snd (run_state (State_Monad.bind (db_stmt g) (\<lambda>_. m)) s)) \<and>
    (case fst (run_state (State_Monad.bind (db_stmt g) (\<lambda>_. m)) s) of Inl _ \<Rightarrow> True
     | Inr x \<Rightarrow> tx_state (Q x) (snd (run_state (State_Monad.bind (db_stmt g) (\<lambda>_. m)) s)))"
    using valid_run [OF assms [unfolded tx_valid_def], of s'] by (simp only:)
qed

text \<open>
  A transaction keeps an invariant that its body establishes and that does not speak about
  the sequences.
\<close>

lemma valid_transaction:
  assumes body: "\<And>rs. tx_valid (\<lambda>d. P d rs) m (\<lambda>_ d. I d rs)"
    and redis: "keeps w_redis m"
    and seqs: "\<And>d rs a b. I d rs \<Longrightarrow> I (d\<lparr>rel_seq := a, event_seq := b\<rparr>) rs"
    and pre: "\<And>d rs. P d rs \<Longrightarrow> I d rs"
  shows "valid (on_stores P) (transaction m) (\<lambda>_. on_stores I)"
proof (rule validI)
  fix w :: world
  assume P: "P (w_db w) (w_redis w)"
  then have I: "I (w_db w) (w_redis w)" by (rule pre)
  obtain oc e n where st: "run_state io_step w = (oc, w\<lparr>w_env := e, w_now := n\<rparr>)"
    using run_io_step by blast
  let ?w1 = "w\<lparr>w_env := e, w_now := n, w_in_tx := True, w_tx_failed := False\<rparr>"
  obtain r w2 where r: "run_state m ?w1 = (r, w2)" by force
  have red: "w_redis w2 = w_redis w"
    using keepsD [OF redis r] by simp
  have "tx_state (\<lambda>d. P d (w_redis w)) ?w1"
    using P by (simp add: tx_state_def)
  from validD [OF body [unfolded tx_valid_def] this r]
  have post: "\<And>x. r = Inr x \<Longrightarrow> w_tx_failed w2 \<or> I (w_db w2) (w_redis w2)"
    using red by (simp add: tx_state_def)
  have restored: "\<And>d. I (rollback_db (w_db w) d) (w_redis w2)"
    using seqs I red by (simp add: rollback_db_def)
  obtain oc' e' n' where st': "run_state io_step (w2\<lparr>w_in_tx := False, w_tx_failed := False, w_locks := []\<rparr>) =
      (oc', w2\<lparr>w_in_tx := False, w_tx_failed := False, w_locks := [], w_env := e', w_now := n'\<rparr>)"
    using run_io_step by blast
  show "I (w_db (snd (run_state (transaction m) w))) (w_redis (snd (run_state (transaction m) w)))"
    using I st r st' post restored red
    by (cases oc; cases r; cases "w_tx_failed w2"; cases oc') (auto simp: transaction_def)
qed

lemma preserves_transaction:
  assumes "\<And>rs. tx_valid (\<lambda>d. I d rs) m (\<lambda>_ d. I d rs)" "keeps w_redis m"
    and "\<And>d rs a b. I d rs \<Longrightarrow> I (d\<lparr>rel_seq := a, event_seq := b\<rparr>) rs"
  shows "preserves (on_stores I) (transaction m)"
  using valid_transaction [of I m I, OF assms] by (simp add: preserves_valid)

lemma keeps_transaction:
  assumes "keeps f m" "\<And>w e n. f (w\<lparr>w_env := e, w_now := n\<rparr>) = f w" "\<And>w d. f (w\<lparr>w_db := d\<rparr>) = f w"
    "\<And>w a b. f (w\<lparr>w_in_tx := a, w_tx_failed := b\<rparr>) = f w" "\<And>w a b l. f (w\<lparr>w_in_tx := a, w_tx_failed := b, w_locks := l\<rparr>) = f w"
  shows "keeps f (transaction m)"
  unfolding transaction_def
  by (auto intro!: io_intros keeps_io_step keeps_modify assms split: outcome.split)

lemma keeps_redis_transaction [io_intros]: "keeps w_redis m \<Longrightarrow> keeps w_redis (transaction m)"
  by (rule keeps_transaction) auto

subsection \<open>Invariants inside a transaction\<close>

text \<open>
  \<open>tx_keeps J m\<close>: inside a transaction the program keeps the invariant \<open>J\<close> of the tables, errors and
  aborted transactions aside, and leaves the keyspace alone.
\<close>

definition tx_keeps :: "(database \<Rightarrow> bool) \<Rightarrow> 'a res io \<Rightarrow> bool" where
  "tx_keeps J m \<longleftrightarrow> tx_valid J m (\<lambda>_. J) \<and> keeps w_redis m"

definition stmt_keeps :: "(database \<Rightarrow> bool) \<Rightarrow> (database \<Rightarrow> 'a res \<times> database) \<Rightarrow> bool" where
  "stmt_keeps J f \<longleftrightarrow> (\<forall>d x d'. J d \<longrightarrow> f d = (Inr x, d') \<longrightarrow> J d')"

named_theorems txk_intros "introduction rules for tx_keeps"

lemma txk_stmt: "stmt_keeps J f \<Longrightarrow> tx_keeps J (db_stmt f)"
  unfolding tx_keeps_def
  by (auto intro!: io_intros intro: tx_weaken [OF tx_db_stmt] simp: stmt_keeps_def)

lemma txk_query [txk_intros]: "tx_keeps J (db_query q)"
  unfolding db_query_def by (rule txk_stmt) (simp add: stmt_keeps_def)

lemma txk_and_then [txk_intros]:
  "tx_keeps J m \<Longrightarrow> (\<And>x. tx_keeps J (f x)) \<Longrightarrow> tx_keeps J (and_then m f)"
  unfolding tx_keeps_def by (auto intro!: io_intros tx_and_then)

lemma txk_ret [txk_intros]: "tx_keeps J (ret r)"
  unfolding tx_keeps_def by (cases r) (auto intro!: io_intros tx_intros)

lemma txk_if [txk_intros]:
  "(b \<Longrightarrow> tx_keeps J m) \<Longrightarrow> (\<not> b \<Longrightarrow> tx_keeps J m') \<Longrightarrow> tx_keeps J (if b then m else m')"
  by simp

lemma txk_option [txk_intros]:
  "(x = None \<Longrightarrow> tx_keeps J m) \<Longrightarrow> (\<And>y. x = Some y \<Longrightarrow> tx_keeps J (f y))
   \<Longrightarrow> tx_keeps J (case x of None \<Rightarrow> m | Some y \<Rightarrow> f y)"
  by (cases x) simp_all

lemma keeps_tx_prims:
  "keeps w_in_tx now_ms" "keeps w_tx_failed now_ms" "keeps w_in_tx next_req_id" "keeps w_tx_failed next_req_id"
  by (auto simp: now_ms_def keeps_gets intro!: keeps_next_req_id)

lemma txk_now [txk_intros]: "(\<And>t. tx_keeps J (f t)) \<Longrightarrow> tx_keeps J (State_Monad.bind now_ms f)"
  unfolding tx_keeps_def by (auto intro!: io_intros tx_frame keeps_tx_prims)

lemma txk_next_req_id [txk_intros]: "tx_keeps J next_req_id"
proof -
  have "tx_valid J next_req_id (\<lambda>_. J)"
    unfolding tx_valid_def valid_def tx_state_def
    by (auto simp: next_req_id_def split: list.splits sum.splits)
  then show ?thesis by (auto simp: tx_keeps_def intro!: io_intros)
qed

lemma txk_locks [txk_intros]:
  "tx_keeps J (f ()) \<Longrightarrow> tx_keeps J (State_Monad.bind (modify (\<lambda>w. w\<lparr>w_locks := g w\<rparr>)) f)"
  unfolding tx_keeps_def by (auto intro!: io_intros tx_frame keeps_modify)

text \<open>A statement whose result is ignored.\<close>

lemma txk_ignore: "stmt_keeps J g \<Longrightarrow> tx_keeps J m \<Longrightarrow> tx_keeps J (State_Monad.bind (db_stmt g) (\<lambda>_. m))"
  unfolding tx_keeps_def
  by (auto intro!: io_intros tx_ignore_stmt intro: tx_pre simp: stmt_keeps_def)

lemma preserves_transaction_keeps:
  assumes "\<And>rs. tx_keeps (\<lambda>d. I d rs) m"
    and "\<And>d rs a b. I d rs \<Longrightarrow> I (d\<lparr>rel_seq := a, event_seq := b\<rparr>) rs"
  shows "preserves (on_stores I) (transaction m)"
  using assms by (intro preserves_transaction) (auto simp: tx_keeps_def)

subsection \<open>Which keys a command touches\<close>

definition touches :: "rkey set \<Rightarrow> 'a rcmd \<Rightarrow> bool" where
  "touches S c \<longleftrightarrow> (\<forall>t rs k. k \<notin> S \<longrightarrow> snd (c t rs) k = rs k)"

named_theorems touch_intros "the keys a command touches"

lemma touches_cmds [touch_intros]:
  "touches {} (GET k)" "touches {k} (SET k p ttl)" "touches {k} (SETNX k p ttl)" "touches (set ks) (DEL ks)"
  "touches {} (EXISTS k)" "touches {k} (EXPIRE k ttl)" "touches {} (PTTL k)" "touches {k} (INCR k)"
  "touches {k} (SADD k xs)" "touches {k} (SREM k x)" "touches {} (SISMEMBER k x)" "touches {} (HGET k f)"
  "touches {k} (HSET k f p)" "touches {k} (HDEL k fs)"
  by (auto simp: touches_def GET_def SET_def SETNX_def DEL_apply EXISTS_def EXPIRE_def PTTL_def INCR_def
      SADD_def SREM_def SISMEMBER_def HGET_def HSET_def HDEL_def Let_def
      split: option.splits rval.splits payload.splits)

lemma touches_seq: "touches S c \<Longrightarrow> touches S' c' \<Longrightarrow> touches (S \<union> S') (seq_cmd c c')"
  by (auto simp: touches_def seq_cmd_def split: prod.splits) (metis snd_conv)

lemma touches_mono: "touches S c \<Longrightarrow> S \<subseteq> S' \<Longrightarrow> touches S' c"
  by (auto simp: touches_def)

lemma touches_seq_same [touch_intros]: "touches S c \<Longrightarrow> touches S c' \<Longrightarrow> touches S (seq_cmd c c')"
  using touches_seq [of S c S c'] by simp

lemma touchesD: "touches S c \<Longrightarrow> k \<notin> S \<Longrightarrow> snd (c t rs) k = rs k"
  by (simp add: touches_def)

lemma preserves_touch:
  assumes "touches S c" "\<And>d rs rs'. I d rs \<Longrightarrow> (\<forall>k. k \<notin> S \<longrightarrow> rs' k = rs k) \<Longrightarrow> I d rs'"
  shows "preserves (on_stores I) (redis_cmd c)"
  by (rule preserves_redis_cmd) (use assms in \<open>auto simp: touches_def\<close>)

text \<open>An invariant that no change outside \<open>K\<close> can break is kept by commands that do not touch \<open>K\<close>.\<close>

definition local_to :: "rkey set \<Rightarrow> (database \<Rightarrow> redis \<Rightarrow> bool) \<Rightarrow> bool" where
  "local_to K I \<longleftrightarrow> (\<forall>d rs rs'. I d rs \<longrightarrow> (\<forall>k \<in> K. rs' k = rs k) \<longrightarrow> I d rs')"

lemma preserves_local:
  assumes "local_to K I" "touches S c" "S \<inter> K = {}"
  shows "preserves (on_stores I) (redis_cmd c)"
proof (rule preserves_touch [OF assms(2)])
  fix d rs rs'
  assume "I d rs" "\<forall>k. k \<notin> S \<longrightarrow> rs' k = rs k"
  moreover have "\<forall>k \<in> K. rs' k = rs k" using calculation(2) assms(3) by blast
  ultimately show "I d rs'" using assms(1) unfolding local_to_def by blast
qed

lemma preserves_cache_local:
  assumes "local_to K I"
  shows "preserves (on_stores I) (cache_Read k)" "preserves (on_stores I) (cache_Exists k)"
    "preserves (on_stores I) (cache_IsMember k x)"
    "k \<notin> K \<Longrightarrow> preserves (on_stores I) (cache_Write k p ttl)"
    "k \<notin> K \<Longrightarrow> preserves (on_stores I) (cache_ReplaceSet k ms ttl)"
    "set ks \<inter> K = {} \<Longrightarrow> preserves (on_stores I) (cache_Remove ks)"
proof -
  note loc = preserves_local [OF assms]
  have exp: "touches {k} (\<lambda>t rs. (Inr () :: unit res, snd (EXPIRE k ttl t rs)))"
    using touchesD [OF touches_cmds(6)] by (simp add: touches_def)
  have del: "touches {k} (DEL [k])" using touches_cmds(4) [of "[k]"] by simp
  have rep: "touches {k} (if ms = [] then DEL [k]
       else seq_cmd (seq_cmd (DEL [k]) (SADD k ms)) (\<lambda>t rs. (Inr (), snd (EXPIRE k ttl t rs))))"
    using del exp by (auto intro!: touch_intros)
  show "preserves (on_stores I) (cache_Read k)" "preserves (on_stores I) (cache_Exists k)"
    "preserves (on_stores I) (cache_IsMember k x)"
    unfolding cache_defs by (auto intro!: io_intros loc touch_intros)
  show "k \<notin> K \<Longrightarrow> preserves (on_stores I) (cache_Write k p ttl)"
    unfolding cache_defs by (auto intro!: io_intros loc touch_intros)
  show "k \<notin> K \<Longrightarrow> preserves (on_stores I) (cache_ReplaceSet k ms ttl)"
    unfolding cache_ReplaceSet_def by (intro io_intros loc [OF rep]) auto
  show "set ks \<inter> K = {} \<Longrightarrow> preserves (on_stores I) (cache_Remove ks)"
    unfolding cache_defs by (auto intro!: io_intros loc touch_intros)
qed

text \<open>A fact about the tables alone rides along with a program that leaves them alone.\<close>

lemma preserves_with_db:
  assumes "preserves (on_stores I) m" "keeps w_db m"
  shows "preserves (on_stores (\<lambda>d rs. I d rs \<and> J d)) m"
  using assms by (auto simp: preserves_def keeps_def)

end
