(* ===== verification/PMDal.thy ===== *)
theory PMDal
  imports Store
begin

text \<open>
  The conversation and message tables: \<open>rpc/pm/dal/db.go\<close>. Each function is one SQL statement
  (or one transaction) over the tables of \<open>Store\<close>; a \<open>SELECT\<close> is a filter, an \<open>ORDER BY ... LIMIT\<close>
  a sort and a prefix, an \<open>INSERT\<close> checks the constraints of the migrations
  (\<open>000003_add_pm_tables.sql\<close>, \<open>000098_add_conversation_topic_status.sql\<close>), and gorm's \<open>Create\<close>
  leaves out a zero primary key and fills a zero \<open>topic_status\<close> with its default.
\<close>

section \<open>Topic status\<close>

abbreviation TopicStatusPendingVerify :: int where "TopicStatusPendingVerify \<equiv> 0"
abbreviation TopicStatusOpen :: int where "TopicStatusOpen \<equiv> 1"
abbreviation TopicStatusClosed :: int where "TopicStatusClosed \<equiv> 2"

definition topicStatusValues :: "(string \<times> int) list" where
  "topicStatusValues =
     [(''pending_verify'', TopicStatusPendingVerify), (''open'', TopicStatusOpen),
      (''closed'', TopicStatusClosed)]"

definition ParseTopicStatus :: "string \<Rightarrow> int option" where
  "ParseTopicStatus value = map_of topicStatusValues value"

definition TopicStatusName :: "int \<Rightarrow> string" where
  "TopicStatusName value =
     (if value = TopicStatusPendingVerify then ''pending_verify''
      else if value = TopicStatusClosed then ''closed'' else ''open'')"

section \<open>Rows in and out\<close>

text \<open>gorm's \<open>First\<close>: no row is the error \<open>ErrRecordNotFound\<close>.\<close>

definition first_or_err :: "'a option res io \<Rightarrow> 'a res io" where
  "first_or_err m = do {
     r \<leftarrow> m;
     ret (case r of Inl e \<Rightarrow> Inl e | Inr None \<Rightarrow> Inl RecordNotFound | Inr (Some x) \<Rightarrow> Inr x) }"

definition insert_conversation :: "Conversation \<Rightarrow> database \<Rightarrow> unit res \<times> database" where
  "insert_conversation c0 d =
     (let c = c0\<lparr>cTopicStatus := (if cTopicStatus c0 = 0 then 1 else cTopicStatus c0)\<rparr> in
      if cConvID c = 0 then (Inl (NotNullViolation ''conv_id''), d)
      else if cConvID c \<in> cConvID ` set (conversations d)
        then (Inl (UniqueViolation ''conversations_pkey''), d)
      else if (cParticipantA c, cParticipantB c, cOriginID c) \<in>
              (\<lambda>x. (cParticipantA x, cParticipantB x, cOriginID x)) ` set (conversations d)
        then (Inl (UniqueViolation ''conversations_participant_a_participant_b_origin_id_key''), d)
      else if \<not> (0 \<le> cTopicStatus c \<and> cTopicStatus c \<le> 2)
        then (Inl (CheckViolation ''chk_conversations_topic_status''), d)
      else (Inr (), d\<lparr>conversations := conversations d @ [c]\<rparr>))"

definition insert_message :: "PrivateMessage \<Rightarrow> database \<Rightarrow> unit res \<times> database" where
  "insert_message m d =
     (if mMsgID m = 0 then (Inl (NotNullViolation ''msg_id''), d)
      else if mMsgID m \<in> mMsgID ` set (private_messages d)
        then (Inl (UniqueViolation ''private_messages_pkey''), d)
      else if mConvID m \<notin> cConvID ` set (conversations d)
        then (Inl (ForeignKeyViolation ''private_messages_conv_id_fkey''), d)
      else (Inr (), d\<lparr>private_messages := private_messages d @ [m]\<rparr>))"

definition CreateConversation :: "Conversation \<Rightarrow> unit res io" where
  "CreateConversation conv = do {
     t \<leftarrow> now_ms;
     db_stmt (insert_conversation (conv\<lparr>cUpdatedAt := t\<rparr>)) }"

definition GetConversationByID :: "int \<Rightarrow> Conversation res io" where
  "GetConversationByID convID =
     first_or_err (db_query (\<lambda>d. first_by cConvID (\<lambda>c. cConvID c = convID) (conversations d)))"

definition GetConversationByParticipants :: "int \<Rightarrow> int \<Rightarrow> int \<Rightarrow> Conversation res io" where
  "GetConversationByParticipants a b originID =
     first_or_err (db_query (\<lambda>d. first_by cConvID
       (\<lambda>c. cParticipantA c = a \<and> cParticipantB c = b \<and> cOriginID c = originID) (conversations d)))"

definition CreateMessage :: "PrivateMessage \<Rightarrow> unit res io" where
  "CreateMessage msg = do {
     t \<leftarrow> now_ms;
     db_stmt (insert_message (msg\<lparr>mCreatedAt := t\<rparr>)) }"

definition UpdateConversationAfterMessage :: "int \<Rightarrow> int \<Rightarrow> unit res io" where
  "UpdateConversationAfterMessage convID senderID = do {
     t \<leftarrow> now_ms;
     db_stmt (\<lambda>d. (Inr (), d\<lparr>conversations := update_where (\<lambda>c. cConvID c = convID)
       (\<lambda>c. c\<lparr>cLastSenderID := senderID, cMsgCount := cMsgCount c + 1, cUpdatedAt := t\<rparr>)
       (conversations d)\<rparr>)) }"

section \<open>Reading messages\<close>

definition unread_rows :: "int \<Rightarrow> int \<Rightarrow> PrivateMessage list \<Rightarrow> PrivateMessage list" where
  "unread_rows agentID cursor ms =
     sort_key mMsgID (filter (\<lambda>m. mReceiverID m = agentID \<and> \<not> mIsRead m \<and> (cursor > 0 \<longrightarrow> mMsgID m > cursor)) ms)"

definition FetchUnreadMessages :: "int \<Rightarrow> int \<Rightarrow> int \<Rightarrow> PrivateMessage list res io" where
  "FetchUnreadMessages agentID cursor limit =
     db_query (\<lambda>d. take (nat limit) (unread_rows agentID cursor (private_messages d)))"

definition FetchRecentReadMessages :: "int \<Rightarrow> int \<Rightarrow> PrivateMessage list res io" where
  "FetchRecentReadMessages agentID limit =
     db_query (\<lambda>d. take (nat limit) (sort_key (\<lambda>m. - mMsgID m)
       (filter (\<lambda>m. mReceiverID m = agentID \<and> mIsRead m \<or> mSenderID m = agentID) (private_messages d))))"

definition mark_read :: "(PrivateMessage \<Rightarrow> bool) \<Rightarrow> database \<Rightarrow> unit res \<times> database" where
  "mark_read P d =
     (Inr (), d\<lparr>private_messages := update_where P (\<lambda>m. m\<lparr>mIsRead := True\<rparr>) (private_messages d)\<rparr>)"

definition MarkMessagesAsRead :: "int list \<Rightarrow> unit res io" where
  "MarkMessagesAsRead msgIDs =
     (if msgIDs = [] then ret (Inr ()) else db_stmt (mark_read (\<lambda>m. mMsgID m \<in> set msgIDs)))"

definition GetLastMessage :: "int \<Rightarrow> PrivateMessage res io" where
  "GetLastMessage convID =
     first_or_err (db_query (\<lambda>d. first_by (\<lambda>m. - mMsgID m) (\<lambda>m. mConvID m = convID) (private_messages d)))"

definition CountUnread :: "int \<Rightarrow> int \<Rightarrow> int res io" where
  "CountUnread convID agentID =
     db_query (\<lambda>d. int (length (filter
       (\<lambda>m. mConvID m = convID \<and> mReceiverID m = agentID \<and> \<not> mIsRead m) (private_messages d))))"

text \<open>The join of messages with their conversations.\<close>

definition joined :: "database \<Rightarrow> (PrivateMessage \<times> Conversation) list" where
  "joined d = [(m, c). m \<leftarrow> private_messages d, c \<leftarrow> conversations d, mConvID m = cConvID c]"

text \<open>\<open>None\<close> stands for the zero message that \<open>Scan\<close> leaves when no row matches.\<close>

definition GetLastFriendDM :: "int \<Rightarrow> int \<Rightarrow> PrivateMessage option res io" where
  "GetLastFriendDM agentA agentB =
     db_query (\<lambda>d. map_option fst (first_by (\<lambda>(m, c). - mMsgID m)
       (\<lambda>(m, c). cOriginType c = ''friend''
          \<and> (cParticipantA c = agentA \<and> cParticipantB c = agentB
             \<or> cParticipantA c = agentB \<and> cParticipantB c = agentA)) (joined d)))"

definition CountUnreadTotal :: "int \<Rightarrow> int res io" where
  "CountUnreadTotal agentID =
     db_query (\<lambda>d. int (length (filter
       (\<lambda>m. mReceiverID m = agentID \<and> \<not> mIsRead m \<and> mSenderID m \<noteq> mReceiverID m) (private_messages d))))"

text \<open>The \<open>CASE\<close> of the query: the bucket of an unread message.\<close>

definition unread_bucket :: "database \<Rightarrow> int \<Rightarrow> Conversation \<Rightarrow> string" where
  "unread_bucket d agentID c =
     (if cOriginType c = ''friend'' then ''friend''
      else if (\<exists>r \<in> set (user_relations d). rFromUID r = agentID
          \<and> rToUID r = (if cParticipantA c = agentID then cParticipantB c else cParticipantA c)
          \<and> rRelType r = 1) then ''broadcast_comment''
      else ''non_friend'')"

definition CountUnreadByOrigin :: "int \<Rightarrow> (int \<times> int \<times> int) res io" where
  "CountUnreadByOrigin agentID =
     db_query (\<lambda>d.
       let rows = filter (\<lambda>(m, c). mReceiverID m = agentID \<and> \<not> mIsRead m \<and> mSenderID m \<noteq> mReceiverID m)
                    (joined d);
           n = (\<lambda>b. int (length (filter (\<lambda>(m, c). unread_bucket d agentID c = b) rows)))
       in (n ''broadcast_comment'', n ''non_friend'', n ''friend''))"

definition MarkConvReadByAgent :: "int \<Rightarrow> int \<Rightarrow> unit res io" where
  "MarkConvReadByAgent convID agentID =
     db_stmt (mark_read (\<lambda>m. mConvID m = convID \<and> mReceiverID m = agentID \<and> \<not> mIsRead m))"

definition GetConvMessages :: "int \<Rightarrow> int \<Rightarrow> int \<Rightarrow> PrivateMessage list res io" where
  "GetConvMessages convID cursor limit =
     db_query (\<lambda>d. take (nat limit) (sort_key (\<lambda>m. - mMsgID m)
       (filter (\<lambda>m. mConvID m = convID \<and> (cursor > 0 \<longrightarrow> mMsgID m < cursor)) (private_messages d))))"

section \<open>Listing conversations\<close>

text \<open>
  The two branches of the \<open>UNION ALL\<close>, one per participant column, each sorted and cut to the
  limit; the union sorted and cut again.
\<close>

definition two_sided :: "(Conversation \<Rightarrow> 'k :: linorder) \<Rightarrow> (Conversation \<Rightarrow> bool) \<Rightarrow> int \<Rightarrow> nat
    \<Rightarrow> Conversation list \<Rightarrow> Conversation list" where
  "two_sided key P agentID n cs =
     (let baseA = take n (sort_key key (filter (\<lambda>c. cParticipantA c = agentID \<and> P c) cs));
          baseB = take n (sort_key key (filter (\<lambda>c. cParticipantB c = agentID \<and> P c) cs))
      in take n (sort_key key (baseA @ baseB)))"

definition topic_key :: "Conversation \<Rightarrow> int \<times> int \<times> int" where
  "topic_key c = (cTopicStatus c, cUpdatedAt c, cConvID c)"

definition recent_key :: "Conversation \<Rightarrow> int \<times> int" where
  "recent_key c = (- cUpdatedAt c, - cConvID c)"

record TopicSortCursor =
  tcTopicStatus :: int
  tcUpdatedAt :: int
  tcConvID :: int

definition topic_filter :: "int \<Rightarrow> string \<Rightarrow> Conversation \<Rightarrow> bool" where
  "topic_filter agentID originType c \<longleftrightarrow> cStatus c = 0 \<and>
     (if originType = ''unbroken''
      then cOriginType c \<noteq> ''friend'' \<and> cMsgCount c = 1 \<and> cLastSenderID c \<noteq> agentID
      else if originType = ''broadcast_all'' then cOriginType c \<noteq> ''friend'' \<and> cMsgCount c \<ge> 1
      else cMsgCount c \<ge> 1 \<and> (originType \<noteq> [] \<longrightarrow> cOriginType c = originType))"

definition ListConversationsByTopicStatus ::
  "int \<Rightarrow> TopicSortCursor option \<Rightarrow> int \<Rightarrow> string \<Rightarrow> Conversation list res io" where
  "ListConversationsByTopicStatus agentID cursor limit originType =
     db_query (\<lambda>d. two_sided topic_key
       (\<lambda>c. topic_filter agentID originType c \<and>
          (case cursor of None \<Rightarrow> True
           | Some k \<Rightarrow> topic_key c > (tcTopicStatus k, tcUpdatedAt k, tcConvID k)))
       agentID (nat limit) (conversations d))"

text \<open>The row comparison \<open>(updated_at, conv_id) < (?, ?)\<close> or \<open>updated_at < ?\<close> of a page cursor.\<close>

definition before_cursor :: "int \<Rightarrow> int \<Rightarrow> Conversation \<Rightarrow> bool" where
  "before_cursor cursorUpdatedAt cursorConvID c \<longleftrightarrow>
     (if cursorUpdatedAt > 0 then
        (if cursorConvID > 0 then (cUpdatedAt c, cConvID c) < (cursorUpdatedAt, cursorConvID)
         else cUpdatedAt c < cursorUpdatedAt)
      else True)"

definition listUnbrokenInbound :: "int \<Rightarrow> int \<Rightarrow> int \<Rightarrow> int \<Rightarrow> Conversation list res io" where
  "listUnbrokenInbound agentID cursorUpdatedAt cursorConvID limit =
     db_query (\<lambda>d. two_sided recent_key
       (\<lambda>c. cStatus c = 0 \<and> cOriginType c \<noteq> ''friend'' \<and> cMsgCount c = 1 \<and> cLastSenderID c \<noteq> agentID
          \<and> before_cursor cursorUpdatedAt cursorConvID c)
       agentID (nat limit) (conversations d))"

definition recent_filter :: "string \<Rightarrow> Conversation \<Rightarrow> bool" where
  "recent_filter originType c \<longleftrightarrow> cStatus c = 0 \<and>
     (if originType = ''broadcast_all'' then cOriginType c \<noteq> ''friend'' \<and> cMsgCount c \<ge> 1
      else cMsgCount c \<ge> 1 \<and> (originType \<noteq> [] \<longrightarrow> cOriginType c = originType))"

definition ListConversationsFiltered :: "int \<Rightarrow> int \<Rightarrow> int \<Rightarrow> int \<Rightarrow> string \<Rightarrow> Conversation list res io" where
  "ListConversationsFiltered agentID cursorUpdatedAt cursorConvID limit originType =
     (if originType = ''unbroken'' then listUnbrokenInbound agentID cursorUpdatedAt cursorConvID limit
      else db_query (\<lambda>d. two_sided recent_key
        (\<lambda>c. recent_filter originType c \<and> before_cursor cursorUpdatedAt cursorConvID c)
        agentID (nat limit) (conversations d)))"

definition ListConversationsAll :: "int \<Rightarrow> int \<Rightarrow> int \<Rightarrow> Conversation list res io" where
  "ListConversationsAll agentID cursor limit = ListConversationsFiltered agentID cursor 0 limit []"

section \<open>Changing a conversation\<close>

definition insert_topic_event :: "int \<Rightarrow> int \<Rightarrow> int \<Rightarrow> int \<Rightarrow> int \<Rightarrow> database \<Rightarrow> unit res \<times> database" where
  "insert_topic_event convID actorID previous new t d =
     (if convID \<notin> cConvID ` set (conversations d)
        then (Inl (ForeignKeyViolation ''conversation_topic_events_conv_id_fkey''), d)
      else if \<not> (0 \<le> previous \<and> previous \<le> 2 \<and> 0 \<le> new \<and> new \<le> 2)
        then (Inl (CheckViolation ''chk_conversation_topic_events''), d)
      else (Inr (), d\<lparr>topic_events := topic_events d @
              [\<lparr>evEventID = event_seq d, evConvID = convID, evActorID = actorID,
                evPreviousStatus = previous, evNewStatus = new, evCreatedAt = t\<rparr>],
             event_seq := event_seq d + 1\<rparr>))"

text \<open>gorm sets the column tagged \<open>autoUpdateTime:milli\<close> in every update of a conversation.\<close>

definition update_topic_status :: "int \<Rightarrow> int \<Rightarrow> int \<Rightarrow> database \<Rightarrow> unit res \<times> database" where
  "update_topic_status convID new t d =
     (if 0 \<le> new \<and> new \<le> 2 then
        (Inr (), d\<lparr>conversations := update_where (\<lambda>c. cConvID c = convID)
           (\<lambda>c. c\<lparr>cTopicStatus := new, cUpdatedAt := t\<rparr>) (conversations d)\<rparr>)
      else (Inl (CheckViolation ''chk_conversations_topic_status''), d))"

text \<open>The result is the previous status and whether it changed.\<close>

definition UpdateConversationTopicStatus :: "int \<Rightarrow> int \<Rightarrow> int \<Rightarrow> (int \<times> bool) res io" where
  "UpdateConversationTopicStatus convID actorID newStatus = transaction (
     and_then (db_query (\<lambda>d. first_by cConvID (\<lambda>c. cConvID c = convID \<and> cStatus c = 0
         \<and> (cParticipantA c = actorID \<or> cParticipantB c = actorID)) (conversations d))) (\<lambda>row.
       case row of
         None \<Rightarrow> ret (Inl (ErrText ''active conversation not found''))
       | Some c \<Rightarrow>
           (let previous = cTopicStatus c in
            if previous = newStatus then ret (Inr (previous, False))
            else do {
              t \<leftarrow> now_ms;
              and_then (db_stmt (update_topic_status convID newStatus t)) (\<lambda>_. do {
                t' \<leftarrow> now_ms;
                and_then (db_stmt (insert_topic_event convID actorID previous newStatus t')) (\<lambda>_.
                  ret (Inr (previous, True))) }) })))"

definition close_item_conversation :: "int \<Rightarrow> int \<Rightarrow> database \<Rightarrow> nat res \<times> database" where
  "close_item_conversation convID t d =
     (Inr (length (filter (\<lambda>c. cConvID c = convID \<and> cOriginID c > 0) (conversations d))),
      d\<lparr>conversations := update_where (\<lambda>c. cConvID c = convID \<and> cOriginID c > 0)
          (\<lambda>c. c\<lparr>cStatus := 2, cUpdatedAt := t\<rparr>) (conversations d)\<rparr>)"

definition CloseConversation :: "int \<Rightarrow> unit res io" where
  "CloseConversation convID = do {
     t \<leftarrow> now_ms;
     and_then (db_stmt (close_item_conversation convID t)) (\<lambda>rows.
       if rows = 0 then ret (Inl (ErrText ''conversation not found or not item-originated''))
       else ret (Inr ())) }"

section \<open>Items and agents\<close>

definition GetItemOwner_db :: "int \<Rightarrow> int res io" where
  "GetItemOwner_db itemID =
     and_then (first_or_err (db_query (\<lambda>d. first_by iItemID (\<lambda>i. iItemID i = itemID) (raw_items d))))
       (\<lambda>i. ret (Inr (iAuthorAgentID i)))"

definition GetItemExpectedResponse :: "int \<Rightarrow> string res io" where
  "GetItemExpectedResponse itemID =
     and_then (first_or_err (db_query (\<lambda>d. first_by pItemID (\<lambda>i. pItemID i = itemID) (processed_items d))))
       (\<lambda>i. ret (Inr (case pExpectedResponse i of None \<Rightarrow> [] | Some s \<Rightarrow> s)))"

definition GetItemStatus :: "int \<Rightarrow> int res io" where
  "GetItemStatus itemID =
     and_then (first_or_err (db_query (\<lambda>d. first_by pItemID (\<lambda>i. pItemID i = itemID) (processed_items d))))
       (\<lambda>i. ret (Inr (pStatus i)))"

text \<open>Go maps as the library's maps; \<open>m[k]\<close> of an absent key is the zero value.\<close>

definition map_get :: "('k \<Rightarrow> 'v option) \<Rightarrow> 'v \<Rightarrow> 'k \<Rightarrow> 'v" where
  "map_get m zero k = (case m k of None \<Rightarrow> zero | Some v \<Rightarrow> v)"

definition BatchGetAgentProfiles :: "int list \<Rightarrow> (int \<Rightarrow> AgentProfile option) res io" where
  "BatchGetAgentProfiles agentIDs =
     (if agentIDs = [] then ret (Inr Map.empty)
      else db_query (\<lambda>d. map_of (map (\<lambda>a. (aAgentID a, \<lparr>apAgentName = aAgentName a, apBio = aBio a\<rparr>))
        (filter (\<lambda>a. aAgentID a \<in> set agentIDs) (agents d)))))"

definition BatchGetAgentNames :: "int list \<Rightarrow> (int \<Rightarrow> string option) res io" where
  "BatchGetAgentNames agentIDs =
     (if agentIDs = [] then ret (Inr Map.empty)
      else db_query (\<lambda>d. map_of (map (\<lambda>a. (aAgentID a, aAgentName a))
        (filter (\<lambda>a. aAgentID a \<in> set agentIDs) (agents d)))))"

definition BatchGetOfficialFlags :: "int list \<Rightarrow> (int \<Rightarrow> bool option) res io" where
  "BatchGetOfficialFlags agentIDs =
     (if agentIDs = [] then ret (Inr Map.empty)
      else db_query (\<lambda>d. map_of (map (\<lambda>a. (aAgentID a, True))
        (filter (\<lambda>a. aAgentID a \<in> set agentIDs \<and> aIsOfficial a) (agents d)))))"

end
