(* ===== verification/RelDal.thy ===== *)
theory RelDal
  imports PMDal "HOL-Library.Word"
begin

text \<open>
  Friendships, blocks and friend requests: \<open>rpc/pm/dal/relations.go\<close>, over the tables of
  \<open>migrations/000009_add_user_relations.sql\<close> (a relation is unique per pair and type, a request
  per ordered pair). The lock that serialises the transitions of a pair is a Postgres advisory
  lock whose key is the FNV-1a hash of the ordered pair.
\<close>

unbundle bit_operations_syntax

section \<open>Constants\<close>

abbreviation RelTypeFriend :: int where "RelTypeFriend \<equiv> 1"
abbreviation RelTypeBlock :: int where "RelTypeBlock \<equiv> 2"

abbreviation RequestStatusPending :: int where "RequestStatusPending \<equiv> 0"
abbreviation RequestStatusAccepted :: int where "RequestStatusAccepted \<equiv> 1"
abbreviation RequestStatusRejected :: int where "RequestStatusRejected \<equiv> 2"
abbreviation RequestStatusCancelled :: int where "RequestStatusCancelled \<equiv> 3"
abbreviation RequestStatusUnfriended :: int where "RequestStatusUnfriended \<equiv> 4"

section \<open>Relations as rows\<close>

definition rel_of :: "UserRelation \<Rightarrow> int \<times> int \<times> int" where
  "rel_of r = (rFromUID r, rToUID r, rRelType r)"

text \<open>The relation table read as a set of (from, to, type).\<close>

definition rels :: "database \<Rightarrow> (int \<times> int \<times> int) set" where
  "rels d = rel_of ` set (user_relations d)"

definition GetRemarksByPeer :: "int \<Rightarrow> int list \<Rightarrow> (int \<Rightarrow> string option) res io" where
  "GetRemarksByPeer fromUID toUIDs =
     (if toUIDs = [] then ret (Inr Map.empty)
      else db_query (\<lambda>d. map_of (rev (map (\<lambda>r. (rToUID r, rRemark r))
        (filter (\<lambda>r. rFromUID r = fromUID \<and> rToUID r \<in> set toUIDs \<and> rRemark r \<noteq> []) (user_relations d))))))"

section \<open>Friend requests\<close>

definition insert_request :: "FriendRequest \<Rightarrow> database \<Rightarrow> unit res \<times> database" where
  "insert_request q d =
     (if fID q = 0 then (Inl (NotNullViolation ''id''), d)
      else if fID q \<in> fID ` set (friend_requests d)
        then (Inl (UniqueViolation ''friend_requests_pkey''), d)
      else if (fFromUID q, fToUID q) \<in> (\<lambda>x. (fFromUID x, fToUID x)) ` set (friend_requests d)
        then (Inl (UniqueViolation ''uq_request''), d)
      else (Inr (), d\<lparr>friend_requests := friend_requests d @ [q]\<rparr>))"

definition CreateFriendRequest :: "int \<Rightarrow> int \<Rightarrow> int \<Rightarrow> string \<Rightarrow> string \<Rightarrow> int res io" where
  "CreateFriendRequest reqID fromUID toUID greeting remark = do {
     now \<leftarrow> now_ms;
     and_then (db_stmt (insert_request
       \<lparr>fID = reqID, fFromUID = fromUID, fToUID = toUID, fStatus = RequestStatusPending,
        fGreeting = greeting, fRemark = remark, fCreatedAt = now, fUpdatedAt = now\<rparr>))
       (\<lambda>_. ret (Inr reqID)) }"

definition GetFriendRequest :: "int \<Rightarrow> FriendRequest res io" where
  "GetFriendRequest requestID =
     first_or_err (db_query (\<lambda>d. first_by fID (\<lambda>q. fID q = requestID) (friend_requests d)))"

text \<open>With a row lock; no row is \<open>nil\<close> and no error.\<close>

definition GetFriendRequestForUpdate :: "int \<Rightarrow> FriendRequest option res io" where
  "GetFriendRequestForUpdate requestID =
     db_query (\<lambda>d. first_by fID (\<lambda>q. fID q = requestID) (friend_requests d))"

definition GetFriendRequestBetweenForUpdate :: "int \<Rightarrow> int \<Rightarrow> FriendRequest option res io" where
  "GetFriendRequestBetweenForUpdate fromUID toUID =
     db_query (\<lambda>d. first_by fID (\<lambda>q. fFromUID q = fromUID \<and> fToUID q = toUID) (friend_requests d))"

definition set_request_status :: "(FriendRequest \<Rightarrow> bool) \<Rightarrow> int \<Rightarrow> int \<Rightarrow> database \<Rightarrow> nat res \<times> database" where
  "set_request_status P status now d =
     (Inr (length (filter P (friend_requests d))),
      d\<lparr>friend_requests := update_where P (\<lambda>q. q\<lparr>fStatus := status, fUpdatedAt := now\<rparr>) (friend_requests d)\<rparr>)"

definition UpdateRequestStatus :: "int \<Rightarrow> int \<Rightarrow> unit res io" where
  "UpdateRequestStatus requestID status = do {
     now \<leftarrow> now_ms;
     and_then (db_stmt (set_request_status (\<lambda>q. fID q = requestID) status now)) (\<lambda>_. ret (Inr ())) }"

definition UpdateRequestStatusIfPending :: "int \<Rightarrow> int \<Rightarrow> bool res io" where
  "UpdateRequestStatusIfPending requestID status = do {
     now \<leftarrow> now_ms;
     and_then (db_stmt (set_request_status
       (\<lambda>q. fID q = requestID \<and> fStatus q = RequestStatusPending) status now))
       (\<lambda>rows. ret (Inr (rows = 1))) }"

text \<open>The row keeps its pair and gets a new primary key.\<close>

definition reset_request :: "int \<Rightarrow> int \<Rightarrow> string \<Rightarrow> string \<Rightarrow> int \<Rightarrow> database \<Rightarrow> unit res \<times> database" where
  "reset_request existingID newID greeting remark now d =
     (if existingID \<in> fID ` set (friend_requests d)
         \<and> newID \<in> fID ` {q \<in> set (friend_requests d). fID q \<noteq> existingID}
      then (Inl (UniqueViolation ''friend_requests_pkey''), d)
      else (Inr (), d\<lparr>friend_requests := update_where (\<lambda>q. fID q = existingID)
        (\<lambda>q. q\<lparr>fID := newID, fStatus := RequestStatusPending, fGreeting := greeting, fRemark := remark,
               fCreatedAt := now, fUpdatedAt := now\<rparr>) (friend_requests d)\<rparr>))"

definition ResetFriendRequest :: "int \<Rightarrow> int \<Rightarrow> string \<Rightarrow> string \<Rightarrow> unit res io" where
  "ResetFriendRequest existingID newID greeting remark = do {
     now \<leftarrow> now_ms;
     db_stmt (reset_request existingID newID greeting remark now) }"

section \<open>Friendships and blocks\<close>

definition insert_friend_pair :: "int \<Rightarrow> int \<Rightarrow> string \<Rightarrow> string \<Rightarrow> int \<Rightarrow> database \<Rightarrow> unit res \<times> database" where
  "insert_friend_pair uidA uidB remarkByA remarkByB now d =
     (if (uidA, uidB, RelTypeFriend) \<in> rels d \<or> (uidB, uidA, RelTypeFriend) \<in> rels d \<or> uidA = uidB
      then (Inl (UniqueViolation ''uq_relation''), d)
      else (Inr (), d\<lparr>user_relations := user_relations d @
        [\<lparr>rID = rel_seq d, rFromUID = uidA, rToUID = uidB, rRelType = RelTypeFriend,
          rCreatedAt = now, rRemark = remarkByA\<rparr>,
         \<lparr>rID = rel_seq d + 1, rFromUID = uidB, rToUID = uidA, rRelType = RelTypeFriend,
          rCreatedAt = now, rRemark = remarkByB\<rparr>],
        rel_seq := rel_seq d + 2\<rparr>))"

definition CreateFriendRelation :: "int \<Rightarrow> int \<Rightarrow> string \<Rightarrow> string \<Rightarrow> unit res io" where
  "CreateFriendRelation uidA uidB remarkByA remarkByB = do {
     now \<leftarrow> now_ms;
     db_stmt (insert_friend_pair uidA uidB remarkByA remarkByB now) }"

definition delete_relations :: "(UserRelation \<Rightarrow> bool) \<Rightarrow> database \<Rightarrow> nat res \<times> database" where
  "delete_relations P d =
     (Inr (length (filter P (user_relations d))),
      d\<lparr>user_relations := filter (\<lambda>r. \<not> P r) (user_relations d)\<rparr>)"

definition is_friend_row :: "int \<Rightarrow> int \<Rightarrow> UserRelation \<Rightarrow> bool" where
  "is_friend_row uidA uidB r \<longleftrightarrow>
     (rFromUID r = uidA \<and> rToUID r = uidB \<or> rFromUID r = uidB \<and> rToUID r = uidA)
     \<and> rRelType r = RelTypeFriend"

definition DeleteFriendRelation :: "int \<Rightarrow> int \<Rightarrow> unit res io" where
  "DeleteFriendRelation uidA uidB =
     and_then (db_stmt (delete_relations (is_friend_row uidA uidB))) (\<lambda>rows.
       if rows = 0 then ret (Inl ErrNotFriends)
       else if rows \<noteq> 2 then
         ret (Inl (ErrText (''expected to delete 2 friend relation rows, deleted '' @ itoa (int rows))))
       else ret (Inr ()))"

text \<open>\<open>INSERT ... ON CONFLICT DO NOTHING\<close>, with the number of rows inserted.\<close>

definition insert_block :: "int \<Rightarrow> int \<Rightarrow> string \<Rightarrow> int \<Rightarrow> database \<Rightarrow> nat res \<times> database" where
  "insert_block fromUID toUID remark now d =
     (if (fromUID, toUID, RelTypeBlock) \<in> rels d then (Inr 0, d\<lparr>rel_seq := rel_seq d + 1\<rparr>)
      else (Inr 1, d\<lparr>user_relations := user_relations d @
        [\<lparr>rID = rel_seq d, rFromUID = fromUID, rToUID = toUID, rRelType = RelTypeBlock,
          rCreatedAt = now, rRemark = remark\<rparr>],
        rel_seq := rel_seq d + 1\<rparr>))"

definition CreateBlockRelation :: "int \<Rightarrow> int \<Rightarrow> string \<Rightarrow> unit res io" where
  "CreateBlockRelation fromUID toUID remark = do {
     now \<leftarrow> now_ms;
     and_then (db_stmt (insert_block fromUID toUID remark now)) (\<lambda>rows.
       if rows = 0 then ret (Inl ErrAlreadyBlocked) else ret (Inr ())) }"

definition DeleteBlockRelation :: "int \<Rightarrow> int \<Rightarrow> unit res io" where
  "DeleteBlockRelation fromUID toUID =
     and_then (db_stmt (delete_relations
       (\<lambda>r. rFromUID r = fromUID \<and> rToUID r = toUID \<and> rRelType r = RelTypeBlock))) (\<lambda>rows.
       if rows = 0 then ret (Inl ErrNotBlocked) else ret (Inr ()))"

definition IsFriend :: "int \<Rightarrow> int \<Rightarrow> bool res io" where
  "IsFriend uidA uidB = db_query (\<lambda>d. 0 < length (filter
     (\<lambda>r. rFromUID r = uidA \<and> rToUID r = uidB \<and> rRelType r = RelTypeFriend) (user_relations d)))"

definition IsBlocked :: "int \<Rightarrow> int \<Rightarrow> bool res io" where
  "IsBlocked fromUID toUID = db_query (\<lambda>d. 0 < length (filter
     (\<lambda>r. rFromUID r = fromUID \<and> rToUID r = toUID \<and> rRelType r = RelTypeBlock) (user_relations d)))"

definition FriendSet :: "int \<Rightarrow> int list \<Rightarrow> (int \<Rightarrow> bool option) res io" where
  "FriendSet agentID peerIDs =
     (if peerIDs = [] then ret (Inr Map.empty)
      else db_query (\<lambda>d. map_of (map (\<lambda>r. (rToUID r, True))
        (filter (\<lambda>r. rFromUID r = agentID \<and> rRelType r = RelTypeFriend \<and> rToUID r \<in> set peerIDs)
          (user_relations d)))))"

definition Category :: "string \<Rightarrow> bool \<Rightarrow> string" where
  "Category originType isFriend =
     (if originType = ''friend'' then ''friend''
      else if isFriend then ''broadcast_comment'' else ''non_friend'')"

section \<open>The pair lock\<close>

text \<open>\<open>hash/fnv\<close>, 64-bit FNV-1a.\<close>

definition fnv1a :: "string \<Rightarrow> 64 word" where
  "fnv1a s = foldl (\<lambda>h c. (h XOR word_of_nat (of_char c)) * 1099511628211) 14695981039346656037 s"

definition relation_lock_key :: "int \<Rightarrow> int \<Rightarrow> int" where
  "relation_lock_key uidA uidB =
     (let (a, b) = (if uidA > uidB then (uidB, uidA) else (uidA, uidB))
      in sint (fnv1a (itoa a @ '':'' @ itoa b)))"

definition LockRelationPair :: "int \<Rightarrow> int \<Rightarrow> unit res io" where
  "LockRelationPair uidA uidB =
     (let key = relation_lock_key uidA uidB in
      and_then (db_query (\<lambda>_. ())) (\<lambda>_. do {
        _ \<leftarrow> modify (\<lambda>w. w\<lparr>w_locks := key # w_locks w\<rparr>);
        ret (Inr ()) }))"

section \<open>Listing\<close>

text \<open>The page and whether there are more rows (the probe with \<open>LIMIT n+1\<close>).\<close>

definition ListFriendRequests_db ::
  "int \<Rightarrow> string \<Rightarrow> int \<Rightarrow> int \<Rightarrow> (FriendRequest list \<times> bool) res io" where
  "ListFriendRequests_db agentID direction cursor limit =
     and_then (db_query (\<lambda>d. take (nat (limit + 1)) (sort_key (\<lambda>q. - fID q)
       (filter (\<lambda>q. fStatus q = RequestStatusPending
          \<and> (if direction = ''incoming'' then fToUID q = agentID else fFromUID q = agentID)
          \<and> (cursor > 0 \<longrightarrow> fID q < cursor)) (friend_requests d))))) (\<lambda>requests.
       if int (length requests) > limit then ret (Inr (take (nat limit) requests, True))
       else ret (Inr (requests, False)))"

text \<open>\<open>LEFT JOIN agents\<close> and \<open>COALESCE(a.is_official, FALSE)\<close>.\<close>

definition is_official :: "database \<Rightarrow> int \<Rightarrow> bool" where
  "is_official d uid \<longleftrightarrow> (\<exists>a \<in> set (agents d). aAgentID a = uid \<and> aIsOfficial a)"

text \<open>The order \<open>official DESC, id DESC\<close>.\<close>

definition friend_key :: "database \<Rightarrow> UserRelation \<Rightarrow> int \<times> int" where
  "friend_key d r = ((if is_official d (rToUID r) then 0 else 1), - rID r)"

definition friend_rows :: "database \<Rightarrow> int \<Rightarrow> UserRelation list" where
  "friend_rows d agentID = filter (\<lambda>r. rFromUID r = agentID \<and> rRelType r = RelTypeFriend) (user_relations d)"

definition official_cursor :: "database \<Rightarrow> int \<Rightarrow> int \<Rightarrow> bool" where
  "official_cursor d agentID cursor \<longleftrightarrow>
     (\<exists>r \<in> set (friend_rows d agentID). rID r = cursor \<and> is_official d (rToUID r))"

definition friends_page :: "database \<Rightarrow> int \<Rightarrow> int \<Rightarrow> bool \<Rightarrow> int \<Rightarrow> UserRelation list" where
  "friends_page d agentID cursor officialCursor limit =
     take (nat limit) (sort_key (friend_key d) (filter
       (\<lambda>r. cursor > 0 \<longrightarrow>
          (if officialCursor then \<not> is_official d (rToUID r) \<or> rID r < cursor
           else \<not> is_official d (rToUID r) \<and> rID r < cursor)) (friend_rows d agentID)))"

definition ListFriends_db :: "int \<Rightarrow> int \<Rightarrow> int \<Rightarrow> Friend list res io" where
  "ListFriends_db agentID cursor limit =
     and_then (if cursor > 0 then db_query (\<lambda>d. official_cursor d agentID cursor) else ret (Inr False))
       (\<lambda>officialCursor.
     and_then (db_query (\<lambda>d. friends_page d agentID cursor officialCursor limit)) (\<lambda>relations.
       if relations = [] then ret (Inr [])
       else and_then (BatchGetAgentProfiles (map rToUID relations)) (\<lambda>profileMap.
         ret (Inr (map (\<lambda>rel.
           (let p = map_get profileMap \<lparr>apAgentName = [], apBio = []\<rparr> (rToUID rel)
            in \<lparr>frRelationID = rID rel, frAgentID = rToUID rel, frAgentName = apAgentName p,
                frBio = apBio p, frFriendSince = rCreatedAt rel, frRemark = rRemark rel\<rparr>)) relations)))))"

definition CountFriends :: "int \<Rightarrow> int res io" where
  "CountFriends agentID = db_query (\<lambda>d. int (length (friend_rows d agentID)))"

definition UpdateFriendRemark_db :: "int \<Rightarrow> int \<Rightarrow> string \<Rightarrow> unit res io" where
  "UpdateFriendRemark_db agentID friendUID remark =
     and_then (db_stmt (\<lambda>d.
       (Inr (length (filter (\<lambda>r. rFromUID r = agentID \<and> rToUID r = friendUID \<and> rRelType r = RelTypeFriend)
          (user_relations d))),
        d\<lparr>user_relations := update_where
            (\<lambda>r. rFromUID r = agentID \<and> rToUID r = friendUID \<and> rRelType r = RelTypeFriend)
            (\<lambda>r. r\<lparr>rRemark := remark\<rparr>) (user_relations d)\<rparr>))) (\<lambda>rows.
       if rows = 0 then ret (Inl (ErrText ''friend relation not found'')) else ret (Inr ()))"

end
