(* ===== verification/RelCache.thy ===== *)
theory RelCache
  imports RelDal
begin

text \<open>
  The Redis sets of friends and of blocked agents: \<open>rpc/pm/relations/cache.go\<close>. A missing set is
  loaded from the tables; any error of the cache falls back to the tables. \<open>coherent\<close> says when
  a cached set agrees with the tables: a set that is present holds exactly the relations of
  its owner.
\<close>

abbreviation RelationCacheTTL :: int where "RelationCacheTTL \<equiv> 86400000"

definition rel_targets :: "database \<Rightarrow> int \<Rightarrow> int \<Rightarrow> int list" where
  "rel_targets d uid relType =
     map rToUID (filter (\<lambda>r. rFromUID r = uid \<and> rRelType r = relType) (user_relations d))"

definition LoadFriendSet :: "int \<Rightarrow> unit res io" where
  "LoadFriendSet uid =
     and_then (db_query (\<lambda>d. rel_targets d uid RelTypeFriend)) (\<lambda>members.
       cache_ReplaceSet (Friends uid) members RelationCacheTTL)"

definition LoadBlockSet :: "int \<Rightarrow> unit res io" where
  "LoadBlockSet uid =
     and_then (db_query (\<lambda>d. rel_targets d uid RelTypeBlock)) (\<lambda>members.
       cache_ReplaceSet (Blocks uid) members RelationCacheTTL)"

text \<open>The shape the two cached checks share: look up, load on a miss, fall back on an error.\<close>

definition cached_member :: "rkey \<Rightarrow> unit res io \<Rightarrow> bool res io \<Rightarrow> int \<Rightarrow> bool res io" where
  "cached_member key load fallback x = do {
     exists \<leftarrow> cache_Exists key;
     (case exists of
        Inl _ \<Rightarrow> fallback
      | Inr present \<Rightarrow> do {
          loaded \<leftarrow> (if present then ret (Inr ()) else load);
          (case loaded of
             Inl _ \<Rightarrow> fallback
           | Inr _ \<Rightarrow> do {
               isMember \<leftarrow> cache_IsMember key x;
               (case isMember of Inl _ \<Rightarrow> fallback | Inr b \<Rightarrow> ret (Inr b)) }) }) }"

definition IsFriendCached :: "int \<Rightarrow> int \<Rightarrow> bool res io" where
  "IsFriendCached uidA uidB =
     cached_member (Friends uidA) (LoadFriendSet uidA) (IsFriend uidA uidB) uidB"

definition IsBlockedCached :: "int \<Rightarrow> int \<Rightarrow> bool res io" where
  "IsBlockedCached fromUID toUID =
     cached_member (Blocks fromUID) (LoadBlockSet fromUID) (IsBlocked fromUID toUID) toUID"

definition InvalidateFriendCache :: "int \<Rightarrow> unit res io" where
  "InvalidateFriendCache uid = cache_Remove [Friends uid, FriendCount uid]"

definition InvalidateBlockCache :: "int \<Rightarrow> unit res io" where
  "InvalidateBlockCache uid = cache_Remove [Blocks uid]"

section \<open>Agreement of a cached set with the tables\<close>

text \<open>
  A set that is cached holds exactly the given members, and its lifetime does not end before
  \<open>T\<close> (a Redis set is never empty).
\<close>

definition coherent_until :: "int \<Rightarrow> rkey \<Rightarrow> int list \<Rightarrow> redis \<Rightarrow> bool" where
  "coherent_until T key members rs \<longleftrightarrow>
     (\<forall>v e. rs key = Some (v, e) \<longrightarrow>
        (\<exists>xs. v = RSet xs \<and> set xs = set members) \<and> members \<noteq> [] \<and> (\<forall>x. e = Some x \<longrightarrow> T < x))"

lemma rel_targets_mem: "b \<in> set (rel_targets d a t) \<longleftrightarrow> (a, b, t) \<in> rels d"
  by (auto simp: rel_targets_def rels_def rel_of_def image_iff)

lemma count_mem:
  "0 < length (filter (\<lambda>r. rFromUID r = a \<and> rToUID r = b \<and> rRelType r = t) (user_relations d))
   \<longleftrightarrow> (a, b, t) \<in> rels d"
  by (auto simp: rels_def rel_of_def image_iff filter_empty_conv)

text \<open>
  Partial correctness up to a deadline: what a program establishes if it ends by time \<open>T\<close>.
\<close>

definition valid_by :: "int \<Rightarrow> (world \<Rightarrow> bool) \<Rightarrow> 'a io \<Rightarrow> ('a \<Rightarrow> world \<Rightarrow> bool) \<Rightarrow> bool" where
  "valid_by T P m Q \<longleftrightarrow> valid P m (\<lambda>r w. w_now w \<le> T \<longrightarrow> Q r w)"

lemma valid_byD: "valid_by T P m Q \<Longrightarrow> P w \<Longrightarrow> run_state m w = (r, w') \<Longrightarrow> w_now w' \<le> T \<Longrightarrow> Q r w'"
  unfolding valid_by_def valid_def by (metis fst_conv snd_conv)

lemma valid_by_bind:
  assumes "valid_by T P m Q" "\<And>a. valid_by T (Q a) (f a) R" "\<And>a. advances (f a)"
  shows "valid_by T P (State_Monad.bind m f) R"
  unfolding valid_by_def
proof (rule validI)
  fix w assume P: "P w"
  obtain a w1 where 1: "run_state m w = (a, w1)" by force
  obtain r w2 where 2: "run_state (f a) w1 = (r, w2)" by force
  have "R r w2" if "w_now w2 \<le> T"
  proof -
    have "w_now w1 \<le> T" using advancesD [OF assms(3) 2] that by simp
    then show ?thesis using valid_byD [OF assms(2) _ 2 that] valid_byD [OF assms(1) P 1] by blast
  qed
  then show "w_now (snd (run_state (State_Monad.bind m f) w)) \<le> T \<longrightarrow>
      R (fst (run_state (State_Monad.bind m f) w)) (snd (run_state (State_Monad.bind m f) w))"
    using 1 2 by simp
qed

lemma valid_by_return: "(\<And>w. P w \<Longrightarrow> Q x w) \<Longrightarrow> valid_by T P (ret x) Q"
  by (simp add: valid_by_def valid_return)

lemma valid_by_pre: "valid_by T P' m Q \<Longrightarrow> (\<And>w. P w \<Longrightarrow> P' w) \<Longrightarrow> valid_by T P m Q"
  by (auto simp: valid_by_def intro: valid_weaken)

lemma valid_by_post: "valid_by T P m Q' \<Longrightarrow> (\<And>r w. Q' r w \<Longrightarrow> Q r w) \<Longrightarrow> valid_by T P m Q"
  by (auto simp: valid_by_def intro: valid_post)

lemma valid_by_sum:
  "(\<And>e. r = Inl e \<Longrightarrow> valid_by T P (f e) Q) \<Longrightarrow> (\<And>x. r = Inr x \<Longrightarrow> valid_by T P (g x) Q)
   \<Longrightarrow> valid_by T P (case r of Inl e \<Rightarrow> f e | Inr x \<Rightarrow> g x) Q"
  by (cases r) auto

lemma valid_by_if:
  "(b \<Longrightarrow> valid_by T P m Q) \<Longrightarrow> (\<not> b \<Longrightarrow> valid_by T P m' Q) \<Longrightarrow> valid_by T P (if b then m else m') Q"
  by simp

text \<open>The clock shows at least \<open>t0\<close> and the stores satisfy \<open>J\<close>.\<close>

definition since :: "int \<Rightarrow> (database \<Rightarrow> redis \<Rightarrow> bool) \<Rightarrow> world \<Rightarrow> bool" where
  "since t0 J w \<longleftrightarrow> t0 \<le> w_now w \<and> J (w_db w) (w_redis w)"

lemma valid_by_cmd:
  assumes "\<And>d rs t. J d rs \<Longrightarrow> t0 \<le> t \<Longrightarrow> t \<le> T \<Longrightarrow> K d (snd (c t rs)) \<and> Q (fst (c t rs)) d (snd (c t rs))"
    and "\<And>d rs. J d rs \<Longrightarrow> K d rs" and "\<And>e d rs. Q (Inl e) d rs"
  shows "valid_by T (since t0 J) (redis_cmd c) (\<lambda>r. since t0 (\<lambda>d rs. K d rs \<and> Q r d rs))"
  unfolding valid_by_def
proof (rule validI)
  fix w assume P: "since t0 J w"
  obtain r w' where run: "run_state (redis_cmd c) w = (r, w')" by force
  have le: "w_now w \<le> w_now w'" using redis_cmd_time [OF run] .
  have "since t0 (\<lambda>d rs. K d rs \<and> Q r d rs) w'" if "w_now w' \<le> T"
    using run that le P assms(1) [of "w_db w" "w_redis w" "w_now w'"] assms(2,3)
    by (cases rule: run_redis_cmd [of c w]) (auto simp: since_def)
  then show "w_now (snd (run_state (redis_cmd c) w)) \<le> T \<longrightarrow>
      since t0 (\<lambda>d rs. K d rs \<and> Q (fst (run_state (redis_cmd c) w)) d rs) (snd (run_state (redis_cmd c) w))"
    using run by simp
qed

lemma db_query_time: "run_state (db_query q) w = (r, w') \<Longrightarrow> w_now w \<le> w_now w'"
proof -
  assume run: "run_state (db_query q) w = (r, w')"
  obtain oc w1 where st: "run_state io_step w = (oc, w1)" by force
  have "w_now w' = w_now w1"
    using run st by (auto simp: db_query_def db_stmt_def split: prod.splits if_splits outcome.splits)
  with io_step_time [OF st] show ?thesis by simp
qed

lemma advances_db_query [io_intros]: "advances (db_query q)"
  unfolding advances_def by (rule allI, rule db_query_time, rule prod.collapse [symmetric])

lemma valid_by_query:
  "valid_by T (since t0 J) (db_query q) (\<lambda>r. since t0 (\<lambda>d rs. J d rs \<and> (\<forall>x. r = Inr x \<longrightarrow> x = q d)))"
  unfolding valid_by_def
proof (rule validI)
  fix w assume P: "since t0 J w"
  obtain r w' where run: "run_state (db_query q) w = (r, w')" by force
  have "since t0 (\<lambda>d rs. J d rs \<and> (\<forall>x. r = Inr x \<longrightarrow> x = q d)) w'"
    using run P db_query_time [OF run] unfolding db_query_def
    by (cases rule: run_db_stmt [of "\<lambda>d. (Inr (q d), d)" w]) (auto simp: since_def)
  then show "w_now (snd (run_state (db_query q) w)) \<le> T \<longrightarrow>
      since t0 (\<lambda>d rs. J d rs \<and> (\<forall>x. fst (run_state (db_query q) w) = Inr x \<longrightarrow> x = q d)) (snd (run_state (db_query q) w))"
    using run by simp
qed

lemma valid_by_client:
  "valid_by T (since t0 J) m Q \<Longrightarrow> (\<And>w. since t0 J w \<Longrightarrow> Q (Inl NilClient) w) \<Longrightarrow>
   valid_by T (since t0 J) (do { n \<leftarrow> gets w_rdb_nil; if n then ret (Inl NilClient) else m }) Q"
  by (auto simp: valid_by_def valid_def)

lemma reliable_cmd [io_intros]: "preserves reliable (redis_cmd c)"
  unfolding preserves_def by (metis reliable_redis_cmd snd_conv)

lemma reliable_query: "valid reliable (db_query q) (\<lambda>r w. reliable w \<and> (\<exists>x. r = Inr x))"
  unfolding valid_def by (metis reliable_db_query fst_conv snd_conv)

lemma reliable_query_keeps [io_intros]: "preserves reliable (db_query q)"
  unfolding preserves_def by (metis reliable_db_query snd_conv)

lemma advances_gets [io_intros]: "advances (gets f)"
  by (simp add: advances_def)

lemma advances_cache [io_intros]:
  "advances (cache_Exists k)" "advances (cache_IsMember k x)" "advances (cache_ReplaceSet k ms ttl)"
  unfolding cache_defs by (intro io_intros)+

section \<open>Read-through sets\<close>

text \<open>
  The contract the two cached checks share: a set per agent whose members are a function of
  the tables, a loader that fills it from a query, and a query that answers the same question.
\<close>

locale read_through =
  fixes key :: "int \<Rightarrow> rkey" and load :: "int \<Rightarrow> unit res io" and fallback :: "int \<Rightarrow> int \<Rightarrow> bool res io"
    and members :: "database \<Rightarrow> int \<Rightarrow> int list"
  assumes load: "load uid = and_then (db_query (\<lambda>d. members d uid))
      (\<lambda>ms. cache_ReplaceSet (key uid) ms RelationCacheTTL)"
    and fallback: "fallback uid x = db_query (\<lambda>d. x \<in> set (members d uid))"
begin

definition agrees :: "int \<Rightarrow> int \<Rightarrow> database \<Rightarrow> redis \<Rightarrow> bool" where
  "agrees T uid d rs \<longleftrightarrow> coherent_until T (key uid) (members d uid) rs"

definition filled :: "int \<Rightarrow> int \<Rightarrow> database \<Rightarrow> redis \<Rightarrow> bool" where
  "filled T uid d rs \<longleftrightarrow> agrees T uid d rs \<and> (rs (key uid) \<noteq> None \<or> members d uid = [])"

definition answers :: "int \<Rightarrow> int \<Rightarrow> int \<Rightarrow> int \<Rightarrow> bool res \<Rightarrow> world \<Rightarrow> bool" where
  "answers t0 T uid x r = since t0 (\<lambda>d rs. agrees T uid d rs \<and> (\<forall>b. r = Inr b \<longrightarrow> b = (x \<in> set (members d uid))))"

lemma fallback_answers: "valid_by T (since t0 (agrees T uid)) (fallback uid x) (answers t0 T uid x)"
  unfolding fallback answers_def by (rule valid_by_query)

lemma exists_step:
  "valid_by T (since t0 (agrees T uid)) (cache_Exists (key uid))
     (\<lambda>r. since t0 (\<lambda>d rs. agrees T uid d rs \<and> (r = Inr True \<longrightarrow> filled T uid d rs)))"
  unfolding cache_Exists_def
proof (rule valid_by_client)
  have "valid_by T (since t0 (agrees T uid)) (redis_cmd (EXISTS (key uid)))
     (\<lambda>r. since t0 (\<lambda>d rs. agrees T uid d rs \<and> (r = Inr True \<longrightarrow> filled T uid d rs)))"
    by (rule valid_by_cmd)
      (auto simp: EXISTS_def filled_def live_def split: option.splits)
  then show "valid_by T (since t0 (agrees T uid)) (redis_cmd (EXISTS (key uid)))
     (\<lambda>r. since t0 (\<lambda>d rs. agrees T uid d rs \<and> (r = Inr True \<longrightarrow> filled T uid d rs)))" .
qed (simp add: since_def)

lemma replaced:
  assumes "t0 \<le> t" "T < t0 + RelationCacheTTL"
  shows "filled T uid d (snd ((if members d uid = [] then DEL [key uid]
      else seq_cmd (seq_cmd (DEL [key uid]) (SADD (key uid) (members d uid)))
        (\<lambda>t rs. (Inr () :: unit res, snd (EXPIRE (key uid) RelationCacheTTL t rs)))) t rs))"
  using assms
  by (auto simp: filled_def agrees_def coherent_until_def seq_cmd_def SADD_def EXPIRE_def DEL_eq live_def)

lemma load_step:
  assumes "T < t0 + RelationCacheTTL"
  shows "valid_by T (since t0 (agrees T uid)) (load uid)
     (\<lambda>r. since t0 (\<lambda>d rs. agrees T uid d rs \<and> (r = Inr () \<longrightarrow> filled T uid d rs)))"
  unfolding load and_then_def
proof (rule valid_by_bind [OF valid_by_query])
  fix q
  show "advances (case q of Inl e \<Rightarrow> ret (Inl e)
      | Inr ms \<Rightarrow> cache_ReplaceSet (key uid) ms RelationCacheTTL)" by (intro io_intros)
  let ?P = "since t0 (\<lambda>d rs. agrees T uid d rs \<and> (\<forall>ms. q = Inr ms \<longrightarrow> ms = members d uid))"
  let ?Q = "\<lambda>r. since t0 (\<lambda>d rs. agrees T uid d rs \<and> (r = Inr () \<longrightarrow> filled T uid d rs))"
  have fill: "valid_by T (since t0 (\<lambda>d rs. agrees T uid d rs \<and> ms = members d uid))
      (cache_ReplaceSet (key uid) ms RelationCacheTTL) ?Q" for ms
    unfolding cache_ReplaceSet_def
  proof (rule valid_by_client)
    show "valid_by T (since t0 (\<lambda>d rs. agrees T uid d rs \<and> ms = members d uid))
      (redis_cmd (if ms = [] then DEL [key uid]
        else seq_cmd (seq_cmd (DEL [key uid]) (SADD (key uid) ms))
          (\<lambda>t rs. (Inr (), snd (EXPIRE (key uid) RelationCacheTTL t rs))))) ?Q"
      (is "valid_by T _ (redis_cmd ?c) _")
    proof (rule valid_by_cmd)
      fix d rs t assume a: "agrees T uid d rs \<and> ms = members d uid" and t: "t0 \<le> t"
      have "filled T uid d (snd (?c t rs))" using replaced [OF t assms, of uid d rs] a by (simp only:)
      then show "agrees T uid d (snd (?c t rs)) \<and> (fst (?c t rs) = Inr () \<longrightarrow> filled T uid d (snd (?c t rs)))"
        by (simp only: filled_def simp_thms)
    qed auto
  qed (simp add: since_def)
  show "valid_by T ?P (case q of Inl e \<Rightarrow> ret (Inl e) | Inr ms \<Rightarrow> cache_ReplaceSet (key uid) ms RelationCacheTTL) ?Q"
    by (rule valid_by_sum) (auto intro!: valid_by_return valid_by_pre [OF fill] simp: since_def)
qed

lemma member_step:
  "valid_by T (since t0 (filled T uid)) (cache_IsMember (key uid) x) (answers t0 T uid x)"
  unfolding cache_IsMember_def answers_def
proof (rule valid_by_client)
  show "valid_by T (since t0 (filled T uid)) (redis_cmd (SISMEMBER (key uid) x))
      (\<lambda>r. since t0 (\<lambda>d rs. agrees T uid d rs \<and> (\<forall>b. r = Inr b \<longrightarrow> b = (x \<in> set (members d uid)))))"
    by (rule valid_by_cmd)
      (auto simp: SISMEMBER_def filled_def agrees_def coherent_until_def live_def split: option.splits)
qed (simp add: since_def filled_def)

lemma advances_fallback [io_intros]: "advances (fallback uid x)"
  unfolding fallback by (intro io_intros)

lemma advances_load [io_intros]: "advances (load uid)"
  unfolding load and_then_def by (intro io_intros)

text \<open>Whatever fails, a check that ends before the lifetime of the set does not lie.\<close>

lemma check_sound:
  assumes "T < t0 + RelationCacheTTL"
  shows "valid_by T (since t0 (agrees T uid)) (cached_member (key uid) (load uid) (fallback uid x) x) (answers t0 T uid x)"
proof -
  note fb = fallback_answers [of T t0 uid x]
  have ask: "valid_by T (since t0 (filled T uid)) (do {
      isMember \<leftarrow> cache_IsMember (key uid) x;
      (case isMember of Inl _ \<Rightarrow> fallback uid x | Inr b \<Rightarrow> ret (Inr b)) }) (answers t0 T uid x)"
    by (rule valid_by_bind [OF member_step])
      (auto intro!: valid_by_sum valid_by_return valid_by_pre [OF fb] io_intros simp: answers_def since_def)
  have loaded: "valid_by T (since t0 (\<lambda>d rs. agrees T uid d rs \<and> (l = Inr () \<longrightarrow> filled T uid d rs)))
      (case l of Inl _ \<Rightarrow> fallback uid x | Inr _ \<Rightarrow> do {
        isMember \<leftarrow> cache_IsMember (key uid) x;
        (case isMember of Inl _ \<Rightarrow> fallback uid x | Inr b \<Rightarrow> ret (Inr b)) }) (answers t0 T uid x)" for l
    by (rule valid_by_sum) (auto intro!: valid_by_pre [OF fb] valid_by_pre [OF ask] simp: since_def)
  have present: "valid_by T (since t0 (\<lambda>d rs. agrees T uid d rs \<and> (p \<longrightarrow> filled T uid d rs)))
      (if p then ret (Inr ()) else load uid)
      (\<lambda>l. since t0 (\<lambda>d rs. agrees T uid d rs \<and> (l = Inr () \<longrightarrow> filled T uid d rs)))" for p
    by (rule valid_by_if) (auto intro!: valid_by_return valid_by_pre [OF load_step [OF assms]] simp: since_def)
  show ?thesis
    unfolding cached_member_def
    apply (rule valid_by_bind [OF exists_step])
     apply (rule valid_by_sum)
      apply (rule valid_by_pre [OF fb], simp add: since_def)
     apply (rule valid_by_bind [OF valid_by_pre [OF present]])
       apply (auto simp: since_def) [1]
      apply (rule loaded)
     apply (intro io_intros)+
    done
qed

text \<open>When nothing fails there is an answer.\<close>

lemma check_answers:
  "valid reliable (cached_member (key uid) (load uid) (fallback uid x) x) (\<lambda>r w. reliable w \<and> (\<exists>b. r = Inr b))"
proof -
  have keep: "valid reliable m (\<lambda>_. reliable)" if "preserves reliable m" for m :: "'z io"
    using that by (simp add: preserves_valid)
  have load_keeps: "preserves reliable (load uid)"
    unfolding load and_then_def cache_ReplaceSet_def by (intro io_intros)
  show ?thesis
    unfolding cached_member_def cache_Exists_def cache_IsMember_def fallback
    by (intro valid_bind [OF keep] valid_sum valid_if reliable_query io_intros load_keeps)
      (auto intro: valid_return)
qed

end

interpretation friend_sets: read_through Friends LoadFriendSet IsFriend "\<lambda>d uid. rel_targets d uid RelTypeFriend"
  by unfold_locales (simp_all only: LoadFriendSet_def IsFriend_def rel_targets_mem count_mem)

interpretation block_sets: read_through Blocks LoadBlockSet IsBlocked "\<lambda>d uid. rel_targets d uid RelTypeBlock"
  by unfold_locales (simp_all only: LoadBlockSet_def IsBlocked_def rel_targets_mem count_mem)

lemma checks_keep_db: "keeps w_db (IsFriendCached a b)" "keeps w_db (IsBlockedCached a b)"
  by (auto simp: IsFriendCached_def IsBlockedCached_def cached_member_def LoadFriendSet_def LoadBlockSet_def
      IsFriend_def IsBlocked_def intro!: io_intros)

text \<open>C26: if the cached set of an agent agrees with the tables and neither its lifetime nor that
  of a freshly loaded set ends before the call does, then \<open>IsFriendCached\<close> and \<open>IsBlockedCached\<close> never
  give a wrong answer, whatever fails; they leave the tables alone and the set in agreement; and
  they do give an answer when nothing fails.\<close>

theorem relation_checks_sound:
  assumes "(check, key, ty) \<in> {(IsFriendCached a b, Friends a, RelTypeFriend), (IsBlockedCached a b, Blocks a, RelTypeBlock)}"
    and "coherent_until T key (rel_targets (w_db w) a ty) (w_redis w)"
    and "T < w_now w + RelationCacheTTL" and "run_state check w = (r, w')" and "w_now w' \<le> T"
  shows "w_db w' = w_db w \<and> coherent_until T key (rel_targets (w_db w) a ty) (w_redis w') \<and>
    (\<forall>v. r = Inr v \<longrightarrow> v = ((a, b, ty) \<in> rels (w_db w))) \<and> (reliable w \<longrightarrow> (\<exists>v. r = Inr v))"
proof -
  have db: "w_db w' = w_db w" using assms(1,4) checks_keep_db [THEN keepsD] by auto
  consider (friend) "check = IsFriendCached a b" "key = Friends a" "ty = RelTypeFriend"
    | (blocked) "check = IsBlockedCached a b" "key = Blocks a" "ty = RelTypeBlock" using assms(1) by auto
  then show ?thesis
  proof cases
    case friend
    have pre: "since (w_now w) (friend_sets.agrees T a) w"
      using assms(2) friend by (simp add: since_def friend_sets.agrees_def)
    note run = assms(4) [unfolded friend(1) IsFriendCached_def]
    show ?thesis
      using valid_byD [OF friend_sets.check_sound [OF assms(3)] pre run assms(5)] db friend
        validD [OF friend_sets.check_answers _ run]
      by (auto simp: friend_sets.answers_def friend_sets.agrees_def since_def rel_targets_mem)
  next
    case blocked
    have pre: "since (w_now w) (block_sets.agrees T a) w"
      using assms(2) blocked by (simp add: since_def block_sets.agrees_def)
    note run = assms(4) [unfolded blocked(1) IsBlockedCached_def]
    show ?thesis
      using valid_byD [OF block_sets.check_sound [OF assms(3)] pre run assms(5)] db blocked
        validD [OF block_sets.check_answers _ run]
      by (auto simp: block_sets.answers_def block_sets.agrees_def since_def rel_targets_mem)
  qed
qed

text \<open>Agent 1 has the friend 2, the set of friends is cached until time 100.\<close>

definition friends_world :: world where
  "friends_world = empty_world\<lparr>w_db := empty_db\<lparr>user_relations :=
       [\<lparr>rID = 1, rFromUID = 1, rToUID = 2, rRelType = RelTypeFriend, rCreatedAt = 0, rRemark = []\<rparr>]\<rparr>,
     w_redis := [Friends 1 \<mapsto> (RSet [2], Some 100)], w_env := [(50, Fine), (40, Fine)]\<rparr>"

lemma friends_world_run:
  "fst (run_state (IsFriendCached 1 2) friends_world) = Inr True" "w_now (snd (run_state (IsFriendCached 1 2) friends_world)) = 90"
  by (simp_all add: IsFriendCached_def cached_member_def cache_defs redis_cmd_def io_step_def friends_world_def
      empty_world_def EXISTS_def SISMEMBER_def live_def)

lemma friends_world_coherent:
  "coherent_until 90 (Friends 1) (rel_targets (w_db friends_world) 1 RelTypeFriend) (w_redis friends_world)"
  by (simp add: coherent_until_def friends_world_def rel_targets_def)

theorem relation_checks_sound_witness:
  "coherent_until 90 (Friends 1) (rel_targets (w_db friends_world) 1 RelTypeFriend) (w_redis friends_world) \<and>
   fst (run_state (IsFriendCached 1 2) friends_world) = Inr True \<and> (1, 2, RelTypeFriend) \<in> rels (w_db friends_world)"
proof -
  obtain r w' where run: "run_state (IsFriendCached 1 2) friends_world = (r, w')" by force
  have r: "r = Inr True" "w_now w' = 90" using friends_world_run run by simp_all
  have now: "90 < w_now friends_world + RelationCacheTTL" by (simp add: friends_world_def empty_world_def)
  have le: "w_now w' \<le> 90" using r by simp
  have "(1, 2, RelTypeFriend) \<in> rels (w_db friends_world)"
    using relation_checks_sound [OF insertI1 friends_world_coherent now run le] r(1) by blast
  then show ?thesis using friends_world_coherent friends_world_run by simp
qed

text \<open>The lifetime matters. With the same tables and the same cached set, and with nothing
  failing, a check during which the set expires between its two commands denies a friendship that
  is in the tables, because membership in a set that is gone is false.\<close>

theorem relation_check_race:
  "let w = friends_world\<lparr>w_env := [(50, Fine), (50, Fine)]\<rparr> in
   reliable w \<and> (1, 2, RelTypeFriend) \<in> rels (w_db w) \<and> fst (run_state (IsFriendCached 1 2) w) = Inr False"
  by (simp add: IsFriendCached_def cached_member_def cache_defs redis_cmd_def io_step_def friends_world_def
      empty_world_def EXISTS_def SISMEMBER_def live_def reliable_def rels_def rel_of_def)

end
