(* ===== verification/Validator.thy ===== *)
theory Validator
  imports RelDal
begin

text \<open>
  The validator of \<open>rpc/pm/validator/validator.go\<close>: item ownership and availability, membership
  of a conversation, and the mapping from a pair and an origin to a conversation, each with
  its cache. \<open>singleflight\<close> only shares one concurrent database query among its callers, so a
  call is modelled as the one that runs it.
\<close>

abbreviation StatusDiscarded :: int where "StatusDiscarded \<equiv> 4"
abbreviation StatusDeleted :: int where "StatusDeleted \<equiv> 5"

definition GetItemOwner :: "int \<Rightarrow> int res io" where
  "GetItemOwner itemID =
     (let cacheKey = PMItemOwner itemID;
          query = do {
            result \<leftarrow> GetItemOwner_db itemID;
            (case result of
               Inl dbErr \<Rightarrow> do {
                 _ \<leftarrow> cache_Write cacheKey (Bytes ''null'') 300000;
                 ret (Inl (ErrText ''item not found'')) }
             | Inr ownerID \<Rightarrow> do {
                 _ \<leftarrow> cache_Write cacheKey (Num ownerID) 7200000;
                 ret (Inr ownerID) }) }
      in do {
        cached \<leftarrow> cache_Read cacheKey;
        (case cached of
           Inl _ \<Rightarrow> query
         | Inr p \<Rightarrow>
             if p = Bytes ''null'' then ret (Inl (ErrText ''item not found''))
             else (case json_int64 p of Some ownerID \<Rightarrow> ret (Inr ownerID) | None \<Rightarrow> query)) })"

definition ValidateItemAvailable :: "int \<Rightarrow> unit res io" where
  "ValidateItemAvailable itemID = do {
     r \<leftarrow> GetItemStatus itemID;
     ret (case r of
         Inl e \<Rightarrow> Inl (ErrText (''failed to check item status: '' @ err_text e))
       | Inr status \<Rightarrow>
           if status = StatusDeleted \<or> status = StatusDiscarded then Inl ErrItemNotAvailable else Inr ()) }"

definition ValidateNoReply :: "int \<Rightarrow> unit res io" where
  "ValidateNoReply itemID = do {
     cached \<leftarrow> cache_Read (PMItemResponse itemID);
     (case cached of
        Inr p \<Rightarrow>
          ret (if p = Bytes ''no_reply'' then Inl (ErrText ''this item does not accept replies'') else Inr ())
      | Inl _ \<Rightarrow> do {
          result \<leftarrow> GetItemExpectedResponse itemID;
          (case result of
             Inl dbErr \<Rightarrow> ret (Inl (ErrText (''failed to check expected_response: '' @ err_text dbErr)))
           | Inr resp \<Rightarrow> do {
               _ \<leftarrow> cache_Write (PMItemResponse itemID) (Bytes (if resp = [] then ''_empty'' else resp)) 300000;
               ret (if resp = ''no_reply'' then Inl (ErrText ''this item does not accept replies'')
                    else Inr ()) }) }) }"

definition conv_info :: "Conversation \<Rightarrow> ConvInfo" where
  "conv_info conv = \<lparr>ciParticipantA = cParticipantA conv, ciParticipantB = cParticipantB conv,
     ciStatus = cStatus conv, ciOriginType = cOriginType conv\<rparr>"

text \<open>The query behind the cache.\<close>

definition load_conversation_info :: "int \<Rightarrow> ConvInfo res io" where
  "load_conversation_info convID = do {
     result \<leftarrow> GetConversationByID convID;
     (case result of
        Inl dbErr \<Rightarrow> ret (Inl (ErrText ''conversation not found''))
      | Inr conv \<Rightarrow> do {
          _ \<leftarrow> cache_Write (PMConversation convID) (JConvInfo (conv_info conv)) 300000;
          ret (Inr (conv_info conv)) }) }"

definition GetConversationInfo :: "int \<Rightarrow> ConvInfo res io" where
  "GetConversationInfo convID = do {
     cached \<leftarrow> cache_Read (PMConversation convID);
     (case (case cached of Inl _ \<Rightarrow> None | Inr p \<Rightarrow> json_ConvInfo p) of
        Some info \<Rightarrow> ret (Inr info)
      | None \<Rightarrow> load_conversation_info convID) }"

definition checkMembership :: "ConvInfo \<Rightarrow> int \<Rightarrow> int res" where
  "checkMembership info senderID =
     (if ciStatus info = 1 then Inl (ErrText ''conversation is blocked'')
      else if ciStatus info = 2 then Inl (ErrText ''conversation is locked'')
      else if senderID = ciParticipantA info then Inr (ciParticipantB info)
      else if senderID = ciParticipantB info then Inr (ciParticipantA info)
      else Inl (ErrText ''sender is not a participant in this conversation''))"

definition ValidateConvMembership :: "int \<Rightarrow> int \<Rightarrow> int res io" where
  "ValidateConvMembership convID senderID = do {
     info \<leftarrow> GetConversationInfo convID;
     ret (case info of
         Inl _ \<Rightarrow> Inl (ErrText ''conversation not found'')
       | Inr i \<Rightarrow> checkMembership i senderID) }"

text \<open>The conversation, if there is one; an error of the database counts as none.\<close>

definition GetOrCreateConvID :: "int \<Rightarrow> int \<Rightarrow> int \<Rightarrow> int option res io" where
  "GetOrCreateConvID participantA participantB originID =
     (let mapKey = PMConversationMap participantA participantB originID;
          query = do {
            r \<leftarrow> GetConversationByParticipants participantA participantB originID;
            (case r of
               Inl _ \<Rightarrow> ret (Inr None)
             | Inr conv \<Rightarrow> do {
                 _ \<leftarrow> cache_Write mapKey (Num (cConvID conv)) 604800000;
                 ret (Inr (Some (cConvID conv))) }) }
      in do {
        cached \<leftarrow> cache_Read mapKey;
        (case cached of
           Inl _ \<Rightarrow> query
         | Inr p \<Rightarrow> (case json_int64 p of Some convID \<Rightarrow> ret (Inr (Some convID)) | None \<Rightarrow> query)) })"

definition CacheConvMapping :: "int \<Rightarrow> int \<Rightarrow> int \<Rightarrow> int \<Rightarrow> unit res io" where
  "CacheConvMapping participantA participantB originID convID =
     cache_Write (PMConversationMap participantA participantB originID) (Num convID) 604800000"

definition InvalidateConvCache :: "int \<Rightarrow> unit io" where
  "InvalidateConvCache convID = do { _ \<leftarrow> cache_Remove [PMConversation convID]; ret () }"

end
