(* ===== verification/GoText.thy ===== *)
theory GoText
  imports Prelude
begin

text \<open>
  Go strings are byte strings read as UTF-8. This theory holds the part of \<open>unicode/utf8\<close> and
  \<open>strings\<close> the service uses, the message guard of \<open>pkg/textguard/message.go\<close>, the weighted
  truncation of \<open>rpc/pm/handler.go\<close>, and the text helpers of \<open>pkg/agentidentity\<close> and
  \<open>rpc/pm/notifyutil\<close>. Which runes are Han, Hiragana, Katakana or Hangul is Unicode data of
  the standard library and a parameter (\<open>wide\<close>).
\<close>

section \<open>UTF-8\<close>

abbreviation byte :: "char \<Rightarrow> nat" where
  "byte c \<equiv> of_char c"

definition RuneError :: nat where
  "RuneError = 65533"

definition cont :: "nat \<Rightarrow> nat \<Rightarrow> char \<Rightarrow> bool" where
  "cont lo hi c \<longleftrightarrow> lo \<le> byte c \<and> byte c \<le> hi"

text \<open>The payload bits of a continuation byte and of a leading byte: \<open>b & 0x3F\<close>, \<open>p & 0x1F\<close>, ...\<close>

definition low :: "nat \<Rightarrow> char \<Rightarrow> nat" where
  "low m c = byte c mod m"

text \<open>
  \<open>utf8.DecodeRuneInString\<close> on a non-empty string: the rune, its size in bytes and whether the
  encoding is valid; an invalid one gives \<open>(RuneError, 1)\<close>.
\<close>

fun DecodeRune :: "string \<Rightarrow> nat \<times> nat \<times> bool" where
  "DecodeRune [] = (RuneError, 0, False)"
| "DecodeRune (a # s) =
     (let p = byte a in
      if p < 128 then (p, 1, True)
      else if 194 \<le> p \<and> p \<le> 223 then
        (case s of b # _ \<Rightarrow> if cont 128 191 b
             then (low 32 a * 64 + low 64 b, 2, True) else (RuneError, 1, False)
         | _ \<Rightarrow> (RuneError, 1, False))
      else if 224 \<le> p \<and> p \<le> 239 then
        (case s of b # c # _ \<Rightarrow>
             if cont (if p = 224 then 160 else 128) (if p = 237 then 159 else 191) b \<and> cont 128 191 c
             then (low 16 a * 4096 + low 64 b * 64 + low 64 c, 3, True)
             else (RuneError, 1, False)
         | _ \<Rightarrow> (RuneError, 1, False))
      else if 240 \<le> p \<and> p \<le> 244 then
        (case s of b # c # d # _ \<Rightarrow>
             if cont (if p = 240 then 144 else 128) (if p = 244 then 143 else 191) b
                \<and> cont 128 191 c \<and> cont 128 191 d
             then (low 8 a * 262144 + low 64 b * 4096 + low 64 c * 64 + low 64 d, 4, True)
             else (RuneError, 1, False)
         | _ \<Rightarrow> (RuneError, 1, False))
      else (RuneError, 1, False))"

declare DecodeRune.simps(2) [simp del]

lemma DecodeRune_size: "s \<noteq> [] \<Longrightarrow> DecodeRune s = (r, n, v) \<Longrightarrow> 1 \<le> n \<and> n \<le> length s"
  by (cases s) (auto simp: DecodeRune.simps Let_def split: if_splits list.splits)

text \<open>The runes of a string with their sizes, the iteration of \<open>for i, r := range s\<close>.\<close>

function runes :: "string \<Rightarrow> (nat \<times> nat \<times> bool) list" where
  "runes s = (if s = [] then [] else
     (case DecodeRune s of (r, n, v) \<Rightarrow> (r, n, v) # runes (drop n s)))"
  by pat_completeness auto
termination
  by (relation "measure length") (auto dest!: DecodeRune_size [OF _ sym])

declare runes.simps [simp del]

lemma runes_Nil [simp]: "runes [] = []"
  by (simp add: runes.simps)

lemma runes_Cons: "s \<noteq> [] \<Longrightarrow> DecodeRune s = (r, n, v) \<Longrightarrow> runes s = (r, n, v) # runes (drop n s)"
  by (subst runes.simps) simp

definition ValidString :: "string \<Rightarrow> bool" where
  "ValidString s \<longleftrightarrow> (\<forall>(r, n, v) \<in> set (runes s). v)"

text \<open>\<open>string(rune)\<close>: the UTF-8 encoding of a code point.\<close>

definition EncodeRune :: "nat \<Rightarrow> string" where
  "EncodeRune r =
     (let r = (if 55296 \<le> r \<and> r \<le> 57343 \<or> 1114111 < r then RuneError else r) in
      if r < 128 then [char_of r]
      else if r < 2048 then [char_of (192 + r div 64), char_of (128 + r mod 64)]
      else if r < 65536 then
        [char_of (224 + r div 4096), char_of (128 + r div 64 mod 64), char_of (128 + r mod 64)]
      else [char_of (240 + r div 262144), char_of (128 + r div 4096 mod 64),
            char_of (128 + r div 64 mod 64), char_of (128 + r mod 64)])"

lemma byte_lt [simp]: "byte c < 256"
  using of_char_mod_256 [of c, where ?'a = nat] by (metis mod_less_divisor zero_less_numeral)

lemma div_mod_base: "b < n \<Longrightarrow> (a * n + b) div n = a \<and> (a * n + b) mod n = (b :: nat)"
  by simp

lemma base64_2: "b < 64 \<Longrightarrow> (a * 64 + b) div 64 = a" "b < 64 \<Longrightarrow> (a * 64 + b) mod 64 = (b :: nat)"
  using div_mod_base [of b 64 a] by auto

lemma base64_3:
  assumes "b < 64" "c < (64 :: nat)"
  shows "(a * 4096 + b * 64 + c) div 4096 = a" "(a * 4096 + b * 64 + c) div 64 mod 64 = b"
    "(a * 4096 + b * 64 + c) mod 64 = c"
proof -
  have e: "a * 4096 + b * 64 + c = (a * 64 + b) * 64 + c" by simp
  have d: "((a * 64 + b) * 64 + c) div 64 = a * 64 + b" using base64_2(1) [OF assms(2)] .
  show "(a * 4096 + b * 64 + c) mod 64 = c" unfolding e using base64_2(2) [OF assms(2)] .
  show "(a * 4096 + b * 64 + c) div 64 mod 64 = b" unfolding e d using base64_2(2) [OF assms(1)] .
  have "(a * 4096 + b * 64 + c) div 64 div 64 = a" unfolding e d using base64_2(1) [OF assms(1)] .
  then show "(a * 4096 + b * 64 + c) div 4096 = a" by (simp add: div_mult2_eq [symmetric])
qed

lemma base64_4:
  assumes "b < 64" "c < 64" "d < (64 :: nat)"
  shows "(a * 262144 + b * 4096 + c * 64 + d) div 262144 = a"
    "(a * 262144 + b * 4096 + c * 64 + d) div 4096 mod 64 = b"
    "(a * 262144 + b * 4096 + c * 64 + d) div 64 mod 64 = c"
    "(a * 262144 + b * 4096 + c * 64 + d) mod 64 = d"
proof -
  have e: "a * 262144 + b * 4096 + c * 64 + d = (a * 64 + b) * 4096 + c * 64 + d" by simp
  note t = base64_3 [OF assms(2,3), of "a * 64 + b"]
  show "(a * 262144 + b * 4096 + c * 64 + d) div 64 mod 64 = c"
    "(a * 262144 + b * 4096 + c * 64 + d) mod 64 = d" unfolding e using t by blast+
  show "(a * 262144 + b * 4096 + c * 64 + d) div 4096 mod 64 = b"
    unfolding e t(1) using base64_2(2) [OF assms(1)] .
  have "(a * 262144 + b * 4096 + c * 64 + d) div 4096 div 64 = a"
    unfolding e t(1) using base64_2(1) [OF assms(1)] .
  then show "(a * 262144 + b * 4096 + c * 64 + d) div 262144 = a"
    by (simp add: div_mult2_eq [symmetric])
qed

text \<open>Encoding what a valid decoding read gives back the bytes it read.\<close>

lemma mod_window: "k * m \<le> n \<Longrightarrow> n < k * m + m \<Longrightarrow> n = k * m + n mod (m :: nat)"
  using div_nat_eqI [of m k n] div_mult_mod_eq [of n m] by (simp add: mult.commute add.commute)

lemma low_cont:
  assumes "cont lo hi c" "128 \<le> lo" "hi \<le> 191"
  shows "low 64 c < 64 \<and> byte c = 128 + low 64 c"
  using assms mod_window [of 2 64 "byte c"] by (auto simp: cont_def low_def)

lemma low_lead: "192 \<le> byte c \<Longrightarrow> byte c \<le> 223 \<Longrightarrow> byte c = 192 + low 32 c"
  "224 \<le> byte c \<Longrightarrow> byte c \<le> 239 \<Longrightarrow> byte c = 224 + low 16 c"
  "240 \<le> byte c \<Longrightarrow> byte c \<le> 247 \<Longrightarrow> byte c = 240 + low 8 c"
  using mod_window [of 6 32 "byte c"] mod_window [of 14 16 "byte c"] mod_window [of 30 8 "byte c"]
  by (simp_all add: low_def)

lemma char_byte: "byte c = n \<Longrightarrow> char_of n = c"
  by auto

lemma Encode_2:
  assumes "194 \<le> byte p" "byte p \<le> 223" "cont 128 191 q"
  shows "EncodeRune (low 32 p * 64 + low 64 q) = [p, q]"
proof -
  have l: "byte p = 192 + low 32 p" "low 64 q < 64" "byte q = 128 + low 64 q"
    using low_lead(1) [of p] low_cont [OF assms(3)] assms(1,2) by auto
  define r where "r = low 32 p * 64 + low 64 q"
  have "128 \<le> r" "r < 2048" using l assms(1,2) by (simp_all add: r_def)
  then have "EncodeRune r = [char_of (192 + low 32 p), char_of (128 + low 64 q)]"
    using base64_2 [OF l(2), of "low 32 p"] by (simp add: EncodeRune_def r_def [symmetric])
  then show ?thesis unfolding r_def using char_byte [OF l(1)] char_byte [OF l(3)] by simp
qed

lemma Encode_3:
  assumes "224 \<le> byte p" "byte p \<le> 239"
    "cont (if byte p = 224 then 160 else 128) (if byte p = 237 then 159 else 191) q" "cont 128 191 s"
  shows "EncodeRune (low 16 p * 4096 + low 64 q * 64 + low 64 s) = [p, q, s]"
proof -
  have q: "low 64 q < 64 \<and> byte q = 128 + low 64 q" by (rule low_cont [OF assms(3)]) auto
  have l: "byte p = 224 + low 16 p" "low 64 q < 64" "byte q = 128 + low 64 q"
    "low 64 s < 64" "byte s = 128 + low 64 s"
    using low_lead(2) [of p] q low_cont [OF assms(4)] assms(1,2) by auto
  have w: "low 16 p \<le> 15" "low 16 p = 0 \<Longrightarrow> 32 \<le> low 64 q" "low 16 p = 13 \<Longrightarrow> low 64 q \<le> 31"
    using assms(2,3) l by (auto simp: cont_def)
  define r where "r = low 16 p * 4096 + low 64 q * 64 + low 64 s"
  have r1: "2048 \<le> r" "r < 65536" using l w(1,2) by (cases "low 16 p = 0"; simp add: r_def)+
  have r2: "\<not> (55296 \<le> r \<and> r \<le> 57343)"
  proof
    assume h: "55296 \<le> r \<and> r \<le> 57343"
    then have "low 16 p = 13" using l by (auto simp: r_def)
    then show False using h w(3) l by (auto simp: r_def)
  qed
  have "EncodeRune r = [char_of (224 + low 16 p), char_of (128 + low 64 q), char_of (128 + low 64 s)]"
    using r1 r2 base64_3 [OF l(2,4), of "low 16 p"] by (auto simp: EncodeRune_def r_def [symmetric])
  then show ?thesis
    unfolding r_def using char_byte [OF l(1)] char_byte [OF l(3)] char_byte [OF l(5)] by simp
qed

lemma Encode_4:
  assumes "240 \<le> byte p" "byte p \<le> 244"
    "cont (if byte p = 240 then 144 else 128) (if byte p = 244 then 143 else 191) q"
    "cont 128 191 s" "cont 128 191 t"
  shows "EncodeRune (low 8 p * 262144 + low 64 q * 4096 + low 64 s * 64 + low 64 t) = [p, q, s, t]"
proof -
  have q: "low 64 q < 64 \<and> byte q = 128 + low 64 q" by (rule low_cont [OF assms(3)]) auto
  have l: "byte p = 240 + low 8 p" "low 64 q < 64" "byte q = 128 + low 64 q"
    "low 64 s < 64" "byte s = 128 + low 64 s" "low 64 t < 64" "byte t = 128 + low 64 t"
    using low_lead(3) [of p] q low_cont [OF assms(4)] low_cont [OF assms(5)] assms(1,2) by auto
  have w: "low 8 p \<le> 4" "low 8 p = 0 \<Longrightarrow> 16 \<le> low 64 q" "low 8 p = 4 \<Longrightarrow> low 64 q \<le> 15"
    using assms(2,3) l by (auto simp: cont_def)
  define r where "r = low 8 p * 262144 + low 64 q * 4096 + low 64 s * 64 + low 64 t"
  have r1: "65536 \<le> r" using l w(2) by (cases "low 8 p = 0"; simp add: r_def)
  have r2: "r \<le> 1114111" using l w(1,3) by (cases "low 8 p = 4"; simp add: r_def)
  have "EncodeRune r =
      [char_of (240 + low 8 p), char_of (128 + low 64 q), char_of (128 + low 64 s), char_of (128 + low 64 t)]"
    using r1 r2 base64_4 [OF l(2,4,6), of "low 8 p"] by (auto simp: EncodeRune_def r_def [symmetric])
  then show ?thesis
    unfolding r_def using char_byte [OF l(1)] char_byte [OF l(3)] char_byte [OF l(5)] char_byte [OF l(7)]
    by simp
qed

lemma Encode_1: "p < 128 \<Longrightarrow> EncodeRune p = [char_of p]"
  by (simp add: EncodeRune_def)

lemma Encode_Decode:
  assumes "s \<noteq> []" "DecodeRune s = (r, n, True)"
  shows "EncodeRune r = take n s"
  using assms
  by (cases s) (auto simp: DecodeRune.simps Let_def Encode_1 Encode_2 Encode_3 Encode_4
      simp del: if_split split: if_split_asm list.splits)

lemma runes_encode: "ValidString s \<Longrightarrow> concat (map (\<lambda>(r, _). EncodeRune r) (runes s)) = s"
proof (induction s rule: runes.induct)
  case (1 s)
  show ?case
  proof (cases "s = []")
    case False
    obtain r n v where d: "DecodeRune s = (r, n, v)" by (metis prod.exhaust)
    note rs = runes_Cons [OF False d]
    have "v" "ValidString (drop n s)" using "1.prems" by (auto simp: ValidString_def rs)
    with "1.IH" [OF False d [symmetric] refl] Encode_Decode [OF False] d
    show ?thesis by (simp add: rs)
  qed simp
qed

text \<open>\<open>string([]rune(s)[:k])\<close> when the string has more than \<open>k\<close> runes, the string itself otherwise.\<close>

definition rune_prefix :: "nat \<Rightarrow> string \<Rightarrow> string" where
  "rune_prefix k s =
     (if length (runes s) > k then concat (map (\<lambda>(r, _). EncodeRune r) (take k (runes s))) else s)"

section \<open>The message guard\<close>

text \<open>\<open>textguard.ValidateMessageContent\<close>: \<open>None\<close> accepts, otherwise the error's text.\<close>

definition ErrInvalidUTF8 :: string where
  "ErrInvalidUTF8 =
     ''INVALID_TEXT_ENCODING: message content is not valid UTF-8; regenerate it as UTF-8 before sending''"

definition ErrReplacementCharacter :: string where
  "ErrReplacementCharacter =
     ''INVALID_TEXT_ENCODING: message content contains U+FFFD; regenerate the original text before sending''"

definition ContainsRune :: "string \<Rightarrow> nat \<Rightarrow> bool" where
  "ContainsRune s r \<longleftrightarrow> r \<in> fst ` set (runes s)"

definition ValidateMessageContent :: "string \<Rightarrow> string option" where
  "ValidateMessageContent content =
     (if \<not> ValidString content then Some ErrInvalidUTF8
      else if ContainsRune content RuneError then Some ErrReplacementCharacter
      else None)"

section \<open>Weighted truncation\<close>

text \<open>\<open>truncateByWeightedLength\<close>: the loop over the runes with the byte offset \<open>i\<close>.\<close>

definition rune_weight :: "(nat \<Rightarrow> bool) \<Rightarrow> nat \<Rightarrow> nat" where
  "rune_weight wide r = (if wide r then 2 else 1)"

fun truncate_loop :: "(nat \<Rightarrow> bool) \<Rightarrow> nat \<Rightarrow> string \<Rightarrow> (nat \<times> nat \<times> bool) list \<Rightarrow> nat \<Rightarrow> nat \<Rightarrow> string" where
  "truncate_loop wide maxLen s [] i len = s"
| "truncate_loop wide maxLen s ((r, n, v) # rs) i len =
     (if len + rune_weight wide r > maxLen then take i s
      else truncate_loop wide maxLen s rs (i + n) (len + rune_weight wide r))"

definition truncateByWeightedLength :: "(nat \<Rightarrow> bool) \<Rightarrow> string \<Rightarrow> nat \<Rightarrow> string" where
  "truncateByWeightedLength wide s maxLen = truncate_loop wide maxLen s (runes s) 0 0"

definition weighted_length :: "(nat \<Rightarrow> bool) \<Rightarrow> (nat \<times> nat \<times> bool) list \<Rightarrow> nat" where
  "weighted_length wide rs = (\<Sum>(r, n, v) \<leftarrow> rs. rune_weight wide r)"

lemma weighted_length_simps [simp]:
  "weighted_length wide [] = 0"
  "weighted_length wide ((r, n, v) # rs) = rune_weight wide r + weighted_length wide rs"
  "weighted_length wide (xs @ ys) = weighted_length wide xs + weighted_length wide ys"
  by (simp_all add: weighted_length_def)

definition rune_bytes :: "(nat \<times> nat \<times> bool) list \<Rightarrow> nat" where
  "rune_bytes rs = (\<Sum>(r, n, v) \<leftarrow> rs. n)"

lemma rune_bytes_simps [simp]:
  "rune_bytes [] = 0" "rune_bytes ((r, n, v) # rs) = n + rune_bytes rs"
  "rune_bytes (xs @ ys) = rune_bytes xs + rune_bytes ys"
  by (simp_all add: rune_bytes_def)

lemma DecodeRune_valid_prefix:
  assumes "s \<noteq> []" "DecodeRune s = (r, n, True)"
  shows "DecodeRune (take n s @ u) = (r, n, True)"
  using assms
  by (cases s) (auto simp: DecodeRune.simps Let_def simp del: if_split split: if_split_asm list.splits)

lemma DecodeRune_invalid: "s \<noteq> [] \<Longrightarrow> DecodeRune s = (r, n, False) \<Longrightarrow> r = RuneError \<and> n = 1"
  by (cases s) (auto simp: DecodeRune.simps Let_def split: if_splits list.splits)

lemma DecodeRune_take:
  assumes d: "DecodeRune s = (r, n, v)" and s: "s \<noteq> []" and n: "n \<le> k"
  shows "DecodeRune (take k s) = (r, n, v)"
proof -
  have t: "take k s \<noteq> []" using s n DecodeRune_size [OF s d] by auto
  obtain r' n' v' where d': "DecodeRune (take k s) = (r', n', v')" by (metis prod.exhaust)
  show ?thesis
  proof (cases "v \<or> v'")
    case True
    then show ?thesis
    proof
      assume v
      have "take k s = take n s @ drop n (take k s)"
        using n by (metis append_take_drop_id min.absorb1 take_take)
      then show ?thesis using DecodeRune_valid_prefix [OF s, of r n] d \<open>v\<close> by metis
    next
      assume v'
      have "s = take n' (take k s) @ (drop n' (take k s) @ drop k s)"
        by (metis append_assoc append_take_drop_id)
      then have "DecodeRune s = (r', n', True)"
        using DecodeRune_valid_prefix [OF t, of r' n'] d' \<open>v'\<close> by metis
      then show ?thesis using d d' \<open>v'\<close> by simp
    qed
  next
    case False
    then show ?thesis using DecodeRune_invalid [OF s] DecodeRune_invalid [OF t] d d' by simp
  qed
qed

text \<open>Cutting at a rune boundary cuts the rune sequence, valid encoding or not.\<close>

lemma runes_take:
  "runes s = xs @ ys \<Longrightarrow> runes (take (rune_bytes xs) s) = xs"
proof (induction xs arbitrary: s)
  case (Cons x xs)
  have ne: "s \<noteq> []" using Cons.prems by auto
  obtain r n v where d: "DecodeRune s = (r, n, v)" by (metis prod.exhaust)
  have x: "x = (r, n, v)" and rest: "runes (drop n s) = xs @ ys"
    using Cons.prems runes_Cons [OF ne d] by auto
  have n: "1 \<le> n" "n \<le> length s" using DecodeRune_size [OF ne d] by auto
  have t: "take (rune_bytes (x # xs)) s \<noteq> []" using n ne x by auto
  have "DecodeRune (take (rune_bytes (x # xs)) s) = (r, n, v)"
    by (rule DecodeRune_take [OF d ne]) (simp add: x)
  from runes_Cons [OF t this] show ?case
    using Cons.IH [OF rest] x by (simp add: drop_take)
qed simp

lemma truncate_loop_spec:
  assumes "runes s = done @ rs" "weighted_length wide done \<le> m"
  shows "\<exists>xs ys. runes s = xs @ ys \<and> weighted_length wide xs \<le> m
    \<and> truncate_loop wide m s rs (rune_bytes done) (weighted_length wide done) =
        (if ys = [] then s else take (rune_bytes xs) s)
    \<and> (\<forall>y zs. ys = y # zs \<longrightarrow> m < weighted_length wide (xs @ [y]))"
  using assms
proof (induction rs arbitrary: "done")
  case Nil
  then show ?case by (intro exI [of _ "done"] exI [of _ "[]"]) auto
next
  case (Cons x rs)
  obtain r n v where x: "x = (r, n, v)" by (cases x)
  show ?case
  proof (cases "weighted_length wide done + rune_weight wide r > m")
    case True
    with Cons.prems x show ?thesis
      by (intro exI [of _ "done"] exI [of _ "x # rs"]) auto
  next
    case False
    with Cons.IH [of "done @ [x]"] Cons.prems x show ?thesis by (simp add: add.commute)
  qed
qed

section \<open>What the guard accepts\<close>

text \<open>A Unicode scalar value: a code point that is not a surrogate.\<close>

definition scalar_value :: "nat \<Rightarrow> bool" where
  "scalar_value r \<longleftrightarrow> r \<le> 1114111 \<and> \<not> (55296 \<le> r \<and> r \<le> 57343)"

lemma byte_char_of: "n < 256 \<Longrightarrow> byte (char_of n) = n"
  by simp

lemma Decode_lead:
  "a < 32 \<Longrightarrow> low 32 (char_of (192 + a)) = a" "a < 16 \<Longrightarrow> low 16 (char_of (224 + a)) = a"
  "a < 8 \<Longrightarrow> low 8 (char_of (240 + a)) = a" "a < 64 \<Longrightarrow> low 64 (char_of (128 + a)) = a"
  using mod_mult_self3 [of 6 32 a] mod_mult_self3 [of 14 16 a] mod_mult_self3 [of 30 8 a] mod_mult_self3 [of 2 64 a]
  by (simp_all add: low_def byte_char_of)

lemma Decode_2:
  "2 \<le> a \<Longrightarrow> a < 32 \<Longrightarrow> b < 64 \<Longrightarrow>
   DecodeRune (char_of (192 + a) # char_of (128 + b) # u) = (a * 64 + b, 2, True)"
  by (simp add: DecodeRune.simps Let_def byte_char_of cont_def Decode_lead)

lemma Decode_3:
  "a < 16 \<Longrightarrow> b < 64 \<Longrightarrow> c < 64 \<Longrightarrow> (a = 0 \<Longrightarrow> 32 \<le> b) \<Longrightarrow> (a = 13 \<Longrightarrow> b \<le> 31) \<Longrightarrow>
   DecodeRune (char_of (224 + a) # char_of (128 + b) # char_of (128 + c) # u) = (a * 4096 + b * 64 + c, 3, True)"
  by (simp add: DecodeRune.simps Let_def byte_char_of cont_def Decode_lead)

lemma Decode_4:
  "a \<le> 4 \<Longrightarrow> b < 64 \<Longrightarrow> c < 64 \<Longrightarrow> d < 64 \<Longrightarrow> (a = 0 \<Longrightarrow> 16 \<le> b) \<Longrightarrow> (a = 4 \<Longrightarrow> b \<le> 15) \<Longrightarrow>
   DecodeRune (char_of (240 + a) # char_of (128 + b) # char_of (128 + c) # char_of (128 + d) # u) =
     (a * 262144 + b * 4096 + c * 64 + d, 4, True)"
  by (simp add: DecodeRune.simps Let_def byte_char_of cont_def Decode_lead)

lemma Decode_Encode:
  assumes "scalar_value r"
  shows "DecodeRune (EncodeRune r @ u) = (r, length (EncodeRune r), True)"
proof -
  have b64: "r mod 64 < 64" "r div 64 mod 64 < 64" "r div 4096 mod 64 < 64" by simp_all
  have 1: "r div 4096 = r div 64 div 64" "r div 262144 = r div 4096 div 64" by (simp_all add: div_mult2_eq [symmetric])
  have split2: "r div 64 * 64 + r mod 64 = r" by simp
  have split3: "r div 4096 * 4096 + r div 64 mod 64 * 64 + r mod 64 = r"
    using div_mult_mod_eq [of "r div 64" 64] split2 unfolding 1 by linarith
  have split4: "r div 262144 * 262144 + r div 4096 mod 64 * 4096 + r div 64 mod 64 * 64 + r mod 64 = r"
    using div_mult_mod_eq [of "r div 4096" 64] split3 unfolding 1(2) by linarith
  consider "r < 128" | "128 \<le> r" "r < 2048" | "2048 \<le> r" "r < 65536" | "65536 \<le> r" by linarith
  then show ?thesis
  proof cases
    case 1
    then show ?thesis by (simp add: EncodeRune_def DecodeRune.simps)
  next
    case 2
    then have "2 \<le> r div 64" "r div 64 < 32" by auto
    from Decode_2 [OF this b64(1)] show ?thesis using 2 split2 by (simp add: EncodeRune_def)
  next
    case 3
    have a: "r div 4096 < 16" using 3 by auto
    have lo: "r div 4096 = 0 \<Longrightarrow> 32 \<le> r div 64 mod 64" using 3 by auto
    have hi: "r div 4096 = 13 \<Longrightarrow> r div 64 mod 64 \<le> 31" using 3 assms split3 by (auto simp: scalar_value_def)
    from Decode_3 [OF a b64(2,1) lo hi] show ?thesis
      using 3 split3 assms by (auto simp: EncodeRune_def scalar_value_def)
  next
    case 4
    have a: "r div 262144 \<le> 4" using assms by (auto simp: scalar_value_def)
    have lo: "r div 262144 = 0 \<Longrightarrow> 16 \<le> r div 4096 mod 64" using 4 by auto
    have hi: "r div 262144 = 4 \<Longrightarrow> r div 4096 mod 64 \<le> 15" using assms split4 by (auto simp: scalar_value_def)
    from Decode_4 [OF a b64(3,2,1) lo hi] show ?thesis
      using 4 split4 assms by (simp add: EncodeRune_def scalar_value_def)
  qed
qed

lemma runes_of_encoding:
  "\<forall>r \<in> set rs. scalar_value r \<Longrightarrow> runes (concat (map EncodeRune rs)) = map (\<lambda>r. (r, length (EncodeRune r), True)) rs"
proof (induction rs)
  case (Cons r rs)
  have ne: "EncodeRune r @ concat (map EncodeRune rs) \<noteq> []" by (simp add: EncodeRune_def Let_def)
  show ?case using Cons runes_Cons [OF ne Decode_Encode] by simp
qed simp

lemma Decode_scalar: "s \<noteq> [] \<Longrightarrow> DecodeRune s = (r, n, True) \<Longrightarrow> scalar_value r"
proof -
  assume "s \<noteq> []" "DecodeRune s = (r, n, True)"
  then have s: "DecodeRune (EncodeRune r @ drop n s) = (r, n, True)" using Encode_Decode [of s r n] by simp
  show "scalar_value r"
  proof (rule ccontr)
    assume no: "\<not> scalar_value r"
    have err: "scalar_value RuneError" by (simp add: scalar_value_def RuneError_def)
    have "EncodeRune r = EncodeRune RuneError"
      using no by (auto simp: EncodeRune_def scalar_value_def RuneError_def)
    then have "r = RuneError" using s Decode_Encode [OF err, of "drop n s"] by simp
    then show False using no err by simp
  qed
qed

lemma valid_runes:
  "ValidString s \<Longrightarrow> \<exists>rs. (\<forall>r \<in> set rs. scalar_value r) \<and> s = concat (map EncodeRune rs) \<and> fst ` set (runes s) = set rs"
proof (intro exI conjI)
  assume v: "ValidString s"
  let ?rs = "map fst (runes s)"
  show "s = concat (map EncodeRune ?rs)" using runes_encode [OF v] by (simp add: comp_def case_prod_unfold)
  show "fst ` set (runes s) = set ?rs" by simp
  show "\<forall>r \<in> set ?rs. scalar_value r"
    using v
  proof (induction s rule: runes.induct)
    case (1 s)
    show ?case
    proof (cases "s = []")
      case False
      obtain r n b where d: "DecodeRune s = (r, n, b)" by (metis prod.exhaust)
      note rs = runes_Cons [OF False d]
      have "b" "ValidString (drop n s)" using "1.prems" by (auto simp: ValidString_def rs)
      then show ?thesis using "1.IH" [OF False d [symmetric] refl] Decode_scalar [OF False] d by (simp add: rs)
    qed simp
  qed
qed

text \<open>C34: \<open>ValidateMessageContent\<close> accepts a byte string exactly when it is the UTF-8 encoding of a sequence
  of Unicode scalar values none of which is the replacement character U+FFFD.\<close>

theorem accepted_content:
  "ValidateMessageContent s = None \<longleftrightarrow>
     (\<exists>rs. list_all (\<lambda>r. scalar_value r \<and> r \<noteq> RuneError) rs \<and> s = concat (map EncodeRune rs))"
proof
  assume "ValidateMessageContent s = None"
  then have "ValidString s" "RuneError \<notin> fst ` set (runes s)"
    by (auto simp: ValidateMessageContent_def ContainsRune_def split: if_splits)
  then show "\<exists>rs. list_all (\<lambda>r. scalar_value r \<and> r \<noteq> RuneError) rs \<and> s = concat (map EncodeRune rs)"
    using valid_runes [of s] by (auto simp: list_all_iff)
next
  assume "\<exists>rs. list_all (\<lambda>r. scalar_value r \<and> r \<noteq> RuneError) rs \<and> s = concat (map EncodeRune rs)"
  then obtain rs where "\<forall>r \<in> set rs. scalar_value r" "RuneError \<notin> set rs" "s = concat (map EncodeRune rs)"
    by (auto simp: list_all_iff)
  then show "ValidateMessageContent s = None"
    using runes_of_encoding [of rs] by (auto simp: ValidateMessageContent_def ValidString_def ContainsRune_def)
qed

text \<open>\<open>truncateByWeightedLength\<close> returns a prefix that ends between two runes, whose weight is within the
  limit, and which is the whole string or could not take one more rune.\<close>

theorem truncation_exact:
  "\<exists>kept cut. runes s = kept @ cut \<and> runes (truncateByWeightedLength wide s m) = kept \<and>
     truncateByWeightedLength wide s m = take (rune_bytes kept) s \<and> weighted_length wide kept \<le> m \<and>
     (case cut of [] \<Rightarrow> truncateByWeightedLength wide s m = s | c # _ \<Rightarrow> weighted_length wide (kept @ [c]) > m)"
proof -
  obtain xs ys where xy: "runes s = xs @ ys" "weighted_length wide xs \<le> m"
    "truncateByWeightedLength wide s m = (if ys = [] then s else take (rune_bytes xs) s)"
    "\<And>y zs. ys = y # zs \<Longrightarrow> m < weighted_length wide (xs @ [y])"
    using truncate_loop_spec [of s "[]" "runes s" wide m] by (auto simp: truncateByWeightedLength_def)
  have whole: "rune_bytes (runes s) = length s"
  proof (induction s rule: runes.induct)
    case (1 s)
    show ?case
    proof (cases "s = []")
      case False
      obtain r n b where d: "DecodeRune s = (r, n, b)" by (metis prod.exhaust)
      show ?thesis using "1.IH" [OF False d [symmetric] refl] runes_Cons [OF False d] DecodeRune_size [OF False d] by simp
    qed simp
  qed
  have t: "truncateByWeightedLength wide s m = take (rune_bytes xs) s"
    using xy whole by (cases "ys = []") auto
  show ?thesis
  proof (intro exI conjI)
    show "runes s = xs @ ys" "weighted_length wide xs \<le> m" by (fact xy)+
    show "truncateByWeightedLength wide s m = take (rune_bytes xs) s" by (fact t)
    show "runes (truncateByWeightedLength wide s m) = xs" unfolding t by (rule runes_take [OF xy(1)])
    show "case ys of [] \<Rightarrow> truncateByWeightedLength wide s m = s | c # _ \<Rightarrow> weighted_length wide (xs @ [c]) > m"
      using xy(3,4) by (cases ys) auto
  qed
qed


section \<open>Space, short IDs and display names\<close>

text \<open>\<open>unicode.IsSpace\<close>.\<close>

definition IsSpace :: "nat \<Rightarrow> bool" where
  "IsSpace r \<longleftrightarrow> 9 \<le> r \<and> r \<le> 13 \<or> r = 32 \<or> r = 133 \<or> r = 160 \<or> r = 5760
     \<or> 8192 \<le> r \<and> r \<le> 8202 \<or> r = 8232 \<or> r = 8233 \<or> r = 8239 \<or> r = 8287 \<or> r = 12288"

text \<open>The runes of a string, each with its bytes.\<close>

fun slices :: "string \<Rightarrow> (nat \<times> nat \<times> bool) list \<Rightarrow> (nat \<times> string) list" where
  "slices s [] = []"
| "slices s ((r, n, v) # rs) = (r, take n s) # slices (drop n s) rs"

definition TrimSpace :: "string \<Rightarrow> string" where
  "TrimSpace s = concat (map snd
     (rev (dropWhile (\<lambda>x. IsSpace (fst x)) (rev (dropWhile (\<lambda>x. IsSpace (fst x)) (slices s (runes s)))))))"

text \<open>\<open>strings.Fields\<close> with the current field as accumulator.\<close>

fun fields_loop :: "(nat \<times> string) list \<Rightarrow> string \<Rightarrow> string list" where
  "fields_loop [] cur = (if cur = [] then [] else [cur])"
| "fields_loop ((r, b) # xs) cur =
     (if IsSpace r then (if cur = [] then fields_loop xs [] else cur # fields_loop xs [])
      else fields_loop xs (cur @ b))"

definition Fields :: "string \<Rightarrow> string list" where
  "Fields s = fields_loop (slices s (runes s)) []"

fun strings_Join :: "string list \<Rightarrow> string \<Rightarrow> string" where
  "strings_Join [] sep = []"
| "strings_Join [x] sep = x"
| "strings_Join (x # y # ys) sep = x @ sep @ strings_Join (y # ys) sep"

definition singleLine :: "string \<Rightarrow> string" where
  "singleLine value = strings_Join (Fields value) '' ''"

end
