(* ===== verification/Identity.thy ===== *)
theory Identity
  imports RelDal GoText
begin

text \<open>
  The public identity of an agent: \<open>pkg/agentidentity/identity.go\<close>. A short ID is five ASCII
  letters; the random source of \<open>generateShortID\<close> is a list of blocks of 16 bytes, each block
  one \<open>io.ReadFull\<close>, and a list that ends early is a read error. Metrics counters are left out.
\<close>

section \<open>Short IDs\<close>

definition alphabet :: string where
  "alphabet = ''ABCDEFGHIJKLMNOPQRSTUVWXYZabcdefghijklmnopqrstuvwxyz''"

abbreviation ShortIDLength :: nat where "ShortIDLength \<equiv> 5"

definition is_letter :: "char \<Rightarrow> bool" where
  "is_letter c \<longleftrightarrow> c \<in> set alphabet"

text \<open>The pattern \<open>^[A-Za-z]{5}$\<close>.\<close>

definition ValidShortID :: "string \<Rightarrow> bool" where
  "ValidShortID value \<longleftrightarrow> length value = ShortIDLength \<and> (\<forall>c \<in> set value. is_letter c)"

definition unbiasedLimit :: nat where
  "unbiasedLimit = 256 - 256 mod 52"

text \<open>The inner loop over one buffer.\<close>

fun take_letters :: "nat list \<Rightarrow> string \<Rightarrow> string" where
  "take_letters [] result = result"
| "take_letters (value # buf) result =
     (if value \<ge> unbiasedLimit then take_letters buf result
      else (let result' = result @ [alphabet ! (value mod 52)]
            in if length result' = ShortIDLength then result' else take_letters buf result'))"

text \<open>The outer loop: one block per round, while the result is short.\<close>

fun short_id_loop :: "nat list res list \<Rightarrow> string \<Rightarrow> string res" where
  "short_id_loop blocks result =
     (if length result < ShortIDLength then
        (case blocks of
           [] \<Rightarrow> Inl (ErrText ''generate short id: EOF'')
         | Inl e # rest \<Rightarrow> Inl (ErrText (''generate short id: '' @ err_text e))
         | Inr buf # rest \<Rightarrow> short_id_loop rest (take_letters buf result))
      else Inr result)"

declare short_id_loop.simps [simp del]

definition generateShortID :: "nat list res list \<Rightarrow> string res" where
  "generateShortID blocks = short_id_loop blocks []"

section \<open>Names and lookups\<close>

definition DisplayName :: "string \<Rightarrow> string \<Rightarrow> string" where
  "DisplayName agentName shortID =
     (let value = TrimSpace agentName in
      if value \<noteq> [] then value
      else if ValidShortID shortID then ''Agent #'' @ shortID
      else ''Agent'')"

record PublicIdentity =
  piAgentID :: int
  piAgentName :: string
  piAgentNameEn :: string
  piShortID :: string
  piDisplayName :: string
  piDisplayNameEn :: string

definition no_identity :: PublicIdentity where
  "no_identity = \<lparr>piAgentID = 0, piAgentName = [], piAgentNameEn = [], piShortID = [],
     piDisplayName = [], piDisplayNameEn = []\<rparr>"

definition ErrIdentityNotFound :: err where
  "ErrIdentityNotFound = ErrText ''agent identity not found''"

definition identity_of :: "AgentRow \<Rightarrow> PublicIdentity" where
  "identity_of row = \<lparr>piAgentID = aAgentID row, piAgentName = aAgentName row, piAgentNameEn = aAgentNameEn row,
     piShortID = aShortID row, piDisplayName = DisplayName (aAgentName row) (aShortID row),
     piDisplayNameEn = TrimSpace (aAgentNameEn row)\<rparr>"

text \<open>\<open>Scan\<close> leaves a zero row when nothing matches; a zero row has no valid short ID.\<close>

definition Lookup :: "string \<Rightarrow> int res io" where
  "Lookup shortID =
     (if \<not> ValidShortID shortID then ret (Inl ErrIdentityNotFound)
      else and_then (db_query (\<lambda>d. find (\<lambda>a. aShortID a = shortID \<and> aActive a) (agents d))) (\<lambda>row.
        let agentID = (case row of None \<Rightarrow> 0 | Some a \<Rightarrow> aAgentID a) in
        if agentID \<le> 0 then ret (Inl ErrIdentityNotFound) else ret (Inr agentID)))"

definition GetIdentity :: "int \<Rightarrow> PublicIdentity res io" where
  "GetIdentity agentID =
     and_then (db_query (\<lambda>d. find (\<lambda>a. aAgentID a = agentID \<and> aActive a) (agents d))) (\<lambda>row.
       case row of
         None \<Rightarrow> ret (Inl ErrIdentityNotFound)
       | Some a \<Rightarrow>
           if \<not> ValidShortID (aShortID a) then ret (Inl ErrIdentityNotFound)
           else ret (Inr (identity_of a)))"

definition GetBatch :: "int list \<Rightarrow> (int \<Rightarrow> PublicIdentity option) res io" where
  "GetBatch agentIDs =
     (if agentIDs = [] then ret (Inr Map.empty)
      else db_query (\<lambda>d. map_of (rev (map (\<lambda>a. (aAgentID a, identity_of a))
        (filter (\<lambda>a. ValidShortID (aShortID a))
          (filter (\<lambda>a. aAgentID a \<in> set agentIDs \<and> aActive a) (agents d)))))))"

section \<open>Properties\<close>

lemma alphabet_length: "length alphabet = 52"
  by (simp add: alphabet_def)

lemma letter_in: "is_letter (alphabet ! (v mod 52))"
  by (simp add: is_letter_def alphabet_length)

lemma take_letters_inv:
  "(\<forall>c \<in> set r. is_letter c) \<Longrightarrow> length r < 5 \<Longrightarrow>
   (\<forall>c \<in> set (take_letters buf r). is_letter c) \<and> length (take_letters buf r) \<le> 5"
proof (induction buf r rule: take_letters.induct)
  case (2 v buf r)
  then show ?case by (auto simp: Let_def letter_in)
qed auto

lemma short_id_loop_valid:
  "(\<forall>c \<in> set r. is_letter c) \<Longrightarrow> length r \<le> 5 \<Longrightarrow> short_id_loop blocks r = Inr s \<Longrightarrow> ValidShortID s"
proof (induction blocks arbitrary: r)
  case Nil
  then show ?case by (auto simp: short_id_loop.simps [of "[]"] ValidShortID_def split: if_splits)
next
  case (Cons b bs)
  show ?case
  proof (cases "length r < 5")
    case True
    with Cons.prems(3) obtain buf where "b = Inr buf" "short_id_loop bs (take_letters buf r) = Inr s"
      unfolding short_id_loop.simps [of "b # bs"] by (cases b) auto
    with Cons.IH [of "take_letters buf r"] take_letters_inv [OF Cons.prems(1) True] show ?thesis by blast
  next
    case False
    with Cons.prems show ?thesis by (auto simp: short_id_loop.simps [of "b # bs"] ValidShortID_def)
  qed
qed

text \<open>The unbiased part of a byte's range gives every letter the same number of bytes.\<close>

lemma unbiased: "c < 52 \<Longrightarrow> card {v. v < unbiasedLimit \<and> v mod 52 = c} = 4"
proof -
  assume c: "c < 52"
  have "{v. v < unbiasedLimit \<and> v mod 52 = c} = (\<lambda>k. 52 * k + c) ` {0..<4}"
  proof (intro set_eqI iffI)
    fix v
    assume "v \<in> {v. v < unbiasedLimit \<and> v mod 52 = c}"
    then have "v = 52 * (v div 52) + c" "v div 52 < 4"
      by (auto simp: unbiasedLimit_def)
    then show "v \<in> (\<lambda>k. 52 * k + c) ` {0..<4}" by auto
  qed (use c in \<open>auto simp: unbiasedLimit_def\<close>)
  moreover have "inj_on (\<lambda>k. 52 * k + c) {0..<4}" by (simp add: inj_on_def)
  ultimately show ?thesis by (simp add: card_image)
qed

text \<open>A generated short ID is always valid, and every byte below the
  rejection limit is equally often mapped to each of the 52 letters.\<close>

theorem generate_short_id_valid:
  assumes "generateShortID blocks = Inr s"
  shows "ValidShortID s \<and> (\<forall>c < length alphabet. card {v. v < unbiasedLimit \<and> v mod length alphabet = c} = 4)"
  using assms short_id_loop_valid [of "[]" blocks s] unbiased
  by (simp add: generateShortID_def alphabet_length)

theorem generate_short_id_valid_witness:
  "generateShortID [Inr [255, 0, 51, 52, 26], Inr [207, 208, 1]] = Inr ''AzAaz'' \<and> ValidShortID ''AzAaz''"
proof -
  have "generateShortID [Inr [255, 0, 51, 52, 26], Inr [207, 208, 1]] = Inr ''AzAaz''"
    by (simp add: generateShortID_def short_id_loop.simps unbiasedLimit_def alphabet_def Let_def)
  with generate_short_id_valid show ?thesis by blast
qed

end
