(* ===== verification/Notify.thy ===== *)
theory Notify
  imports Identity
begin

text \<open>
  What a request leaves behind beside its tables: the notification hash of an agent
  (\<open>rpc/pm/notifyutil/notify.go\<close>), activity events (\<open>pkg/activity/events.go\<close>), rebuilds of the
  agent card (\<open>pkg/agentcard/events.go\<close>), and the pushes of \<open>publishFriendResponseEvent\<close>. A
  \<open>go\<close> statement puts a task into the world; \<open>run_task\<close> is what the goroutine does when it runs.
\<close>

abbreviation pmNotifyTTL :: int where "pmNotifyTTL \<equiv> 604800000"

section \<open>The notification hash\<close>

definition hset_expire :: "rkey \<Rightarrow> string \<Rightarrow> payload \<Rightarrow> unit rcmd" where
  "hset_expire key field payload t rs =
     (case HSET key field payload t rs of (r, rs1) \<Rightarrow> (r, snd (EXPIRE key pmNotifyTTL t rs1)))"

definition request_content :: "string \<Rightarrow> string \<Rightarrow> string" where
  "request_content peerDisplayName greeting =
     ''You have a new friend request''
       @ (if peerDisplayName \<noteq> [] then '' from '' @ peerDisplayName else [])
       @ (if greeting \<noteq> [] then CHR 0x0A # ''Greeting: '' @ greeting else [])"

definition WriteFriendRequestNotification ::
  "int \<Rightarrow> int \<Rightarrow> int \<Rightarrow> string \<Rightarrow> string \<Rightarrow> string \<Rightarrow> unit res io" where
  "WriteFriendRequestNotification requestID toUID friendUID peerShortID peerDisplayName greeting = do {
     now \<leftarrow> now_ms;
     redis_cmd (hset_expire (PMNotify toUID) (itoa requestID)
       (JNotif \<lparr>nNotificationID = itoa requestID, nType = ''friend_request'',
          nContent = request_content (singleLine peerDisplayName) greeting, nCreatedAt = now,
          nFriendUID = friendUID, nPeerShortID = peerShortID, nPeerDisplayName = singleLine peerDisplayName\<rparr>)) }"

definition response_content :: "string \<Rightarrow> string \<Rightarrow> string \<Rightarrow> string" where
  "response_content notifType peerDisplayName reason =
     (if notifType = ''friend_rejected'' then ''Your friend request has been declined''
      else ''Your friend request has been accepted'')
       @ (if peerDisplayName \<noteq> [] then '' by '' @ peerDisplayName else [])
       @ (if reason \<noteq> [] then CHR 0x0A # ''Reason: '' @ reason else [])"

definition WriteFriendResponseNotification ::
  "int \<Rightarrow> int \<Rightarrow> int \<Rightarrow> string \<Rightarrow> string \<Rightarrow> string \<Rightarrow> string \<Rightarrow> unit res io" where
  "WriteFriendResponseNotification requestID toUID friendUID peerShortID peerDisplayName notifType reason = do {
     now \<leftarrow> now_ms;
     redis_cmd (hset_expire (PMNotify toUID) (itoa (- requestID))
       (JNotif \<lparr>nNotificationID = itoa (- requestID), nType = notifType,
          nContent = response_content notifType (singleLine peerDisplayName) reason, nCreatedAt = now,
          nFriendUID = friendUID, nPeerShortID = peerShortID, nPeerDisplayName = singleLine peerDisplayName\<rparr>)) }"

definition DeletePMNotifications :: "int \<Rightarrow> int list \<Rightarrow> unit res io" where
  "DeletePMNotifications agentID requestIDs = do {
     n \<leftarrow> gets w_rdb_nil;
     if n \<or> requestIDs = [] then ret (Inr ())
     else redis_cmd (HDEL (PMNotify agentID) (map itoa requestIDs)) }"

section \<open>Events\<close>

definition activity_stream :: string where "activity_stream = ''stream:agent:activity''"
definition rebuild_stream :: string where "rebuild_stream = ''stream:agentcard:rebuild''"

text \<open>\<open>publish\<close> of the activity package, without a detail.\<close>

definition publish_activity :: "int \<Rightarrow> string \<Rightarrow> string \<Rightarrow> string \<Rightarrow> unit io" where
  "publish_activity agentID eventType summary detail = do {
     _ \<leftarrow> xadd activity_stream
       ([(''agent_id'', itoa agentID), (''event_type'', eventType), (''summary'', summary)]
        @ (if detail \<noteq> [] then [(''detail'', detail)] else []));
     ret () }"

definition PublishMessageReceived :: "int \<Rightarrow> string \<Rightarrow> unit io" where
  "PublishMessageReceived agentID senderName =
     spawn (TActivity agentID ''message_received''
       (if senderName \<noteq> [] then ''Received message from '' @ senderName else ''Received a private message'') [])"

definition PublishFriendRequestSent :: "int \<Rightarrow> unit io" where
  "PublishFriendRequestSent agentID = spawn (TActivity agentID ''friend_request_sent'' ''Sent a friend request'' [])"

definition PublishFriendRequestReceived :: "int \<Rightarrow> unit io" where
  "PublishFriendRequestReceived agentID =
     spawn (TActivity agentID ''friend_request_received'' ''Received a friend request'' [])"

definition PublishFriendAdded :: "int \<Rightarrow> string \<Rightarrow> unit io" where
  "PublishFriendAdded agentID friendName =
     spawn (TActivity agentID ''friend_added''
       (if friendName \<noteq> [] then ''Formed relation with '' @ friendName else ''Formed a new relation'') [])"

definition PublishRebuild :: "int \<Rightarrow> string \<Rightarrow> unit io" where
  "PublishRebuild agentID reason = do {
     n \<leftarrow> gets w_rdb_nil;
     if n then ret ()
     else do {
       _ \<leftarrow> xadd rebuild_stream [(''agent_id'', itoa agentID), (''reason'', reason)];
       ret () } }"

section \<open>The handlers' helpers\<close>

definition publicIdentityForNotification :: "int \<Rightarrow> (PublicIdentity \<times> bool) io" where
  "publicIdentityForNotification agentID = do {
     r \<leftarrow> GetIdentity agentID;
     ret (case r of Inl _ \<Rightarrow> (no_identity, False) | Inr i \<Rightarrow> (i, True)) }"

text \<open>The identity to put into a notification, empty when the lookup failed.\<close>

definition notification_identity :: "int \<Rightarrow> PublicIdentity io" where
  "notification_identity agentID = do {
     r \<leftarrow> publicIdentityForNotification agentID;
     (case r of (peerIdentity, identityOK) \<Rightarrow> ret (if \<not> identityOK then no_identity else peerIdentity)) }"

definition publishFriendResponseEvent :: "int \<Rightarrow> int \<Rightarrow> PublicIdentity \<Rightarrow> string \<Rightarrow> unit io" where
  "publishFriendResponseEvent recipientID peerID ident notifType =
     (if \<not> ValidShortID (piShortID ident) \<or> piDisplayName ident = [] then
        (if notifType = ''friend_accepted'' then do {
           _ \<leftarrow> publish_push recipientID (PushText (''friend_accepted:'' @ itoa peerID));
           ret () }
         else ret ())
      else do {
        _ \<leftarrow> publish_push recipientID
          (PushFriendResponse notifType (itoa peerID) (piShortID ident) (singleLine (piDisplayName ident)));
        ret () })"

definition deletePendingFriendRequestNotifications :: "(int \<times> int) list \<Rightarrow> unit io" where
  "deletePendingFriendRequestNotifications items = do {
     n \<leftarrow> gets w_rdb_nil;
     if n \<or> items = [] then ret () else spawn (TDeletePending items) }"

section \<open>Goroutines\<close>

primrec run_task :: "task \<Rightarrow> unit io" where
  "run_task (TFriendRequestNotification requestID toUID friendUID shortID name greeting) = do {
     _ \<leftarrow> WriteFriendRequestNotification requestID toUID friendUID shortID name greeting; ret () }"
| "run_task (TFriendResponseNotification requestID toUID friendUID shortID name notifType reason) = do {
     _ \<leftarrow> WriteFriendResponseNotification requestID toUID friendUID shortID name notifType reason; ret () }"
| "run_task (TDeletePending items) = for_each items (\<lambda>item. do {
     _ \<leftarrow> DeletePMNotifications (fst item) [snd item]; ret () })"
| "run_task (TActivity agentID eventType summary detail) = publish_activity agentID eventType summary detail"
| "run_task TIncrHighQuality = do { _ \<leftarrow> redis_cmd (INCR HighQualityCount); ret () }"

text \<open>The scheduler runs any waiting task.\<close>

definition run_nth_task :: "nat \<Rightarrow> unit io" where
  "run_nth_task n = do {
     ts \<leftarrow> gets w_tasks;
     if n < length ts then do {
       _ \<leftarrow> modify (\<lambda>w. w\<lparr>w_tasks := take n ts @ drop (Suc n) ts\<rparr>);
       run_task (ts ! n) }
     else ret () }"

end
