(* ===== verification/IceBreak.thy ===== *)
theory IceBreak
  imports Store
begin

text \<open>
  The ice break of \<open>rpc/pm/icebreak/icebreak.go\<close>: until the other side has answered, the
  initiator of a conversation may send three messages. The state lives in Redis: a field of
  a hash (1000 conversations share one) says that the ice is broken, and a lock of 24 hours
  holds \<open>sender:count\<close>. The Lua script runs as one Redis command. \<open>ice_state\<close> reads the two
  keys as a three-state machine and \<open>script_refines\<close> shows that the script is one step of it.
\<close>

section \<open>The script\<close>

abbreviation MaxInitiatorMsgs :: int where "MaxInitiatorMsgs \<equiv> 3"
abbreviation IceStatusBroken :: int where "IceStatusBroken \<equiv> 0"
abbreviation IceStatusJustBroken :: int where "IceStatusJustBroken \<equiv> 1"
abbreviation IceStatusFirstMsg :: int where "IceStatusFirstMsg \<equiv> 2"
abbreviation IceStatusLimitReached :: int where "IceStatusLimitReached \<equiv> 3"

text \<open>
  The text of a stored value. The documents of \<open>json.Marshal\<close> have no text here: the service
  never stores one under the two keys of this component, and the script treats one as an error.
\<close>

fun payload_text :: "payload \<Rightarrow> string option" where
  "payload_text (Bytes s) = Some s"
| "payload_text (Num n) = Some (itoa n)"
| "payload_text _ = None"

text \<open>Lua's \<open>tonumber\<close> on decimal integers, the only numbers the script writes.\<close>

definition lua_tonumber :: "string \<Rightarrow> int option" where
  "lua_tonumber = parse_int"

definition parse_lock :: "string \<Rightarrow> string \<times> int" where
  "parse_lock raw = (case split_at (CHR '':'') raw of
     (lastSender, None) \<Rightarrow> (lastSender, 1)
   | (lastSender, Some rest) \<Rightarrow>
       (lastSender, case lua_tonumber rest of None \<Rightarrow> 1 | Some n \<Rightarrow> n))"

definition lock_value :: "string \<Rightarrow> int \<Rightarrow> payload" where
  "lock_value sender count = Bytes (sender @ '':'' @ itoa count)"

definition iceBreakScript ::
  "rkey \<Rightarrow> rkey \<Rightarrow> string \<Rightarrow> string \<Rightarrow> int \<Rightarrow> int \<Rightarrow> (int \<times> string) rcmd" where
  "iceBreakScript bucket lock field sender ttl maxMsgs t rs =
     (case fst (HGET bucket field t rs) of
        Inl e \<Rightarrow> (Inl e, rs)
      | Inr broken \<Rightarrow>
          if broken \<noteq> None \<and> payload_text (the broken) = Some ''1'' then (Inr (0, []), rs)
          else (case fst (GET lock t rs) of
            Inl e \<Rightarrow>
              if e = RedisNil then
                (Inr (2, sender), snd (SET lock (lock_value sender 1) 86400000 t rs))
              else (Inl e, rs)
          | Inr p \<Rightarrow>
              (case payload_text p of
                 None \<Rightarrow> (Inl WrongType, rs)
               | Some raw \<Rightarrow>
                   (case parse_lock raw of (lastSender, count) \<Rightarrow>
                      if lastSender \<noteq> sender then
                        (let rs1 = snd (HSET bucket field (Bytes ''1'') t rs);
                             rs2 = (if ttl > 0 then snd (EXPIRE bucket (1000 * ttl) t rs1) else rs1)
                         in (Inr (1, lastSender), snd (DEL [lock] t rs2)))
                      else if count \<ge> maxMsgs then (Inr (3, sender), rs)
                      else (Inr (2, sender),
                        snd (SET lock (lock_value sender (count + 1)) 86400000 t rs))))))"

section \<open>The component's operations\<close>

definition bucket_of :: "int \<Rightarrow> rkey" where
  "bucket_of convID = IceBucket (go_div convID 1000)"

definition field_of :: "int \<Rightarrow> string" where
  "field_of convID = itoa (go_mod convID 1000)"

definition ice_script :: "int \<Rightarrow> int \<Rightarrow> (int \<times> string) rcmd" where
  "ice_script convID senderID =
     iceBreakScript (bucket_of convID) (IceLock convID) (field_of convID) (itoa senderID) 604800 MaxInitiatorMsgs"

definition CheckAndSetIceBreak :: "int \<Rightarrow> int \<Rightarrow> (int \<times> int) res io" where
  "CheckAndSetIceBreak convID senderID = do {
     r \<leftarrow> redis_cmd (ice_script convID senderID);
     ret (case r of
         Inl e \<Rightarrow> Inl (ErrText (''ice break lua script failed: '' @ err_text e))
       | Inr (status, lastSenderStr) \<Rightarrow>
           Inr (status, if lastSenderStr \<noteq> [] then ParseInt64_value lastSenderStr else 0)) }"

text \<open>Durations are milliseconds here, which is the unit of \<open>PTTL\<close>'s reply.\<close>

definition RetryAfterSeconds :: "int \<Rightarrow> int res io" where
  "RetryAfterSeconds convID = do {
     r \<leftarrow> redis_cmd (PTTL (IceLock convID));
     ret (case r of
         Inl e \<Rightarrow> Inl (ErrText (''read ice break lock TTL: '' @ err_text e))
       | Inr ttl \<Rightarrow> if ttl \<le> 0 then Inr 0 else Inr (go_div (ttl + 1000 - 1) 1000)) }"

definition RollbackIceBreak :: "int \<Rightarrow> int \<Rightarrow> unit res io" where
  "RollbackIceBreak convID status =
     (if status = IceStatusJustBroken then redis_cmd (HDEL (bucket_of convID) [field_of convID])
      else if status = IceStatusFirstMsg then redis_cmd (DEL [IceLock convID])
      else ret (Inr ()))"

section \<open>The abstract machine\<close>

datatype ice = Fresh | Waiting int int | Broken

text \<open>One send: the status and the last sender the script reports, and the next state.\<close>

fun ice_send :: "int \<Rightarrow> ice \<Rightarrow> (int \<times> int) \<times> ice" where
  "ice_send sender Broken = ((IceStatusBroken, 0), Broken)"
| "ice_send sender Fresh = ((IceStatusFirstMsg, sender), Waiting sender 1)"
| "ice_send sender (Waiting s n) =
     (if s \<noteq> sender then ((IceStatusJustBroken, s), Broken)
      else if n \<ge> MaxInitiatorMsgs then ((IceStatusLimitReached, sender), Waiting s n)
      else ((IceStatusFirstMsg, sender), Waiting s (n + 1)))"

definition bucket_field :: "int \<Rightarrow> redis \<Rightarrow> int \<Rightarrow> payload option" where
  "bucket_field t rs convID = (case live t rs (bucket_of convID) of
     Some (RHash h) \<Rightarrow> map_of h (field_of convID) | _ \<Rightarrow> None)"

definition lock_text :: "int \<Rightarrow> redis \<Rightarrow> int \<Rightarrow> string option" where
  "lock_text t rs convID = (case live t rs (IceLock convID) of
     Some (RStr (Bytes s)) \<Rightarrow> Some s | _ \<Rightarrow> None)"

definition ice_state :: "int \<Rightarrow> redis \<Rightarrow> int \<Rightarrow> ice" where
  "ice_state t rs convID =
     (if bucket_field t rs convID = Some (Bytes ''1'') then Broken
      else (case lock_text t rs convID of None \<Rightarrow> Fresh
        | Some raw \<Rightarrow> (case parse_lock raw of (s, n) \<Rightarrow> Waiting (ParseInt64_value s) n)))"

text \<open>What the script itself writes: flags \<open>1\<close>, and locks \<open>sender:count\<close>.\<close>

definition ice_typed :: "redis \<Rightarrow> bool" where
  "ice_typed rs \<longleftrightarrow>
     (\<forall>b v e. rs (IceBucket b) = Some (v, e) \<longrightarrow> (\<exists>h. v = RHash h \<and> (\<forall>p \<in> set h. snd p = Bytes ''1''))) \<and>
     (\<forall>c v e. rs (IceLock c) = Some (v, e) \<longrightarrow>
        (\<exists>s n. v = RStr (lock_value (itoa s) n) \<and> int64_range s \<and> 1 \<le> n \<and> n \<le> MaxInitiatorMsgs))"

section \<open>Facts about the two keys\<close>

lemma bucket_neq_lock [simp]: "bucket_of c \<noteq> IceLock c'" "IceLock c' \<noteq> bucket_of c"
  by (simp_all add: bucket_of_def)

lemma bucket_field_inject:
  "bucket_of c = bucket_of c' \<Longrightarrow> field_of c = field_of c' \<Longrightarrow> c = c'"
  by (auto simp: bucket_of_def field_of_def intro: go_div_mod_inject [of 1000])

lemma parse_lock_value: "parse_lock (itoa s @ CHR '':'' # itoa n) = (itoa s, n)"
  by (simp add: parse_lock_def lua_tonumber_def)

lemma live_some: "live t rs k = Some v \<Longrightarrow> \<exists>e. rs k = Some (v, e)"
  by (auto simp: live_def split: option.splits prod.splits if_splits)

lemma live_bucket:
  "ice_typed rs \<Longrightarrow> live t rs (bucket_of c) = Some v \<Longrightarrow>
   \<exists>h. v = RHash h \<and> (\<forall>p \<in> set h. snd p = Bytes ''1'')"
  by (drule live_some) (auto simp: ice_typed_def bucket_of_def)

lemma live_lock:
  "ice_typed rs \<Longrightarrow> live t rs (IceLock c) = Some v \<Longrightarrow>
   \<exists>s n. v = RStr (lock_value (itoa s) n) \<and> int64_range s \<and> 1 \<le> n \<and> n \<le> MaxInitiatorMsgs"
  by (drule live_some) (auto simp: ice_typed_def)

lemma HGET_bucket:
  assumes "ice_typed rs"
  shows "fst (HGET (bucket_of c) (field_of c) t rs) = Inr (bucket_field t rs c)"
  using live_bucket [OF assms]
  by (auto simp: HGET_def bucket_field_def split: option.splits rval.splits)

lemma bucket_field_values:
  "ice_typed rs \<Longrightarrow> bucket_field t rs c = None \<or> bucket_field t rs c = Some (Bytes ''1'')"
  by (cases "bucket_field t rs c")
    (auto simp: bucket_field_def split: option.splits rval.splits dest!: live_bucket map_of_SomeD)

lemma Bytes_text: "payload_text (Bytes s) = Some s'  \<longleftrightarrow> s = s'"
  by simp

text \<open>The three shapes of a well-formed conversation.\<close>

lemma ice_cases:
  assumes "ice_typed rs"
  obtains (broken) "bucket_field t rs c = Some (Bytes ''1'')" "ice_state t rs c = Broken"
  | (fresh) "bucket_field t rs c = None" "live t rs (IceLock c) = None" "ice_state t rs c = Fresh"
  | (waiting) s n where "bucket_field t rs c = None"
      "live t rs (IceLock c) = Some (RStr (lock_value (itoa s) n))" "int64_range s" "1 \<le> n"
      "n \<le> MaxInitiatorMsgs" "ice_state t rs c = Waiting s n"
proof -
  consider "bucket_field t rs c = Some (Bytes ''1'')" | "bucket_field t rs c = None"
    using bucket_field_values [OF assms, of t c] by auto
  then show ?thesis
  proof cases
    case 1
    then show ?thesis by (intro broken) (simp_all add: ice_state_def)
  next
    case nb: 2
    show ?thesis
    proof (cases "live t rs (IceLock c)")
      case None
      with nb show ?thesis by (intro fresh) (simp_all add: ice_state_def lock_text_def)
    next
      case (Some v)
      then obtain s n where "v = RStr (lock_value (itoa s) n)" "int64_range s" "1 \<le> n" "n \<le> 3"
        using live_lock [OF assms] by blast
      with Some nb show ?thesis
        by (intro waiting) (simp_all add: ice_state_def lock_text_def lock_value_def parse_lock_value)
    qed
  qed
qed

section \<open>The script is a step of the machine\<close>

text \<open>The reply of the script in each state, and the keyspace it leaves.\<close>

lemma script_broken:
  assumes "ice_typed rs" "bucket_field t rs c = Some (Bytes ''1'')"
  shows "ice_script c sender t rs = (Inr (IceStatusBroken, []), rs)"
  using assms by (simp add: ice_script_def iceBreakScript_def HGET_bucket)

lemma script_fresh:
  assumes "ice_typed rs" "bucket_field t rs c = None" "live t rs (IceLock c) = None"
  shows "ice_script c sender t rs =
    (Inr (IceStatusFirstMsg, itoa sender),
     rs(IceLock c \<mapsto> (RStr (lock_value (itoa sender) 1), Some (t + 86400000))))"
  using assms by (simp add: ice_script_def iceBreakScript_def HGET_bucket GET_def SET_def)

lemma script_reply:
  assumes "ice_typed rs" "bucket_field t rs c = None"
    "live t rs (IceLock c) = Some (RStr (lock_value (itoa s) n))" "s \<noteq> sender"
  shows "ice_script c sender t rs =
    (Inr (IceStatusJustBroken, itoa s),
     (snd (EXPIRE (bucket_of c) 604800000 t (snd (HSET (bucket_of c) (field_of c) (Bytes ''1'') t rs))))
       (IceLock c := None))"
  using assms
  by (simp add: ice_script_def iceBreakScript_def HGET_bucket GET_def lock_value_def parse_lock_value Let_def)

lemma script_again:
  assumes "ice_typed rs" "bucket_field t rs c = None"
    "live t rs (IceLock c) = Some (RStr (lock_value (itoa sender) n))"
  shows "ice_script c sender t rs =
    (if n \<ge> MaxInitiatorMsgs then (Inr (IceStatusLimitReached, itoa sender), rs)
     else (Inr (IceStatusFirstMsg, itoa sender),
       rs(IceLock c \<mapsto> (RStr (lock_value (itoa sender) (n + 1)), Some (t + 86400000)))))"
  using assms
  by (simp add: ice_script_def iceBreakScript_def HGET_bucket GET_def SET_def lock_value_def parse_lock_value)

text \<open>The hash after the flag was set.\<close>

lemma live_break:
  assumes "ice_typed rs"
  shows "\<exists>h. live t (snd (EXPIRE (bucket_of c) 604800000 t (snd (HSET (bucket_of c) (field_of c) (Bytes ''1'') t rs))))
               (bucket_of c) = Some (RHash h)
          \<and> (\<forall>f. map_of h f = (if f = field_of c then Some (Bytes ''1'')
                else (case live t rs (bucket_of c) of Some (RHash h0) \<Rightarrow> map_of h0 f | _ \<Rightarrow> None)))
          \<and> (\<forall>p \<in> set h. snd p = Bytes ''1'')"
proof (cases "live t rs (bucket_of c)")
  case None
  then show ?thesis by (auto simp: HSET_def EXPIRE_def)
next
  case (Some v)
  then obtain h where h: "v = RHash h" "\<forall>p \<in> set h. snd p = Bytes ''1''"
    using live_bucket [OF assms] by blast
  have "\<forall>p \<in> set (AList.update (field_of c) (Bytes ''1'') h). snd p = Bytes ''1''"
    using h(2) by (induction h) (auto split: if_splits)
  moreover have "live t (snd (HSET (bucket_of c) (field_of c) (Bytes ''1'') t rs)) (bucket_of c) =
      Some (RHash (AList.update (field_of c) (Bytes ''1'') h))"
    using Some h live_some [OF Some]
    by (auto simp: HSET_def expiry_def live_def split: option.splits if_splits)
  ultimately show ?thesis
    using Some h by (simp add: EXPIRE_def update_conv')
qed

lemma break_other:
  "k \<noteq> bucket_of c \<Longrightarrow>
   snd (EXPIRE (bucket_of c) x t (snd (HSET (bucket_of c) (field_of c) p t rs))) k = rs k"
  by (auto simp: HSET_def EXPIRE_def split: option.splits rval.splits)

text \<open>Keys of other conversations in the same bucket keep their flag.\<close>

lemma bucket_field_break:
  assumes "ice_typed rs" "c' \<noteq> c"
  shows "bucket_field t ((snd (EXPIRE (bucket_of c) 604800000 t
            (snd (HSET (bucket_of c) (field_of c) (Bytes ''1'') t rs))))(IceLock c := None)) c' =
         bucket_field t rs c'"
proof (cases "bucket_of c' = bucket_of c")
  case True
  then have "field_of c' \<noteq> field_of c" using assms(2) bucket_field_inject by blast
  then show ?thesis
    using live_break [OF assms(1), of t c] True by (auto simp: bucket_field_def)
next
  case False
  then show ?thesis by (simp add: bucket_field_def live_def break_other)
qed

lemma bucket_field_broken:
  assumes "ice_typed rs"
  shows "bucket_field t ((snd (EXPIRE (bucket_of c) 604800000 t
            (snd (HSET (bucket_of c) (field_of c) (Bytes ''1'') t rs))))(IceLock c := None)) c =
         Some (Bytes ''1'')"
  using live_break [OF assms, of t c] by (auto simp: bucket_field_def)

lemma ice_state_other:
  "c' \<noteq> c \<Longrightarrow> bucket_field t rs' c' = bucket_field t rs c' \<Longrightarrow> rs' (IceLock c') = rs (IceLock c')
   \<Longrightarrow> ice_state t rs' c' = ice_state t rs c'"
  by (simp add: ice_state_def lock_text_def live_def)

lemma bucket_field_lock [simp]: "bucket_field t (rs(IceLock c := x)) c' = bucket_field t rs c'"
  by (simp add: bucket_field_def)

lemma ice_typed_lock:
  "ice_typed rs \<Longrightarrow> int64_range s \<Longrightarrow> 1 \<le> n \<Longrightarrow> n \<le> 3
   \<Longrightarrow> ice_typed (rs(IceLock c \<mapsto> (RStr (lock_value (itoa s) n), e)))"
  by (auto simp: ice_typed_def)

lemma ice_typed_break:
  assumes "ice_typed rs"
  shows "ice_typed ((snd (EXPIRE (bucket_of c) 604800000 t
            (snd (HSET (bucket_of c) (field_of c) (Bytes ''1'') t rs))))(IceLock c := None))"
    (is "ice_typed ?rs")
proof -
  have same: "?rs k = rs k" if "k \<noteq> bucket_of c" "k \<noteq> IceLock c" for k
    using that by (simp add: break_other)
  obtain h where "live t ?rs (bucket_of c) = Some (RHash h)" "\<forall>p \<in> set h. snd p = Bytes ''1''"
    using live_break [OF assms, of t c] by auto
  then have bucket: "\<exists>h. v = RHash h \<and> (\<forall>p \<in> set h. snd p = Bytes ''1'')"
    if "?rs (bucket_of c) = Some (v, e)" for v e
    using that by (auto simp: live_def split: option.splits if_splits)
  show ?thesis
    unfolding ice_typed_def
  proof (intro conjI allI impI)
    fix b v e
    assume *: "?rs (IceBucket b) = Some (v, e)"
    show "\<exists>h. v = RHash h \<and> (\<forall>p \<in> set h. snd p = Bytes ''1'')"
    proof (cases "IceBucket b = bucket_of c")
      case True
      with * bucket show ?thesis by metis
    next
      case False
      then have "rs (IceBucket b) = Some (v, e)" using * same [of "IceBucket b"] by simp
      with assms show ?thesis unfolding ice_typed_def by blast
    qed
  next
    fix k v e
    assume *: "?rs (IceLock k) = Some (v, e)"
    then have "rs (IceLock k) = Some (v, e)" using same [of "IceLock k"] by (auto split: if_splits)
    with assms show "\<exists>s n. v = RStr (lock_value (itoa s) n) \<and> int64_range s \<and> 1 \<le> n \<and> n \<le> 3"
      unfolding ice_typed_def by blast
  qed
qed

text \<open>The reply read as \<open>CheckAndSetIceBreak\<close> reads it.\<close>

definition ice_reply :: "(int \<times> string) res \<Rightarrow> (int \<times> int) res" where
  "ice_reply r = (case r of Inl e \<Rightarrow> Inl (ErrText (''ice break lua script failed: '' @ err_text e))
     | Inr (status, l) \<Rightarrow> Inr (status, if l \<noteq> [] then ParseInt64_value l else 0))"

lemma script_step:
  assumes rs: "ice_typed rs" and sender: "int64_range sender"
    and run: "ice_script c sender t rs = (r, rs')"
  shows "ice_reply r = Inr (fst (ice_send sender (ice_state t rs c)))"
    "ice_state t rs' c = snd (ice_send sender (ice_state t rs c))"
    "c' \<noteq> c \<Longrightarrow> ice_state t rs' c' = ice_state t rs c'"
    "ice_typed rs'"
proof -
  have "ice_reply r = Inr (fst (ice_send sender (ice_state t rs c))) \<and>
    ice_state t rs' c = snd (ice_send sender (ice_state t rs c)) \<and>
    (c' \<noteq> c \<longrightarrow> ice_state t rs' c' = ice_state t rs c') \<and> ice_typed rs'"
    using rs
  proof (cases rule: ice_cases [where t = t and c = c])
    case broken
    then show ?thesis using script_broken [OF rs broken(1)] run rs by (auto simp: ice_reply_def)
  next
    case fresh
    from run have r: "r = Inr (IceStatusFirstMsg, itoa sender)"
      and rs': "rs' = rs(IceLock c \<mapsto> (RStr (lock_value (itoa sender) 1), Some (t + 86400000)))"
      using script_fresh [OF rs fresh(1,2)] by auto
    have "ice_state t rs' c = Waiting sender 1"
      using fresh sender unfolding rs'
      by (simp add: ice_state_def lock_text_def lock_value_def parse_lock_value)
    then show ?thesis
      using fresh sender r rs' ice_typed_lock [OF rs sender]
      by (auto simp: ice_reply_def intro!: ice_state_other)
  next
    case (waiting s n)
    show ?thesis
    proof (cases "s = sender")
      case True
      have run': "(r, rs') = (if n \<ge> 3 then (Inr (IceStatusLimitReached, itoa sender), rs)
          else (Inr (IceStatusFirstMsg, itoa sender),
            rs(IceLock c \<mapsto> (RStr (lock_value (itoa sender) (n + 1)), Some (t + 86400000)))))"
        using script_again [OF rs waiting(1)] waiting(2) True run by simp
      show ?thesis
      proof (cases "n \<ge> 3")
        case True
        then show ?thesis using run' waiting \<open>s = sender\<close> rs by (auto simp: ice_reply_def)
      next
        case False
        then have r: "r = Inr (IceStatusFirstMsg, itoa sender)"
          and rs': "rs' = rs(IceLock c \<mapsto> (RStr (lock_value (itoa sender) (n + 1)), Some (t + 86400000)))"
          using run' by auto
        have "ice_state t rs' c = Waiting sender (n + 1)"
          using waiting sender unfolding rs'
          by (simp add: ice_state_def lock_text_def lock_value_def parse_lock_value)
        moreover have "ice_typed rs'"
          using ice_typed_lock [OF rs sender, of "n + 1"] waiting False rs' by simp
        ultimately show ?thesis
          using waiting sender r rs' \<open>s = sender\<close> False
          by (auto simp: ice_reply_def intro!: ice_state_other)
      qed
    next
      case False
      from run have r: "r = Inr (IceStatusJustBroken, itoa s)"
        and rs': "rs' = (snd (EXPIRE (bucket_of c) 604800000 t
            (snd (HSET (bucket_of c) (field_of c) (Bytes ''1'') t rs))))(IceLock c := None)"
        using script_reply [OF rs waiting(1,2) False] by auto
      have "ice_state t rs' c = Broken"
        using bucket_field_broken [OF rs] unfolding rs' by (simp add: ice_state_def)
      moreover have "ice_state t rs' c' = ice_state t rs c'" if "c' \<noteq> c"
        using bucket_field_break [OF rs that] that unfolding rs'
        by (intro ice_state_other) (simp_all add: break_other)
      ultimately show ?thesis
        using waiting False r ice_typed_break [OF rs] rs' by (auto simp: ice_reply_def)
    qed
  qed
  then show "ice_reply r = Inr (fst (ice_send sender (ice_state t rs c)))"
    "ice_state t rs' c = snd (ice_send sender (ice_state t rs c))"
    "c' \<noteq> c \<Longrightarrow> ice_state t rs' c' = ice_state t rs c'"
    "ice_typed rs'"
    by blast+
qed

section \<open>Properties\<close>

text \<open>C9: for every timing and every failure of the command, a call of
  \<open>CheckAndSetIceBreak\<close> either reports exactly what the three-state machine reports and makes its
  step, or returns an error and leaves the conversation where it was or one step further; the
  state of every other conversation is untouched and the keys stay well-formed.\<close>

theorem ice_break_refines:
  assumes "ice_typed (w_redis w)" "int64_range sender"
    and "run_state (CheckAndSetIceBreak c sender) w = (r, w')"
  shows "(r = Inr (fst (ice_send sender (ice_state (w_now w') (w_redis w) c))) \<and>
            ice_state (w_now w') (w_redis w') c = snd (ice_send sender (ice_state (w_now w') (w_redis w) c))
          \<or> (\<exists>e. r = Inl e) \<and>
            ice_state (w_now w') (w_redis w') c \<in>
              {ice_state (w_now w') (w_redis w) c, snd (ice_send sender (ice_state (w_now w') (w_redis w) c))})
         \<and> (\<forall>c'. c' = c \<or> ice_state (w_now w') (w_redis w') c' = ice_state (w_now w') (w_redis w) c')
         \<and> ice_typed (w_redis w') \<and> w_db w' = w_db w"
proof (cases rule: run_redis_cmd [of "ice_script c sender" w])
  case (1 e n)
  obtain x rs' where s: "ice_script c sender n (w_redis w) = (x, rs')" by force
  with 1 assms(3) have "r = ice_reply x" "w' = w\<lparr>w_env := e, w_now := n, w_redis := rs'\<rparr>"
    by (auto simp: CheckAndSetIceBreak_def ice_reply_def split: sum.splits prod.splits)
  then show ?thesis using script_step [OF assms(1,2) s] by auto
next
  case (2 e n er)
  with assms(3) have "\<exists>e. r = Inl e" "w' = w\<lparr>w_env := e, w_now := n\<rparr>"
    by (auto simp: CheckAndSetIceBreak_def)
  then show ?thesis using assms(1) by auto
next
  case (3 e n er)
  obtain x rs' where s: "ice_script c sender n (w_redis w) = (x, rs')" by force
  with 3 assms(3) have "\<exists>e. r = Inl e" "w' = w\<lparr>w_env := e, w_now := n, w_redis := rs'\<rparr>"
    by (auto simp: CheckAndSetIceBreak_def)
  then show ?thesis using script_step [OF assms(1,2) s] by auto
qed

text \<open>Consecutive sends of one agent at given times: the statuses it gets.\<close>

primrec ice_sends :: "int \<Rightarrow> int \<Rightarrow> int list \<Rightarrow> redis \<Rightarrow> int option list" where
  "ice_sends c s [] rs = []"
| "ice_sends c s (t # ts) rs =
     (case ice_script c s t rs of (r, rs') \<Rightarrow>
        (case r of Inl e \<Rightarrow> None | Inr (status, _) \<Rightarrow> Some status) # ice_sends c s ts rs')"

text \<open>A conversation without the flag, at any time.\<close>

definition unflagged :: "redis \<Rightarrow> int \<Rightarrow> bool" where
  "unflagged rs c \<longleftrightarrow> (\<forall>t. bucket_field t rs c = None)"

lemma unflagged_lock [simp]: "unflagged (rs(IceLock c := x)) c' = unflagged rs c'"
  by (simp add: unflagged_def)

lemma ice_sends_waiting:
  assumes "ice_typed rs" "int64_range s" "unflagged rs c" "sorted ts" "\<forall>t \<in> set ts. t < T \<and> T \<le> t + 86400000"
    and "rs (IceLock c) = Some (RStr (lock_value (itoa s) (3 - int k)), Some e)" "T \<le> e" "k \<le> 2"
  shows "ice_sends c s ts rs =
    replicate (min k (length ts)) (Some IceStatusFirstMsg) @ replicate (length ts - k) (Some IceStatusLimitReached)"
  using assms
proof (induction ts arbitrary: rs k e)
  case Nil
  then show ?case by simp
next
  case (Cons t ts)
  have lock: "live t rs (IceLock c) = Some (RStr (lock_value (itoa s) (3 - int k)))"
    using Cons.prems by (simp add: live_def)
  have flag: "bucket_field t rs c = None" using Cons.prems(3) by (simp add: unflagged_def)
  note script = script_again [OF Cons.prems(1) flag lock]
  show ?case
  proof (cases k)
    case 0
    with script have step: "ice_script c s t rs = (Inr (IceStatusLimitReached, itoa s), rs)" by simp
    have "ice_sends c s ts rs = replicate (length ts) (Some IceStatusLimitReached)"
      using Cons.IH [OF Cons.prems(1-3), of k e] Cons.prems 0 by simp
    with step 0 show ?thesis by simp
  next
    case (Suc j)
    define rs' where
      "rs' = rs(IceLock c \<mapsto> (RStr (lock_value (itoa s) (3 - int j)), Some (t + 86400000)))"
    from script Suc have step: "ice_script c s t rs = (Inr (IceStatusFirstMsg, itoa s), rs')"
      by (simp add: algebra_simps rs'_def)
    have "ice_typed rs'" "unflagged rs' c"
      "rs' (IceLock c) = Some (RStr (lock_value (itoa s) (3 - int j)), Some (t + 86400000))"
      using ice_typed_lock [OF Cons.prems(1,2)] Suc Cons.prems(3,8) by (simp_all add: rs'_def)
    then have "ice_sends c s ts rs' = replicate (min j (length ts)) (Some IceStatusFirstMsg)
        @ replicate (length ts - j) (Some IceStatusLimitReached)"
      using Cons.prems Suc by (intro Cons.IH [where e = "t + 86400000"]) simp_all
    with step Suc show ?thesis by simp
  qed
qed

text \<open>An agent that opens a conversation and writes any number of messages
  within 24 hours without an answer gets the first three accepted and every further one
  refused.\<close>

theorem ice_break_limit:
  assumes "ice_typed rs" "int64_range s" "unflagged rs c" "rs (IceLock c) = None"
    and "sorted ts" "\<forall>t \<in> set ts. t < hd ts + 86400000"
  shows "ice_sends c s ts rs =
    replicate (min 3 (length ts)) (Some IceStatusFirstMsg) @ replicate (length ts - 3) (Some IceStatusLimitReached)"
proof (cases ts)
  case Nil
  then show ?thesis by simp
next
  case (Cons t ts')
  let ?rs = "rs(IceLock c \<mapsto> (RStr (lock_value (itoa s) 1), Some (t + 86400000)))"
  have step: "ice_script c s t rs = (Inr (IceStatusFirstMsg, itoa s), ?rs)"
    using script_fresh [OF assms(1)] assms(3,4) by (simp add: unflagged_def live_def)
  have "ice_sends c s ts' ?rs = replicate (min 2 (length ts')) (Some IceStatusFirstMsg)
      @ replicate (length ts' - 2) (Some IceStatusLimitReached)"
  proof (rule ice_sends_waiting)
    show "ice_typed ?rs" using ice_typed_lock [OF assms(1,2)] by simp
    show "\<forall>t' \<in> set ts'. t' < t + 86400000 \<and> t + 86400000 \<le> t' + 86400000"
      using assms(5,6) Cons by auto
  qed (use assms Cons in auto)
  with step Cons show ?thesis
    by (simp add: min_def) (simp add: numeral_3_eq_3 numeral_2_eq_2)
qed

theorem ice_break_limit_witness:
  "ice_sends 5 7 [0, 10, 20, 30, 40] Map.empty =
     [Some 2, Some 2, Some 2, Some 3, Some 3]"
  using ice_break_limit [of Map.empty 7 5 "[0, 10, 20, 30, 40]"]
  by (simp add: ice_typed_def int64_range_def unflagged_def bucket_field_def live_def numeral_3_eq_3 numeral_2_eq_2)

theorem ice_break_refines_witness:
  "ice_typed (w_redis empty_world) \<and>
   (\<exists>w'. run_state (CheckAndSetIceBreak 5 7) empty_world = (Inr (IceStatusFirstMsg, 7), w') \<and>
     ice_state (w_now w') (w_redis w') 5 = Waiting 7 1)"
proof -
  obtain r w' where run: "run_state (CheckAndSetIceBreak 5 7) empty_world = (r, w')" by force
  have typed: "ice_typed (w_redis empty_world)" by (simp add: empty_world_def ice_typed_def)
  have r: "r = Inr (2, 7)" "w_now w' = 0"
    using run script_fresh [of Map.empty 0 5 7]
    by (auto simp: CheckAndSetIceBreak_def redis_cmd_def io_step_def empty_world_def ice_typed_def
        bucket_field_def live_def int64_range_def)
  have "ice_state 0 (w_redis empty_world) 5 = Fresh"
    by (simp add: empty_world_def ice_state_def bucket_field_def lock_text_def live_def)
  with ice_break_refines [OF typed _ run] r have "ice_state (w_now w') (w_redis w') 5 = Waiting 7 1"
    by (simp add: int64_range_def)
  with run r typed show ?thesis by blast
qed

text \<open>The advertised delay is the least whole number of seconds after
  which the lock has expired: a client that waits so long finds the lock gone, and one
  second less is not enough. Without a lock, or with one that never expires, it is 0.\<close>

theorem retry_after_exact:
  assumes "run_state (RetryAfterSeconds c) w = (Inr s, w')"
  shows "w_redis w' = w_redis w \<and> w_db w' = w_db w \<and>
    (case expiry (w_now w') (w_redis w) (IceLock c) of
       None \<Rightarrow> s = 0
     | Some e \<Rightarrow> 0 < s \<and> live (w_now w' + 1000 * s) (w_redis w) (IceLock c) = None
          \<and> live (w_now w' + 1000 * (s - 1)) (w_redis w) (IceLock c) \<noteq> None)"
proof (cases rule: run_redis_cmd [of "PTTL (IceLock c)" w])
  case (1 e n)
  have pttl: "PTTL (IceLock c) n (w_redis w) =
      (Inr (case live n (w_redis w) (IceLock c) of None \<Rightarrow> -2
        | Some _ \<Rightarrow> (case expiry n (w_redis w) (IceLock c) of None \<Rightarrow> -1 | Some x \<Rightarrow> x - n)), w_redis w)"
    by (simp add: PTTL_def split: option.splits)
  from 1 assms have w': "w' = w\<lparr>w_env := e, w_now := n\<rparr>"
    by (auto simp: RetryAfterSeconds_def pttl split: sum.splits)
  show ?thesis
  proof (cases "expiry n (w_redis w) (IceLock c)")
    case None
    with 1 assms have "s = 0"
      by (auto simp: RetryAfterSeconds_def pttl split: option.splits if_splits)
    with None w' show ?thesis by simp
  next
    case (Some x)
    then obtain v where v: "w_redis w (IceLock c) = Some (v, Some x)" "n < x"
      by (auto simp: expiry_def live_def split: option.splits if_splits)
    with Some 1 assms have "s = go_div (999 + (x - n)) 1000"
      by (auto simp: RetryAfterSeconds_def pttl live_def split: if_splits)
    then have s: "s = (999 + (x - n)) div 1000" using v by (simp add: go_div_nonneg)
    have "x \<le> n + 1000 * s" "n + 1000 * (s - 1) < x" "0 < s"
      using div_round_up [of 1000 "x - n"] v(2) unfolding s by auto
    with Some w' v show ?thesis by (simp add: live_def)
  qed
qed (use assms in \<open>auto simp: RetryAfterSeconds_def\<close>)

theorem retry_after_exact_witness:
  "\<exists>w w' e. run_state (RetryAfterSeconds 5) w = (Inr 3, w') \<and>
     expiry (w_now w') (w_redis w) (IceLock 5) = Some e \<and>
     live (w_now w' + 1000 * 3) (w_redis w) (IceLock 5) = None"
proof -
  define w where "w = empty_world\<lparr>w_redis := [IceLock 5 \<mapsto> (RStr (Bytes ''7:1''), Some 2001)]\<rparr>"
  have run: "run_state (RetryAfterSeconds 5) w = (Inr 3, w)"
    by (simp add: w_def empty_world_def RetryAfterSeconds_def redis_cmd_def io_step_def PTTL_def
        live_def expiry_def go_div_def)
  have e: "expiry (w_now w) (w_redis w) (IceLock 5) = Some 2001"
    by (simp add: w_def empty_world_def expiry_def live_def)
  from retry_after_exact [OF run] e have "live (w_now w + 1000 * 3) (w_redis w) (IceLock 5) = None" by simp
  with run e show ?thesis by blast
qed

text \<open>Undoing a step does not restore the state before it. After the
  rollback of the reply that broke the ice the initiator is no longer waiting, and after the
  rollback of a repeated message its count is gone: in both cases the conversation is fresh
  again and three more messages pass.\<close>

theorem ice_rollback_forgets:
  assumes "quiet w" "ice_typed (w_redis w)" "int64_range sender"
    and "ice_state (w_now w) (w_redis w) c = Waiting s n"
    and "run_state (CheckAndSetIceBreak c sender) w = (Inr (status, l), w1)"
    and "status \<noteq> IceStatusLimitReached"
    and "run_state (RollbackIceBreak c status) w1 = (r, w2)"
  shows "ice_state (w_now w2) (w_redis w2) c = Fresh"
proof -
  have b: "bucket_field (w_now w) (w_redis w) c = None"
    and lk: "live (w_now w) (w_redis w) (IceLock c) = Some (RStr (lock_value (itoa s) n))"
    using ice_cases [OF assms(2), of "w_now w" c] assms(4) by (metis ice.distinct(1,3,5) ice.inject)+
  have w1: "w1 = w\<lparr>w_redis := snd (ice_script c sender (w_now w) (w_redis w))\<rparr>"
    and st: "ice_reply (fst (ice_script c sender (w_now w) (w_redis w))) = Inr (status, l)"
    using assms(1,5)
    by (auto simp: CheckAndSetIceBreak_def redis_cmd_def io_step_def quiet_def ice_reply_def split: prod.splits)
  show ?thesis
  proof (cases "s = sender")
    case True
    note sc = script_again [OF assms(2) b lk [unfolded True]]
    have status: "status = IceStatusFirstMsg"
      using st assms(6) unfolding sc by (auto simp: ice_reply_def split: if_splits)
    have "w2 = w1\<lparr>w_redis := (w_redis w1)(IceLock c := None)\<rparr>"
      using assms(1,7) w1 status
      by (auto simp: RollbackIceBreak_def redis_cmd_def io_step_def quiet_def)
    moreover have "bucket_field (w_now w) (w_redis w1) c = None"
      using b unfolding w1 sc by simp
    ultimately show ?thesis
      using w1 by (simp add: ice_state_def lock_text_def)
  next
    case False
    note sc = script_reply [OF assms(2) b lk False]
    have status: "status = IceStatusJustBroken"
      using st unfolding sc by (auto simp: ice_reply_def)
    have rs1: "ice_typed (w_redis w1)" "w_redis w1 (IceLock c) = None"
      using ice_typed_break [OF assms(2)] unfolding w1 sc by auto
    then obtain h where h: "live (w_now w) (w_redis w1) (bucket_of c) = Some (RHash h)"
      using live_break [OF assms(2), of "w_now w" c] unfolding w1 sc by auto
    have "w2 = w1\<lparr>w_redis := snd (HDEL (bucket_of c) [field_of c] (w_now w) (w_redis w1))\<rparr>"
      using assms(1,7) w1 status
      by (auto simp: RollbackIceBreak_def redis_cmd_def io_step_def quiet_def split: prod.splits)
    moreover have "bucket_field (w_now w) (snd (HDEL (bucket_of c) [field_of c] (w_now w) (w_redis w1))) c = None"
      using h live_some [OF h]
      by (auto simp: HDEL_def bucket_field_def Let_def live_def expiry_def map_of_eq_None_iff
          split: option.splits if_splits)
    moreover have "snd (HDEL (bucket_of c) [field_of c] (w_now w) (w_redis w1)) (IceLock c) = None"
      using rs1(2) h by (auto simp: HDEL_def Let_def)
    ultimately show ?thesis
      using w1 by (simp add: ice_state_def lock_text_def live_def)
  qed
qed

theorem ice_rollback_forgets_witness:
  "\<exists>w w1 w2 r. ice_state 0 (w_redis w) 5 = Waiting 7 2 \<and>
     run_state (CheckAndSetIceBreak 5 9) w = (Inr (IceStatusJustBroken, 7), w1) \<and>
     run_state (RollbackIceBreak 5 IceStatusJustBroken) w1 = (r, w2) \<and>
     ice_state (w_now w2) (w_redis w2) 5 = Fresh"
proof -
  define w where
    "w = empty_world\<lparr>w_redis := [IceLock 5 \<mapsto> (RStr (lock_value (itoa 7) 2), Some 2001)]\<rparr>"
  have "ice_typed (w_redis w)"
    using ice_typed_lock [of Map.empty 7 2 5 "Some 2001"]
    by (simp add: w_def empty_world_def ice_typed_def int64_range_def)
  then have w: "quiet w" "ice_typed (w_redis w)" "w_now w = 0"
    "bucket_field 0 (w_redis w) 5 = None" "live 0 (w_redis w) (IceLock 5) = Some (RStr (lock_value (itoa 7) 2))"
    by (auto simp: w_def quiet_def empty_world_def bucket_field_def live_def bucket_of_def)
  have st: "ice_state (w_now w) (w_redis w) 5 = Waiting 7 2"
    using w by (simp add: ice_state_def lock_text_def lock_value_def parse_lock_value int64_range_def)
  obtain w1 where run: "run_state (CheckAndSetIceBreak 5 9) w = (Inr (IceStatusJustBroken, 7), w1)"
    using script_reply [OF w(2,4,5), of 9] w
    by (auto simp: CheckAndSetIceBreak_def redis_cmd_def io_step_def quiet_def int64_range_def)
  obtain r w2 where undo: "run_state (RollbackIceBreak 5 IceStatusJustBroken) w1 = (r, w2)" by force
  have "ice_state (w_now w2) (w_redis w2) 5 = Fresh"
    using ice_rollback_forgets [OF w(1,2) _ st run _ undo] by (simp add: int64_range_def)
  with run undo st w(3) show ?thesis by auto
qed

end
