(* ===== verification/SendGuard.thy ===== *)
theory SendGuard
  imports Store
begin

text \<open>
  The duplicate-send guard of \<open>rpc/pm/sendguard/guard.go\<close>. A send takes a lease on the key of
  its fingerprint; while it runs, an identical send is refused, and for a minute after it
  has completed an identical send gets its result. The lease value carries a random token, so
  that only its owner completes or releases it. SHA-256 is a parameter.
\<close>

section \<open>Fingerprints\<close>

definition hex_digit :: "nat \<Rightarrow> char" where
  "hex_digit n = (if n < 10 then char_of (48 + n) else char_of (87 + n))"

definition EncodeToString :: "string \<Rightarrow> string" where
  "EncodeToString bs = concat (map (\<lambda>c. [hex_digit (of_char c div 16), hex_digit (of_char c mod 16)]) bs)"

abbreviation nl :: string where "nl \<equiv> [CHR 0x0A]"

definition Fingerprint :: "(string \<Rightarrow> string) \<Rightarrow> int \<Rightarrow> string \<Rightarrow> int \<Rightarrow> string \<Rightarrow> rkey" where
  "Fingerprint sha256 senderID targetKind targetID content =
     SendDedupe (EncodeToString (sha256
       (itoa senderID @ nl @ targetKind @ nl @ itoa targetID @ nl @ itoa (int (length content)) @ nl @ content)))"

definition RequestFingerprint ::
  "(string \<Rightarrow> string) \<Rightarrow> int \<Rightarrow> string \<Rightarrow> int \<Rightarrow> string \<Rightarrow> string \<Rightarrow> rkey" where
  "RequestFingerprint sha256 senderID targetKind targetID content requestID =
     (if requestID = [] then Fingerprint sha256 senderID targetKind targetID content
      else SendRequest (EncodeToString (sha256
        (itoa senderID @ nl @ targetKind @ nl @ itoa targetID @ nl @ requestID))))"

section \<open>The guard\<close>

abbreviation duplicateWindow :: int where "duplicateWindow \<equiv> 60000"
abbreviation pendingTTL :: int where "pendingTTL \<equiv> duplicateWindow"

record Result =
  rsMsgID :: int
  rsConvID :: int

record Lease =
  lsKey :: rkey
  lsToken :: string

definition pendingValue :: "string \<Rightarrow> string" where
  "pendingValue token = ''pending:'' @ token"

definition doneValue :: "Result \<Rightarrow> string" where
  "doneValue r = ''done:'' @ itoa (rsMsgID r) @ '':'' @ itoa (rsConvID r)"

definition parseDone :: "string \<Rightarrow> Result res" where
  "parseDone value = (case strings_Split (CHR '':'') value of
     [tag, m, c] \<Rightarrow>
       if tag \<noteq> ''done'' then Inl (ErrText ''invalid message send guard state'')
       else (case ParseInt64 m of
           None \<Rightarrow> Inl (ErrText ''invalid message send guard msg_id'')
         | Some msgID \<Rightarrow> (case ParseInt64 c of
               None \<Rightarrow> Inl (ErrText ''invalid message send guard conv_id'')
             | Some convID \<Rightarrow> Inr \<lparr>rsMsgID = msgID, rsConvID = convID\<rparr>))
   | _ \<Rightarrow> Inl (ErrText ''invalid message send guard state''))"

text \<open>
  What the read of a taken key tells. Only text is ever stored under the guard's keys; any
  other value is an invalid state, as \<open>parseDone\<close> makes it.
\<close>

definition read_guard :: "payload \<Rightarrow> Result res" where
  "read_guard p = (case p of
     Bytes value \<Rightarrow> if HasPrefix value ''pending:'' then Inl ErrInProgress else parseDone value
   | _ \<Rightarrow> Inl (ErrText ''invalid message send guard state''))"

definition acquire_cmd :: "rkey \<Rightarrow> string \<Rightarrow> bool rcmd" where
  "acquire_cmd key token = SETNX key (Bytes (pendingValue token)) pendingTTL"

text \<open>
  The loop of at most \<open>n\<close> attempts; the result is a lease or the outcome of an earlier send.
  \<open>attempt_reply\<close> is the body of the loop after the first command, with the rest of the loop.
\<close>

definition attempt_reply ::
  "rkey \<Rightarrow> string \<Rightarrow> (Lease + Result) res io \<Rightarrow> bool res \<Rightarrow> (Lease + Result) res io" where
  "attempt_reply key token again acquired = (case acquired of
     Inl e \<Rightarrow> ret (Inl (ErrText (''acquire message send guard: '' @ err_text e)))
   | Inr ok \<Rightarrow>
       if ok then ret (Inr (Inl \<lparr>lsKey = key, lsToken = token\<rparr>))
       else do {
         value \<leftarrow> redis_cmd (GET key);
         (case value of
            Inl e \<Rightarrow>
              if e = RedisNil then again
              else ret (Inl (ErrText (''read message send guard: '' @ err_text e)))
          | Inr p \<Rightarrow> ret (map_sum id Inr (read_guard p))) })"

fun acquire_attempts :: "nat \<Rightarrow> rkey \<Rightarrow> string \<Rightarrow> (Lease + Result) res io" where
  "acquire_attempts 0 key token = ret (Inl ErrInProgress)"
| "acquire_attempts (Suc n) key token = do {
     acquired \<leftarrow> redis_cmd (acquire_cmd key token);
     attempt_reply key token (acquire_attempts n key token) acquired }"

definition Acquire :: "rkey \<Rightarrow> (Lease + Result) res io" where
  "Acquire key = do {
     unavailable \<leftarrow> gets w_rdb_nil;
     if unavailable then ret (Inl (ErrText ''message send guard is unavailable''))
     else do {
       tokenBytes \<leftarrow> next_token;
       (case tokenBytes of
          Inl e \<Rightarrow> ret (Inl (ErrText (''generate message send token: '' @ err_text e)))
        | Inr bs \<Rightarrow> acquire_attempts 2 key (EncodeToString bs)) } }"

text \<open>\<open>if redis.call("GET", key) == pending then SET ... else false\<close>: the reply says which.\<close>

definition complete_script :: "rkey \<Rightarrow> string \<Rightarrow> string \<Rightarrow> int \<Rightarrow> bool rcmd" where
  "complete_script key pending fin px t rs =
     (case live t rs key of
        Some (RStr (Bytes v)) \<Rightarrow>
          if v = pending then (Inr True, snd (SET key (Bytes fin) px t rs)) else (Inr False, rs)
      | Some (RStr _) \<Rightarrow> (Inr False, rs)
      | None \<Rightarrow> (Inr False, rs)
      | Some _ \<Rightarrow> (Inl WrongType, rs))"

text \<open>
  go-redis turns the script's \<open>false\<close>, a nil reply, into the error \<open>redis.Nil\<close>, so the first
  branch below is the one taken for a lost lease.
\<close>

definition Complete :: "Lease \<Rightarrow> Result \<Rightarrow> unit res io" where
  "Complete lease result = do {
     unavailable \<leftarrow> gets w_rdb_nil;
     if unavailable then ret (Inl (ErrText ''message send guard completion is unavailable''))
     else do {
       r \<leftarrow> redis_cmd (complete_script (lsKey lease) (pendingValue (lsToken lease)) (doneValue result) duplicateWindow);
       ret (case r of
           Inl e \<Rightarrow> Inl (ErrText (''complete message send guard: '' @ err_text e))
         | Inr False \<Rightarrow> Inl (ErrText (''complete message send guard: '' @ err_text RedisNil))
         | Inr True \<Rightarrow> Inr ()) } }"

definition release_script :: "rkey \<Rightarrow> string \<Rightarrow> unit rcmd" where
  "release_script key pending t rs =
     (case live t rs key of
        Some (RStr (Bytes v)) \<Rightarrow> if v = pending then DEL [key] t rs else (Inr (), rs)
      | Some (RStr _) \<Rightarrow> (Inr (), rs)
      | None \<Rightarrow> (Inr (), rs)
      | Some _ \<Rightarrow> (Inl WrongType, rs))"

definition Release :: "Lease \<Rightarrow> unit res io" where
  "Release lease = do {
     unavailable \<leftarrow> gets w_rdb_nil;
     if unavailable then ret (Inr ())
     else do {
       r \<leftarrow> redis_cmd (release_script (lsKey lease) (pendingValue (lsToken lease)));
       ret (case r of
           Inl e \<Rightarrow> Inl (ErrText (''release message send guard: '' @ err_text e))
         | Inr _ \<Rightarrow> Inr ()) } }"

section \<open>Values\<close>

lemma colon_not_in_done: "CHR '':'' \<notin> set ''done''"
  by simp

lemma read_doneValue:
  assumes "int64_range (rsMsgID r)" "int64_range (rsConvID r)"
  shows "read_guard (Bytes (doneValue r)) = Inr r"
proof -
  have "strings_Split (CHR '':'') (doneValue r) = [''done'', itoa (rsMsgID r), itoa (rsConvID r)]"
    using strings_Split_append [of "CHR '':''" "''done''" "itoa (rsMsgID r) @ CHR '':'' # itoa (rsConvID r)"]
    by (simp add: doneValue_def)
  with assms show ?thesis
    by (simp add: read_guard_def parseDone_def HasPrefix_def doneValue_def)
qed

text \<open>The value that \<open>Complete\<close> stores is read back as the same result.\<close>

theorem parse_done_round_trip:
  assumes "int64_range (rsMsgID r)" "int64_range (rsConvID r)"
  shows "read_guard (Bytes (doneValue r)) = Inr r"
  using assms by (rule read_doneValue)

theorem parse_done_round_trip_witness:
  "read_guard (Bytes (doneValue \<lparr>rsMsgID = 12, rsConvID = -3\<rparr>)) = Inr \<lparr>rsMsgID = 12, rsConvID = -3\<rparr>"
  using parse_done_round_trip [of "\<lparr>rsMsgID = 12, rsConvID = -3\<rparr>"] by (simp add: int64_range_def)

lemma pendingValue_inject [simp]: "pendingValue a = pendingValue b \<longleftrightarrow> a = b"
  by (simp add: pendingValue_def)

lemma read_guard_pending [simp]: "read_guard (Bytes (pendingValue a)) = Inl ErrInProgress"
  by (simp add: read_guard_def pendingValue_def HasPrefix_def)

lemma doneValue_not_pending: "doneValue r \<noteq> pendingValue a"
  by (simp add: doneValue_def pendingValue_def)

section \<open>Mutual exclusion\<close>

text \<open>
  Several sends of one fingerprint run concurrently; each command of the guard is one atomic
  step of Redis. \<open>g_leases\<close> are the leases a process holds and has neither completed nor
  released, with the time of the command that took them. Between the steps time passes and
  other keys change. Tokens are fresh: each is 16 random bytes.
\<close>

record guard_state =
  g_rs :: redis
  g_now :: int
  g_leases :: "(string \<times> int) list"
  g_used :: "string list"

inductive guard_step :: "rkey \<Rightarrow> guard_state \<Rightarrow> guard_state \<Rightarrow> bool" for key where
  tick: "t \<ge> g_now g \<Longrightarrow> guard_step key g (g\<lparr>g_now := t\<rparr>)"
| other: "rs key = g_rs g key \<Longrightarrow> guard_step key g (g\<lparr>g_rs := rs\<rparr>)"
| take: "tok \<notin> set (g_used g) \<Longrightarrow> acquire_cmd key tok (g_now g) (g_rs g) = (Inr True, rs)
    \<Longrightarrow> guard_step key g (g\<lparr>g_rs := rs, g_leases := (tok, g_now g) # g_leases g, g_used := tok # g_used g\<rparr>)"
| busy: "tok \<notin> set (g_used g) \<Longrightarrow> acquire_cmd key tok (g_now g) (g_rs g) = (Inr False, rs)
    \<Longrightarrow> guard_step key g (g\<lparr>g_rs := rs, g_used := tok # g_used g\<rparr>)"
| complete: "l \<in> set (g_leases g)
    \<Longrightarrow> complete_script key (pendingValue (fst l)) (doneValue r) duplicateWindow (g_now g) (g_rs g) = (x, rs)
    \<Longrightarrow> guard_step key g (g\<lparr>g_rs := rs, g_leases := filter (\<lambda>y. fst y \<noteq> fst l) (g_leases g)\<rparr>)"
| release: "l \<in> set (g_leases g)
    \<Longrightarrow> release_script key (pendingValue (fst l)) (g_now g) (g_rs g) = (x, rs)
    \<Longrightarrow> guard_step key g (g\<lparr>g_rs := rs, g_leases := filter (\<lambda>y. fst y \<noteq> fst l) (g_leases g)\<rparr>)"

inductive_cases guard_stepE: "guard_step key g g'"

inductive guard_reachable :: "rkey \<Rightarrow> guard_state \<Rightarrow> bool" for key where
  start: "g_leases g = [] \<Longrightarrow> guard_reachable key g"
| step: "guard_reachable key g \<Longrightarrow> guard_step key g g' \<Longrightarrow> guard_reachable key g'"

text \<open>A lease younger than its lifetime is what the key holds.\<close>

definition guard_inv :: "rkey \<Rightarrow> guard_state \<Rightarrow> bool" where
  "guard_inv key g \<longleftrightarrow> fst ` set (g_leases g) \<subseteq> set (g_used g) \<and>
     (\<forall>(tok, t) \<in> set (g_leases g). g_now g < t + pendingTTL \<longrightarrow>
        g_rs g key = Some (RStr (Bytes (pendingValue tok)), Some (t + pendingTTL)))"

lemma guard_invD:
  "guard_inv key g \<Longrightarrow> (tok, t) \<in> set (g_leases g) \<Longrightarrow> g_now g < t + pendingTTL
   \<Longrightarrow> g_rs g key = Some (RStr (Bytes (pendingValue tok)), Some (t + pendingTTL))"
  unfolding guard_inv_def by fast

lemma acquire_cmd_True:
  "acquire_cmd key tok t rs = (Inr True, rs') \<Longrightarrow>
   live t rs key = None \<and> rs' = rs(key \<mapsto> (RStr (Bytes (pendingValue tok)), Some (t + pendingTTL)))"
  by (auto simp: acquire_cmd_def SETNX_def split: option.splits)

lemma acquire_cmd_False: "acquire_cmd key tok t rs = (Inr False, rs') \<Longrightarrow> rs' = rs"
  by (auto simp: acquire_cmd_def SETNX_def split: option.splits)

text \<open>A script of one owner does nothing while the key holds another owner's lease.\<close>

lemma owner_scripts:
  assumes "live t rs key = Some (RStr (Bytes (pendingValue tok)))" "tok \<noteq> tok'"
  shows "complete_script key (pendingValue tok') d px t rs = (Inr False, rs)"
    "release_script key (pendingValue tok') t rs = (Inr (), rs)"
  using assms by (simp_all add: complete_script_def release_script_def)

lemma guard_inv_step:
  assumes inv: "guard_inv key g" and step: "guard_step key g g'"
  shows "guard_inv key g'"
  using step
proof cases
  case (tick t)
  then show ?thesis using inv by (fastforce simp: guard_inv_def)
next
  case (other rs)
  then show ?thesis using inv by (simp add: guard_inv_def)
next
  case (take tok rs)
  have "\<not> g_now g < t + pendingTTL" if "(tk, t) \<in> set (g_leases g)" for tk t
    using guard_invD [OF inv that] acquire_cmd_True [OF take(3)] by (auto simp: live_def)
  then show ?thesis
    using inv take acquire_cmd_True [OF take(3)] by (fastforce simp: guard_inv_def)
next
  case (busy tok rs)
  then show ?thesis using inv acquire_cmd_False [OF busy(3)] by (auto simp: guard_inv_def)
next
  case (complete l r x rs)
  have "rs key = g_rs g key" if "(tk, t) \<in> set (g_leases g)" "g_now g < t + pendingTTL" "tk \<noteq> fst l" for tk t
    using guard_invD [OF inv that(1,2)] owner_scripts(1) [of "g_now g" "g_rs g" key tk "fst l"] that complete(3)
    by (simp add: live_def)
  then show ?thesis using inv complete(1) by (fastforce simp: guard_inv_def)
next
  case (release l x rs)
  have "rs key = g_rs g key" if "(tk, t) \<in> set (g_leases g)" "g_now g < t + pendingTTL" "tk \<noteq> fst l" for tk t
    using guard_invD [OF inv that(1,2)] owner_scripts(2) [of "g_now g" "g_rs g" key tk "fst l"] that release(3)
    by (simp add: live_def)
  then show ?thesis using inv release(1) by (fastforce simp: guard_inv_def)
qed

lemma guard_reachable_inv: "guard_reachable key g \<Longrightarrow> guard_inv key g"
  by (induction rule: guard_reachable.induct) (simp add: guard_inv_def, rule guard_inv_step)



section \<open>Replay\<close>

text \<open>A taken key: the attempt reads it and changes nothing.\<close>

lemma advances_reply: "advances m \<Longrightarrow> advances (attempt_reply key tok m r)"
  unfolding attempt_reply_def by (intro io_intros)

lemma advances_acquire: "advances (acquire_attempts n key tok)"
  by (induction n) (auto intro!: io_intros advances_reply)

lemma acquire_taken:
  assumes key: "w_redis w key = Some (RStr p, Some e)"
    and run: "run_state (acquire_attempts (Suc n) key tok) w = (x, w')" and now: "w_now w' < e"
  shows "w_redis w' = w_redis w \<and> (x = map_sum id Inr (read_guard p) \<or> (\<exists>s. x = Inl (ErrText s)) \<and> \<not> reliable w)"
proof -
  have setnx: "acquire_cmd key tok t (w_redis w) = (Inr False, w_redis w)" if "t < e" for t
    using key that by (simp add: acquire_cmd_def SETNX_def live_def)
  have get: "GET key t (w_redis w) = (Inr p, w_redis w)" if "t < e" for t
    using key that by (simp add: GET_def live_def)
  obtain r1 w1 where c1: "run_state (redis_cmd (acquire_cmd key tok)) w = (r1, w1)" by force
  with run have run1: "run_state (attempt_reply key tok (acquire_attempts n key tok) r1) w1 = (x, w')" by simp
  from advancesD [OF advances_reply [OF advances_acquire] run1] now have now1: "w_now w1 < e" by simp
  note q1 = redis_cmd_reply [OF c1 setnx [OF now1]]
  show ?thesis
  proof (cases r1)
    case (Inl er)
    with q1 run1 show ?thesis by (auto simp: attempt_reply_def)
  next
    case (Inr b)
    with q1 have b: "\<not> b" "reliable w \<longrightarrow> reliable w1" by auto
    obtain r2 w2 where c2: "run_state (redis_cmd (GET key)) w1 = (r2, w2)" by force
    let ?g = "\<lambda>value. case value of
            Inl e \<Rightarrow>
              if e = RedisNil then acquire_attempts n key tok
              else ret (Inl (ErrText (''read message send guard: '' @ err_text e)))
          | Inr p \<Rightarrow> ret (map_sum id Inr (read_guard p))"
    from run1 c2 Inr b have run2: "run_state (?g r2) w2 = (x, w')"
      by (simp only: attempt_reply_def sum.case if_False bind.simps) simp
    have "advances (?g r2)" by (intro io_intros advances_acquire)
    from advancesD [OF this run2] now have now2: "w_now w2 < e" by simp
    have "GET key (w_now w2) (w_redis w1) = (Inr p, w_redis w1)" using get [OF now2] q1 by simp
    note q2 = redis_cmd_reply [OF c2 this]
    show ?thesis
    proof (cases r2)
      case (Inl er)
      with q2 have "er \<noteq> RedisNil" "\<not> reliable w1" by auto
      with Inl run2 q1 q2 b show ?thesis by auto
    next
      case (Inr y)
      with run2 q1 q2 show ?thesis by auto
    qed
  qed
qed

lemma Complete_stores:
  assumes "run_state (Complete l r) w = (Inr (), w1)"
  shows "w_redis w1 (lsKey l) = Some (RStr (Bytes (doneValue r)), Some (w_now w1 + duplicateWindow))"
proof (cases rule: run_redis_cmd [of "complete_script (lsKey l) (pendingValue (lsToken l)) (doneValue r) duplicateWindow" w])
  case (1 e n)
  with assms show ?thesis
    by (auto simp: Complete_def complete_script_def SET_def
        split: if_splits sum.splits bool.splits option.splits rval.splits payload.splits)
qed (use assms in \<open>auto simp: Complete_def split: if_splits\<close>)

text \<open>C27: once a send has completed with a result, an identical send that
  is decided within the duplicate window gets that result and writes nothing, whatever other
  keys change in between; it gets no result only when a command fails or no token can be drawn.\<close>

theorem duplicate_send_replays:
  assumes "run_state (Complete l r) w = (Inr (), w1)" "int64_range (rsMsgID r)" "int64_range (rsConvID r)"
    and "w_redis w2 (lsKey l) = w_redis w1 (lsKey l)"
    and run: "run_state (Acquire (lsKey l)) w2 = (x, w3)" and now: "w_now w3 < w_now w1 + duplicateWindow"
  shows "w_redis w3 = w_redis w2 \<and>
    (x = Inr (Inr r) \<or> (\<exists>s. x = Inl (ErrText s)) \<and> \<not> (reliable w2 \<and> (\<exists>t ts. w_tokens w2 = Inr t # ts)))"
proof -
  have key: "w_redis w2 (lsKey l) = Some (RStr (Bytes (doneValue r)), Some (w_now w1 + duplicateWindow))"
    using Complete_stores [OF assms(1)] assms(4) by simp
  note rd = read_doneValue [OF assms(2,3)]
  obtain tk w' where tk: "run_state next_token w2 = (tk, w')" by force
  have w': "w_redis w' = w_redis w2" "reliable w2 \<longleftrightarrow> reliable w'"
    and notok: "\<And>e. tk = Inl e \<Longrightarrow> \<not> (\<exists>t ts. w_tokens w2 = Inr t # ts)"
    using tk by (auto simp: next_token_def reliable_def split: list.splits)
  consider (nil) "w_rdb_nil w2" | (token) s where "\<not> w_rdb_nil w2" "tk = Inr s"
    | (none) e where "\<not> w_rdb_nil w2" "tk = Inl e"
    by (cases tk) auto
  then show ?thesis
  proof cases
    case nil
    with run show ?thesis by (auto simp: Acquire_def reliable_def)
  next
    case token
    with run tk have "run_state (acquire_attempts (Suc 1) (lsKey l) (EncodeToString s)) w' = (x, w3)"
      by (simp add: Acquire_def numeral_2_eq_2)
    from acquire_taken [OF _ this now] key rd w' show ?thesis by auto
  next
    case none
    with run tk w' notok [OF none(2)] show ?thesis by (auto simp: Acquire_def)
  qed
qed

theorem duplicate_send_replays_witness:
  "\<exists>l w w1 x w3. run_state (Complete l \<lparr>rsMsgID = 12, rsConvID = 3\<rparr>) w = (Inr (), w1) \<and>
     run_state (Acquire (lsKey l)) w1 = (x, w3) \<and> x = Inr (Inr \<lparr>rsMsgID = 12, rsConvID = 3\<rparr>)"
proof -
  define l where "l = \<lparr>lsKey = SendDedupe [], lsToken = ''aa''\<rparr>"
  define w where "w = empty_world\<lparr>w_redis := [SendDedupe [] \<mapsto> (RStr (Bytes (pendingValue ''aa'')), Some 60000)],
     w_tokens := [Inr ''bb'']\<rparr>"
  define w1 where "w1 = w\<lparr>w_redis := [SendDedupe [] \<mapsto>
     (RStr (Bytes (doneValue \<lparr>rsMsgID = 12, rsConvID = 3\<rparr>)), Some 60000)]\<rparr>"
  have fin: "run_state (Complete l \<lparr>rsMsgID = 12, rsConvID = 3\<rparr>) w = (Inr (), w1)"
    by (simp add: Complete_def l_def w_def w1_def empty_world_def redis_cmd_def io_step_def
        complete_script_def live_def SET_def)
  obtain x w3 where run: "run_state (Acquire (lsKey l)) w1 = (x, w3)" by force
  have "w_now w3 = 0"
    using run
    by (auto simp: Acquire_def w1_def w_def l_def empty_world_def next_token_def numeral_2_eq_2 redis_cmd_def
        io_step_def attempt_reply_def acquire_cmd_def SETNX_def GET_def live_def)
  moreover have "w_now w1 = 0" "reliable w1" "w_tokens w1 = [Inr ''bb'']"
    by (simp_all add: w1_def w_def empty_world_def reliable_def)
  ultimately have "x = Inr (Inr \<lparr>rsMsgID = 12, rsConvID = 3\<rparr>)"
    using duplicate_send_replays [OF fin _ _ refl run] by (auto simp: int64_range_def)
  with fin run show ?thesis by blast
qed

end
