(* ===== verification/RateLimit.thy ===== *)
theory RateLimit
  imports PMTypes GoText
begin

text \<open>
  The hourly limit of friend requests: \<open>rpc/pm/ratelimit/config.go\<close>. Reading the file and
  parsing YAML are outside; the parsed value is the input of \<open>Validate\<close>.
\<close>

abbreviation DefaultHourlyLimit :: int where "DefaultHourlyLimit \<equiv> 20"

definition ProductionConfigPath :: string where
  "ProductionConfigPath = ''/etc/eigenflux/friend_request_limits.yaml''"

definition LegacyConfigPath :: string where
  "LegacyConfigPath = ''configs/pm/friend_request_limits.yaml''"

text \<open>What \<open>os.Stat\<close> says of a path.\<close>

datatype stat_result = StatOk | StatNotExist | StatErr string

definition resolveConfigPath ::
  "string \<Rightarrow> bool \<Rightarrow> string \<Rightarrow> string \<Rightarrow> (string \<Rightarrow> stat_result) \<Rightarrow> string" where
  "resolveConfigPath explicitPath production productionPath legacyPath stat =
     (let path = TrimSpace explicitPath in
      if path \<noteq> [] then path
      else if production then productionPath
      else if stat productionPath = StatOk \<or> stat productionPath \<noteq> StatNotExist then productionPath
      else legacyPath)"

definition ResolveConfigPath :: "string \<Rightarrow> (string \<Rightarrow> stat_result) \<Rightarrow> bool \<Rightarrow> string" where
  "ResolveConfigPath env stat production =
     resolveConfigPath env production ProductionConfigPath LegacyConfigPath stat"

record Override =
  ovAgentID :: int
  ovHourlyLimit :: int

record Config =
  cfDefaultHourlyLimit :: int
  cfOverrides :: "Override list"

definition DefaultConfig :: Config where
  "DefaultConfig = \<lparr>cfDefaultHourlyLimit = DefaultHourlyLimit, cfOverrides = []\<rparr>"

definition HourlyLimit :: "Config option \<Rightarrow> int \<Rightarrow> int" where
  "HourlyLimit c agentID = (case c of
     None \<Rightarrow> DefaultHourlyLimit
   | Some cfg \<Rightarrow>
       (case find (\<lambda>ov. ovAgentID ov = agentID) (cfOverrides cfg) of
          Some ov \<Rightarrow> ovHourlyLimit ov
        | None \<Rightarrow> cfDefaultHourlyLimit cfg))"

fun validate_overrides :: "int list \<Rightarrow> Override list \<Rightarrow> err option" where
  "validate_overrides seen [] = None"
| "validate_overrides seen (ov # ovs) =
     (if ovAgentID ov \<le> 0 then Some (ErrText ''override agent_id must be positive'')
      else if ovHourlyLimit ov \<le> 0 then
        Some (ErrText (''override hourly_limit for agent '' @ itoa (ovAgentID ov) @ '' must be positive''))
      else if ovAgentID ov \<in> set seen then
        Some (ErrText (''duplicate override for agent '' @ itoa (ovAgentID ov)))
      else validate_overrides (ovAgentID ov # seen) ovs)"

definition Validate :: "Config \<Rightarrow> err option" where
  "Validate c =
     (if cfDefaultHourlyLimit c \<le> 0 then Some (ErrText ''default_hourly_limit must be positive'')
      else validate_overrides [] (cfOverrides c))"

section \<open>Properties\<close>

lemma validate_overrides_ok:
  "validate_overrides seen ovs = None \<longleftrightarrow>
     (\<forall>ov \<in> set ovs. 0 < ovAgentID ov \<and> 0 < ovHourlyLimit ov) \<and>
     distinct (map ovAgentID ovs) \<and> set (map ovAgentID ovs) \<inter> set seen = {}"
  by (induction seen ovs rule: validate_overrides.induct) auto

lemma Validate_ok:
  "Validate c = None \<longleftrightarrow> 0 < cfDefaultHourlyLimit c \<and>
     (\<forall>ov \<in> set (cfOverrides c). 0 < ovAgentID ov \<and> 0 < ovHourlyLimit ov) \<and>
     distinct (map ovAgentID (cfOverrides c))"
  by (auto simp: Validate_def validate_overrides_ok)

lemma find_Some_mem: "find P xs = Some x \<Longrightarrow> x \<in> set xs \<and> P x"
  by (auto simp: find_Some_iff in_set_conv_nth)

text \<open>A configuration passes \<open>Validate\<close> exactly when its numbers are positive and no
  agent has two overrides; then every agent has a positive limit, its own override if
  there is one wherever it stands in the list, and the default otherwise.\<close>

theorem validated_limits:
  "(Validate c = None \<longleftrightarrow> 0 < cfDefaultHourlyLimit c \<and>
      (\<forall>ov \<in> set (cfOverrides c). 0 < ovAgentID ov \<and> 0 < ovHourlyLimit ov) \<and>
      distinct (map ovAgentID (cfOverrides c))) \<and>
   (Validate c = None \<longrightarrow> 0 < HourlyLimit (Some c) a \<and>
      (\<forall>ov \<in> set (cfOverrides c). ovAgentID ov = a \<longrightarrow> HourlyLimit (Some c) a = ovHourlyLimit ov) \<and>
      (a \<notin> ovAgentID ` set (cfOverrides c) \<longrightarrow> HourlyLimit (Some c) a = cfDefaultHourlyLimit c))"
proof (intro conjI impI)
  show "Validate c = None \<longleftrightarrow> 0 < cfDefaultHourlyLimit c \<and>
      (\<forall>ov \<in> set (cfOverrides c). 0 < ovAgentID ov \<and> 0 < ovHourlyLimit ov) \<and>
      distinct (map ovAgentID (cfOverrides c))"
    by (rule Validate_ok)
  assume "Validate c = None"
  then have ok: "0 < cfDefaultHourlyLimit c"
    "\<forall>ov \<in> set (cfOverrides c). 0 < ovAgentID ov \<and> 0 < ovHourlyLimit ov"
    "distinct (map ovAgentID (cfOverrides c))"
    by (simp_all add: Validate_ok)
  show "0 < HourlyLimit (Some c) a"
    using ok(1,2) by (auto simp: HourlyLimit_def split: option.splits dest: find_Some_mem)
  show "\<forall>ov \<in> set (cfOverrides c). ovAgentID ov = a \<longrightarrow> HourlyLimit (Some c) a = ovHourlyLimit ov"
  proof (intro ballI impI)
    fix ov
    assume ov: "ov \<in> set (cfOverrides c)" "ovAgentID ov = a"
    then obtain ov' where f: "find (\<lambda>ov. ovAgentID ov = a) (cfOverrides c) = Some ov'"
      by (metis (mono_tags, lifting) find_None_iff option.exhaust)
    then have "ov' = ov"
      using ok(3) ov find_Some_mem [OF f] by (auto simp: distinct_map dest: inj_onD)
    with f show "HourlyLimit (Some c) a = ovHourlyLimit ov" by (simp add: HourlyLimit_def)
  qed
  assume "a \<notin> ovAgentID ` set (cfOverrides c)"
  then show "HourlyLimit (Some c) a = cfDefaultHourlyLimit c"
    by (auto simp: HourlyLimit_def split: option.splits dest: find_Some_mem)
qed

theorem validated_limits_witness:
  "HourlyLimit (Some \<lparr>cfDefaultHourlyLimit = 20, cfOverrides = [\<lparr>ovAgentID = 7, ovHourlyLimit = 100\<rparr>]\<rparr>) 7 = 100"
  using validated_limits [of "\<lparr>cfDefaultHourlyLimit = 20, cfOverrides = [\<lparr>ovAgentID = 7, ovHourlyLimit = 100\<rparr>]\<rparr>" 7]
  by (simp add: Validate_def)

end
