(* ===== verification/PMSend.thy ===== *)
theory PMSend
  imports RelCache Validator Notify IceBreak SendGuard RateLimit
begin

text \<open>
  Sending a private message: \<open>SendPM\<close> of \<open>rpc/pm/handler.go\<close> with its three cases (a new
  conversation about a broadcast, a reply, a message to a friend). The handlers never return a
  Go error, so a call's result is its response. Log lines and metrics are left out.
\<close>

section \<open>The service and its messages\<close>

text \<open>
  The fields of \<open>PMServiceImpl\<close> that are not part of the world: the configured limits, SHA-256
  (\<open>crypto/sha256\<close>), and the four script tables of package \<open>unicode\<close> that \<open>truncateByWeightedLength\<close>
  consults, as one predicate on runes.
\<close>

record PMServiceImpl =
  friendRequestLimits :: "Config option"
  sha256 :: "string \<Rightarrow> string"
  wide_rune :: "nat \<Rightarrow> bool"

record SendPMReq =
  sqSenderId :: int
  sqReceiverId :: int
  sqItemId :: "int option"
  sqConvId :: "int option"
  sqContent :: string
  sqRequestId :: string

record SendPMResp =
  spMsgId :: int
  spConvId :: int
  spErrorCode :: "string option"
  spRateLimit :: "int option"
  spRateUsed :: "int option"
  spResetCondition :: "string option"
  spRetryAfterSeconds :: "int option"
  spBaseResp :: BaseResp

definition pm_resp :: "int \<Rightarrow> int \<Rightarrow> BaseResp \<Rightarrow> SendPMResp" where
  "pm_resp msgID convID b = \<lparr>spMsgId = msgID, spConvId = convID, spErrorCode = None, spRateLimit = None,
     spRateUsed = None, spResetCondition = None, spRetryAfterSeconds = None, spBaseResp = b\<rparr>"

abbreviation pm_error :: "int \<Rightarrow> string \<Rightarrow> SendPMResp" where
  "pm_error code msg \<equiv> pm_resp 0 0 (base_resp code msg)"

definition sendTarget :: "SendPMReq \<Rightarrow> string \<times> int" where
  "sendTarget req =
     (case sqItemId req of
        Some i \<Rightarrow> if i > 0 then (''item'', i)
          else (case sqConvId req of
            Some c \<Rightarrow> if c > 0 then (''conversation'', c) else (''friend'', sqReceiverId req)
          | None \<Rightarrow> (''friend'', sqReceiverId req))
      | None \<Rightarrow> (case sqConvId req of
            Some c \<Rightarrow> if c > 0 then (''conversation'', c) else (''friend'', sqReceiverId req)
          | None \<Rightarrow> (''friend'', sqReceiverId req)))"

definition selfTargetPMResp :: SendPMResp where
  "selfTargetPMResp = pm_error 400 ''cannot send a private message to yourself''"

section \<open>Shared steps\<close>

definition ordered_pair :: "int \<Rightarrow> int \<Rightarrow> int \<times> int" where
  "ordered_pair x y = (if x > y then (y, x) else (x, y))"

definition new_message :: "int \<Rightarrow> int \<Rightarrow> int \<Rightarrow> int \<Rightarrow> string \<Rightarrow> string \<Rightarrow> string \<Rightarrow> PrivateMessage" where
  "new_message msgID convID senderID receiverID content senderName receiverName =
     \<lparr>mMsgID = msgID, mConvID = convID, mSenderID = senderID, mReceiverID = receiverID,
      mContent = content, mIsRead = False, mCreatedAt = 0, mSenderName = senderName,
      mReceiverName = receiverName\<rparr>"

definition new_conversation ::
  "int \<Rightarrow> int \<Rightarrow> int \<Rightarrow> int \<Rightarrow> string \<Rightarrow> int \<Rightarrow> string \<Rightarrow> string \<Rightarrow> Conversation" where
  "new_conversation convID a b senderID originType originID nameA nameB =
     \<lparr>cConvID = convID, cParticipantA = a, cParticipantB = b, cInitiatorID = senderID,
      cLastSenderID = senderID, cOriginType = originType, cOriginID = originID, cMsgCount = 1,
      cStatus = 0, cTopicStatus = 0, cUpdatedAt = 0, cParticipantAName = nameA, cParticipantBName = nameB\<rparr>"

text \<open>The bodies of the two kinds of transaction.\<close>

definition open_conversation_tx :: "Conversation \<Rightarrow> PrivateMessage \<Rightarrow> unit res io" where
  "open_conversation_tx conv msg = transaction (and_then (CreateConversation conv) (\<lambda>_. CreateMessage msg))"

definition reply_tx :: "PrivateMessage \<Rightarrow> int \<Rightarrow> int \<Rightarrow> unit res io" where
  "reply_tx msg convID senderID =
     transaction (and_then (CreateMessage msg) (\<lambda>_. UpdateConversationAfterMessage convID senderID))"

text \<open>After a commit: drop the receiver's cached fetch, push the message ID, record the activity.\<close>

definition announce :: "int \<Rightarrow> int \<Rightarrow> string \<Rightarrow> unit io" where
  "announce receiverID msgID senderName = do {
     _ \<leftarrow> cache_Remove [PMFetch receiverID];
     _ \<leftarrow> publish_push receiverID (PushText (itoa msgID));
     PublishMessageReceived receiverID senderName }"

section \<open>The three cases\<close>

definition limit_reached_resp :: "int \<Rightarrow> int \<Rightarrow> SendPMResp" where
  "limit_reached_resp convID retryAfter =
     \<lparr>spMsgId = 0, spConvId = convID, spErrorCode = Some ''PM_WAITING_FOR_PEER_REPLY'',
      spRateLimit = Some MaxInitiatorMsgs, spRateUsed = Some MaxInitiatorMsgs,
      spResetCondition = Some ''peer_reply_or_timeout'', spRetryAfterSeconds = Some retryAfter,
      spBaseResp = base_resp 429 ''waiting for reply from the other participant''\<rparr>"

text \<open>From the moment the ice break has passed: the ID, the names, the transaction.\<close>

definition deliver_reply :: "SendPMReq \<Rightarrow> int \<Rightarrow> int \<Rightarrow> int \<Rightarrow> SendPMResp io" where
  "deliver_reply req convID receiverID iceStatus = do {
     id_r \<leftarrow> next_msg_id;
     (case id_r of
        Inl _ \<Rightarrow> do {
          _ \<leftarrow> RollbackIceBreak convID iceStatus;
          ret (pm_error 500 ''failed to generate msg_id'') }
      | Inr msgID \<Rightarrow> do {
          names \<leftarrow> BatchGetAgentNames [sqSenderId req, receiverID];
          (let nameMap = value_or Map.empty names;
               senderName = map_get nameMap [] (sqSenderId req);
               receiverName = map_get nameMap [] receiverID
           in do {
             r \<leftarrow> reply_tx (new_message msgID convID (sqSenderId req) receiverID (sqContent req) senderName receiverName)
                    convID (sqSenderId req);
             (case r of
                Inl e \<Rightarrow> do {
                  _ \<leftarrow> RollbackIceBreak convID iceStatus;
                  ret (pm_error 500 (''failed to send message: '' @ err_text e)) }
              | Inr _ \<Rightarrow> do {
                  _ \<leftarrow> announce receiverID msgID senderName;
                  ret (pm_resp msgID convID success) }) }) }) }"

definition handleReply :: "SendPMReq \<Rightarrow> bool \<Rightarrow> SendPMResp io" where
  "handleReply req skip0 =
     (let convID = (case sqConvId req of None \<Rightarrow> 0 | Some c \<Rightarrow> c) in do {
        membership \<leftarrow> ValidateConvMembership convID (sqSenderId req);
        (case membership of
           Inl e \<Rightarrow> ret (pm_error 403 (err_text e))
         | Inr receiverID \<Rightarrow>
             if receiverID = sqSenderId req then ret selfTargetPMResp
             else do {
               blocked \<leftarrow> IsBlockedCached receiverID (sqSenderId req);
               if value_or False blocked then ret (pm_resp 0 0 success)
               else do {
                 friend \<leftarrow> (if skip0 then ret (Inr True) else IsFriendCached (sqSenderId req) receiverID);
                 if value_or False friend then deliver_reply req convID receiverID 0
                 else do {
                   ice \<leftarrow> CheckAndSetIceBreak convID (sqSenderId req);
                   (case ice of
                      Inl _ \<Rightarrow> ret (pm_error 500 ''ice break check failed'')
                    | Inr (iceStatus, _) \<Rightarrow>
                        if iceStatus = IceStatusLimitReached then do {
                          retry \<leftarrow> RetryAfterSeconds convID;
                          ret (limit_reached_resp convID (value_or 0 retry)) }
                        else deliver_reply req convID receiverID iceStatus) } } }) })"

definition handleNewConversation :: "SendPMReq \<Rightarrow> SendPMResp io" where
  "handleNewConversation req =
     (let itemID = (case sqItemId req of None \<Rightarrow> 0 | Some i \<Rightarrow> i) in do {
        owner \<leftarrow> GetItemOwner itemID;
        (case owner of
           Inl e \<Rightarrow> ret (pm_error 400 (err_text e))
         | Inr receiverID \<Rightarrow>
             if receiverID = sqSenderId req then ret selfTargetPMResp
             else do {
               available \<leftarrow> ValidateItemAvailable itemID;
               (case available of
                  Inl e \<Rightarrow>
                    if e = ErrItemNotAvailable then ret (pm_error 404 (err_text e))
                    else ret (pm_error 500 ''failed to check item availability'')
                | Inr _ \<Rightarrow> do {
                    blocked \<leftarrow> IsBlockedCached receiverID (sqSenderId req);
                    if value_or False blocked then ret (pm_resp 0 0 success)
                    else do {
                      reply \<leftarrow> ValidateNoReply itemID;
                      (case reply of
                         Inl e \<Rightarrow> ret (pm_error 403 (err_text e))
                       | Inr _ \<Rightarrow>
                           (case ordered_pair (sqSenderId req) receiverID of (participantA, participantB) \<Rightarrow> do {
                              existing \<leftarrow> GetOrCreateConvID participantA participantB itemID;
                              (case existing of
                                 Inl _ \<Rightarrow> ret (pm_error 500 ''failed to check existing conversation'')
                               | Inr (Some existingConvID) \<Rightarrow>
                                   handleReply (req\<lparr>sqConvId := Some existingConvID\<rparr>) False
                               | Inr None \<Rightarrow> do {
                                   conv_r \<leftarrow> next_conv_id;
                                   (case conv_r of
                                      Inl _ \<Rightarrow> ret (pm_error 500 ''failed to generate conv_id'')
                                    | Inr convID \<Rightarrow> do {
                                        msg_r \<leftarrow> next_msg_id;
                                        (case msg_r of
                                           Inl _ \<Rightarrow> ret (pm_error 500 ''failed to generate msg_id'')
                                         | Inr msgID \<Rightarrow> do {
                                             names \<leftarrow> BatchGetAgentNames [sqSenderId req, receiverID];
                                             (let nameMap = value_or Map.empty names;
                                                  senderName = map_get nameMap [] (sqSenderId req);
                                                  receiverName = map_get nameMap [] receiverID;
                                                  (nameA, nameB) = (if participantA = receiverID
                                                    then (receiverName, senderName) else (senderName, receiverName))
                                              in do {
                                                r \<leftarrow> open_conversation_tx
                                                  (new_conversation convID participantA participantB (sqSenderId req)
                                                     ''broadcast'' itemID nameA nameB)
                                                  (new_message msgID convID (sqSenderId req) receiverID
                                                     (sqContent req) senderName receiverName);
                                                (case r of
                                                   Inl e \<Rightarrow>
                                                     ret (pm_error 500 (''failed to create conversation: '' @ err_text e))
                                                 | Inr _ \<Rightarrow> do {
                                                     _ \<leftarrow> CacheConvMapping participantA participantB itemID convID;
                                                     _ \<leftarrow> CheckAndSetIceBreak convID (sqSenderId req);
                                                     _ \<leftarrow> announce receiverID msgID senderName;
                                                     ret (pm_resp msgID convID success) }) }) }) }) }) })) } }) }) })"

text \<open>The two identifiers are used even when their generator failed: they are then 0.\<close>

definition handleFriendPM :: "SendPMReq \<Rightarrow> SendPMResp io" where
  "handleFriendPM req = do {
     blocked \<leftarrow> IsBlockedCached (sqReceiverId req) (sqSenderId req);
     if value_or False blocked then ret (pm_resp 0 0 success)
     else do {
       friend \<leftarrow> IsFriendCached (sqSenderId req) (sqReceiverId req);
       if \<not> value_or False friend then ret (pm_error 403 ''not friends'')
       else (case ordered_pair (sqSenderId req) (sqReceiverId req) of (participantA, participantB) \<Rightarrow> do {
         existing \<leftarrow> GetOrCreateConvID participantA participantB 0;
         (case existing of
            Inl _ \<Rightarrow> ret (pm_error 500 ''failed to check conversation'')
          | Inr (Some existingConvID) \<Rightarrow> handleReply (req\<lparr>sqConvId := Some existingConvID\<rparr>) True
          | Inr None \<Rightarrow> do {
              conv_r \<leftarrow> next_conv_id;
              msg_r \<leftarrow> next_msg_id;
              names \<leftarrow> BatchGetAgentNames [sqSenderId req, sqReceiverId req];
              (let convID = value_or 0 conv_r; msgID = value_or 0 msg_r;
                   nameMap = value_or Map.empty names
               in do {
                 r \<leftarrow> open_conversation_tx
                   (new_conversation convID participantA participantB (sqSenderId req) ''friend'' 0
                      (map_get nameMap [] participantA) (map_get nameMap [] participantB))
                   (new_message msgID convID (sqSenderId req) (sqReceiverId req) (sqContent req)
                      (map_get nameMap [] (sqSenderId req)) (map_get nameMap [] (sqReceiverId req)));
                 (case r of
                    Inl _ \<Rightarrow> ret (pm_error 500 ''failed to create'')
                  | Inr _ \<Rightarrow> do {
                      _ \<leftarrow> CacheConvMapping participantA participantB 0 convID;
                      _ \<leftarrow> announce (sqReceiverId req) msgID (map_get nameMap [] (sqSenderId req));
                      ret (pm_resp msgID convID success) }) }) }) }) } }"

section \<open>Dispatch and the guard\<close>

text \<open>
  \<open>strings.EqualFold(t, "friend")\<close>. The only runes outside ASCII that fold to an ASCII letter fold
  to \<open>s\<close> and \<open>k\<close>, which do not occur in the word.
\<close>

definition ascii_lower :: "char \<Rightarrow> char" where
  "ascii_lower c = (let n = (of_char c :: nat) in if 65 \<le> n \<and> n \<le> 90 then char_of (n + 32) else c)"

definition EqualFold_friend :: "string \<Rightarrow> bool" where
  "EqualFold_friend s \<longleftrightarrow> map ascii_lower s = ''friend''"

definition sendPM :: "SendPMReq \<Rightarrow> SendPMResp io" where
  "sendPM req =
     (if (case sqItemId req of Some i \<Rightarrow> i > 0 | None \<Rightarrow> False) then handleNewConversation req
      else (case sqConvId req of
        Some c \<Rightarrow>
          if c > 0 then do {
            info \<leftarrow> GetConversationInfo c;
            handleReply req (case info of Inr i \<Rightarrow> EqualFold_friend (ciOriginType i) | Inl _ \<Rightarrow> False) }
          else if sqReceiverId req \<le> 0 then
            ret (pm_error 400 ''receiver_id is required for friend conversations'')
          else handleFriendPM req
      | None \<Rightarrow>
          if sqReceiverId req \<le> 0 then
            ret (pm_error 400 ''receiver_id is required for friend conversations'')
          else handleFriendPM req))"

definition SendPM :: "PMServiceImpl \<Rightarrow> SendPMReq \<Rightarrow> SendPMResp io" where
  "SendPM s req =
     (case ValidateMessageContent (sqContent req) of
        Some msg \<Rightarrow> ret (pm_error 400 msg)
      | None \<Rightarrow>
        if length (sqRequestId req) > 128 then ret (pm_error 400 ''request_id must not exceed 128 bytes'')
        else (case sendTarget req of (targetKind, targetID) \<Rightarrow>
          if targetKind = ''friend'' \<and> targetID = sqSenderId req then ret selfTargetPMResp
          else do {
            acquired \<leftarrow> Acquire (RequestFingerprint (sha256 s) (sqSenderId req) targetKind targetID
                                   (sqContent req) (sqRequestId req));
            (case acquired of
               Inl e \<Rightarrow>
                 if e = ErrInProgress then ret (pm_error 409 (err_text e))
                 else ret (pm_error 503
                   ''MESSAGE_SEND_GUARD_UNAVAILABLE: duplicate protection is unavailable; message was not sent'')
             | Inr (Inr replay) \<Rightarrow> ret (pm_resp (rsMsgID replay) (rsConvID replay) success)
             | Inr (Inl lease) \<Rightarrow> do {
                 resp \<leftarrow> sendPM req;
                 if Code (spBaseResp resp) \<noteq> 0 then do { _ \<leftarrow> Release lease; ret resp }
                 else do {
                   _ \<leftarrow> Complete lease \<lparr>rsMsgID = spMsgId resp, rsConvID = spConvId resp\<rparr>;
                   ret resp } }) }))"

end
