(* ===== verification/PMRead.thy ===== *)
theory PMRead
  imports PMSend
begin

text \<open>
  Reading messages and conversations, and changing their status: \<open>FetchPM\<close>, \<open>FetchPMHistory\<close>,
  \<open>GetConvHistory\<close>, \<open>ListConversations\<close>, \<open>UpdateTopicStatus\<close>, \<open>CloseConv\<close>, \<open>GetUnreadCount\<close> and
  \<open>MarkConvRead\<close> of \<open>rpc/pm/handler.go\<close>. An absent optional request field is \<open>None\<close>, and its
  getter gives the zero value.
\<close>

definition opt_get :: "'a \<Rightarrow> 'a option \<Rightarrow> 'a" where
  "opt_get z x = (case x of None \<Rightarrow> z | Some y \<Rightarrow> y)"

text \<open>\<open>if limit <= 0 { limit = 20 }; if limit > 100 { limit = 100 }\<close>\<close>

definition page_limit :: "int option \<Rightarrow> int" where
  "page_limit limit0 =
     (let limit = (if opt_get 0 limit0 \<le> 0 then 20 else opt_get 0 limit0)
      in if limit > 100 then 100 else limit)"

section \<open>Messages\<close>

fun distinct_ids :: "int list \<Rightarrow> int list \<Rightarrow> int list" where
  "distinct_ids seen [] = []"
| "distinct_ids seen (i # is) =
     (if i \<noteq> 0 \<and> i \<notin> set seen then i # distinct_ids (i # seen) is else distinct_ids seen is)"

definition officialFlagsFor :: "int list \<Rightarrow> (int \<Rightarrow> bool option) io" where
  "officialFlagsFor agentIDs = do {
     flags \<leftarrow> BatchGetOfficialFlags (distinct_ids [] agentIDs);
     ret (value_or Map.empty flags) }"

definition pm_message :: "(int \<Rightarrow> bool option) \<Rightarrow> bool \<Rightarrow> PrivateMessage \<Rightarrow> PMMessage" where
  "pm_message official isRead msg =
     \<lparr>pmMsgId = mMsgID msg, pmConvId = mConvID msg, pmSenderId = mSenderID msg,
      pmReceiverId = mReceiverID msg, pmContent = mContent msg, pmIsRead = isRead,
      pmCreatedAt = mCreatedAt msg, pmSenderName = mSenderName msg, pmReceiverName = mReceiverName msg,
      pmSenderIsOfficial = map_get official False (mSenderID msg)\<rparr>"

record FetchPMReq =
  fqAgentId :: int
  fqCursor :: "int option"
  fqLimit :: "int option"

text \<open>The part after a cache miss.\<close>

definition fetch_unread :: "int \<Rightarrow> int \<Rightarrow> int \<Rightarrow> FetchPMResp io" where
  "fetch_unread agentID cursor limit = do {
     r \<leftarrow> FetchUnreadMessages agentID cursor limit;
     (case r of
        Inl _ \<Rightarrow> ret \<lparr>fpMessages = [], fpNextCursor = 0, fpBaseResp = base_resp 500 ''failed to fetch messages''\<rparr>
      | Inr messages \<Rightarrow>
          if messages = [] then
            (let emptyResp = \<lparr>fpMessages = [], fpNextCursor = cursor, fpBaseResp = success\<rparr> in do {
               _ \<leftarrow> (if cursor = 0 then cache_Write (PMFetch agentID) (JFetchPM emptyResp) 10000 else ret (Inr ()));
               ret emptyResp })
          else do {
            _ \<leftarrow> MarkMessagesAsRead (map mMsgID messages);
            official \<leftarrow> officialFlagsFor (map mSenderID messages);
            ret \<lparr>fpMessages = map (pm_message official True) messages,
                 fpNextCursor = mMsgID (last messages), fpBaseResp = success\<rparr> }) }"

definition FetchPM :: "FetchPMReq \<Rightarrow> FetchPMResp io" where
  "FetchPM req =
     (let limit = page_limit (fqLimit req); cursor = opt_get 0 (fqCursor req) in
      if cursor = 0 then do {
        cached \<leftarrow> cache_Read (PMFetch (fqAgentId req));
        (case (case cached of Inl _ \<Rightarrow> None | Inr p \<Rightarrow> json_FetchPMResp p) of
           Some resp \<Rightarrow> ret resp
         | None \<Rightarrow> fetch_unread (fqAgentId req) cursor limit) }
      else fetch_unread (fqAgentId req) cursor limit)"

record FetchPMHistoryReq =
  fhAgentId :: int
  fhLimit :: "int option"

definition FetchPMHistory :: "FetchPMHistoryReq \<Rightarrow> (PMMessage list \<times> BaseResp) io" where
  "FetchPMHistory req =
     (if fhAgentId req \<le> 0 then ret ([], base_resp 400 ''invalid agent_id'')
      else (let limit0 = opt_get 20 (fhLimit req);
                limit1 = (if limit0 < 1 then 1 else limit0);
                limit = (if limit1 > 50 then 50 else limit1)
            in do {
              r \<leftarrow> FetchRecentReadMessages (fhAgentId req) limit;
              (case r of
                 Inl _ \<Rightarrow> ret ([], base_resp 500 ''internal error'')
               | Inr messages \<Rightarrow> do {
                   official \<leftarrow> officialFlagsFor (map mSenderID messages);
                   ret (map (\<lambda>m. pm_message official (mIsRead m) m) messages, success) }) }))"

record GetConvHistoryReq =
  ghConvId :: int
  ghAgentId :: int
  ghCursor :: "int option"
  ghLimit :: "int option"

definition GetConvHistory :: "GetConvHistoryReq \<Rightarrow> FetchPMResp io" where
  "GetConvHistory req = do {
     membership \<leftarrow> ValidateConvMembership (ghConvId req) (ghAgentId req);
     (case membership of
        Inl e \<Rightarrow> ret \<lparr>fpMessages = [], fpNextCursor = 0, fpBaseResp = base_resp 403 (err_text e)\<rparr>
      | Inr _ \<Rightarrow> do {
          r \<leftarrow> GetConvMessages (ghConvId req) (opt_get 0 (ghCursor req)) (page_limit (ghLimit req));
          (case r of
             Inl _ \<Rightarrow> ret \<lparr>fpMessages = [], fpNextCursor = 0,
                fpBaseResp = base_resp 500 ''failed to fetch conversation history''\<rparr>
           | Inr msgs \<Rightarrow> do {
               official \<leftarrow> officialFlagsFor (map mSenderID msgs);
               ret \<lparr>fpMessages = map (\<lambda>m. pm_message official (mIsRead m) m) msgs,
                    fpNextCursor = (if msgs = [] then 0 else mMsgID (last msgs)),
                    fpBaseResp = success\<rparr> }) }) }"

section \<open>Conversations\<close>

record ListConversationsReq =
  lqAgentId :: int
  lqCursor :: "int option"
  lqCursorConvId :: "int option"
  lqCursorTopicStatus :: "int option"
  lqLimit :: "int option"
  lqOriginType :: "string option"
  lqSortBy :: "string option"

record ConversationInfo =
  cviConvId :: int
  cviParticipantA :: int
  cviParticipantB :: int
  cviUpdatedAt :: int
  cviParticipantAName :: string
  cviParticipantBName :: string
  cviLastSenderId :: int
  cviNeedsReply :: bool
  cviTopicStatus :: string
  cviOriginType :: "string option"
  cviOriginId :: "int option"
  cviMsgCount :: int
  cviPeerName :: string
  cviRemark :: "string option"
  cviIsFriend :: bool
  cviCategory :: string
  cviLastMessagePreview :: "string option"
  cviUnreadCount :: "int option"

record ListConversationsResp =
  lpConversations :: "ConversationInfo list"
  lpNextCursor :: int
  lpNextCursorTopicStatus :: "int option"
  lpNextCursorConvId :: "int option"
  lpBaseResp :: BaseResp

definition list_error :: "int \<Rightarrow> string \<Rightarrow> ListConversationsResp" where
  "list_error code msg = \<lparr>lpConversations = [], lpNextCursor = 0, lpNextCursorTopicStatus = None,
     lpNextCursorConvId = None, lpBaseResp = base_resp code msg\<rparr>"

definition peer_of :: "int \<Rightarrow> Conversation \<Rightarrow> int" where
  "peer_of agentID conv = (if cParticipantA conv = agentID then cParticipantB conv else cParticipantA conv)"

text \<open>One entry of the page: two more queries per conversation.\<close>

definition conversation_entry ::
  "int \<Rightarrow> (int \<Rightarrow> string option) \<Rightarrow> (int \<Rightarrow> string option) \<Rightarrow> (int \<Rightarrow> bool option) \<Rightarrow> Conversation
   \<Rightarrow> ConversationInfo io" where
  "conversation_entry agentID remarks liveNames friendSet conv = do {
     lastMsg \<leftarrow> GetLastMessage (cConvID conv);
     unread \<leftarrow> CountUnread (cConvID conv) agentID;
     (let peerID = peer_of agentID conv;
          snapshot = (if cParticipantA conv = agentID then cParticipantBName conv else cParticipantAName conv);
          isFriend = map_get friendSet False peerID
      in ret \<lparr>cviConvId = cConvID conv, cviParticipantA = cParticipantA conv,
        cviParticipantB = cParticipantB conv, cviUpdatedAt = cUpdatedAt conv,
        cviParticipantAName = cParticipantAName conv, cviParticipantBName = cParticipantBName conv,
        cviLastSenderId = cLastSenderID conv, cviNeedsReply = (cLastSenderID conv \<noteq> agentID),
        cviTopicStatus = TopicStatusName (cTopicStatus conv),
        cviOriginType = (if cOriginType conv \<noteq> [] then Some (cOriginType conv) else None),
        cviOriginId = (if cOriginID conv \<noteq> 0 then Some (cOriginID conv) else None),
        cviMsgCount = cMsgCount conv,
        cviPeerName = (if map_get liveNames [] peerID \<noteq> [] then map_get liveNames [] peerID else snapshot),
        cviRemark = remarks peerID,
        cviIsFriend = isFriend,
        cviCategory = Category (cOriginType conv) isFriend,
        cviLastMessagePreview = (case lastMsg of Inl _ \<Rightarrow> None | Inr m \<Rightarrow> Some (rune_prefix 100 (mContent m))),
        cviUnreadCount = (case unread of Inl _ \<Rightarrow> None | Inr n \<Rightarrow> Some n)\<rparr>) }"

primrec map_io :: "('a \<Rightarrow> 'b io) \<Rightarrow> 'a list \<Rightarrow> 'b list io" where
  "map_io f [] = ret []"
| "map_io f (x # xs) = do { y \<leftarrow> f x; ys \<leftarrow> map_io f xs; ret (y # ys) }"

definition topic_cursor :: "ListConversationsReq \<Rightarrow> TopicSortCursor option res" where
  "topic_cursor req =
     (let cursor = opt_get 0 (lqCursor req) in
      if lqCursorTopicStatus req \<noteq> None \<or> lqCursorConvId req \<noteq> None \<or> cursor > 0 then
        (if lqCursorTopicStatus req = None \<or> lqCursorConvId req = None \<or> cursor \<le> 0
         then Inl (ErrText ''invalid topic status cursor'')
         else Inr (Some \<lparr>tcTopicStatus = opt_get 0 (lqCursorTopicStatus req), tcUpdatedAt = cursor,
                         tcConvID = opt_get 0 (lqCursorConvId req)\<rparr>))
      else Inr None)"

definition conversations_page :: "int \<Rightarrow> string \<Rightarrow> Conversation list \<Rightarrow> ListConversationsResp io" where
  "conversations_page agentID sortBy convs =
     (let peerIDs = map (peer_of agentID) convs in do {
        remarks \<leftarrow> GetRemarksByPeer agentID peerIDs;
        liveNames \<leftarrow> BatchGetAgentNames peerIDs;
        friendSet \<leftarrow> FriendSet agentID peerIDs;
        infos \<leftarrow> map_io (conversation_entry agentID (value_or Map.empty remarks)
                   (value_or Map.empty liveNames) (value_or Map.empty friendSet)) convs;
        ret \<lparr>lpConversations = infos,
             lpNextCursor = (if convs = [] then 0 else cUpdatedAt (last convs)),
             lpNextCursorTopicStatus = (if convs \<noteq> [] \<and> sortBy = ''topic_status''
               then Some (cTopicStatus (last convs)) else None),
             lpNextCursorConvId = (if convs = [] then None else Some (cConvID (last convs))),
             lpBaseResp = success\<rparr> })"

definition ListConversations :: "ListConversationsReq \<Rightarrow> ListConversationsResp io" where
  "ListConversations req =
     (let limit = page_limit (lqLimit req);
          originType = opt_get [] (lqOriginType req);
          sortBy = (if opt_get [] (lqSortBy req) = [] then ''recent'' else opt_get [] (lqSortBy req));
          page = (\<lambda>r. case r of
             Inl _ \<Rightarrow> ret (list_error 500 ''failed to list conversations'')
           | Inr convs \<Rightarrow> conversations_page (lqAgentId req) sortBy convs)
      in if sortBy = ''topic_status'' then
           (case topic_cursor req of
              Inl _ \<Rightarrow> ret (list_error 400 ''invalid topic status cursor'')
            | Inr tc \<Rightarrow> do {
                r \<leftarrow> ListConversationsByTopicStatus (lqAgentId req) tc limit originType;
                page r })
         else if sortBy = ''recent'' then do {
           r \<leftarrow> ListConversationsFiltered (lqAgentId req) (opt_get 0 (lqCursor req))
                  (opt_get 0 (lqCursorConvId req)) limit originType;
           page r }
         else ret (list_error 400 ''sort_by must be recent or topic_status''))"

text \<open>The response is the requested status, whether it changed, and the outcome.\<close>

definition UpdateTopicStatus :: "int \<Rightarrow> int \<Rightarrow> string \<Rightarrow> (string \<times> bool \<times> BaseResp) io" where
  "UpdateTopicStatus convId agentId topicStatus =
     (case ParseTopicStatus topicStatus of
        None \<Rightarrow> ret (topicStatus, False, base_resp 400 ''topic_status must be pending_verify, open or closed'')
      | Some status \<Rightarrow> do {
          membership \<leftarrow> ValidateConvMembership convId agentId;
          (case membership of
             Inl e \<Rightarrow> ret (topicStatus, False, base_resp 403 (err_text e))
           | Inr _ \<Rightarrow> do {
               r \<leftarrow> UpdateConversationTopicStatus convId agentId status;
               (case r of
                  Inl e \<Rightarrow> ret (topicStatus, False, base_resp 400 (err_text e))
                | Inr (_, changed) \<Rightarrow> ret (topicStatus, changed, success)) }) })"

definition CloseConv :: "int \<Rightarrow> int \<Rightarrow> BaseResp io" where
  "CloseConv convId agentId = do {
     membership \<leftarrow> ValidateConvMembership convId agentId;
     (case membership of
        Inl e \<Rightarrow> ret (base_resp 403 (err_text e))
      | Inr _ \<Rightarrow> do {
          r \<leftarrow> CloseConversation convId;
          (case r of
             Inl e \<Rightarrow> ret (base_resp 400 (err_text e))
           | Inr _ \<Rightarrow> do {
               _ \<leftarrow> InvalidateConvCache convId;
               ret success }) }) }"

record UnreadCountResp =
  ucCount :: int
  ucBroadcast :: int
  ucBroadcastComment :: int
  ucNonFriend :: int
  ucFriend :: int

definition GetUnreadCount :: "int \<Rightarrow> (UnreadCountResp option \<times> BaseResp) io" where
  "GetUnreadCount agentId = do {
     total \<leftarrow> CountUnreadTotal agentId;
     (case total of
        Inl _ \<Rightarrow> ret (None, base_resp 500 ''failed to count'')
      | Inr n \<Rightarrow> do {
          r \<leftarrow> CountUnreadByOrigin agentId;
          (case value_or (0, 0, 0) r of (comment, nonFriend, fr) \<Rightarrow>
             ret (Some \<lparr>ucCount = n, ucBroadcast = comment + nonFriend, ucBroadcastComment = comment,
                        ucNonFriend = nonFriend, ucFriend = fr\<rparr>, success)) }) }"

definition MarkConvRead :: "int \<Rightarrow> int \<Rightarrow> BaseResp io" where
  "MarkConvRead convId agentId = do {
     r \<leftarrow> MarkConvReadByAgent convId agentId;
     ret (case r of Inl _ \<Rightarrow> base_resp 500 ''failed to mark read'' | Inr _ \<Rightarrow> success) }"

end
