(* ===== verification/PMFriends.thy ===== *)
theory PMFriends
  imports PMRead
begin

text \<open>
  Friend requests, friendships and blocks: \<open>SendFriendRequest\<close>, \<open>HandleFriendRequest\<close>, \<open>Unfriend\<close>,
  \<open>BlockUser\<close>, \<open>UnblockUser\<close>, \<open>ListFriendRequests\<close>, \<open>ListFriends\<close> and \<open>UpdateFriendRemark\<close> of
  \<open>rpc/pm/handler.go\<close>. The body of each transaction is a definition of its own (\<open>..._tx\<close>).
\<close>

section \<open>Asking for a friendship\<close>

text \<open>
  What the transaction of \<open>SendFriendRequest\<close> leaves in the captured variables: the request, whether
  the recipient is to be notified, and the notifications to delete.
\<close>

record FriendRequestOutcome =
  foRequestID :: int
  foNotifyRecipient :: bool
  foDeletions :: "(int \<times> int) list"

text \<open>A fresh request, or the same pair's row reset.\<close>

definition renew_request ::
  "FriendRequest option \<Rightarrow> int \<Rightarrow> int \<Rightarrow> string \<Rightarrow> string \<Rightarrow> FriendRequestOutcome res io" where
  "renew_request outgoingReq fromUid toUid greeting remark =
     (case outgoingReq of
        Some q \<Rightarrow>
          if fStatus q = RequestStatusPending then ret (Inl ErrFriendRequestAlreadyPending)
          else if fStatus q \<in> {RequestStatusRejected, RequestStatusCancelled, RequestStatusUnfriended, RequestStatusAccepted}
          then and_then next_req_id (\<lambda>requestID.
            and_then (ResetFriendRequest (fID q) requestID greeting remark) (\<lambda>_.
              ret (Inr \<lparr>foRequestID = requestID, foNotifyRecipient = True, foDeletions = [(toUid, fID q)]\<rparr>)))
          else ret (Inl (ErrText (''unsupported friend request status: '' @ itoa (fStatus q))))
      | None \<Rightarrow>
          and_then next_req_id (\<lambda>requestID.
            and_then (CreateFriendRequest requestID fromUid toUid greeting remark) (\<lambda>_.
              ret (Inr \<lparr>foRequestID = requestID, foNotifyRecipient = True, foDeletions = []\<rparr>))))"

definition friend_request_tx :: "int \<Rightarrow> int \<Rightarrow> string \<Rightarrow> string \<Rightarrow> FriendRequestOutcome res io" where
  "friend_request_tx fromUid toUid greeting remark =
     and_then (LockRelationPair fromUid toUid) (\<lambda>_.
     and_then (GetFriendRequestBetweenForUpdate fromUid toUid) (\<lambda>outgoingReq.
     and_then (GetFriendRequestBetweenForUpdate toUid fromUid) (\<lambda>incomingReq.
       case incomingReq of
         Some q \<Rightarrow>
           if fStatus q = RequestStatusPending then
             and_then (UpdateRequestStatusIfPending (fID q) RequestStatusAccepted) (\<lambda>updated.
               if \<not> updated then ret (Inl ErrFriendRequestNotPending)
               else and_then (CreateFriendRelation fromUid toUid remark (fRemark q)) (\<lambda>_.
                 ret (Inr \<lparr>foRequestID = fID q, foNotifyRecipient = False, foDeletions = [(fromUid, fID q)]\<rparr>)))
           else renew_request outgoingReq fromUid toUid greeting remark
       | None \<Rightarrow> renew_request outgoingReq fromUid toUid greeting remark)))"

text \<open>The counter of the hour: \<open>True\<close> when the request is over the limit; a failing counter lets it pass.\<close>

definition over_rate_limit :: "PMServiceImpl \<Rightarrow> int \<Rightarrow> bool io" where
  "over_rate_limit s fromUid = do {
     r \<leftarrow> redis_cmd (INCR (FriendRequestRate fromUid));
     (case r of
        Inl _ \<Rightarrow> ret False
      | Inr count \<Rightarrow> do {
          _ \<leftarrow> (if count = 1 then redis_cmd (EXPIRE (FriendRequestRate fromUid) 3600000) else ret (Inr False));
          ret (count > HourlyLimit (friendRequestLimits s) fromUid) }) }"

record SendFriendRequestReq =
  srFromUid :: int
  srToUid :: int
  srGreeting :: "string option"
  srRemark :: "string option"

text \<open>After the commit.\<close>

definition friend_request_effects :: "int \<Rightarrow> int \<Rightarrow> string \<Rightarrow> FriendRequestOutcome \<Rightarrow> unit io" where
  "friend_request_effects fromUid toUid greeting o' = do {
     _ \<leftarrow> (if foNotifyRecipient o' then do {
             _ \<leftarrow> PublishFriendRequestSent fromUid;
             _ \<leftarrow> PublishFriendRequestReceived toUid;
             peer \<leftarrow> notification_identity fromUid;
             _ \<leftarrow> spawn (TFriendRequestNotification (foRequestID o') toUid fromUid (piShortID peer)
                     (piDisplayName peer) greeting);
             _ \<leftarrow> publish_push toUid (PushText ''friend_request'');
             ret () }
           else do {
             _ \<leftarrow> PublishFriendAdded fromUid [];
             _ \<leftarrow> PublishFriendAdded toUid [];
             peer \<leftarrow> notification_identity fromUid;
             _ \<leftarrow> spawn (TFriendResponseNotification (foRequestID o') toUid fromUid (piShortID peer)
                     (piDisplayName peer) ''friend_accepted'' []);
             publishFriendResponseEvent toUid fromUid peer ''friend_accepted'' });
     _ \<leftarrow> deletePendingFriendRequestNotifications (foDeletions o');
     _ \<leftarrow> InvalidateFriendCache fromUid;
     _ \<leftarrow> InvalidateFriendCache toUid;
     if \<not> foNotifyRecipient o' then do {
       _ \<leftarrow> PublishRebuild fromUid ''friend_added'';
       PublishRebuild toUid ''friend_added'' }
     else ret () }"

definition truncated :: "PMServiceImpl \<Rightarrow> string option \<Rightarrow> nat \<Rightarrow> string" where
  "truncated s x n = (case x of None \<Rightarrow> [] | Some t \<Rightarrow> truncateByWeightedLength (wide_rune s) t n)"

definition SendFriendRequest :: "PMServiceImpl \<Rightarrow> SendFriendRequestReq \<Rightarrow> (int \<times> BaseResp) io" where
  "SendFriendRequest s req =
     (let fromUid = srFromUid req; toUid = srToUid req in
      if fromUid = toUid then ret (0, base_resp 400 ''cannot send a friend request to yourself'')
      else do {
        limited \<leftarrow> over_rate_limit s fromUid;
        if limited then ret (0, base_resp 429 ''too many requests, please try again later'')
        else (let greeting = truncated s (srGreeting req) 200; remark = truncated s (srRemark req) 100 in do {
          blockedByMe \<leftarrow> IsBlockedCached fromUid toUid;
          if value_or False blockedByMe then ret (0, base_resp 403 ''cannot send request'')
          else do {
            blockedByPeer \<leftarrow> IsBlockedCached toUid fromUid;
            if value_or False blockedByPeer then ret (0, success)
            else do {
              friend \<leftarrow> IsFriendCached fromUid toUid;
              if value_or False friend then ret (0, base_resp 400 ''already friends'')
              else do {
                r \<leftarrow> transaction (friend_request_tx fromUid toUid greeting remark);
                (case r of
                   Inl e \<Rightarrow>
                     if e = ErrFriendRequestAlreadyPending then ret (0, base_resp 400 (err_text e))
                     else ret (0, base_resp 500 ''failed to create request'')
                 | Inr o' \<Rightarrow> do {
                     _ \<leftarrow> friend_request_effects fromUid toUid greeting o';
                     ret (foRequestID o', success) }) } } } }) })"

section \<open>Answering a request\<close>

datatype action = ACCEPT | REJECT | CANCEL | OTHER_ACTION int

record HandleFriendRequestReq =
  hrRequestId :: int
  hrAgentId :: int
  hrAction :: action
  hrRemark :: "string option"
  hrReason :: "string option"

text \<open>\<open>UpdateRequestStatusIfPending\<close>, an update of no row being an error.\<close>

definition settle_request :: "int \<Rightarrow> int \<Rightarrow> unit res io" where
  "settle_request requestID status =
     and_then (UpdateRequestStatusIfPending requestID status) (\<lambda>updated.
       if \<not> updated then ret (Inl ErrFriendRequestNotPending) else ret (Inr ()))"

text \<open>The row as it was read, and the type of the response notification (empty for a cancellation).\<close>

definition accept_request :: "HandleFriendRequestReq \<Rightarrow> string \<Rightarrow> FriendRequest \<Rightarrow> (FriendRequest \<times> string) res io" where
  "accept_request req recipientRemark q =
     (if fToUID q \<noteq> hrAgentId req then ret (Inl (ErrText ''not recipient''))
      else
        and_then (IsBlocked (fFromUID q) (fToUID q)) (\<lambda>blockedBySender.
        and_then (IsBlocked (fToUID q) (fFromUID q)) (\<lambda>blockedByRecipient.
          if blockedBySender \<or> blockedByRecipient then ret (Inl ErrFriendRequestBlocked)
          else
            and_then (settle_request (hrRequestId req) RequestStatusAccepted) (\<lambda>_.
            and_then (IsFriend (fFromUID q) (fToUID q)) (\<lambda>isFriend.
            and_then (if isFriend then ret (Inr ())
                      else CreateFriendRelation (fFromUID q) (fToUID q) (fRemark q) recipientRemark) (\<lambda>_.
              ret (Inr (q, ''friend_accepted''))))))))"

definition handle_request_tx :: "HandleFriendRequestReq \<Rightarrow> string \<Rightarrow> (FriendRequest \<times> string) res io" where
  "handle_request_tx req recipientRemark =
     and_then (GetFriendRequestForUpdate (hrRequestId req)) (\<lambda>row.
       case row of
         None \<Rightarrow> ret (Inl RecordNotFound)
       | Some q \<Rightarrow>
           and_then (LockRelationPair (fFromUID q) (fToUID q)) (\<lambda>_.
             if fStatus q \<noteq> RequestStatusPending then ret (Inl ErrFriendRequestNotPending)
             else (case hrAction req of
                 ACCEPT \<Rightarrow> accept_request req recipientRemark q
               | REJECT \<Rightarrow>
                   if fToUID q \<noteq> hrAgentId req then ret (Inl (ErrText ''not recipient''))
                   else and_then (settle_request (hrRequestId req) RequestStatusRejected) (\<lambda>_.
                     ret (Inr (q, ''friend_rejected'')))
               | CANCEL \<Rightarrow>
                   if fFromUID q \<noteq> hrAgentId req then ret (Inl (ErrText ''not sender''))
                   else and_then (settle_request (hrRequestId req) RequestStatusCancelled) (\<lambda>_.
                     ret (Inr (q, [])))
               | OTHER_ACTION _ \<Rightarrow> ret (Inl (ErrText ''invalid action'')))))"

definition handle_error :: "err \<Rightarrow> BaseResp" where
  "handle_error e =
     (if e = RecordNotFound then base_resp 404 ''request not found''
      else if e = ErrFriendRequestNotPending then base_resp 400 (err_text e)
      else if e = ErrFriendRequestBlocked then base_resp 403 (err_text e)
      else if err_text e = ''not recipient'' then base_resp 403 ''not recipient''
      else if err_text e = ''not sender'' then base_resp 403 ''not sender''
      else if err_text e = ''invalid action'' then base_resp 400 ''invalid action''
      else base_resp 500 ''failed to handle request'')"

definition notify_response :: "HandleFriendRequestReq \<Rightarrow> FriendRequest \<Rightarrow> string \<Rightarrow> string \<Rightarrow> unit io" where
  "notify_response req q notifType reason = do {
     peer \<leftarrow> notification_identity (fToUID q);
     _ \<leftarrow> spawn (TFriendResponseNotification (hrRequestId req) (fFromUID q) (fToUID q) (piShortID peer)
             (piDisplayName peer) notifType reason);
     publishFriendResponseEvent (fFromUID q) (fToUID q) peer notifType }"

definition HandleFriendRequest :: "PMServiceImpl \<Rightarrow> HandleFriendRequestReq \<Rightarrow> BaseResp io" where
  "HandleFriendRequest s req =
     (let reason = truncated s (hrReason req) 200; recipientRemark = truncated s (hrRemark req) 100 in do {
        r \<leftarrow> transaction (handle_request_tx req recipientRemark);
        (case r of
           Inl e \<Rightarrow> ret (handle_error e)
         | Inr (q, notifType) \<Rightarrow> do {
             _ \<leftarrow> deletePendingFriendRequestNotifications [(fToUID q, fID q)];
             _ \<leftarrow> InvalidateFriendCache (fFromUID q);
             _ \<leftarrow> InvalidateFriendCache (fToUID q);
             _ \<leftarrow> (if notifType = ''friend_accepted'' then do {
                     _ \<leftarrow> PublishFriendAdded (fFromUID q) [];
                     _ \<leftarrow> PublishRebuild (fFromUID q) ''friend_added'';
                     _ \<leftarrow> PublishRebuild (fToUID q) ''friend_added'';
                     notify_response req q notifType reason }
                   else if notifType = ''friend_rejected'' then notify_response req q notifType reason
                   else ret ());
             ret success }) })"

section \<open>Ending a friendship, blocking\<close>

text \<open>
  gorm's \<open>Update\<close> of one column also sets \<open>updated_at\<close>; the field carries no unit tag, for which
  gorm's default is seconds.
\<close>

definition update_status_column :: "(FriendRequest \<Rightarrow> bool) \<Rightarrow> int \<Rightarrow> unit res io" where
  "update_status_column P status = do {
     now \<leftarrow> now_ms;
     and_then (db_stmt (set_request_status P status (go_div now 1000))) (\<lambda>_. ret (Inr ())) }"

definition unfriend_tx :: "int \<Rightarrow> int \<Rightarrow> unit res io" where
  "unfriend_tx fromUid toUid =
     and_then (DeleteFriendRelation fromUid toUid) (\<lambda>_.
       update_status_column (\<lambda>q. (fFromUID q = fromUid \<and> fToUID q = toUid \<or> fFromUID q = toUid \<and> fToUID q = fromUid)
         \<and> fStatus q = RequestStatusAccepted) RequestStatusUnfriended)"

definition Unfriend :: "int \<Rightarrow> int \<Rightarrow> BaseResp io" where
  "Unfriend fromUid toUid = do {
     r \<leftarrow> transaction (unfriend_tx fromUid toUid);
     (case r of
        Inl e \<Rightarrow> ret (if e = ErrNotFriends then base_resp 400 (err_text e) else base_resp 500 ''failed to unfriend'')
      | Inr _ \<Rightarrow> do {
          _ \<leftarrow> InvalidateFriendCache fromUid;
          _ \<leftarrow> InvalidateFriendCache toUid;
          _ \<leftarrow> PublishRebuild fromUid ''friend_removed'';
          _ \<leftarrow> PublishRebuild toUid ''friend_removed'';
          ret success }) }"

text \<open>The loop over the two requests of the pair; the result is the notifications to delete.\<close>

fun cancel_requests :: "FriendRequest option list \<Rightarrow> (int \<times> int) list \<Rightarrow> (int \<times> int) list res io" where
  "cancel_requests [] deletions = ret (Inr deletions)"
| "cancel_requests (None # rest) deletions = cancel_requests rest deletions"
| "cancel_requests (Some q # rest) deletions =
     (if fStatus q = RequestStatusPending then
        and_then (UpdateRequestStatusIfPending (fID q) RequestStatusCancelled) (\<lambda>updated.
          cancel_requests rest (if updated then deletions @ [(fToUID q, fID q)] else deletions))
      else if fStatus q = RequestStatusAccepted then
        and_then (UpdateRequestStatus (fID q) RequestStatusUnfriended) (\<lambda>_. cancel_requests rest deletions)
      else cancel_requests rest deletions)"

text \<open>The result of the delete statement is ignored.\<close>

definition block_tx :: "int \<Rightarrow> int \<Rightarrow> string \<Rightarrow> (int \<times> int) list res io" where
  "block_tx fromUid toUid remark =
     and_then (LockRelationPair fromUid toUid) (\<lambda>_.
     and_then (GetFriendRequestBetweenForUpdate fromUid toUid) (\<lambda>outgoingReq.
     and_then (GetFriendRequestBetweenForUpdate toUid fromUid) (\<lambda>incomingReq.
     and_then (CreateBlockRelation fromUid toUid remark) (\<lambda>_. do {
       _ \<leftarrow> db_stmt (delete_relations (is_friend_row fromUid toUid));
       cancel_requests [outgoingReq, incomingReq] [] }))))"

definition BlockUser :: "PMServiceImpl \<Rightarrow> int \<Rightarrow> int \<Rightarrow> string option \<Rightarrow> BaseResp io" where
  "BlockUser s fromUid toUid remark0 =
     (if fromUid = toUid then ret (base_resp 400 ''cannot block yourself'')
      else do {
        r \<leftarrow> transaction (block_tx fromUid toUid (truncated s remark0 100));
        (case r of
           Inl e \<Rightarrow> ret (if e = ErrAlreadyBlocked then base_resp 409 (err_text e) else base_resp 500 ''failed to block'')
         | Inr deletions \<Rightarrow> do {
             _ \<leftarrow> redis_cmd (SADD (Blocks fromUid) [toUid]);
             _ \<leftarrow> InvalidateFriendCache fromUid;
             _ \<leftarrow> InvalidateFriendCache toUid;
             _ \<leftarrow> deletePendingFriendRequestNotifications deletions;
             _ \<leftarrow> PublishRebuild fromUid ''friend_removed'';
             _ \<leftarrow> PublishRebuild toUid ''friend_removed'';
             ret success }) })"

definition unblock_tx :: "int \<Rightarrow> int \<Rightarrow> unit res io" where
  "unblock_tx fromUid toUid =
     and_then (DeleteBlockRelation fromUid toUid) (\<lambda>_.
       update_status_column (\<lambda>q. fFromUID q = toUid \<and> fToUID q = fromUid \<and> fStatus q = RequestStatusPending)
         RequestStatusCancelled)"

definition UnblockUser :: "int \<Rightarrow> int \<Rightarrow> BaseResp io" where
  "UnblockUser fromUid toUid = do {
     r \<leftarrow> transaction (unblock_tx fromUid toUid);
     (case r of
        Inl e \<Rightarrow> ret (if e = ErrNotBlocked then base_resp 400 (err_text e) else base_resp 500 ''failed to unblock'')
      | Inr _ \<Rightarrow> do {
          _ \<leftarrow> redis_cmd (SREM (Blocks fromUid) toUid);
          ret success }) }"

section \<open>Listing\<close>

record FriendRequestInfo =
  friRequestId :: int
  friFromUid :: int
  friToUid :: int
  friCreatedAt :: int
  friFromName :: string
  friToName :: string
  friFromIsOfficial :: bool
  friFrom :: "(string \<times> string) option"
  friTo :: "(string \<times> string) option"
  friGreeting :: "string option"

definition public_handle :: "(int \<Rightarrow> PublicIdentity option) \<Rightarrow> int \<Rightarrow> (string \<times> string) option" where
  "public_handle identities uid = map_option (\<lambda>i. (piShortID i, piDisplayName i)) (identities uid)"

definition ListFriendRequests ::
  "int \<Rightarrow> string \<Rightarrow> int option \<Rightarrow> int option \<Rightarrow> (FriendRequestInfo list \<times> int \<times> bool option \<times> BaseResp) io" where
  "ListFriendRequests agentId direction cursor limit = do {
     r \<leftarrow> ListFriendRequests_db agentId direction (opt_get 0 cursor) (page_limit limit);
     (case r of
        Inl _ \<Rightarrow> ret ([], 0, None, base_resp 500 ''failed to list'')
      | Inr (requests, hasMore) \<Rightarrow>
          if requests = [] then ret ([], 0, Some hasMore, success)
          else (let uids = concat (map (\<lambda>r. [fFromUID r, fToUID r]) requests) in do {
            names \<leftarrow> BatchGetAgentNames uids;
            idents \<leftarrow> GetBatch uids;
            official \<leftarrow> officialFlagsFor (map fFromUID requests);
            (let nameMap = value_or Map.empty names; identities = value_or Map.empty idents
             in ret (map (\<lambda>r. \<lparr>friRequestId = fID r, friFromUid = fFromUID r, friToUid = fToUID r,
                     friCreatedAt = fCreatedAt r, friFromName = map_get nameMap [] (fFromUID r),
                     friToName = map_get nameMap [] (fToUID r),
                     friFromIsOfficial = map_get official False (fFromUID r),
                     friFrom = public_handle identities (fFromUID r),
                     friTo = public_handle identities (fToUID r),
                     friGreeting = (if fGreeting r \<noteq> [] then Some (fGreeting r) else None)\<rparr>) requests,
                 fID (last requests), Some hasMore, success)) })) }"

record FriendInfo =
  fniAgentId :: int
  fniAgentName :: string
  fniFriendSince :: int
  fniHandle :: "(string \<times> string) option"
  fniRemark :: "string option"
  fniBio :: "string option"
  fniLastDm :: "(string \<times> int) option"

definition friend_entry :: "int \<Rightarrow> (int \<Rightarrow> PublicIdentity option) \<Rightarrow> Friend \<Rightarrow> FriendInfo io" where
  "friend_entry agentId identities f = do {
     dm \<leftarrow> GetLastFriendDM agentId (frAgentID f);
     ret \<lparr>fniAgentId = frAgentID f, fniAgentName = frAgentName f, fniFriendSince = frFriendSince f,
          fniHandle = public_handle identities (frAgentID f),
          fniRemark = (if frRemark f \<noteq> [] then Some (frRemark f) else None),
          fniBio = (if frBio f \<noteq> [] then Some (frBio f) else None),
          fniLastDm = (case dm of
              Inr (Some m) \<Rightarrow> if mMsgID m \<noteq> 0 then Some (mContent m, mCreatedAt m) else None
            | _ \<Rightarrow> None)\<rparr> }"

definition ListFriends ::
  "int \<Rightarrow> int option \<Rightarrow> int option \<Rightarrow> (FriendInfo list \<times> int \<times> int option \<times> BaseResp) io" where
  "ListFriends agentId cursor limit = do {
     r \<leftarrow> ListFriends_db agentId (opt_get 0 cursor) (page_limit limit);
     (case r of
        Inl _ \<Rightarrow> ret ([], 0, None, base_resp 500 ''failed to list'')
      | Inr friends \<Rightarrow> do {
          idents \<leftarrow> GetBatch (map frAgentID friends);
          infos \<leftarrow> map_io (friend_entry agentId (value_or Map.empty idents)) friends;
          total \<leftarrow> CountFriends agentId;
          ret (infos, (if friends = [] then 0 else frRelationID (last friends)),
               (case total of Inl _ \<Rightarrow> None | Inr n \<Rightarrow> Some n), success) }) }"

definition UpdateFriendRemark :: "PMServiceImpl \<Rightarrow> int \<Rightarrow> int \<Rightarrow> string \<Rightarrow> BaseResp io" where
  "UpdateFriendRemark s agentId friendUid remark0 = do {
     r \<leftarrow> UpdateFriendRemark_db agentId friendUid (truncateByWeightedLength (wide_rune s) remark0 100);
     ret (case r of Inl e \<Rightarrow> base_resp 400 (err_text e) | Inr _ \<Rightarrow> success) }"

end
