(* ===== verification/ServiceInv.thy ===== *)
theory ServiceInv
  imports PMFriends
begin

text \<open>
  Invariants of the tables and the keyspace, kept by the whole service. The locale
  \<open>service_invariant\<close> is the interface: an invariant \<open>I\<close>, with \<open>info_ok\<close> for what may be cached about
  a conversation, and the laws that single SQL statements and writes of the conversation
  cache obey. Inside the locale every handler, and every goroutine it starts, is shown to keep
  the invariant, for all timings and all failures of every command.
\<close>

section \<open>What leaves the tables alone\<close>

abbreviation conv_keys :: "rkey set" where "conv_keys \<equiv> range PMConversation"

lemma touches_ice: "touches {bucket_of c, IceLock c} (ice_script c sender)"
  unfolding touches_def
proof (intro allI impI)
  fix t rs k
  assume k: "k \<notin> {bucket_of c, IceLock c}"
  then have set: "snd (SET (IceLock c) p ttl t rs) k = rs k" for p ttl by (simp add: SET_def)
  have "snd (HSET (bucket_of c) (field_of c) p t rs) k = rs k" for p
    using k touchesD [OF touches_cmds(13)] by simp
  then have brk: "(snd (EXPIRE (bucket_of c) x t (snd (HSET (bucket_of c) (field_of c) p t rs)))) k = rs k" for x p
    using k touchesD [OF touches_cmds(6)] by simp
  show "snd (ice_script c sender t rs) k = rs k"
    using k set brk
    by (auto simp: ice_script_def iceBreakScript_def Let_def
        split: sum.splits option.splits prod.splits)
qed

lemma keeps_db_ice [io_intros]:
  "keeps w_db (CheckAndSetIceBreak c s)" "keeps w_db (RetryAfterSeconds c)" "keeps w_db (RollbackIceBreak c st)"
  by (auto simp: CheckAndSetIceBreak_def RetryAfterSeconds_def RollbackIceBreak_def intro!: io_intros)

lemma keeps_db_acquire [io_intros]: "keeps w_db (acquire_attempts n key tok)"
  by (induction n) (auto simp: attempt_reply_def intro!: io_intros)

lemma keeps_db_guard [io_intros]:
  "keeps w_db (Acquire key)" "keeps w_db (Complete l r)" "keeps w_db (Release l)"
  by (auto simp: Acquire_def Complete_def Release_def intro!: io_intros)

lemma keeps_db_rows [io_intros]: "keeps w_db m \<Longrightarrow> keeps w_db (first_or_err m)"
  by (auto simp: first_or_err_def intro!: io_intros)

lemma keeps_db_queries [io_intros]:
  "keeps w_db (GetConversationByID c)" "keeps w_db (GetConversationByParticipants a b i)"
  "keeps w_db (FetchUnreadMessages a c l)" "keeps w_db (FetchRecentReadMessages a l)"
  "keeps w_db (GetLastMessage c)" "keeps w_db (CountUnread c a)" "keeps w_db (GetLastFriendDM a b)"
  "keeps w_db (CountUnreadTotal a)" "keeps w_db (CountUnreadByOrigin a)" "keeps w_db (GetConvMessages c k l)"
  "keeps w_db (GetItemOwner_db i)" "keeps w_db (GetItemExpectedResponse i)" "keeps w_db (GetItemStatus i)"
  "keeps w_db (BatchGetAgentProfiles ids)" "keeps w_db (BatchGetAgentNames ids)"
  "keeps w_db (BatchGetOfficialFlags ids)" "keeps w_db (GetRemarksByPeer a ids)" "keeps w_db (FriendSet a ids)"
  "keeps w_db (IsFriend a b)" "keeps w_db (IsBlocked a b)" "keeps w_db (CountFriends a)"
  by (auto simp: GetConversationByID_def GetConversationByParticipants_def FetchUnreadMessages_def
      FetchRecentReadMessages_def GetLastMessage_def CountUnread_def GetLastFriendDM_def CountUnreadTotal_def
      CountUnreadByOrigin_def GetConvMessages_def GetItemOwner_db_def GetItemExpectedResponse_def
      GetItemStatus_def BatchGetAgentProfiles_def BatchGetAgentNames_def BatchGetOfficialFlags_def
      GetRemarksByPeer_def FriendSet_def IsFriend_def IsBlocked_def CountFriends_def intro!: io_intros)

lemma keeps_db_lists [io_intros]:
  "keeps w_db (ListConversationsByTopicStatus a tc l ot)" "keeps w_db (ListConversationsFiltered a c ci l ot)"
  "keeps w_db (ListFriendRequests_db a dir c l)" "keeps w_db (ListFriends_db a c l)"
  by (auto simp: ListConversationsByTopicStatus_def ListConversationsFiltered_def listUnbrokenInbound_def
      ListFriendRequests_db_def ListFriends_db_def intro!: io_intros)

lemma keeps_db_identity [io_intros]:
  "keeps w_db (GetIdentity a)" "keeps w_db (GetBatch ids)" "keeps w_db (notification_identity a)"
  by (auto simp: GetIdentity_def GetBatch_def notification_identity_def publicIdentityForNotification_def
      intro!: io_intros)

lemma keeps_db_relations [io_intros]:
  "keeps w_db (IsFriendCached a b)" "keeps w_db (IsBlockedCached a b)" "keeps w_db (InvalidateFriendCache a)"
  by (auto simp: IsFriendCached_def IsBlockedCached_def InvalidateFriendCache_def cached_member_def
      LoadFriendSet_def LoadBlockSet_def intro!: io_intros)

lemma keeps_db_validator [io_intros]:
  "keeps w_db (GetItemOwner i)" "keeps w_db (ValidateItemAvailable i)" "keeps w_db (ValidateNoReply i)"
  "keeps w_db (GetConversationInfo c)" "keeps w_db (ValidateConvMembership c a)"
  "keeps w_db (GetOrCreateConvID a b i)" "keeps w_db (CacheConvMapping a b i c)" "keeps w_db (InvalidateConvCache c)"
  by (auto simp: GetItemOwner_def ValidateItemAvailable_def ValidateNoReply_def GetConversationInfo_def
      load_conversation_info_def ValidateConvMembership_def GetOrCreateConvID_def CacheConvMapping_def InvalidateConvCache_def Let_def
      intro!: io_intros)

lemma keeps_db_notify [io_intros]:
  "keeps w_db (PublishMessageReceived a n)" "keeps w_db (PublishFriendRequestSent a)"
  "keeps w_db (PublishFriendRequestReceived a)" "keeps w_db (PublishFriendAdded a n)"
  "keeps w_db (PublishRebuild a r)" "keeps w_db (publishFriendResponseEvent a b i n)"
  "keeps w_db (deletePendingFriendRequestNotifications items)" "keeps w_db (run_task tk)"
  "keeps w_db (announce rc mi nm)"
  by (auto simp: PublishMessageReceived_def PublishFriendRequestSent_def PublishFriendRequestReceived_def
      PublishFriendAdded_def PublishRebuild_def publishFriendResponseEvent_def
      deletePendingFriendRequestNotifications_def announce_def publish_activity_def
      WriteFriendRequestNotification_def WriteFriendResponseNotification_def DeletePMNotifications_def
      intro!: io_intros split: task.split)
    (cases tk; auto simp: publish_activity_def WriteFriendRequestNotification_def
      WriteFriendResponseNotification_def DeletePMNotifications_def intro!: io_intros)

lemma keeps_map_io [io_intros]: "(\<And>x. keeps f (g x)) \<Longrightarrow> keeps f (map_io g xs)"
  by (induction xs) (auto intro!: io_intros)

lemma preserves_map_io [io_intros]: "(\<And>x. preserves I (g x)) \<Longrightarrow> preserves I (map_io g xs)"
  by (induction xs) (auto intro!: io_intros)

text \<open>Queries and identity lookups keep every invariant of the two stores.\<close>

lemma preserves_first_or_err [io_intros]: "preserves I m \<Longrightarrow> preserves I (first_or_err m)"
  by (auto simp: first_or_err_def intro!: io_intros)

lemma preserves_queries [io_intros]:
  fixes I :: "database \<Rightarrow> redis \<Rightarrow> bool"
  shows "preserves (on_stores I) (GetConversationByID c)" "preserves (on_stores I) (GetConversationByParticipants a b i)"
    "preserves (on_stores I) (FetchUnreadMessages a c l)" "preserves (on_stores I) (FetchRecentReadMessages a l)"
    "preserves (on_stores I) (GetLastMessage c)" "preserves (on_stores I) (CountUnread c a)"
    "preserves (on_stores I) (GetLastFriendDM a b)" "preserves (on_stores I) (CountUnreadTotal a)"
    "preserves (on_stores I) (CountUnreadByOrigin a)" "preserves (on_stores I) (GetConvMessages c k l)"
    "preserves (on_stores I) (GetItemOwner_db i)" "preserves (on_stores I) (GetItemExpectedResponse i)"
    "preserves (on_stores I) (GetItemStatus i)" "preserves (on_stores I) (BatchGetAgentProfiles ids)"
    "preserves (on_stores I) (BatchGetAgentNames ids)" "preserves (on_stores I) (BatchGetOfficialFlags ids)"
    "preserves (on_stores I) (GetRemarksByPeer a ids)" "preserves (on_stores I) (FriendSet a ids)"
    "preserves (on_stores I) (IsFriend a b)" "preserves (on_stores I) (IsBlocked a b)"
    "preserves (on_stores I) (CountFriends a)"
  by (auto simp: GetConversationByID_def GetConversationByParticipants_def FetchUnreadMessages_def
      FetchRecentReadMessages_def GetLastMessage_def CountUnread_def GetLastFriendDM_def CountUnreadTotal_def
      CountUnreadByOrigin_def GetConvMessages_def GetItemOwner_db_def GetItemExpectedResponse_def
      GetItemStatus_def BatchGetAgentProfiles_def BatchGetAgentNames_def BatchGetOfficialFlags_def
      GetRemarksByPeer_def FriendSet_def IsFriend_def IsBlocked_def CountFriends_def intro!: io_intros)

lemma preserves_lists [io_intros]:
  fixes I :: "database \<Rightarrow> redis \<Rightarrow> bool"
  shows "preserves (on_stores I) (ListConversationsByTopicStatus a tc l ot)"
    "preserves (on_stores I) (ListConversationsFiltered a c ci l ot)"
    "preserves (on_stores I) (ListFriendRequests_db a dir c l)" "preserves (on_stores I) (ListFriends_db a c l)"
  by (auto simp: ListConversationsByTopicStatus_def ListConversationsFiltered_def listUnbrokenInbound_def
      ListFriendRequests_db_def ListFriends_db_def intro!: io_intros)

lemma preserves_identity [io_intros]:
  fixes I :: "database \<Rightarrow> redis \<Rightarrow> bool"
  shows "preserves (on_stores I) (GetIdentity a)" "preserves (on_stores I) (GetBatch ids)"
    "preserves (on_stores I) (notification_identity a)" "preserves (on_stores I) (officialFlagsFor ids)"
  by (auto simp: GetIdentity_def GetBatch_def notification_identity_def publicIdentityForNotification_def
      officialFlagsFor_def intro!: io_intros)

lemma preserves_events [io_intros]:
  fixes I :: "database \<Rightarrow> redis \<Rightarrow> bool"
  shows "preserves (on_stores I) (PublishMessageReceived a n)" "preserves (on_stores I) (PublishFriendRequestSent a)"
    "preserves (on_stores I) (PublishFriendRequestReceived a)" "preserves (on_stores I) (PublishFriendAdded a n)"
    "preserves (on_stores I) (PublishRebuild a r)" "preserves (on_stores I) (publishFriendResponseEvent a b i n)"
    "preserves (on_stores I) (deletePendingFriendRequestNotifications items)"
    "preserves (on_stores I) (publish_activity a e sm dt)"
  by (auto simp: PublishMessageReceived_def PublishFriendRequestSent_def PublishFriendRequestReceived_def
      PublishFriendAdded_def PublishRebuild_def publishFriendResponseEvent_def
      deletePendingFriendRequestNotifications_def publish_activity_def intro!: io_intros)

section \<open>The interface\<close>

text \<open>A message that a conversation's cached or stored record allows: its sender is a participant.\<close>

definition message_for :: "ConvInfo \<Rightarrow> int \<Rightarrow> PrivateMessage \<Rightarrow> bool" where
  "message_for info convID m \<longleftrightarrow> mConvID m = convID \<and> mSenderID m \<noteq> mReceiverID m \<and>
     checkMembership info (mSenderID m) = Inr (mReceiverID m)"

text \<open>A conversation as the handlers open one, with its first message.\<close>

definition opens_with :: "Conversation \<Rightarrow> PrivateMessage \<Rightarrow> bool" where
  "opens_with c m \<longleftrightarrow> mConvID m = cConvID c \<and> mSenderID m \<noteq> mReceiverID m \<and> cMsgCount c = 1 \<and>
     cLastSenderID c = mSenderID m \<and> cStatus c = 0 \<and>
     ordered_pair (mSenderID m) (mReceiverID m) = (cParticipantA c, cParticipantB c)"

definition bump :: "int \<Rightarrow> int \<Rightarrow> int \<Rightarrow> database \<Rightarrow> database" where
  "bump convID senderID t d = d\<lparr>conversations := update_where (\<lambda>c. cConvID c = convID)
     (\<lambda>c. c\<lparr>cLastSenderID := senderID, cMsgCount := cMsgCount c + 1, cUpdatedAt := t\<rparr>) (conversations d)\<rparr>"

locale service_invariant =
  fixes I :: "database \<Rightarrow> redis \<Rightarrow> bool" and info_ok :: "database \<Rightarrow> int \<Rightarrow> ConvInfo \<Rightarrow> bool"
  assumes local: "local_to conv_keys I"
    and evict: "I d rs \<Longrightarrow> (\<And>k. rs' k = rs k \<or> rs' k = None) \<Longrightarrow> I d rs'"
    and seqs: "I d rs \<Longrightarrow> I (d\<lparr>rel_seq := a, event_seq := b\<rparr>) rs"
    and cached_info: "I d rs \<Longrightarrow> rs (PMConversation k) = Some (RStr (JConvInfo i), e) \<Longrightarrow> info_ok d k i"
    and stored_info: "I d rs \<Longrightarrow> c \<in> set (conversations d) \<Longrightarrow> info_ok d (cConvID c) (conv_info c)"
    and write_info: "I d rs \<Longrightarrow> info_ok d k i \<Longrightarrow> I d (rs(PMConversation k \<mapsto> (RStr (JConvInfo i), e)))"
    and opens: "I d rs \<Longrightarrow> opens_with c m \<Longrightarrow> insert_conversation (c\<lparr>cUpdatedAt := t\<rparr>) d = (Inr u, d1)
      \<Longrightarrow> insert_message (m\<lparr>mCreatedAt := t'\<rparr>) d1 = (Inr u', d2) \<Longrightarrow> I d2 rs"
    and replies: "I d rs \<Longrightarrow> info_ok d convID info \<Longrightarrow> message_for info convID m
      \<Longrightarrow> insert_message (m\<lparr>mCreatedAt := t\<rparr>) d = (Inr u, d1) \<Longrightarrow> I (bump convID (mSenderID m) t' d1) rs"
    and marks: "stmt_keeps (\<lambda>d. I d rs) (mark_read P)"
    and topics: "stmt_keeps (\<lambda>d. I d rs) (update_topic_status cid st t)"
    and events: "stmt_keeps (\<lambda>d. I d rs) (insert_topic_event cid x p st t)"
    and closes: "stmt_keeps (\<lambda>d. I d rs) (close_item_conversation cid t)"
    and statuses: "stmt_keeps (\<lambda>d. I d rs) (set_request_status Q st t)"
    and requests: "fFromUID q \<noteq> fToUID q \<Longrightarrow> stmt_keeps (\<lambda>d. I d rs) (insert_request q)"
    and resets: "stmt_keeps (\<lambda>d. I d rs) (reset_request old new greeting remark t)"
    and befriends: "stmt_keeps (\<lambda>d. I d rs) (insert_friend_pair x y ra rb t)"
    and unfriends: "stmt_keeps (\<lambda>d. I d rs) (delete_relations (is_friend_row x y))"
    and blocks: "x \<noteq> y \<Longrightarrow> stmt_keeps (\<lambda>d. I d rs) (insert_block x y remark t)"
    and unblocks: "stmt_keeps (\<lambda>d. I d rs)
      (delete_relations (\<lambda>r. rFromUID r = x \<and> rToUID r = y \<and> rRelType r = RelTypeBlock))"
    and remarks: "I d rs \<Longrightarrow> I (d\<lparr>user_relations := update_where
      (\<lambda>r. rFromUID r = x \<and> rToUID r = y \<and> rRelType r = RelTypeFriend)
      (\<lambda>r. r\<lparr>rRemark := remark\<rparr>) (user_relations d)\<rparr>) rs"
begin

lemmas cache_rules = preserves_cache_local [OF local]

lemma inv_stmt: "(\<And>rs. stmt_keeps (\<lambda>d. I d rs) f) \<Longrightarrow> preserves (on_stores I) (db_stmt f)"
  by (rule preserves_db_stmt) (auto simp: stmt_keeps_def)

lemma inv_relation_cache [io_intros]:
  "preserves (on_stores I) (IsFriendCached a b)" "preserves (on_stores I) (IsBlockedCached a b)" "preserves (on_stores I) (InvalidateFriendCache a)"
  by (auto simp: IsFriendCached_def IsBlockedCached_def InvalidateFriendCache_def cached_member_def
      LoadFriendSet_def LoadBlockSet_def intro!: io_intros cache_rules)

lemma inv_ice_break [io_intros]:
  "preserves (on_stores I) (CheckAndSetIceBreak c sender)" "preserves (on_stores I) (RetryAfterSeconds c)" "preserves (on_stores I) (RollbackIceBreak c st)"
  unfolding CheckAndSetIceBreak_def RetryAfterSeconds_def RollbackIceBreak_def
  by (auto intro!: io_intros preserves_local [OF local] touches_ice touch_intros simp: bucket_of_def)

lemma inv_acquire [io_intros]: "key \<notin> conv_keys \<Longrightarrow> preserves (on_stores I) (acquire_attempts n key tok)"
  by (induction n) (auto simp: attempt_reply_def acquire_cmd_def intro!: io_intros preserves_local [OF local] touch_intros)

lemma touches_scripts: "touches {key} (complete_script key p f px)" "touches {key} (release_script key p)"
  by (auto simp: touches_def complete_script_def release_script_def SET_def DEL_apply
      split: option.splits rval.splits payload.splits)

lemma inv_guard [io_intros]:
  "key \<notin> conv_keys \<Longrightarrow> preserves (on_stores I) (Acquire key)" "lsKey l \<notin> conv_keys \<Longrightarrow> preserves (on_stores I) (Complete l r)"
  "lsKey l \<notin> conv_keys \<Longrightarrow> preserves (on_stores I) (Release l)"
  by (auto simp: Acquire_def Complete_def Release_def
      intro!: io_intros preserves_local [OF local] touches_scripts) (metis rangeI)+

lemma validator_rules [io_intros]:
  "preserves (on_stores I) (GetItemOwner i)" "preserves (on_stores I) (ValidateItemAvailable i)" "preserves (on_stores I) (ValidateNoReply i)"
  "preserves (on_stores I) (GetOrCreateConvID a b i)" "preserves (on_stores I) (CacheConvMapping a b i c)"
  by (auto simp: GetItemOwner_def ValidateItemAvailable_def ValidateNoReply_def
      GetOrCreateConvID_def CacheConvMapping_def Let_def intro!: io_intros cache_rules)

lemma inv_announce [io_intros]: "preserves (on_stores I) (announce r m n)"
  by (auto simp: announce_def intro!: io_intros cache_rules)

lemma inv_invalidate [io_intros]: "preserves (on_stores I) (InvalidateConvCache c)"
  unfolding InvalidateConvCache_def cache_Remove_def
  by (intro io_intros preserves_redis_cmd) (rule evict, assumption, auto)

subsection \<open>Conversation records\<close>

lemma read_conv_key:
  assumes "run_state (cache_Read (PMConversation c)) w = (Inr p, w')"
  shows "\<exists>e. w_redis w (PMConversation c) = Some (RStr p, e)"
proof -
  have *: "\<exists>e. w_redis w (PMConversation c) = Some (RStr p, e)"
    if "fst (GET (PMConversation c) n (w_redis w)) = Inr p" for n
    using that live_some [of n "w_redis w" "PMConversation c"]
    by (auto simp: GET_def split: option.splits rval.splits)
  show ?thesis
    by (cases rule: run_redis_cmd [of "GET (PMConversation c)" w])
      (use assms in \<open>auto simp: cache_Read_def intro: * split: if_splits\<close>)
qed

text \<open>A record the validator returns is one the invariant vouches for.\<close>

lemma stored_row:
  "valid (on_stores I) (GetConversationByID c)
     (\<lambda>r w. on_stores I w \<and> (\<forall>conv. r = Inr conv \<longrightarrow> info_ok (w_db w) c (conv_info conv)))"
proof (rule validI)
  fix w assume I: "on_stores I w"
  obtain r w' where run: "run_state (GetConversationByID c) w = (r, w')" by force
  have same: "w_db w' = w_db w" using keepsD [OF keeps_db_queries(1) run] .
  have "on_stores I w'" using preservesD [OF preserves_queries(1) [where I = I] I run] .
  moreover have "info_ok (w_db w') c (conv_info conv)" if "r = Inr conv" for conv
  proof -
    have "first_by cConvID (\<lambda>x. cConvID x = c) (conversations (w_db w)) = Some conv"
      using run that
      by (cases rule: run_db_stmt [of "\<lambda>d. (Inr (first_by cConvID (\<lambda>x. cConvID x = c) (conversations d)), d)" w])
        (auto simp: GetConversationByID_def first_or_err_def db_query_def split: sum.splits option.splits)
    then show ?thesis using first_by_Some stored_info [OF I] same by fastforce
  qed
  ultimately show "on_stores I (snd (run_state (GetConversationByID c) w)) \<and>
    (\<forall>conv. fst (run_state (GetConversationByID c) w) = Inr conv \<longrightarrow>
      info_ok (w_db (snd (run_state (GetConversationByID c) w))) c (conv_info conv))"
    using run by simp
qed

lemma write_record:
  "valid (\<lambda>w. on_stores I w \<and> info_ok (w_db w) c i) (cache_Write (PMConversation c) (JConvInfo i) ttl)
     (\<lambda>_ w. on_stores I w \<and> info_ok (w_db w) c i)"
proof -
  have set: "I d (snd (SET (PMConversation c) (JConvInfo i) ttl t rs))" if "I d rs" "info_ok d c i" for d rs t
    unfolding SET_def snd_conv using write_info [OF that] .
  have "preserves (on_stores (\<lambda>d rs. I d rs \<and> info_ok d c i)) (redis_cmd (SET (PMConversation c) (JConvInfo i) ttl))"
    by (rule preserves_redis_cmd) (use set in blast)
  then have "preserves (on_stores (\<lambda>d rs. I d rs \<and> info_ok d c i)) (cache_Write (PMConversation c) (JConvInfo i) ttl)"
    unfolding cache_Write_def by (intro io_intros)
  then show ?thesis by (simp add: preserves_valid)
qed

lemma loaded_info:
  "valid (on_stores I) (load_conversation_info c)
     (\<lambda>r w. on_stores I w \<and> (\<forall>info. r = Inr info \<longrightarrow> info_ok (w_db w) c info))"
  unfolding load_conversation_info_def
  by (rule valid_bind [OF stored_row], rule valid_sum)
    (auto intro!: valid_return valid_bind [OF valid_weaken [OF write_record]])

lemma conversation_info:
  "valid (on_stores I) (GetConversationInfo c)
     (\<lambda>r w. on_stores I w \<and> (\<forall>info. r = Inr info \<longrightarrow> info_ok (w_db w) c info))"
  unfolding GetConversationInfo_def
proof (rule valid_bind)
  show "valid (on_stores I) (cache_Read (PMConversation c)) (\<lambda>r w. on_stores I w \<and>
      (\<forall>i. (case r of Inl _ \<Rightarrow> None | Inr p \<Rightarrow> json_ConvInfo p) = Some i \<longrightarrow> info_ok (w_db w) c i))"
  proof (rule validI)
    fix w assume I: "on_stores I w"
    obtain r w1 where rd: "run_state (cache_Read (PMConversation c)) w = (r, w1)" by force
    have "on_stores I w1" using preservesD [OF cache_rules(1) I rd] .
    moreover have "info_ok (w_db w1) c i" if "r = Inr (JConvInfo i)" for i
      using that read_conv_key [of c w "JConvInfo i" w1] rd cached_info [OF I] keepsD [OF keeps_db_cache(1) rd]
      by auto
    ultimately show "on_stores I (snd (run_state (cache_Read (PMConversation c)) w)) \<and>
        (\<forall>i. (case fst (run_state (cache_Read (PMConversation c)) w) of Inl _ \<Rightarrow> None | Inr p \<Rightarrow> json_ConvInfo p) = Some i
          \<longrightarrow> info_ok (w_db (snd (run_state (cache_Read (PMConversation c)) w))) c i)"
      using rd by (auto split: sum.splits elim!: json_ConvInfo.elims)
  qed
next
  fix r
  show "valid (\<lambda>w. on_stores I w \<and>
      (\<forall>i. (case r of Inl _ \<Rightarrow> None | Inr p \<Rightarrow> json_ConvInfo p) = Some i \<longrightarrow> info_ok (w_db w) c i))
    (case case r of Inl _ \<Rightarrow> None | Inr p \<Rightarrow> json_ConvInfo p of
       None \<Rightarrow> load_conversation_info c | Some info \<Rightarrow> ret (Inr info))
    (\<lambda>r w. on_stores I w \<and> (\<forall>info. r = Inr info \<longrightarrow> info_ok (w_db w) c info))"
    by (rule valid_option) (auto intro: valid_return valid_weaken [OF loaded_info])
qed

lemma conversation_info_keeps [io_intros]:
  "preserves (on_stores I) (GetConversationInfo c)" "preserves (on_stores I) (ValidateConvMembership c a)"
proof -
  show *: "preserves (on_stores I) (GetConversationInfo c)"
    unfolding preserves_valid by (rule valid_post [OF conversation_info]) simp
  show "preserves (on_stores I) (ValidateConvMembership c a)"
    unfolding ValidateConvMembership_def by (intro io_intros *)
qed

lemma membership:
  "valid (on_stores I) (ValidateConvMembership c a)
     (\<lambda>r w. on_stores I w \<and> (\<forall>b. r = Inr b \<longrightarrow> (\<exists>i. info_ok (w_db w) c i \<and> checkMembership i a = Inr b)))"
  unfolding ValidateConvMembership_def
  by (rule valid_bind [OF conversation_info], rule valid_return) (auto split: sum.splits)

subsection \<open>The transactions\<close>

lemma open_conversation [io_intros]:
  assumes "opens_with c m"
  shows "preserves (on_stores I) (open_conversation_tx c m)"
  unfolding open_conversation_tx_def
proof (rule preserves_transaction [where I = I, OF _ _ seqs])
  fix rs
  have first: "tx_valid (\<lambda>d. I d rs) (CreateConversation c)
      (\<lambda>_ d1. \<exists>t u d. I d rs \<and> insert_conversation (c\<lparr>cUpdatedAt := t\<rparr>) d = (Inr u, d1))"
    unfolding CreateConversation_def
    by (rule tx_frame) ((intro io_intros keeps_tx_prims)+, rule tx_weaken [OF tx_db_stmt], blast)
  show "tx_valid (\<lambda>d. I d rs) (and_then (CreateConversation c) (\<lambda>_. CreateMessage m)) (\<lambda>_ d. I d rs)"
  proof (rule tx_and_then [OF first])
    show "tx_valid (\<lambda>d1. \<exists>t u d. I d rs \<and> insert_conversation (c\<lparr>cUpdatedAt := t\<rparr>) d = (Inr u, d1))
        (CreateMessage m) (\<lambda>_ d. I d rs)"
      unfolding CreateMessage_def
      by (rule tx_frame)
        (auto intro!: io_intros keeps_tx_prims intro: tx_weaken [OF tx_db_stmt] dest: opens [OF _ assms])
  qed
qed (auto simp: CreateConversation_def CreateMessage_def intro!: io_intros)

lemma reply:
  assumes "message_for info c m"
  shows "valid (on_stores (\<lambda>d rs. I d rs \<and> info_ok d c info)) (reply_tx m c (mSenderID m)) (\<lambda>_. on_stores I)"
  unfolding reply_tx_def
proof (rule valid_transaction [where I = I, OF _ _ seqs])
  fix rs
  have first: "tx_valid (\<lambda>d. I d rs \<and> info_ok d c info) (CreateMessage m)
      (\<lambda>_ d1. \<exists>t u d. I d rs \<and> info_ok d c info \<and> insert_message (m\<lparr>mCreatedAt := t\<rparr>) d = (Inr u, d1))"
    unfolding CreateMessage_def
    by (rule tx_frame) ((intro io_intros keeps_tx_prims)+, rule tx_weaken [OF tx_db_stmt], blast)
  have second: "tx_valid (\<lambda>d1. \<exists>t u d. I d rs \<and> info_ok d c info \<and> insert_message (m\<lparr>mCreatedAt := t\<rparr>) d = (Inr u, d1))
      (UpdateConversationAfterMessage c (mSenderID m)) (\<lambda>_ d. I d rs)"
    unfolding UpdateConversationAfterMessage_def
    by (rule tx_frame)
      (auto intro!: io_intros keeps_tx_prims intro: tx_weaken [OF tx_db_stmt]
        dest: replies [OF _ _ assms] simp flip: bump_def)
  show "tx_valid (\<lambda>d. I d rs \<and> info_ok d c info)
      (and_then (CreateMessage m) (\<lambda>_. UpdateConversationAfterMessage c (mSenderID m))) (\<lambda>_ d. I d rs)"
    by (rule tx_and_then [OF first second])
qed (auto simp: UpdateConversationAfterMessage_def CreateMessage_def intro!: io_intros)

lemma topic_status [io_intros]: "preserves (on_stores I) (UpdateConversationTopicStatus c a st)"
  unfolding UpdateConversationTopicStatus_def Let_def
  by (rule preserves_transaction_keeps [where I = I, OF _ seqs]) (intro txk_intros txk_stmt topics events)

lemma mark_and_close [io_intros]:
  "preserves (on_stores I) (MarkMessagesAsRead ids)" "preserves (on_stores I) (MarkConvReadByAgent c a)"
  "preserves (on_stores I) (CloseConversation c)"
  unfolding MarkMessagesAsRead_def MarkConvReadByAgent_def CloseConversation_def
  by (intro io_intros inv_stmt marks closes)+

subsection \<open>Sending\<close>

lemma deliver:
  assumes "checkMembership info (sqSenderId req) = Inr rcv" "rcv \<noteq> sqSenderId req"
  shows "valid (on_stores (\<lambda>d rs. I d rs \<and> info_ok d c info)) (deliver_reply req c rcv st) (\<lambda>_. on_stores I)"
proof -
  let ?J = "on_stores (\<lambda>d rs. I d rs \<and> info_ok d c info)"
  have weak: "valid ?J m (\<lambda>_. on_stores I)" if "preserves (on_stores I) m" for m :: "'z io"
    using that by (auto simp: preserves_valid intro: valid_weaken)
  have ids: "valid ?J next_msg_id (\<lambda>_. ?J)" "valid ?J (BatchGetAgentNames l) (\<lambda>_. ?J)" for l
    unfolding preserves_valid [symmetric] by (auto intro!: preserves_with_db io_intros)
  have tx: "valid ?J (reply_tx (new_message i c (sqSenderId req) rcv ct sn rn) c (sqSenderId req)) (\<lambda>_. on_stores I)" for i ct sn rn
    using reply [of info c "new_message i c (sqSenderId req) rcv ct sn rn"] assms
    by (auto simp: message_for_def new_message_def)
  show ?thesis
    unfolding deliver_reply_def Let_def
    apply (rule valid_bind [OF ids(1)])
    apply (rule valid_sum)
     apply (rule weak, intro io_intros)
    apply (rule valid_bind [OF ids(2)])
    apply (rule valid_bind [OF tx])
    apply (unfold preserves_valid [symmetric])
    apply (intro io_intros)
    done
qed

lemma reply_handler [io_intros]: "preserves (on_stores I) (handleReply req skip)"
proof -
  define c where "c = (case sqConvId req of None \<Rightarrow> 0 | Some c \<Rightarrow> c)"
  let ?J = "\<lambda>info. on_stores (\<lambda>d rs. I d rs \<and> info_ok d c info)"
  have weak: "valid (?J info) m (\<lambda>_. on_stores I)" if "preserves (on_stores I) m" for m :: "'z io" and info
    using that by (auto simp: preserves_valid intro: valid_weaken)
  have carry: "valid (?J info) m (\<lambda>_. ?J info)" if "preserves (on_stores I) m" "keeps w_db m" for m :: "'z io" and info
    unfolding preserves_valid [symmetric] by (rule preserves_with_db [OF that])
  define rest where "rest = (\<lambda>membership. case membership of
       Inl e \<Rightarrow> ret (pm_error 403 (err_text e))
     | Inr receiverID \<Rightarrow>
         if receiverID = sqSenderId req then ret selfTargetPMResp
         else do {
           blocked \<leftarrow> IsBlockedCached receiverID (sqSenderId req);
           if value_or False blocked then ret (pm_resp 0 0 success)
           else do {
             friend \<leftarrow> (if skip then ret (Inr True) else IsFriendCached (sqSenderId req) receiverID);
             if value_or False friend then deliver_reply req c receiverID 0
             else do {
               ice \<leftarrow> CheckAndSetIceBreak c (sqSenderId req);
               (case ice of
                  Inl _ \<Rightarrow> ret (pm_error 500 ''ice break check failed'')
                | Inr (iceStatus, _) \<Rightarrow>
                    if iceStatus = IceStatusLimitReached then do {
                      retry \<leftarrow> RetryAfterSeconds c;
                      ret (limit_reached_resp c (value_or 0 retry)) }
                    else deliver_reply req c receiverID iceStatus) } } })"
  have handler: "handleReply req skip = State_Monad.bind (ValidateConvMembership c (sqSenderId req)) rest"
    unfolding handleReply_def rest_def c_def Let_def ..
  have friend: "preserves (on_stores I) (if skip then ret (Inr True) else IsFriendCached a b)"
    "keeps w_db (if skip then ret (Inr True) else IsFriendCached a b)" for a b
    by (intro io_intros)+
  have member: "valid (?J info) (rest (Inr rcv)) (\<lambda>_. on_stores I)"
    if "checkMembership info (sqSenderId req) = Inr rcv" for info rcv
  proof (cases "rcv = sqSenderId req")
    case True
    then show ?thesis by (simp add: rest_def) (rule weak, intro io_intros)
  next
    case False
    note d = deliver [OF that False]
    show ?thesis
      unfolding rest_def using False
      by (simp only: sum.case if_False)
        (intro valid_bind [OF carry] valid_if valid_sum valid_prod weak d io_intros friend)
  qed
  have "valid (\<lambda>w. on_stores I w \<and> (\<forall>b. r = Inr b \<longrightarrow>
      (\<exists>i. info_ok (w_db w) c i \<and> checkMembership i (sqSenderId req) = Inr b))) (rest r) (\<lambda>_. on_stores I)" for r
  proof (cases r)
    case (Inl e)
    then show ?thesis by (auto simp: rest_def intro: valid_return)
  next
    case (Inr b)
    show ?thesis
    proof (rule validI)
      fix w
      assume *: "on_stores I w \<and> (\<forall>b. r = Inr b \<longrightarrow> (\<exists>i. info_ok (w_db w) c i \<and> checkMembership i (sqSenderId req) = Inr b))"
      then obtain i where i: "info_ok (w_db w) c i" "checkMembership i (sqSenderId req) = Inr b" using Inr by blast
      then show "on_stores I (snd (run_state (rest r) w))"
        using valid_run [OF member [OF i(2)], of w] * Inr by simp
    qed
  qed
  then show ?thesis
    unfolding preserves_valid handler by (rule valid_bind [OF membership])
qed

lemma opening_conversation:
  "s \<noteq> r \<Longrightarrow> ordered_pair s r = (a, b) \<Longrightarrow>
   opens_with (new_conversation cid a b s ot oid na nb) (new_message mid cid s r ct sn rn)"
  by (simp add: opens_with_def new_conversation_def new_message_def)

lemma new_conversation_handler [io_intros]: "preserves (on_stores I) (handleNewConversation req)"
  unfolding handleNewConversation_def Let_def
  by (intro io_intros opening_conversation) (auto split: if_splits)

lemma friend_handler [io_intros]:
  "sqReceiverId req \<noteq> sqSenderId req \<Longrightarrow> preserves (on_stores I) (handleFriendPM req)"
  unfolding handleFriendPM_def Let_def
  by (intro io_intros opening_conversation) auto

lemma send_dispatch [io_intros]:
  "\<not> (fst (sendTarget req) = ''friend'' \<and> snd (sendTarget req) = sqSenderId req)
   \<Longrightarrow> preserves (on_stores I) (sendPM req)"
  unfolding sendPM_def
  by (intro io_intros) (auto simp: sendTarget_def split: option.splits if_splits)

lemma fingerprint_key: "RequestFingerprint sha a k b c q \<notin> conv_keys"
  by (auto simp: RequestFingerprint_def Fingerprint_def)

end

end
