(* ===== verification/HandlersInv.thy ===== *)
theory HandlersInv
  imports ServiceInv
begin

text \<open>
  The handlers and the goroutines over the interface \<open>service_invariant\<close>: every public
  operation of the service, and every task it leaves behind, keeps an invariant that obeys
  the laws of the interface.
\<close>

section \<open>The lease of a send\<close>

definition lease_on :: "rkey \<Rightarrow> (Lease + Result) res \<Rightarrow> bool" where
  "lease_on key r \<longleftrightarrow> (\<forall>l. r = Inr (Inl l) \<longrightarrow> lsKey l = key)"

lemma any_start: "valid P m (\<lambda>_ _. True)"
  by (simp add: valid_def)

lemma acquire_attempts_lease: "valid (\<lambda>_. True) (acquire_attempts n key tok) (\<lambda>r _. lease_on key r)"
proof (induction n)
  case (Suc n)
  have no: "lease_on key (Inl e)" "lease_on key (Inr (Inl \<lparr>lsKey = key, lsToken = tok\<rparr>))" for e
    by (simp_all add: lease_on_def)
  have read: "lease_on key (map_sum id Inr (read_guard p))" for p
    by (auto simp: lease_on_def map_sum_def split: sum.splits)
  have "valid (\<lambda>_. True) (attempt_reply key tok (acquire_attempts n key tok) r) (\<lambda>r _. lease_on key r)" for r
    unfolding attempt_reply_def
    by (cases r) (auto intro!: valid_return Suc.IH valid_bind [OF any_start] valid_sum valid_if read no)
  then show ?case by (auto intro!: valid_bind [OF any_start])
qed (simp add: valid_return lease_on_def)

lemma acquire_lease: "valid (\<lambda>_. True) (Acquire key) (\<lambda>r _. lease_on key r)"
  unfolding Acquire_def
  by (rule valid_bind [OF any_start], rule valid_if, simp add: valid_return lease_on_def,
      rule valid_bind [OF any_start], rule valid_sum)
    (auto simp: lease_on_def intro!: valid_return intro: acquire_attempts_lease [unfolded lease_on_def])

lemma touches_hset_expire: "touches {k} (hset_expire k f p)"
  using touchesD [OF touches_cmds(13)] touchesD [OF touches_cmds(6)]
  by (auto simp: touches_def hset_expire_def split: prod.splits) (metis sndI)

text \<open>Lookups inside a transaction keep every invariant.\<close>

lemma pair_lookups [txk_intros]:
  "tx_keeps J (LockRelationPair x y)" "tx_keeps J (GetFriendRequestBetweenForUpdate x y)"
  "tx_keeps J (GetFriendRequestForUpdate r)" "tx_keeps J (IsBlocked x y)" "tx_keeps J (IsFriend x y)"
  unfolding LockRelationPair_def GetFriendRequestBetweenForUpdate_def GetFriendRequestForUpdate_def
    IsBlocked_def IsFriend_def Let_def
  by (intro txk_intros)+

context service_invariant
begin

section \<open>Sending\<close>

lemma send_handler: "preserves (on_stores I) (SendPM s req)"
proof -
  define key where "key = RequestFingerprint (sha256 s) (sqSenderId req) (fst (sendTarget req))
    (snd (sendTarget req)) (sqContent req) (sqRequestId req)"
  have key: "key \<notin> conv_keys" unfolding key_def by (rule fingerprint_key)
  have acq: "valid (on_stores I) (Acquire key) (\<lambda>r w. on_stores I w \<and> lease_on key r)"
    by (rule valid_conj [OF _ valid_weaken [OF acquire_lease]])
      (auto intro: inv_guard(1) [OF key, unfolded preserves_valid])
  define after :: "(Lease + Result) res \<Rightarrow> SendPMResp io" where "after = (\<lambda>acquired. (case acquired of
       Inl e \<Rightarrow>
         if e = ErrInProgress then ret (pm_error 409 (err_text e))
         else ret (pm_error 503
           ''MESSAGE_SEND_GUARD_UNAVAILABLE: duplicate protection is unavailable; message was not sent'')
     | Inr (Inr replay) \<Rightarrow> ret (pm_resp (rsMsgID replay) (rsConvID replay) success)
     | Inr (Inl lease) \<Rightarrow> do {
         resp \<leftarrow> sendPM req;
         if Code (spBaseResp resp) \<noteq> 0 then do { _ \<leftarrow> Release lease; ret resp }
         else do {
           _ \<leftarrow> Complete lease \<lparr>rsMsgID = spMsgId resp, rsConvID = spConvId resp\<rparr>;
           ret resp } }))"
  have after: "preserves (on_stores I) (after r)"
    if "lease_on key r" "\<not> (fst (sendTarget req) = ''friend'' \<and> snd (sendTarget req) = sqSenderId req)" for r
    unfolding after_def using that key
    by (intro io_intros) (auto simp: lease_on_def)
  have guarded: "preserves (on_stores I) (State_Monad.bind (Acquire key) after)"
    if "\<not> (fst (sendTarget req) = ''friend'' \<and> snd (sendTarget req) = sqSenderId req)"
    unfolding preserves_valid
  proof (rule valid_bind [OF acq], rule validI)
    fix r w assume "on_stores I w \<and> lease_on key r"
    then show "on_stores I (snd (run_state (after r) w))" using preserves_run [OF after] that by blast
  qed
  have "SendPM s req = (case ValidateMessageContent (sqContent req) of
      Some msg \<Rightarrow> ret (pm_error 400 msg)
    | None \<Rightarrow>
        if length (sqRequestId req) > 128 then ret (pm_error 400 ''request_id must not exceed 128 bytes'')
        else if fst (sendTarget req) = ''friend'' \<and> snd (sendTarget req) = sqSenderId req then ret selfTargetPMResp
        else State_Monad.bind (Acquire key) after)"
    unfolding SendPM_def key_def after_def by (simp only: case_prod_beta)
  then show ?thesis using guarded by (auto simp: preserves_return split: option.split)
qed

section \<open>Reading\<close>

lemma reading_handlers:
  "preserves (on_stores I) (FetchPM fq)" "preserves (on_stores I) (FetchPMHistory fh)"
  "preserves (on_stores I) (GetConvHistory gh)" "preserves (on_stores I) (ListConversations lq)"
  "preserves (on_stores I) (GetUnreadCount a)"
proof -
  have "preserves (on_stores I) (fetch_unread a c l)" for a c l
    unfolding fetch_unread_def Let_def by (intro io_intros cache_rules) auto
  then show "preserves (on_stores I) (FetchPM fq)"
    unfolding FetchPM_def Let_def by (intro io_intros cache_rules)
  show "preserves (on_stores I) (FetchPMHistory fh)"
    unfolding FetchPMHistory_def Let_def by (intro io_intros)
  show "preserves (on_stores I) (GetConvHistory gh)"
    unfolding GetConvHistory_def by (intro io_intros)
  have entry: "preserves (on_stores I) (conversation_entry a r n f c)" for a r n f c
    unfolding conversation_entry_def Let_def by (intro io_intros)
  have page: "preserves (on_stores I) (conversations_page a sb cs)" for a sb cs
    unfolding conversations_page_def Let_def by (intro io_intros entry)
  show "preserves (on_stores I) (ListConversations lq)"
    unfolding ListConversations_def Let_def by (intro io_intros page)
  show "preserves (on_stores I) (GetUnreadCount a)"
    unfolding GetUnreadCount_def by (intro io_intros)
qed

lemma conversation_handlers:
  "preserves (on_stores I) (UpdateTopicStatus c a st)" "preserves (on_stores I) (CloseConv c a)"
  "preserves (on_stores I) (MarkConvRead c a)"
  unfolding UpdateTopicStatus_def CloseConv_def MarkConvRead_def by (intro io_intros)+

section \<open>Friends\<close>

lemma renewing [txk_intros]:
  "x \<noteq> y \<Longrightarrow> tx_keeps (\<lambda>d. I d rs) (renew_request q x y g m)"
  unfolding renew_request_def ResetFriendRequest_def CreateFriendRequest_def
  by (intro txk_intros txk_stmt resets requests) auto

lemma status_updates [txk_intros]:
  "tx_keeps (\<lambda>d. I d rs) (UpdateRequestStatusIfPending r st)" "tx_keeps (\<lambda>d. I d rs) (UpdateRequestStatus r st)"
  "tx_keeps (\<lambda>d. I d rs) (settle_request r st)" "tx_keeps (\<lambda>d. I d rs) (update_status_column Q st)"
  "tx_keeps (\<lambda>d. I d rs) (CreateFriendRelation x y ra rb)" "tx_keeps (\<lambda>d. I d rs) (DeleteFriendRelation x y)"
  "tx_keeps (\<lambda>d. I d rs) (DeleteBlockRelation x y)"
  unfolding UpdateRequestStatusIfPending_def UpdateRequestStatus_def settle_request_def update_status_column_def
    CreateFriendRelation_def DeleteFriendRelation_def DeleteBlockRelation_def
  by (intro txk_intros txk_stmt statuses befriends unfriends unblocks)+

lemma cancelling [txk_intros]: "tx_keeps (\<lambda>d. I d rs) (cancel_requests qs ds)"
  by (induction qs ds rule: cancel_requests.induct) (auto intro!: txk_intros)

lemma friend_transactions [io_intros]:
  "x \<noteq> y \<Longrightarrow> preserves (on_stores I) (transaction (friend_request_tx x y g m))"
  "preserves (on_stores I) (transaction (handle_request_tx hr rm))"
  "preserves (on_stores I) (transaction (unfriend_tx x y))"
  "x \<noteq> y \<Longrightarrow> preserves (on_stores I) (transaction (block_tx x y m))"
  "preserves (on_stores I) (transaction (unblock_tx x y))"
proof -
  note tx = preserves_transaction_keeps [where I = I, OF _ seqs]
  show "preserves (on_stores I) (transaction (friend_request_tx x y g m))" if "x \<noteq> y"
    unfolding friend_request_tx_def using that by (intro tx txk_intros)
  have acc: "tx_keeps (\<lambda>d. I d rs) (accept_request hr rm q)" for rs q
    unfolding accept_request_def by (intro txk_intros)
  show "preserves (on_stores I) (transaction (handle_request_tx hr rm))"
    unfolding handle_request_tx_def
    by (intro tx txk_intros) (cases "hrAction hr"; auto intro!: txk_intros acc)
  show "preserves (on_stores I) (transaction (unfriend_tx x y))"
    "preserves (on_stores I) (transaction (unblock_tx x y))"
    unfolding unfriend_tx_def unblock_tx_def by (auto intro!: tx txk_intros)
  show "preserves (on_stores I) (transaction (block_tx x y m))" if "x \<noteq> y"
    unfolding block_tx_def CreateBlockRelation_def using that
    by (intro tx txk_intros txk_ignore txk_stmt blocks unfriends)
qed

lemma side_effects [io_intros]:
  "preserves (on_stores I) (over_rate_limit s a)" "preserves (on_stores I) (friend_request_effects x y g oc)"
  "preserves (on_stores I) (notify_response hr q nt rs)" "preserves (on_stores I) (redis_cmd (SADD (Blocks a) xs))"
  "preserves (on_stores I) (redis_cmd (SREM (Blocks a) b))"
  unfolding over_rate_limit_def friend_request_effects_def notify_response_def
  by (auto intro!: io_intros preserves_local [OF local] touch_intros)

lemma friend_handlers:
  "preserves (on_stores I) (SendFriendRequest s sr)" "preserves (on_stores I) (HandleFriendRequest s hr)"
  "preserves (on_stores I) (Unfriend x y)" "preserves (on_stores I) (BlockUser s x y m)"
  "preserves (on_stores I) (UnblockUser x y)" "preserves (on_stores I) (UpdateFriendRemark s x y m')"
  unfolding SendFriendRequest_def HandleFriendRequest_def Unfriend_def BlockUser_def UnblockUser_def
    UpdateFriendRemark_def UpdateFriendRemark_db_def Let_def
  by (intro io_intros inv_stmt; auto intro: remarks simp: stmt_keeps_def)+

lemma friend_lists:
  "preserves (on_stores I) (ListFriendRequests a dir c l)" "preserves (on_stores I) (ListFriends a c l)"
  unfolding ListFriendRequests_def ListFriends_def friend_entry_def Let_def by (intro io_intros)+

section \<open>Goroutines\<close>

lemma notifications_keep [io_intros]:
  "preserves (on_stores I) (WriteFriendRequestNotification r t f si nm g)"
  "preserves (on_stores I) (WriteFriendResponseNotification r t f si nm nt rs)"
  "preserves (on_stores I) (DeletePMNotifications a rs')"
  unfolding WriteFriendRequestNotification_def WriteFriendResponseNotification_def DeletePMNotifications_def
  by (auto intro!: io_intros preserves_local [OF local] touches_hset_expire touch_intros)

lemma tasks_keep: "preserves (on_stores I) (run_task tk)"
  by (cases tk) (auto intro!: io_intros preserves_local [OF local] touch_intros)

lemma scheduled_task: "preserves (on_stores I) (run_nth_task n)"
proof -
  have "preserves (on_stores I) (modify (\<lambda>w. w\<lparr>w_tasks := f w\<rparr>))" for f
    by (auto simp: preserves_def)
  then show ?thesis unfolding run_nth_task_def by (intro io_intros tasks_keep)
qed

end

end
