(* ===== verification/Invariants.thy ===== *)
theory Invariants
  imports HandlersInv
begin

text \<open>
  The two invariants of the service, as instances of \<open>service_invariant\<close>: the conversation and
  message tables with the cached conversation records (\<open>msg_inv\<close>), and the relation and
  request tables (\<open>rel_inv\<close>). A run of the service is a sequence of requests, of goroutines that
  get scheduled, of evictions, and of changes of everything that is neither a table
  nor a key; the invariants hold in every world such a run reaches.
\<close>

lemma stmt_keepsD: "stmt_keeps J f \<Longrightarrow> J d \<Longrightarrow> f d = (Inr x, d') \<Longrightarrow> J d'"
  by (auto simp: stmt_keeps_def)

section \<open>Conversations and messages\<close>

definition conv_messages :: "database \<Rightarrow> int \<Rightarrow> PrivateMessage list" where
  "conv_messages d k = filter (\<lambda>m. mConvID m = k) (private_messages d)"

definition conv_origin :: "Conversation \<Rightarrow> int \<times> int \<times> int" where
  "conv_origin c = (cParticipantA c, cParticipantB c, cOriginID c)"

text \<open>
  A conversation agrees with its messages: it has some, counts them, remembers who wrote the last
  one, its participants are ordered and its statuses are legal.
\<close>

definition conv_ok :: "PrivateMessage list \<Rightarrow> Conversation \<Rightarrow> bool" where
  "conv_ok ms c \<longleftrightarrow> ms \<noteq> [] \<and> cMsgCount c = int (length ms) \<and> cLastSenderID c = mSenderID (last ms) \<and>
     cParticipantA c < cParticipantB c \<and> cStatus c \<in> {0, 2} \<and> cTopicStatus c \<in> {0, 1, 2}"

definition between :: "Conversation \<Rightarrow> PrivateMessage \<Rightarrow> bool" where
  "between c m \<longleftrightarrow> mConvID m = cConvID c \<and>
     (mSenderID m = cParticipantA c \<and> mReceiverID m = cParticipantB c \<or>
      mSenderID m = cParticipantB c \<and> mReceiverID m = cParticipantA c)"

definition tables_ok :: "database \<Rightarrow> bool" where
  "tables_ok d \<longleftrightarrow>
     distinct (map cConvID (conversations d)) \<and> distinct (map conv_origin (conversations d)) \<and>
     distinct (map mMsgID (private_messages d)) \<and>
     (\<forall>c \<in> set (conversations d). conv_ok (conv_messages d (cConvID c)) c) \<and>
     (\<forall>m \<in> set (private_messages d). \<exists>c \<in> set (conversations d). between c m)"

definition record_ok :: "database \<Rightarrow> int \<Rightarrow> ConvInfo \<Rightarrow> bool" where
  "record_ok d k i \<longleftrightarrow> (\<exists>c \<in> set (conversations d). cConvID c = k \<and> ciParticipantA i = cParticipantA c \<and>
     ciParticipantB i = cParticipantB c \<and> ciOriginType i = cOriginType c)"

definition msg_inv :: "database \<Rightarrow> redis \<Rightarrow> bool" where
  "msg_inv d rs \<longleftrightarrow> tables_ok d \<and>
     (\<forall>k i e. rs (PMConversation k) = Some (RStr (JConvInfo i), e) \<longrightarrow> record_ok d k i)"

subsection \<open>What a statement may change\<close>

text \<open>
  Rows rewritten in place: an update that keeps the identity of every conversation and the
  agreement with its messages keeps the invariant.
\<close>

definition conv_core :: "Conversation \<Rightarrow> int \<times> int \<times> int \<times> int \<times> string" where
  "conv_core c = (cConvID c, cParticipantA c, cParticipantB c, cOriginID c, cOriginType c)"

lemma conv_core_map:
  assumes "map conv_core cs' = map conv_core cs"
  shows "map cConvID cs' = map cConvID cs" "map conv_origin cs' = map conv_origin cs"
proof -
  have "map (\<lambda>(a, _). a) (map conv_core cs') = map (\<lambda>(a, _). a) (map conv_core cs)" using assms by simp
  then show "map cConvID cs' = map cConvID cs" by (simp add: conv_core_def comp_def)
  have "map (\<lambda>(_, a, b, i, _). (a, b, i)) (map conv_core cs') = map (\<lambda>(_, a, b, i, _). (a, b, i)) (map conv_core cs)"
    using assms by simp
  then show "map conv_origin cs' = map conv_origin cs" by (simp add: conv_core_def comp_def flip: conv_origin_def)
qed

lemma conv_core_mem:
  assumes "map conv_core cs' = map conv_core cs" "c \<in> set cs"
  obtains c' where "c' \<in> set cs'" "conv_core c' = conv_core c"
proof -
  have "conv_core c \<in> conv_core ` set cs'" using assms by (metis image_eqI list.set_map)
  then show thesis using that by auto
qed

lemma record_ok_core:
  assumes "map conv_core (conversations d') = map conv_core (conversations d)" "record_ok d k i"
  shows "record_ok d' k i"
proof -
  obtain c where c: "c \<in> set (conversations d)" "cConvID c = k" "ciParticipantA i = cParticipantA c"
      "ciParticipantB i = cParticipantB c" "ciOriginType i = cOriginType c"
    using assms(2) by (auto simp: record_ok_def)
  obtain c' where "c' \<in> set (conversations d')" "conv_core c' = conv_core c"
    using conv_core_mem [OF assms(1) c(1)] .
  then show ?thesis using c unfolding record_ok_def conv_core_def by (intro bexI [of _ c']) auto
qed

lemma msg_inv_rewrite:
  assumes "msg_inv d rs" and core: "map conv_core (conversations d') = map conv_core (conversations d)"
    and ids: "map mMsgID (private_messages d') = map mMsgID (private_messages d)"
    and ok: "\<And>c. c \<in> set (conversations d') \<Longrightarrow> conv_ok (conv_messages d' (cConvID c)) c"
    and btw: "\<And>m. m \<in> set (private_messages d') \<Longrightarrow> \<exists>c \<in> set (conversations d). between c m"
  shows "msg_inv d' rs"
proof -
  have "\<exists>c \<in> set (conversations d'). between c m" if m: "m \<in> set (private_messages d')" for m
  proof -
    obtain c where c: "c \<in> set (conversations d)" "between c m" using btw [OF m] by blast
    obtain c' where "c' \<in> set (conversations d')" "conv_core c' = conv_core c" using conv_core_mem [OF core c(1)] .
    then show ?thesis using c(2) by (intro bexI [of _ c']) (auto simp: between_def conv_core_def)
  qed
  then show ?thesis
    using assms record_ok_core [OF core] conv_core_map [OF core] by (auto simp: msg_inv_def tables_ok_def)
qed

lemma msg_inv_same:
  "msg_inv d rs \<Longrightarrow> conversations d' = conversations d \<Longrightarrow> private_messages d' = private_messages d \<Longrightarrow> msg_inv d' rs"
  by (auto simp: msg_inv_def tables_ok_def record_ok_def conv_messages_def)

lemma other_tables:
  assumes "\<And>x. conversations (snd (f x)) = conversations x" "\<And>x. private_messages (snd (f x)) = private_messages x"
  shows "stmt_keeps (\<lambda>d. msg_inv d rs) f"
  unfolding stmt_keeps_def using msg_inv_same assms by (metis snd_conv)

lemma filter_update_where:
  "(\<And>x. P (f x) \<longleftrightarrow> P x) \<Longrightarrow> filter P (update_where Q f xs) = update_where Q f (filter P xs)"
  by (induction xs) auto

lemma last_update_where:
  "xs \<noteq> [] \<Longrightarrow> last (update_where Q f xs) = (if Q (last xs) then f (last xs) else last xs)"
  by (induction xs) (auto simp: update_where_def)

lemma update_where_Nil [simp]: "update_where Q f xs = [] \<longleftrightarrow> xs = []"
  by (simp add: update_where_def)

lemma mark_read_keeps: "stmt_keeps (\<lambda>d. msg_inv d rs) (mark_read P)"
  unfolding stmt_keeps_def
proof (intro allI impI)
  fix d x d'
  assume inv: "msg_inv d rs" and "mark_read P d = (Inr x, d')"
  then have d': "d' = d\<lparr>private_messages := update_where P (\<lambda>m. m\<lparr>mIsRead := True\<rparr>) (private_messages d)\<rparr>"
    by (simp add: mark_read_def)
  have msgs: "conv_messages d' k = update_where P (\<lambda>m. m\<lparr>mIsRead := True\<rparr>) (conv_messages d k)" for k
    by (simp add: d' conv_messages_def filter_update_where)
  show "msg_inv d' rs"
  proof (rule msg_inv_rewrite [OF inv])
    fix c assume "c \<in> set (conversations d')"
    then have "conv_ok (conv_messages d (cConvID c)) c" using inv by (simp add: d' msg_inv_def tables_ok_def)
    then show "conv_ok (conv_messages d' (cConvID c)) c"
      by (auto simp: msgs conv_ok_def last_update_where)
  next
    fix m assume "m \<in> set (private_messages d')"
    then obtain m0 where "m0 \<in> set (private_messages d)" "m = (if P m0 then m0\<lparr>mIsRead := True\<rparr> else m0)"
      by (auto simp: d' set_update_where)
    then show "\<exists>c \<in> set (conversations d). between c m"
      using inv by (fastforce simp: msg_inv_def tables_ok_def between_def)
  qed (auto simp: d' map_update_where)
qed

lemma conv_update_keeps:
  assumes inv: "msg_inv d rs" and core: "\<And>c. conv_core (f c) = conv_core c"
    and ok: "\<And>ms c. conv_ok ms c \<Longrightarrow> conv_ok ms (f c)"
  shows "msg_inv (d\<lparr>conversations := update_where P f (conversations d)\<rparr>) rs"
proof (rule msg_inv_rewrite [OF inv])
  have id: "cConvID (f c) = cConvID c" for c using core [of c] by (simp add: conv_core_def)
  fix c assume "c \<in> set (conversations (d\<lparr>conversations := update_where P f (conversations d)\<rparr>))"
  then obtain c0 where "c0 \<in> set (conversations d)" "c = (if P c0 then f c0 else c0)"
    by (auto simp: set_update_where)
  then show "conv_ok (conv_messages (d\<lparr>conversations := update_where P f (conversations d)\<rparr>) (cConvID c)) c"
    using inv ok id by (auto simp: msg_inv_def tables_ok_def conv_messages_def)
qed (use inv core in \<open>auto simp: map_update_where msg_inv_def tables_ok_def\<close>)

lemma conv_statements:
  "stmt_keeps (\<lambda>d. msg_inv d rs) (update_topic_status cid st t)"
  "stmt_keeps (\<lambda>d. msg_inv d rs) (close_item_conversation cid t)"
  by (auto simp: stmt_keeps_def update_topic_status_def close_item_conversation_def conv_core_def conv_ok_def
      intro!: conv_update_keeps split: if_splits)

subsection \<open>New messages\<close>

lemma no_orphans:
  assumes "msg_inv d rs" "k \<notin> cConvID ` set (conversations d)"
  shows "conv_messages d k = []"
  using assms by (fastforce simp: msg_inv_def tables_ok_def conv_messages_def between_def filter_empty_conv)

lemma record_ok_more:
  "record_ok d k i \<Longrightarrow> set (conversations d) \<subseteq> set (conversations d') \<Longrightarrow> record_ok d' k i"
  by (auto simp: record_ok_def)

lemma opening_keeps:
  assumes inv: "msg_inv d rs" and op: "opens_with c m"
    and ins: "insert_conversation (c\<lparr>cUpdatedAt := t\<rparr>) d = (Inr u, d1)"
    and msg: "insert_message (m\<lparr>mCreatedAt := t'\<rparr>) d1 = (Inr u', d2)"
  shows "msg_inv d2 rs"
proof -
  define c1 where "c1 = c\<lparr>cUpdatedAt := t, cTopicStatus := (if cTopicStatus c = 0 then 1 else cTopicStatus c)\<rparr>"
  define m1 where "m1 = m\<lparr>mCreatedAt := t'\<rparr>"
  have d1: "d1 = d\<lparr>conversations := conversations d @ [c1]\<rparr>"
    and new: "cConvID c1 \<notin> cConvID ` set (conversations d)" "conv_origin c1 \<notin> conv_origin ` set (conversations d)"
      "cTopicStatus c1 \<in> {0, 1, 2}"
    using ins by (auto simp: insert_conversation_def Let_def c1_def conv_origin_def image_iff split: if_splits)
  have d2: "d2 = d1\<lparr>private_messages := private_messages d @ [m1]\<rparr>"
    and fresh: "mMsgID m1 \<notin> mMsgID ` set (private_messages d)"
    using msg by (auto simp: insert_message_def m1_def d1 split: if_splits)
  have btw: "between c1 m1" and ab: "cParticipantA c1 < cParticipantB c1"
    and c1: "cMsgCount c1 = 1" "cLastSenderID c1 = mSenderID m1" "cStatus c1 = 0" "mConvID m1 = cConvID c1"
    using op by (auto simp: opens_with_def between_def c1_def m1_def ordered_pair_def split: if_splits)
  have "conv_messages d2 (cConvID c1) = [m1]"
    using no_orphans [OF inv new(1)] by (simp add: d2 conv_messages_def c1(4))
  moreover have "conv_messages d2 (cConvID x) = conv_messages d (cConvID x)" if "x \<in> set (conversations d)" for x
    using that new(1) by (auto simp: d2 conv_messages_def c1(4))
  ultimately have "conv_ok (conv_messages d2 (cConvID x)) x" if "x \<in> set (conversations d2)" for x
    using that inv ab new(3) c1 by (auto simp: d1 d2 msg_inv_def tables_ok_def conv_ok_def)
  moreover have "record_ok d2 k i" if "record_ok d k i" for k i
    using that by (auto intro: record_ok_more simp: d1 d2)
  moreover have "distinct (map cConvID (conversations d2))" "distinct (map conv_origin (conversations d2))"
    "distinct (map mMsgID (private_messages d2))" "\<forall>m \<in> set (private_messages d2). \<exists>c \<in> set (conversations d2). between c m"
    using inv new(1,2) fresh btw by (auto simp: d1 d2 msg_inv_def tables_ok_def)
  ultimately show ?thesis using inv by (auto simp: msg_inv_def tables_ok_def)
qed

lemma membership_between:
  assumes "c \<in> set (conversations d)" "cConvID c = k" "ciParticipantA i = cParticipantA c"
    "ciParticipantB i = cParticipantB c" "message_for i k m"
  shows "between c m"
  using assms by (auto simp: message_for_def between_def checkMembership_def split: if_splits)

lemma reply_keeps:
  assumes inv: "msg_inv d rs" and rec: "record_ok d k i" and m: "message_for i k m"
    and msg: "insert_message (m\<lparr>mCreatedAt := t\<rparr>) d = (Inr u, d1)"
  shows "msg_inv (bump k (mSenderID m) t' d1) rs"
proof -
  define m1 where "m1 = m\<lparr>mCreatedAt := t\<rparr>"
  define f :: "Conversation \<Rightarrow> Conversation" where "f = (\<lambda>c. c\<lparr>cLastSenderID := mSenderID m, cMsgCount := cMsgCount c + 1, cUpdatedAt := t'\<rparr>)"
  define d2 where "d2 = bump k (mSenderID m) t' d1"
  have fresh: "mMsgID m1 \<notin> mMsgID ` set (private_messages d)"
    and d2: "d2 = d\<lparr>private_messages := private_messages d @ [m1],
        conversations := update_where (\<lambda>c. cConvID c = k) f (conversations d)\<rparr>"
    using msg by (auto simp: insert_message_def m1_def d2_def bump_def f_def split: if_splits)
  have m1: "mConvID m1 = k" "mSenderID m1 = mSenderID m" using m by (auto simp: m1_def message_for_def)
  have core: "map conv_core (conversations d2) = map conv_core (conversations d)"
    by (simp add: d2 map_update_where conv_core_def f_def)
  have ids: "cConvID (f c) = cConvID c" for c by (simp add: f_def)
  have msgs: "conv_messages d2 x = conv_messages d x @ (if x = k then [m1] else [])" for x
    using m1 by (auto simp: d2 conv_messages_def)
  have ok: "conv_ok (conv_messages d2 (cConvID c)) c" if c: "c \<in> set (conversations d2)" for c
  proof -
    obtain c0 where c0: "c0 \<in> set (conversations d)" "c = (if cConvID c0 = k then f c0 else c0)"
      using c by (auto simp: d2 set_update_where)
    then have "conv_ok (conv_messages d (cConvID c0)) c0" using inv by (simp add: msg_inv_def tables_ok_def)
    then show ?thesis using c0 m1 by (auto simp: msgs ids conv_ok_def) (auto simp: f_def)
  qed
  have old: "\<exists>c \<in> set (conversations d). between c x" if "x \<in> set (private_messages d2)" for x
  proof (cases "x = m1")
    case True
    have "message_for i k m1" using m by (simp add: message_for_def m1_def)
    then show ?thesis using rec membership_between True by (fastforce simp: record_ok_def)
  next
    case False
    then show ?thesis using that inv by (auto simp: d2 msg_inv_def tables_ok_def)
  qed
  have "\<exists>c \<in> set (conversations d2). between c x" if x: "x \<in> set (private_messages d2)" for x
  proof -
    obtain c where c: "c \<in> set (conversations d)" "between c x" using old [OF x] by blast
    obtain c' where "c' \<in> set (conversations d2)" "conv_core c' = conv_core c" using conv_core_mem [OF core c(1)] .
    then show ?thesis using c(2) by (intro bexI [of _ c']) (auto simp: between_def conv_core_def)
  qed
  then have "msg_inv d2 rs"
    using inv ok fresh record_ok_core [OF core] conv_core_map [OF core]
    by (auto simp: msg_inv_def tables_ok_def) (auto simp: d2)
  then show ?thesis unfolding d2_def .
qed

lemma msg_cache_laws:
  "local_to conv_keys msg_inv"
  "msg_inv d rs \<Longrightarrow> (\<And>k. rs' k = rs k \<or> rs' k = None) \<Longrightarrow> msg_inv d rs'"
  "msg_inv d rs \<Longrightarrow> rs (PMConversation k) = Some (RStr (JConvInfo i), e) \<Longrightarrow> record_ok d k i"
  "msg_inv d rs \<Longrightarrow> c \<in> set (conversations d) \<Longrightarrow> record_ok d (cConvID c) (conv_info c)"
  "msg_inv d rs \<Longrightarrow> record_ok d k i \<Longrightarrow> msg_inv d (rs(PMConversation k \<mapsto> (RStr (JConvInfo i), e)))"
  by (auto simp: local_to_def msg_inv_def record_ok_def conv_info_def) (metis option.distinct(1))

lemma msg_other_laws:
  "msg_inv d rs \<Longrightarrow> msg_inv (d\<lparr>rel_seq := a, event_seq := b\<rparr>) rs"
  "msg_inv d rs \<Longrightarrow> msg_inv (d\<lparr>user_relations := us\<rparr>) rs"
  "stmt_keeps (\<lambda>d. msg_inv d rs) (insert_topic_event cid x p st t)"
  "stmt_keeps (\<lambda>d. msg_inv d rs) (set_request_status Q st t)"
  "stmt_keeps (\<lambda>d. msg_inv d rs) (insert_request q)"
  "stmt_keeps (\<lambda>d. msg_inv d rs) (reset_request old new greeting remark t)"
  "stmt_keeps (\<lambda>d. msg_inv d rs) (insert_friend_pair x y ra rb t)"
  "stmt_keeps (\<lambda>d. msg_inv d rs) (delete_relations R)"
  "stmt_keeps (\<lambda>d. msg_inv d rs) (insert_block x y remark t)"
  by (auto intro: msg_inv_same intro!: other_tables simp: insert_topic_event_def set_request_status_def
      insert_request_def reset_request_def insert_friend_pair_def delete_relations_def insert_block_def)

interpretation messaging: service_invariant msg_inv record_ok
  by unfold_locales
    (blast intro: msg_cache_laws msg_other_laws opening_keeps reply_keeps mark_read_keeps conv_statements)+

section \<open>Relations and requests\<close>

definition request_pair :: "FriendRequest \<Rightarrow> int \<times> int" where
  "request_pair q = (fFromUID q, fToUID q)"

text \<open>
  A relation is stored once, is a friendship or a block between two different agents, a friendship
  is stored in both directions; a request has its own ID, and an ordered pair of different
  agents has at most one.
\<close>

definition rel_inv :: "database \<Rightarrow> redis \<Rightarrow> bool" where
  "rel_inv d rs \<longleftrightarrow>
     distinct (map rel_of (user_relations d)) \<and>
     (\<forall>(a, b, t) \<in> rels d. a \<noteq> b \<and> t \<in> {RelTypeFriend, RelTypeBlock}) \<and>
     (\<forall>a b. (a, b, RelTypeFriend) \<in> rels d \<longrightarrow> (b, a, RelTypeFriend) \<in> rels d) \<and>
     distinct (map fID (friend_requests d)) \<and> distinct (map request_pair (friend_requests d)) \<and>
     (\<forall>q \<in> set (friend_requests d). fFromUID q \<noteq> fToUID q)"

lemma pairs_differ:
  assumes "map request_pair qs' = map request_pair qs" "\<forall>q \<in> set qs. fFromUID q \<noteq> fToUID q"
  shows "\<forall>q \<in> set qs'. fFromUID q \<noteq> fToUID q"
proof
  fix q assume "q \<in> set qs'"
  then have "request_pair q \<in> request_pair ` set qs" using arg_cong [OF assms(1), of set] by auto
  then show "fFromUID q \<noteq> fToUID q" using assms(2) by (auto simp: request_pair_def)
qed

lemma rel_inv_same:
  "rel_inv d rs \<Longrightarrow> map rel_of (user_relations d') = map rel_of (user_relations d)
   \<Longrightarrow> map fID (friend_requests d') = map fID (friend_requests d)
   \<Longrightarrow> map request_pair (friend_requests d') = map request_pair (friend_requests d) \<Longrightarrow> rel_inv d' rs'"
proof -
  assume inv: "rel_inv d rs" and eq: "map rel_of (user_relations d') = map rel_of (user_relations d)"
    "map fID (friend_requests d') = map fID (friend_requests d)"
    "map request_pair (friend_requests d') = map request_pair (friend_requests d)"
  have "rels d' = rels d" using arg_cong [OF eq(1), of set] by (simp add: rels_def)
  moreover have "\<forall>q \<in> set (friend_requests d'). fFromUID q \<noteq> fToUID q"
    using pairs_differ [OF eq(3)] inv by (simp add: rel_inv_def)
  ultimately show ?thesis using inv eq by (simp add: rel_inv_def)
qed

lemma rel_same_keeps:
  assumes "\<And>x. user_relations (snd (f x)) = user_relations x"
    "\<And>x. map fID (friend_requests (snd (f x))) = map fID (friend_requests x)"
    "\<And>x. map request_pair (friend_requests (snd (f x))) = map request_pair (friend_requests x)"
  shows "stmt_keeps (\<lambda>d. rel_inv d rs) f"
  unfolding stmt_keeps_def using rel_inv_same assms by (metis snd_conv)

lemma request_insert_keeps:
  "fFromUID q \<noteq> fToUID q \<Longrightarrow> stmt_keeps (\<lambda>d. rel_inv d rs) (insert_request q)"
  by (auto simp: stmt_keeps_def insert_request_def rel_inv_def rels_def request_pair_def image_iff split: if_splits)

lemma distinct_rename:
  "distinct (map g xs) \<Longrightarrow> new \<notin> g ` {x \<in> set xs. g x \<noteq> old} \<Longrightarrow> (\<And>x. g (f x) = new)
   \<Longrightarrow> distinct (map g (update_where (\<lambda>x. g x = old) f xs))"
  by (induction xs) (auto simp: set_update_where image_iff)

lemma request_reset_keeps: "stmt_keeps (\<lambda>d. rel_inv d rs) (reset_request old new greeting remark t)"
  unfolding stmt_keeps_def
proof (intro allI impI)
  fix d x d'
  assume inv: "rel_inv d rs" and run: "reset_request old new greeting remark t d = (Inr x, d')"
  define f :: "FriendRequest \<Rightarrow> FriendRequest" where
    "f = (\<lambda>q. q\<lparr>fID := new, fStatus := RequestStatusPending, fGreeting := greeting, fRemark := remark,
             fCreatedAt := t, fUpdatedAt := t\<rparr>)"
  have d': "d' = d\<lparr>friend_requests := update_where (\<lambda>q. fID q = old) f (friend_requests d)\<rparr>"
    and ok: "old \<in> fID ` set (friend_requests d) \<Longrightarrow> new \<notin> fID ` {q \<in> set (friend_requests d). fID q \<noteq> old}"
    using run by (auto simp: reset_request_def f_def split: if_splits)
  have pairs: "map request_pair (friend_requests d') = map request_pair (friend_requests d)"
    by (simp add: d' map_update_where request_pair_def f_def)
  have "distinct (map fID (friend_requests d'))"
  proof (cases "old \<in> fID ` set (friend_requests d)")
    case True
    show ?thesis using distinct_rename [OF _ ok [OF True], of f] inv by (simp add: d' f_def rel_inv_def)
  next
    case False
    then have "friend_requests d' = friend_requests d" by (auto simp: d' intro: update_where_none)
    then show ?thesis using inv by (simp add: rel_inv_def)
  qed
  moreover have "\<forall>q \<in> set (friend_requests d'). fFromUID q \<noteq> fToUID q"
    using pairs_differ [OF pairs] inv by (simp add: rel_inv_def)
  moreover have "user_relations d' = user_relations d" by (simp add: d')
  ultimately show "rel_inv d' rs" using inv pairs by (simp add: rel_inv_def rels_def)
qed

lemma relation_statements:
  "stmt_keeps (\<lambda>d. rel_inv d rs) (insert_friend_pair x y ra rb t)"
  "stmt_keeps (\<lambda>d. rel_inv d rs) (delete_relations (is_friend_row x y))"
  "x \<noteq> y \<Longrightarrow> stmt_keeps (\<lambda>d. rel_inv d rs) (insert_block x y remark t)"
  "stmt_keeps (\<lambda>d. rel_inv d rs)
     (delete_relations (\<lambda>r. rFromUID r = x \<and> rToUID r = y \<and> rRelType r = RelTypeBlock))"
proof -
  show "stmt_keeps (\<lambda>d. rel_inv d rs) (insert_friend_pair x y ra rb t)"
    by (auto simp: stmt_keeps_def insert_friend_pair_def rel_inv_def rels_def rel_of_def image_iff split: if_splits)
  show "x \<noteq> y \<Longrightarrow> stmt_keeps (\<lambda>d. rel_inv d rs) (insert_block x y remark t)"
    by (auto simp: stmt_keeps_def insert_block_def rel_inv_def rels_def rel_of_def image_iff split: if_splits)
  have sub: "distinct (map g xs) \<Longrightarrow> distinct (map g (filter Q xs))" for g :: "UserRelation \<Rightarrow> int \<times> int \<times> int" and Q xs
    by (rule distinct_map_filter)
  show "stmt_keeps (\<lambda>d. rel_inv d rs) (delete_relations (is_friend_row x y))"
    unfolding stmt_keeps_def
  proof (intro allI impI)
    fix d n d'
    assume inv: "rel_inv d rs" and "delete_relations (is_friend_row x y) d = (Inr n, d')"
    then have d': "d' = d\<lparr>user_relations := filter (\<lambda>r. \<not> is_friend_row x y r) (user_relations d)\<rparr>"
      by (simp add: delete_relations_def)
    have "rels d' = rels d - {(x, y, RelTypeFriend), (y, x, RelTypeFriend)}"
      by (auto simp: d' rels_def rel_of_def is_friend_row_def)
    then show "rel_inv d' rs" using inv sub by (auto simp: rel_inv_def d')
  qed
  show "stmt_keeps (\<lambda>d. rel_inv d rs)
     (delete_relations (\<lambda>r. rFromUID r = x \<and> rToUID r = y \<and> rRelType r = RelTypeBlock))"
    unfolding stmt_keeps_def
  proof (intro allI impI)
    fix d n d'
    assume inv: "rel_inv d rs"
      and "delete_relations (\<lambda>r. rFromUID r = x \<and> rToUID r = y \<and> rRelType r = RelTypeBlock) d = (Inr n, d')"
    then have d': "d' = d\<lparr>user_relations := filter
        (\<lambda>r. \<not> (rFromUID r = x \<and> rToUID r = y \<and> rRelType r = RelTypeBlock)) (user_relations d)\<rparr>"
      by (simp add: delete_relations_def)
    have "rels d' = rels d - {(x, y, RelTypeBlock)}"
      by (auto simp: d' rels_def rel_of_def)
    then show "rel_inv d' rs" using inv sub by (auto simp: rel_inv_def d')
  qed
qed

lemma rel_cache_laws: "local_to K rel_inv" "rel_inv d rs \<Longrightarrow> rel_inv d rs'"
  by (simp_all add: local_to_def rel_inv_def)

lemma rel_other_laws:
  "rel_inv d rs \<Longrightarrow> rel_inv (d\<lparr>rel_seq := a, event_seq := b\<rparr>) rs"
  "rel_inv d rs \<Longrightarrow> rel_inv (bump c sd t d) rs"
  "rel_inv d rs \<Longrightarrow> rel_inv (d\<lparr>user_relations := update_where R (\<lambda>r. r\<lparr>rRemark := remark\<rparr>) (user_relations d)\<rparr>) rs"
  by (erule rel_inv_same; simp add: bump_def map_update_where rel_of_def)+

lemma rel_other_statements:
  "stmt_keeps (\<lambda>d. rel_inv d rs) (mark_read P)"
  "stmt_keeps (\<lambda>d. rel_inv d rs) (update_topic_status cid st t)"
  "stmt_keeps (\<lambda>d. rel_inv d rs) (insert_topic_event cid x p st t)"
  "stmt_keeps (\<lambda>d. rel_inv d rs) (close_item_conversation cid t)"
  "stmt_keeps (\<lambda>d. rel_inv d rs) (set_request_status Q st t)"
  "stmt_keeps (\<lambda>d. rel_inv d rs) (insert_conversation c)"
  "stmt_keeps (\<lambda>d. rel_inv d rs) (insert_message m)"
  by (rule rel_same_keeps; simp add: mark_read_def update_topic_status_def insert_topic_event_def
      close_item_conversation_def set_request_status_def insert_conversation_def insert_message_def
      map_update_where request_pair_def Let_def)+

interpretation relationships: service_invariant rel_inv "\<lambda>_ _ _. True"
proof unfold_locales
  fix d rs c m t u d1 t' u' d2
  assume "rel_inv d rs" "insert_conversation (c\<lparr>cUpdatedAt := t\<rparr>) d = (Inr u, d1)"
    "insert_message (m\<lparr>mCreatedAt := t'\<rparr>) d1 = (Inr u', d2)"
  then show "rel_inv d2 rs" using stmt_keepsD [OF rel_other_statements(6)] stmt_keepsD [OF rel_other_statements(7)] by blast
next
  fix d rs m t u d1 t' convID
  assume "rel_inv d rs" "insert_message (m\<lparr>mCreatedAt := t\<rparr>) d = (Inr u, d1)"
  then show "rel_inv (bump convID (mSenderID m) t' d1) rs"
    using stmt_keepsD [OF rel_other_statements(7)] rel_other_laws(2) by blast
qed (auto intro: rel_cache_laws rel_other_laws rel_other_statements relation_statements request_insert_keeps request_reset_keeps)

end
