(* ===== verification/Runs.thy ===== *)
theory Runs
  imports PMFriends
begin

text \<open>
  Running the model on concrete worlds. In a quiet world (no failure to come, time standing
  still) a command, a statement and a query have a plain result; with these rules and the
  definitions collected here the simplifier evaluates whole requests.
\<close>

named_theorems run_rules "evaluation of effects in a quiet world"

lemma quiet_io_step [run_rules]: "w_env w = [] \<Longrightarrow> run_state io_step w = (Fine, w)"
  by (simp add: io_step_def)

lemma quiet_redis_cmd [run_rules]:
  "w_env w = [] \<Longrightarrow> \<not> w_rdb_nil w \<Longrightarrow>
   run_state (redis_cmd c) w = (case c (w_now w) (w_redis w) of (r, rs) \<Rightarrow> (r, w\<lparr>w_redis := rs\<rparr>))"
  by (simp add: redis_cmd_def io_step_def split: prod.splits)

lemma quiet_db_stmt [run_rules]:
  "w_env w = [] \<Longrightarrow> \<not> w_tx_failed w \<Longrightarrow>
   run_state (db_stmt f) w = (case f (w_db w) of
       (Inr x, d) \<Rightarrow> (Inr x, w\<lparr>w_db := d\<rparr>)
     | (Inl e, d) \<Rightarrow> (Inl e, w\<lparr>w_tx_failed := w_in_tx w\<rparr>))"
  by (simp add: db_stmt_def io_step_def split: prod.splits sum.splits)

lemma quiet_db_query [run_rules]:
  "w_env w = [] \<Longrightarrow> \<not> w_tx_failed w \<Longrightarrow> run_state (db_query q) w = (Inr (q (w_db w)), w)"
  by (simp add: db_query_def quiet_db_stmt)

lemma run_transaction [run_rules]:
  "w_env w = [] \<Longrightarrow> run_state body (w\<lparr>w_in_tx := True, w_tx_failed := False\<rparr>) = (Inr x, w') \<Longrightarrow>
   w_env w' = [] \<Longrightarrow> \<not> w_tx_failed w' \<Longrightarrow>
   run_state (transaction body) w = (Inr x, w'\<lparr>w_in_tx := False, w_tx_failed := False, w_locks := []\<rparr>)"
  by (simp add: transaction_def io_step_def)

lemma quiet_query: "quiet w \<Longrightarrow> run_state (db_query q) w = (Inr (q (w_db w)), w)"
  by (simp add: quiet_def quiet_db_query)

lemma quiet_cmd: "quiet w \<Longrightarrow> c (w_now w) (w_redis w) = (r, rs) \<Longrightarrow> run_state (redis_cmd c) w = (r, w\<lparr>w_redis := rs\<rparr>)"
  by (simp add: quiet_def quiet_redis_cmd)

lemma quiet_now: "run_state now_ms w = (w_now w, w)"
  by (simp add: now_ms_def)

lemma quiet_read: "quiet w \<Longrightarrow> run_state (cache_Read k) w = (fst (GET k (w_now w) (w_redis w)), w)"
  by (simp add: quiet_def cache_Read_def quiet_redis_cmd GET_def split: option.splits rval.splits)

lemma quiet_write:
  "quiet w \<Longrightarrow> run_state (cache_Write k p ttl) w = (Inr (), w\<lparr>w_redis := snd (SET k p ttl (w_now w) (w_redis w))\<rparr>)"
  by (simp add: quiet_def cache_Write_def quiet_redis_cmd SET_def)

lemma quiet_simps [simp]:
  "quiet (w\<lparr>w_db := d\<rparr>) = quiet w" "quiet (w\<lparr>w_redis := rs\<rparr>) = quiet w" "quiet (w\<lparr>w_uuid_next := n\<rparr>) = quiet w"
  "quiet (w\<lparr>w_now := t\<rparr>) = quiet w" "quiet (w\<lparr>w_event_ids := ids\<rparr>) = quiet w" "quiet (w\<lparr>w_rule_cache := c\<rparr>) = quiet w"
  by (simp_all add: quiet_def)

lemma quiet_stmt: "quiet w \<Longrightarrow> f (w_db w) = (Inr x, d) \<Longrightarrow> run_state (db_stmt f) w = (Inr x, w\<lparr>w_db := d\<rparr>)"
  by (simp add: quiet_def quiet_db_stmt)

lemma quiet_stmt_error: "quiet w \<Longrightarrow> f (w_db w) = (Inl e, d) \<Longrightarrow> fst (run_state (db_stmt f) w) = Inl e"
  by (simp add: quiet_def quiet_db_stmt)

lemmas eval_cmds = live_def expiry_def GET_def SET_def SETNX_def DEL_eq EXISTS_def EXPIRE_def PTTL_def INCR_def SADD_def
  SREM_def SISMEMBER_def HGET_def HSET_def HDEL_def seq_cmd_def

lemmas eval_prims = and_then_def next_conv_id_def next_msg_id_def next_req_id_def next_token_def now_ms_def
  spawn_def publish_push_def xadd_def cache_defs transaction_def value_or_def opt_get_def map_get_def

lemmas eval_relations = IsBlockedCached_def IsFriendCached_def InvalidateFriendCache_def cached_member_def
  LoadBlockSet_def LoadFriendSet_def IsFriend_def IsBlocked_def rel_targets_def

lemmas eval_friends = SendFriendRequest_def over_rate_limit_def HourlyLimit_def DefaultConfig_def truncated_def
  friend_request_tx_def LockRelationPair_def GetFriendRequestBetweenForUpdate_def first_by_def renew_request_def
  CreateFriendRequest_def insert_request_def friend_request_effects_def PublishFriendRequestReceived_def
  PublishFriendRequestSent_def PublishFriendAdded_def PublishRebuild_def notification_identity_def
  publicIdentityForNotification_def GetIdentity_def deletePendingFriendRequestNotifications_def
  publishFriendResponseEvent_def UpdateRequestStatusIfPending_def set_request_status_def CreateFriendRelation_def
  insert_friend_pair_def rels_def

section \<open>A concrete service\<close>

text \<open>
  Agent 1 owns the broadcast 7, which accepts replies; agent 2 is somebody else. Everything that a
  request may ask for (identifiers, tokens) is available and nothing fails.
\<close>

definition demo :: PMServiceImpl where
  "demo = \<lparr>friendRequestLimits = None, sha256 = (\<lambda>_. []), wide_rune = (\<lambda>_. False)\<rparr>"

definition demo_db :: database where
  "demo_db = empty_db\<lparr>raw_items := [\<lparr>iItemID = 7, iAuthorAgentID = 1\<rparr>],
     processed_items := [\<lparr>pItemID = 7, pStatus = 3, pExpectedResponse = None, pSummary = None\<rparr>]\<rparr>"

definition demo_world :: world where
  "demo_world = empty_world\<lparr>w_db := demo_db, w_conv_ids := [Inr 500], w_msg_ids := [Inr 900], w_req_ids := [Inr 70],
     w_tokens := [Inr ''a'']\<rparr>"

lemmas eval_demo = demo_def demo_world_def demo_db_def empty_world_def empty_db_def

definition demo_send :: SendPMReq where
  "demo_send = \<lparr>sqSenderId = 2, sqReceiverId = 0, sqItemId = Some 7, sqConvId = None, sqContent = ''hi'', sqRequestId = []\<rparr>"

lemma demo_hex: "EncodeToString ''a'' = ''61''" "EncodeToString [] = []" "itoa 2 = ''2''"
  by code_simp+

lemma demo_content: "ValidateMessageContent ''hi'' = None"
  by (simp add: ValidateMessageContent_def ValidString_def ContainsRune_def RuneError_def runes_Cons DecodeRune.simps(2))

lemmas demo_strings = demo_hex demo_content

lemmas eval_send = SendPM_def sendTarget_def Acquire_def Complete_def Release_def numeral_2_eq_2 attempt_reply_def
  acquire_cmd_def RequestFingerprint_def Fingerprint_def pendingValue_def sendPM_def handleNewConversation_def
  GetItemOwner_def GetItemOwner_db_def first_or_err_def first_by_def ValidateItemAvailable_def GetItemStatus_def
  ValidateNoReply_def GetItemExpectedResponse_def ordered_pair_def GetOrCreateConvID_def
  GetConversationByParticipants_def BatchGetAgentNames_def open_conversation_tx_def CreateConversation_def
  CreateMessage_def new_conversation_def new_message_def insert_conversation_def insert_message_def
  CacheConvMapping_def announce_def PublishMessageReceived_def pm_resp_def complete_script_def
  CheckAndSetIceBreak_def ice_script_def iceBreakScript_def bucket_of_def field_of_def lock_value_def

text \<open>The first message of agent 2 about the broadcast opens a conversation.\<close>

definition demo_sent :: world where
  "demo_sent = snd (run_state (SendPM demo demo_send) demo_world)"

lemma demo_send_ok:
  "fst (run_state (SendPM demo demo_send) demo_world) = pm_resp 900 500 success"
  "map (\<lambda>m. (mMsgID m, mConvID m, mSenderID m, mReceiverID m)) (private_messages (w_db demo_sent)) = [(900, 500, 2, 1)]"
  "map (\<lambda>c. (cConvID c, cMsgCount c, cLastSenderID c)) (conversations (w_db demo_sent)) = [(500, 1, 2)]"
  by (simp_all add: demo_sent_def demo_send_def demo_strings eval_send eval_prims eval_demo eval_cmds run_rules eval_relations
      Let_def)

text \<open>Two agents who ask each other become friends.\<close>

definition demo_ask :: "int \<Rightarrow> int \<Rightarrow> SendFriendRequestReq" where
  "demo_ask x y = \<lparr>srFromUid = x, srToUid = y, srGreeting = None, srRemark = None\<rparr>"

definition demo_asked :: world where
  "demo_asked = snd (run_state (SendFriendRequest demo (demo_ask 1 2)) demo_world)"

definition demo_friends :: world where
  "demo_friends = snd (run_state (SendFriendRequest demo (demo_ask 2 1)) demo_asked)"

lemma demo_asked_ok:
  "map (\<lambda>q. (fID q, fFromUID q, fToUID q, fStatus q)) (friend_requests (w_db demo_asked)) = [(70, 1, 2, RequestStatusPending)]"
  by (simp add: demo_asked_def demo_ask_def eval_friends eval_prims eval_demo eval_cmds run_rules eval_relations
      Let_def)

lemma demo_friends_ok:
  "map rel_of (user_relations (w_db demo_friends)) = [(2, 1, RelTypeFriend), (1, 2, RelTypeFriend)]"
  by (simp add: demo_friends_def demo_asked_def demo_ask_def eval_friends eval_prims eval_demo eval_cmds run_rules eval_relations
      Let_def rel_of_def)

text \<open>Blocking.\<close>

lemmas eval_block = BlockUser_def block_tx_def CreateBlockRelation_def insert_block_def delete_relations_def
  is_friend_row_def UpdateRequestStatus_def rebuild_stream_def no_identity_def ValidShortID_def

lemmas eval_all = eval_block eval_friends eval_prims eval_demo eval_cmds run_rules eval_relations Let_def rel_of_def

end
