(* ===== verification/Service.thy ===== *)
theory Service
  imports Invariants Runs
begin

text \<open>
  The running service. A request is one call of an RPC handler; between requests the scheduler
  runs goroutines, Redis drops keys, and the surroundings change whatever is neither a table of
  the service nor a key: the clock, the outcomes of the commands to come, the identifiers the
  generators will return, the presence of the Redis client. The invariants of \<open>Invariants\<close> hold
  in every world the service can reach.
\<close>

datatype request =
    DoSendPM SendPMReq
  | DoFetchPM FetchPMReq
  | DoFetchPMHistory FetchPMHistoryReq
  | DoGetConvHistory GetConvHistoryReq
  | DoListConversations ListConversationsReq
  | DoUpdateTopicStatus int int string
  | DoCloseConv int int
  | DoGetUnreadCount int
  | DoMarkConvRead int int
  | DoSendFriendRequest SendFriendRequestReq
  | DoHandleFriendRequest HandleFriendRequestReq
  | DoUnfriend int int
  | DoBlockUser int int "string option"
  | DoUnblockUser int int
  | DoListFriendRequests int string "int option" "int option"
  | DoListFriends int "int option" "int option"
  | DoUpdateFriendRemark int int string

text \<open>The handler of a request, its response dropped.\<close>

definition drop_reply :: "'a io \<Rightarrow> unit io" where
  "drop_reply m = do { _ \<leftarrow> m; ret () }"

primrec serve :: "PMServiceImpl \<Rightarrow> request \<Rightarrow> unit io" where
  "serve s (DoSendPM q) = drop_reply (SendPM s q)"
| "serve s (DoFetchPM q) = drop_reply (FetchPM q)"
| "serve s (DoFetchPMHistory q) = drop_reply (FetchPMHistory q)"
| "serve s (DoGetConvHistory q) = drop_reply (GetConvHistory q)"
| "serve s (DoListConversations q) = drop_reply (ListConversations q)"
| "serve s (DoUpdateTopicStatus c a st) = drop_reply (UpdateTopicStatus c a st)"
| "serve s (DoCloseConv c a) = drop_reply (CloseConv c a)"
| "serve s (DoGetUnreadCount a) = drop_reply (GetUnreadCount a)"
| "serve s (DoMarkConvRead c a) = drop_reply (MarkConvRead c a)"
| "serve s (DoSendFriendRequest q) = drop_reply (SendFriendRequest s q)"
| "serve s (DoHandleFriendRequest q) = drop_reply (HandleFriendRequest s q)"
| "serve s (DoUnfriend x y) = drop_reply (Unfriend x y)"
| "serve s (DoBlockUser x y remark) = drop_reply (BlockUser s x y remark)"
| "serve s (DoUnblockUser x y) = drop_reply (UnblockUser x y)"
| "serve s (DoListFriendRequests a dir c l) = drop_reply (ListFriendRequests a dir c l)"
| "serve s (DoListFriends a c l) = drop_reply (ListFriends a c l)"
| "serve s (DoUpdateFriendRemark a f remark) = drop_reply (UpdateFriendRemark s a f remark)"

inductive pm_step :: "PMServiceImpl \<Rightarrow> world \<Rightarrow> world \<Rightarrow> bool" for s where
  handle_request: "exec_st (serve s q) w = w' \<Longrightarrow> pm_step s w w'"
| run_goroutine: "exec_st (run_nth_task n) w = w' \<Longrightarrow> pm_step s w w'"
| drop_keys: "(\<And>k. rs' k = w_redis w k \<or> rs' k = None) \<Longrightarrow> pm_step s w (w\<lparr>w_redis := rs'\<rparr>)"
| surroundings: "w_db w' = w_db w \<Longrightarrow> w_redis w' = w_redis w \<Longrightarrow> pm_step s w w'"

text \<open>The service starts with empty tables of its own and an empty keyspace.\<close>

definition fresh_start :: "world \<Rightarrow> bool" where
  "fresh_start w \<longleftrightarrow> conversations (w_db w) = [] \<and> private_messages (w_db w) = [] \<and>
     user_relations (w_db w) = [] \<and> friend_requests (w_db w) = [] \<and> w_redis w = Map.empty"

inductive pm_reach :: "PMServiceImpl \<Rightarrow> world \<Rightarrow> bool" for s where
  start: "fresh_start w \<Longrightarrow> pm_reach s w"
| step: "pm_reach s w \<Longrightarrow> pm_step s w w' \<Longrightarrow> pm_reach s w'"

context service_invariant
begin

lemma dropped: "preserves (on_stores I) m \<Longrightarrow> preserves (on_stores I) (drop_reply m)"
  unfolding drop_reply_def by (intro io_intros)

lemma serve_keeps: "preserves (on_stores I) (serve s q)"
  by (cases q) (simp_all add: dropped send_handler reading_handlers conversation_handlers friend_handlers friend_lists)

lemma step_keeps: "pm_step s w w' \<Longrightarrow> on_stores I w \<Longrightarrow> on_stores I w'"
proof (induction rule: pm_step.induct)
  case (handle_request q w w')
  then show ?case using preserves_run [OF serve_keeps] by (auto simp: exec_st_def)
next
  case (run_goroutine n w w')
  then show ?case using preserves_run [OF scheduled_task] by (auto simp: exec_st_def)
next
  case (drop_keys rs' w)
  then show ?case using evict [of "w_db w" "w_redis w" rs'] by simp
next
  case (surroundings w' w)
  then show ?case by simp
qed

lemma reach_keeps:
  assumes "\<And>w. fresh_start w \<Longrightarrow> on_stores I w" "pm_reach s w"
  shows "on_stores I w"
  using assms(2) by induction (auto intro: assms(1) step_keeps)

end

section \<open>Concrete runs\<close>

lemma demo_reachable: "pm_reach demo demo_sent" "pm_reach demo demo_friends"
proof -
  have start: "pm_reach demo demo_world"
    by (rule pm_reach.start) (simp add: fresh_start_def eval_demo)
  have "exec_st (serve demo (DoSendPM demo_send)) demo_world = demo_sent"
    "exec_st (serve demo (DoSendFriendRequest (demo_ask 1 2))) demo_world = demo_asked"
    "exec_st (serve demo (DoSendFriendRequest (demo_ask 2 1))) demo_asked = demo_friends"
    by (simp_all add: exec_st_def drop_reply_def demo_sent_def demo_asked_def demo_friends_def split_beta)
  then show "pm_reach demo demo_sent" "pm_reach demo demo_friends"
    using start by (blast intro: pm_reach.step pm_step.handle_request)+
qed

section \<open>The messaging tables\<close>

lemma fresh_messages: "fresh_start w \<Longrightarrow> on_stores msg_inv w"
  by (simp add: fresh_start_def msg_inv_def tables_ok_def)

lemma fresh_relations: "fresh_start w \<Longrightarrow> on_stores rel_inv w"
  by (simp add: fresh_start_def rel_inv_def rels_def)

text \<open>C1: in every world the service can reach, whatever failed on the way, conversation IDs,
  message IDs and the (participants, origin) of a conversation are unique; every message belongs
  to a conversation and was sent by one of its two participants to the other; every
  conversation has at least one message, its counter is the number of its messages and its last
  sender is the sender of the newest one; and a cached conversation record names the
  participants and the origin type of the stored conversation.\<close>

theorem messages_consistent:
  assumes "pm_reach s w"
  shows "msg_inv (w_db w) (w_redis w)"
  using messaging.reach_keeps [OF fresh_messages assms] .

theorem messages_consistent_witness:
  "pm_reach demo demo_sent \<and> msg_inv (w_db demo_sent) (w_redis demo_sent) \<and>
   map (\<lambda>c. (cConvID c, cMsgCount c, cLastSenderID c)) (conversations (w_db demo_sent)) = [(500, 1, 2)]"
  using messages_consistent [OF demo_reachable(1)] demo_reachable(1) demo_send_ok(3) by simp

text \<open>C2: in every world the service can reach, each relation is stored once, nobody is related
  to themselves, friendships are stored in both directions, request IDs are unique and an
  ordered pair of agents has at most one friend request.\<close>

theorem relations_consistent:
  assumes "pm_reach s w"
  shows "rel_inv (w_db w) (w_redis w)"
  using relationships.reach_keeps [OF fresh_relations assms] .

theorem relations_consistent_witness:
  "pm_reach demo demo_friends \<and> rel_inv (w_db demo_friends) (w_redis demo_friends) \<and>
   map rel_of (user_relations (w_db demo_friends)) = [(2, 1, RelTypeFriend), (1, 2, RelTypeFriend)]"
  using relations_consistent [OF demo_reachable(2)] demo_reachable(2) demo_friends_ok by simp

end
