(* ===== verification/Exclusion.thy ===== *)
theory Exclusion
  imports Service
begin

text \<open>
  Friendship excludes blocking: two agents of whom one has blocked the other are not friends. The
  handlers that check the tables keep it, for every failure of every statement; the shortcut in
  \<open>SendFriendRequest\<close>, which accepts the peer's pending request after a look at the cached
  block set only, does not, once that set is incomplete.
\<close>

definition exclusive :: "database \<Rightarrow> bool" where
  "exclusive d \<longleftrightarrow> (\<forall>a b. (a, b, RelTypeFriend) \<in> rels d \<longrightarrow>
     (a, b, RelTypeBlock) \<notin> rels d \<and> (b, a, RelTypeBlock) \<notin> rels d)"

definition unblocked :: "int \<Rightarrow> int \<Rightarrow> database \<Rightarrow> bool" where
  "unblocked x y d \<longleftrightarrow> exclusive d \<and> (x, y, RelTypeBlock) \<notin> rels d \<and> (y, x, RelTypeBlock) \<notin> rels d"

text \<open>Exclusive but for one pair.\<close>

definition exclusive_but :: "int \<Rightarrow> int \<Rightarrow> database \<Rightarrow> bool" where
  "exclusive_but x y d \<longleftrightarrow> (\<forall>a b. (a, b, RelTypeFriend) \<in> rels d \<longrightarrow> {a, b} \<noteq> {x, y} \<longrightarrow>
     (a, b, RelTypeBlock) \<notin> rels d \<and> (b, a, RelTypeBlock) \<notin> rels d)"

section \<open>Statements\<close>

text \<open>\<open>on_rels J\<close>: the predicate looks at the relations only.\<close>

definition on_rels :: "(database \<Rightarrow> bool) \<Rightarrow> bool" where
  "on_rels J \<longleftrightarrow> (\<forall>d d'. rels d' = rels d \<longrightarrow> J d' = J d)"

lemma on_rels_preds [simp]: "on_rels exclusive" "on_rels (unblocked x y)" "on_rels (exclusive_but x y)"
  by (auto simp: on_rels_def exclusive_def unblocked_def exclusive_but_def)

lemma status_stmt: "on_rels J \<Longrightarrow> stmt_keeps J (set_request_status Q st t)"
proof -
  assume J: "on_rels J"
  have "rels (snd (set_request_status Q st t d)) = rels d" for d by (simp add: set_request_status_def rels_def)
  then show ?thesis using J unfolding stmt_keeps_def on_rels_def by (metis snd_conv)
qed

lemma status_txk [txk_intros]:
  assumes "on_rels J"
  shows "tx_keeps J (UpdateRequestStatusIfPending r st)" "tx_keeps J (UpdateRequestStatus r st)"
    "tx_keeps J (settle_request r st)" "tx_keeps J (update_status_column Q st)"
  unfolding UpdateRequestStatusIfPending_def UpdateRequestStatus_def settle_request_def update_status_column_def
  by (intro txk_intros txk_stmt status_stmt assms)+

lemma cancel_txk [txk_intros]: "on_rels J \<Longrightarrow> tx_keeps J (cancel_requests qs ds)"
  by (induction qs ds rule: cancel_requests.induct) (auto intro!: txk_intros)

lemma exclusive_less: "exclusive d \<Longrightarrow> rels d' \<subseteq> rels d \<Longrightarrow> exclusive d'"
  unfolding exclusive_def by blast

lemma delete_stmt:
  "stmt_keeps exclusive (delete_relations P)"
  "exclusive_but x y d \<Longrightarrow> delete_relations (is_friend_row x y) d = (Inr n, d') \<Longrightarrow> exclusive d'"
proof -
  have sub: "rels (d\<lparr>user_relations := filter Q (user_relations d)\<rparr>) \<subseteq> rels d" for Q d by (auto simp: rels_def)
  then show "stmt_keeps exclusive (delete_relations P)"
    by (auto simp: stmt_keeps_def delete_relations_def intro: exclusive_less)
  assume but: "exclusive_but x y d" and "delete_relations (is_friend_row x y) d = (Inr n, d')"
  then have d': "rels d' = rels d - {(x, y, RelTypeFriend), (y, x, RelTypeFriend)}"
    by (auto simp: delete_relations_def rels_def rel_of_def is_friend_row_def)
  show "exclusive d'"
    unfolding exclusive_def
  proof (intro allI impI)
    fix a b assume ab: "(a, b, RelTypeFriend) \<in> rels d'"
    then have "{a, b} \<noteq> {x, y}" "(a, b, RelTypeFriend) \<in> rels d" by (auto simp: d' doubleton_eq_iff)
    then show "(a, b, RelTypeBlock) \<notin> rels d' \<and> (b, a, RelTypeBlock) \<notin> rels d'"
      using but by (auto simp: exclusive_but_def d')
  qed
qed

lemma befriend_stmt: "unblocked x y d \<Longrightarrow> insert_friend_pair x y ra rb t d = (Inr u, d') \<Longrightarrow> exclusive d'"
proof -
  assume un: "unblocked x y d" and "insert_friend_pair x y ra rb t d = (Inr u, d')"
  then have "rels d' = rels d \<union> {(x, y, RelTypeFriend), (y, x, RelTypeFriend)}"
    by (auto simp: insert_friend_pair_def rels_def rel_of_def split: if_splits)
  then show ?thesis using un by (auto simp: unblocked_def exclusive_def)
qed

lemma block_stmt: "exclusive d \<Longrightarrow> insert_block x y m t d = (Inr n, d') \<Longrightarrow> exclusive_but x y d'"
proof -
  assume ex: "exclusive d" and "insert_block x y m t d = (Inr n, d')"
  then have "rels d' = rels d \<or> rels d' = insert (x, y, RelTypeBlock) (rels d)"
    by (auto simp: insert_block_def rels_def rel_of_def split: if_splits)
  then show ?thesis using ex by (auto simp: exclusive_but_def exclusive_def)
qed

section \<open>Transactions\<close>

lemma tx_of_keeps: "tx_keeps J m \<Longrightarrow> tx_valid J m (\<lambda>_. J)"
  by (simp add: tx_keeps_def)

lemma any_txk: "(\<And>J. tx_keeps J m) \<Longrightarrow> keeps w_redis m"
  by (simp add: tx_keeps_def)

lemma tx_is_blocked:
  "tx_valid P (IsBlocked a b) (\<lambda>x d. P d \<and> x = ((a, b, RelTypeBlock) \<in> rels d))"
  unfolding IsBlocked_def count_mem by (rule tx_db_query)

lemma tx_befriend: "tx_valid (unblocked x y) (CreateFriendRelation x y ra rb) (\<lambda>_. exclusive)"
  unfolding CreateFriendRelation_def
  by (rule tx_frame) (auto intro!: io_intros keeps_tx_prims intro: tx_weaken [OF tx_db_stmt] befriend_stmt)

lemma tx_accept: "tx_valid exclusive (accept_request req rm q) (\<lambda>_. exclusive)"
proof -
  let ?x = "fFromUID q" and ?y = "fToUID q"
  have clear: "tx_valid (\<lambda>d. (exclusive d \<and> bs = ((?x, ?y, RelTypeBlock) \<in> rels d)) \<and> br = ((?y, ?x, RelTypeBlock) \<in> rels d)) m Q"
    if "tx_valid (unblocked ?x ?y) m Q" "\<not> (bs \<or> br)" for m :: "(FriendRequest \<times> string) res io" and Q bs br
    using that by (auto intro: tx_pre simp: unblocked_def)
  have create: "tx_valid (unblocked ?x ?y) (if f then ret (Inr ()) else CreateFriendRelation ?x ?y a b) (\<lambda>_. exclusive)" for f a b
    by (auto intro: tx_befriend tx_return simp: unblocked_def)
  show ?thesis
    unfolding accept_request_def
    apply (rule tx_if, rule tx_error)
    apply (rule tx_and_then [OF tx_is_blocked])
    apply (rule tx_and_then [OF tx_is_blocked])
    apply (rule tx_if, rule tx_error)
    apply (rule clear)
     apply (rule tx_and_then [OF tx_of_keeps], intro txk_intros, simp)
     apply (rule tx_and_then [OF tx_of_keeps], intro txk_intros)
     apply (rule tx_and_then [OF create])
     apply (rule tx_return, assumption)
    apply assumption
    done
qed

lemma tx_handle: "tx_valid exclusive (handle_request_tx req rm) (\<lambda>_. exclusive)"
proof -
  have settle: "tx_valid exclusive (and_then (settle_request r st) (\<lambda>_. ret (Inr v))) (\<lambda>_. exclusive)" for r st and v :: "FriendRequest \<times> string"
    by (rule tx_of_keeps) (intro txk_intros; simp)
  show ?thesis
    unfolding handle_request_tx_def
    by (rule tx_and_then [OF tx_of_keeps], intro txk_intros, rule tx_option, rule tx_error,
        rule tx_and_then [OF tx_of_keeps], intro txk_intros, rule tx_if, rule tx_error)
      (cases "hrAction req"; auto intro!: tx_accept tx_error settle)
qed

lemma tx_block: "tx_valid exclusive (block_tx x y m) (\<lambda>_. exclusive)"
proof -
  have create: "tx_valid exclusive (CreateBlockRelation x y m) (\<lambda>_. exclusive_but x y)"
    unfolding CreateBlockRelation_def
    by (rule tx_frame, (intro io_intros keeps_tx_prims)+, rule tx_and_then [OF tx_weaken [OF tx_db_stmt, where Q' = "\<lambda>_. exclusive_but x y"]])
      (auto intro: block_stmt tx_error tx_return)
  have rest: "tx_valid (exclusive_but x y) (do {
       _ \<leftarrow> db_stmt (delete_relations (is_friend_row x y));
       cancel_requests qs [] }) (\<lambda>_. exclusive)" for qs
    by (rule tx_ignore_stmt, rule tx_pre [OF tx_of_keeps [OF cancel_txk]]) (auto intro: delete_stmt(2))
  show ?thesis
    unfolding block_tx_def
    by (rule tx_and_then [OF tx_of_keeps], intro txk_intros)+
      (rule tx_and_then [OF create], rule rest)
qed

lemma tx_remove:
  "tx_keeps exclusive (unfriend_tx x y)" "tx_keeps exclusive (unblock_tx x y)"
  unfolding unfriend_tx_def unblock_tx_def DeleteFriendRelation_def DeleteBlockRelation_def
  by (intro txk_intros txk_stmt delete_stmt; simp)+

section \<open>Handlers\<close>

abbreviation keeps_exclusive :: "'a io \<Rightarrow> bool" where
  "keeps_exclusive m \<equiv> preserves (on_stores (\<lambda>d _. exclusive d)) m"

lemma exclusive_seqs: "exclusive d \<Longrightarrow> exclusive (d\<lparr>rel_seq := a, event_seq := b\<rparr>)"
  by (simp add: exclusive_def rels_def)

text \<open>A transaction, and then only effects outside the tables.\<close>

lemma exclusive_handler:
  assumes "tx_valid exclusive tx (\<lambda>_. exclusive)" "keeps w_redis tx" "\<And>r. keeps w_db (rest r)"
  shows "keeps_exclusive (State_Monad.bind (transaction tx) rest)"
proof (rule preserves_bind)
  show "keeps_exclusive (transaction tx)"
    by (rule preserves_transaction [where I = "\<lambda>d _. exclusive d"]) (auto intro: assms exclusive_seqs)
  show "keeps_exclusive (rest r)" for r
    using keeps_preserves [OF assms(3), of exclusive r] .
qed

lemma tx_redis:
  "keeps w_redis (handle_request_tx req rm)" "keeps w_redis (block_tx x y m)"
proof -
  have stmt: "stmt_keeps (\<lambda>_. True) f" for f :: "database \<Rightarrow> 'z res \<times> database" by (simp add: stmt_keeps_def)
  have on: "on_rels (\<lambda>_. True)" by (simp add: on_rels_def)
  have "tx_keeps (\<lambda>_. True) (accept_request req rm q)" for q
    unfolding accept_request_def CreateFriendRelation_def by (intro txk_intros txk_stmt stmt on)
  then have "tx_keeps (\<lambda>_. True) (handle_request_tx req rm)"
    unfolding handle_request_tx_def
    by (intro txk_intros) (cases "hrAction req"; auto intro!: txk_intros on)
  then show "keeps w_redis (handle_request_tx req rm)" by (simp add: tx_keeps_def)
  have "tx_keeps (\<lambda>_. True) (block_tx x y m)"
    unfolding block_tx_def CreateBlockRelation_def by (intro txk_intros txk_ignore txk_stmt stmt on)
  then show "keeps w_redis (block_tx x y m)" by (simp add: tx_keeps_def)
qed

lemma block_effects_keep: "keeps w_db (redis_cmd c)"
  by (intro io_intros)

lemma exclusive_handlers:
  "keeps_exclusive (HandleFriendRequest s hr)" "keeps_exclusive (BlockUser s x y m)"
  "keeps_exclusive (Unfriend x y)" "keeps_exclusive (UnblockUser x y)"
proof -
  have notify: "keeps w_db (notify_response hr q nt rs)" for q nt rs
    unfolding notify_response_def by (intro io_intros)
  show "keeps_exclusive (HandleFriendRequest s hr)"
    unfolding HandleFriendRequest_def Let_def
    by (intro exclusive_handler tx_handle tx_redis io_intros notify)
  show "keeps_exclusive (BlockUser s x y m)"
    unfolding BlockUser_def
    by (intro preserves_if preserves_return exclusive_handler tx_block tx_redis io_intros)
  show "keeps_exclusive (Unfriend x y)" "keeps_exclusive (UnblockUser x y)"
    unfolding Unfriend_def UnblockUser_def
    by (intro exclusive_handler tx_remove [THEN tx_of_keeps] tx_remove [unfolded tx_keeps_def, THEN conjunct2] io_intros)+
qed


lemma demo_block:
  "map rel_of (user_relations (w_db (snd (run_state (BlockUser demo 1 2 None) demo_friends)))) = [(1, 2, RelTypeBlock)]"
  by (simp add: demo_friends_def demo_asked_def demo_ask_def eval_all)


section \<open>Where the cache lies\<close>

text \<open>
  Agent 1 blocks 2; the cached block set is lost (evicted, or expired); agent 1 blocks 3, which
  writes a set holding 3 alone.
\<close>

definition blocked_two :: world where
  "blocked_two = (snd (run_state (BlockUser demo 1 2 None) demo_world))\<lparr>w_redis := Map.empty\<rparr>"

definition blocked_three :: world where
  "blocked_three = snd (run_state (BlockUser demo 1 3 None) blocked_two)"

text \<open>Then 2 asks 1 for a friendship, and 1 asks 2.\<close>

definition asked_by_blocked :: world where
  "asked_by_blocked = snd (run_state (SendFriendRequest demo (demo_ask 2 1)) blocked_three)"

definition befriended :: world where
  "befriended = snd (run_state (SendFriendRequest demo (demo_ask 1 2)) asked_by_blocked)"

lemmas eval_blocked = befriended_def asked_by_blocked_def blocked_three_def blocked_two_def demo_ask_def eval_all

lemma reach_request: "pm_reach s w \<Longrightarrow> exec_st (serve s q) w = w' \<Longrightarrow> pm_reach s w'"
  by (blast intro: pm_reach.step pm_step.handle_request)

lemma blocked_reachable: "pm_reach demo blocked_three" "pm_reach demo befriended"
proof -
  have start: "pm_reach demo demo_world"
    by (rule pm_reach.start) (simp add: fresh_start_def eval_demo)
  let ?b = "snd (run_state (BlockUser demo 1 2 None) demo_world)"
  have e: "exec_st (serve demo (DoBlockUser 1 2 None)) demo_world = ?b"
    "exec_st (serve demo (DoBlockUser 1 3 None)) blocked_two = blocked_three"
    "exec_st (serve demo (DoSendFriendRequest (demo_ask 2 1))) blocked_three = asked_by_blocked"
    "exec_st (serve demo (DoSendFriendRequest (demo_ask 1 2))) asked_by_blocked = befriended"
    by (simp_all add: exec_st_def drop_reply_def blocked_three_def asked_by_blocked_def befriended_def split_beta)
  have "pm_step demo ?b blocked_two"
    unfolding blocked_two_def by (rule pm_step.drop_keys) simp
  then have "pm_reach demo blocked_two" using pm_reach.step [OF reach_request [OF start e(1)]] by simp
  from reach_request [OF this e(2)] show three: "pm_reach demo blocked_three" .
  from reach_request [OF reach_request [OF three e(3)] e(4)] show "pm_reach demo befriended" .
qed


text \<open>C36: two agents can become friends while one has blocked the other. \<open>SendFriendRequest\<close> accepts
  the peer's pending request on the word of the cached block set and does not look at the tables
  inside its transaction, as \<open>HandleFriendRequest\<close> does.\<close>

theorem friends_despite_block:
  "\<exists>w. pm_reach demo w \<and> (1, 2, RelTypeFriend) \<in> rels (w_db w) \<and> (1, 2, RelTypeBlock) \<in> rels (w_db w)"
proof (intro exI conjI)
  show "pm_reach demo befriended" by (rule blocked_reachable)
  have "map rel_of (user_relations (w_db befriended)) =
      [(1, 2, RelTypeBlock), (1, 3, RelTypeBlock), (1, 2, RelTypeFriend), (2, 1, RelTypeFriend)]"
    by (simp add: eval_blocked)
  from arg_cong [OF this, of set]
  show "(1, 2, RelTypeFriend) \<in> rels (w_db befriended)" "(1, 2, RelTypeBlock) \<in> rels (w_db befriended)"
    by (simp_all add: rels_def)
qed

end
