(* ===== verification/Answers.thy ===== *)
theory Answers
  imports Exclusion
begin

text \<open>
  Who may answer a friend request and what an answer does: \<open>HandleFriendRequest\<close> reports success only to
  the agent whose move it is, for a request that was pending, and then exactly that request has its
  final status.
\<close>

section \<open>The result of a transaction\<close>

lemma transaction_result:
  assumes body: "tx_valid P m Q" and pre: "P (w_db w)" and run: "run_state (transaction m) w = (Inr x, w')"
  shows "Q x (w_db w')"
proof -
  obtain oc e n where st: "run_state io_step w = (oc, w\<lparr>w_env := e, w_now := n\<rparr>)"
    using run_io_step by blast
  let ?w1 = "w\<lparr>w_env := e, w_now := n, w_in_tx := True, w_tx_failed := False\<rparr>"
  obtain r w2 where r: "run_state m ?w1 = (r, w2)" by force
  have "tx_state P ?w1" using pre by (simp add: tx_state_def)
  from validD [OF body [unfolded tx_valid_def] this r]
  have post: "\<And>x. r = Inr x \<Longrightarrow> w_tx_failed w2 \<or> Q x (w_db w2)" by (simp add: tx_state_def)
  obtain oc' e' n' where st': "run_state io_step (w2\<lparr>w_in_tx := False, w_tx_failed := False, w_locks := []\<rparr>) =
      (oc', w2\<lparr>w_in_tx := False, w_tx_failed := False, w_locks := [], w_env := e', w_now := n'\<rparr>)"
    using run_io_step by blast
  show ?thesis
    using run st r st' post
    by (cases oc; cases r; cases "w_tx_failed w2"; cases oc') (auto simp: transaction_def)
qed

section \<open>What an answer needs and does\<close>

text \<open>The rules of an answer: who may give it, and that an acceptance needs a pair without blocks.\<close>

definition may_answer :: "HandleFriendRequestReq \<Rightarrow> FriendRequest \<Rightarrow> database \<Rightarrow> bool" where
  "may_answer req q d \<longleftrightarrow> fStatus q = RequestStatusPending \<and>
     (case hrAction req of
        ACCEPT \<Rightarrow> fToUID q = hrAgentId req \<and> (fFromUID q, fToUID q, RelTypeBlock) \<notin> rels d \<and>
          (fToUID q, fFromUID q, RelTypeBlock) \<notin> rels d
      | REJECT \<Rightarrow> fToUID q = hrAgentId req
      | CANCEL \<Rightarrow> fFromUID q = hrAgentId req
      | OTHER_ACTION _ \<Rightarrow> False)"

definition answer_status :: "action \<Rightarrow> int" where
  "answer_status a = (case a of ACCEPT \<Rightarrow> RequestStatusAccepted | REJECT \<Rightarrow> RequestStatusRejected
     | _ \<Rightarrow> RequestStatusCancelled)"

text \<open>The requests after an answer: the one that was pending under this ID has the new status.\<close>

definition answered :: "int \<Rightarrow> int \<Rightarrow> database \<Rightarrow> database \<Rightarrow> bool" where
  "answered requestID status d d' \<longleftrightarrow> (\<exists>t. friend_requests d' =
     update_where (\<lambda>r. fID r = requestID \<and> fStatus r = RequestStatusPending)
       (\<lambda>r. r\<lparr>fStatus := status, fUpdatedAt := t\<rparr>) (friend_requests d))"

definition befriended_by :: "action \<Rightarrow> FriendRequest \<Rightarrow> database \<Rightarrow> database \<Rightarrow> bool" where
  "befriended_by a q d d' \<longleftrightarrow>
     (if a = ACCEPT then (fFromUID q, fToUID q, RelTypeFriend) \<in> rels d' \<and> rels d \<subseteq> rels d' \<and>
        rels d' \<subseteq> rels d \<union> {(fFromUID q, fToUID q, RelTypeFriend), (fToUID q, fFromUID q, RelTypeFriend)}
      else rels d' = rels d)"

lemma status_result:
  "set_request_status P st t d = (Inr n, d') \<Longrightarrow>
   friend_requests d' = update_where P (\<lambda>q. q\<lparr>fStatus := st, fUpdatedAt := t\<rparr>) (friend_requests d) \<and> rels d' = rels d"
  by (auto simp: set_request_status_def rels_def)

lemma friend_pair_result:
  "insert_friend_pair x y a b t d = (Inr u, d') \<Longrightarrow> friend_requests d' = friend_requests d \<and>
   rels d' = rels d \<union> {(x, y, RelTypeFriend), (y, x, RelTypeFriend)}"
  by (auto simp: insert_friend_pair_def rels_def rel_of_def split: if_splits)

text \<open>In the following \<open>A\<close> is what has been established before.\<close>

lemma tx_settle:
  "tx_valid (\<lambda>d. d = d0 \<and> A) (settle_request r st) (\<lambda>_ d. A \<and> answered r st d0 d \<and> rels d = rels d0)"
proof -
  have "tx_valid (\<lambda>d. d = d0 \<and> A) (UpdateRequestStatusIfPending r st) (\<lambda>_ d. A \<and> answered r st d0 d \<and> rels d = rels d0)"
    unfolding UpdateRequestStatusIfPending_def
  proof (rule tx_frame, (intro io_intros keeps_tx_prims)+, rule tx_and_then [OF tx_weaken [OF tx_db_stmt]])
    fix now n d
    assume "\<exists>d'. (d' = d0 \<and> A) \<and> set_request_status (\<lambda>q. fID q = r \<and> fStatus q = RequestStatusPending) st now d' = (Inr n, d)"
    then show "A \<and> answered r st d0 d \<and> rels d = rels d0"
      using status_result [of _ st now d0 n d] unfolding answered_def by blast
  qed (auto intro: tx_return)
  then show ?thesis
    unfolding settle_request_def by (rule tx_and_then) (auto intro: tx_error tx_return)
qed

lemma tx_befriends:
  "tx_valid (\<lambda>d. (A \<and> answered r st d0 d \<and> rels d = rels d0) \<and> f = ((fFromUID q, fToUID q, RelTypeFriend) \<in> rels d))
     (if f then ret (Inr ()) else CreateFriendRelation (fFromUID q) (fToUID q) a b)
     (\<lambda>_ d. A \<and> answered r st d0 d \<and> befriended_by ACCEPT q d0 d)"
proof (rule tx_if)
  let ?P = "\<lambda>d. (A \<and> answered r st d0 d \<and> rels d = rels d0) \<and> f = ((fFromUID q, fToUID q, RelTypeFriend) \<in> rels d)"
  show "tx_valid ?P (ret (Inr ())) (\<lambda>_ d. A \<and> answered r st d0 d \<and> befriended_by ACCEPT q d0 d)" if f
    using that by (intro tx_return) (auto simp: befriended_by_def)
  show "tx_valid ?P (CreateFriendRelation (fFromUID q) (fToUID q) a b)
      (\<lambda>_ d. A \<and> answered r st d0 d \<and> befriended_by ACCEPT q d0 d)"
    unfolding CreateFriendRelation_def
  proof (rule tx_frame, (intro io_intros keeps_tx_prims)+, rule tx_weaken [OF tx_db_stmt])
    fix now u d
    assume "\<exists>d'. ?P d' \<and> insert_friend_pair (fFromUID q) (fToUID q) a b now d' = (Inr u, d)"
    then obtain d' where d': "?P d'" "insert_friend_pair (fFromUID q) (fToUID q) a b now d' = (Inr u, d)" by blast
    then show "A \<and> answered r st d0 d \<and> befriended_by ACCEPT q d0 d"
      using friend_pair_result [OF d'(2)] unfolding answered_def befriended_by_def by auto
  qed
qed

lemma tx_accept_settles:
  assumes "fStatus q = RequestStatusPending" "hrAction req = ACCEPT"
  shows "tx_valid (\<lambda>d. d = d0 \<and> A) (accept_request req rm q) (\<lambda>(q', _) d. (A \<and> may_answer req q d0) \<and> q' = q \<and>
     answered (hrRequestId req) RequestStatusAccepted d0 d \<and> befriended_by ACCEPT q d0 d)"
proof -
  let ?B = "A \<and> may_answer req q d0" and ?x = "fFromUID q" and ?y = "fToUID q"
  have friend: "tx_valid (\<lambda>d. ?B \<and> answered r st d0 d \<and> rels d = rels d0) (IsFriend ?x ?y)
      (\<lambda>f d. (?B \<and> answered r st d0 d \<and> rels d = rels d0) \<and> f = ((?x, ?y, RelTypeFriend) \<in> rels d))" for r st
    unfolding IsFriend_def count_mem by (rule tx_db_query)
  show ?thesis
    unfolding accept_request_def
    apply (rule tx_if, rule tx_error)
    apply (rule tx_and_then [OF tx_is_blocked])
    apply (rule tx_and_then [OF tx_is_blocked])
    apply (rule tx_if, rule tx_error)
    apply (rule tx_pre [where P = "\<lambda>d. d = d0 \<and> ?B"])
     apply (rule tx_and_then [OF tx_settle])
     apply (rule tx_and_then [OF friend])
     apply (rule tx_and_then [OF tx_befriends])
     apply (rule tx_return, simp)
    using assms by (auto simp: may_answer_def)
qed

lemma tx_handle_settles:
  "tx_valid (\<lambda>d. d = d0) (handle_request_tx req rm) (\<lambda>(q, _) d. (q \<in> set (friend_requests d0) \<and> fID q = hrRequestId req) \<and>
     may_answer req q d0 \<and> answered (hrRequestId req) (answer_status (hrAction req)) d0 d \<and> befriended_by (hrAction req) q d0 d)"
proof -
  let ?A = "\<lambda>q. q \<in> set (friend_requests d0) \<and> fID q = hrRequestId req"
  have row: "tx_valid (\<lambda>d. d = d0) (GetFriendRequestForUpdate (hrRequestId req))
      (\<lambda>x d. d = d0 \<and> (case x of None \<Rightarrow> True | Some q \<Rightarrow> ?A q))"
    unfolding GetFriendRequestForUpdate_def
    by (rule tx_weaken [OF tx_db_query]) (auto split: option.splits dest: first_by_Some)
  have settle: "tx_valid (\<lambda>d. d = d0 \<and> ?A q) (and_then (settle_request r st) (\<lambda>_. ret (Inr (q, nt))))
      (\<lambda>(q', _) d. ?A q \<and> q' = q \<and> answered r st d0 d \<and> rels d = rels d0)" for r st q and nt :: string
    by (rule tx_and_then [OF tx_settle]) (auto intro: tx_return)
  have lock: "tx_valid P (LockRelationPair a b) (\<lambda>_. P)" for P a b
    by (rule tx_of_keeps) (intro txk_intros)
  have accept: "tx_valid (\<lambda>d. d = d0 \<and> ?A q) (accept_request req rm q) (\<lambda>(q, _) d. ?A q \<and>
     may_answer req q d0 \<and> answered (hrRequestId req) (answer_status (hrAction req)) d0 d \<and> befriended_by (hrAction req) q d0 d)"
    if "fStatus q = RequestStatusPending" "hrAction req = ACCEPT" for q
    by (rule tx_weaken [OF tx_accept_settles [OF that]]) (auto simp: that answer_status_def)
  show ?thesis
    unfolding handle_request_tx_def
    apply (rule tx_and_then [OF row])
    apply (rule tx_option, rule tx_error)
    apply (rule tx_and_then [OF lock])
    apply (rule tx_if, rule tx_error)
    apply (simp split del: if_split)
    apply (cases "hrAction req"; simp split del: if_split)
       apply (rule accept [simplified]; simp)
      apply (rule tx_if, rule tx_error, rule tx_weaken [OF settle];
        auto simp: may_answer_def answer_status_def befriended_by_def)
     apply (rule tx_if, rule tx_error, rule tx_weaken [OF settle];
        auto simp: may_answer_def answer_status_def befriended_by_def)
    apply (rule tx_error)
    done
qed

section \<open>The handler\<close>

lemma handle_error_not_success: "handle_error e \<noteq> success"
  by (simp add: handle_error_def)

text \<open>C24: whenever \<open>HandleFriendRequest\<close> reports success, whatever failed on the way, the request existed and
  was pending; it was addressed to the agent who accepted or rejected it, or sent by the agent who cancelled it,
  and an accepted one had no block between the two agents. Exactly this request now has the status of the answer;
  acceptance adds the friendship and no other relation, the other answers change no relation.\<close>

theorem handle_request_authorised:
  assumes "run_state (HandleFriendRequest s req) w = (success, w')"
  shows "\<exists>q \<in> set (friend_requests (w_db w)). fID q = hrRequestId req \<and> may_answer req q (w_db w) \<and>
    answered (hrRequestId req) (answer_status (hrAction req)) (w_db w) (w_db w') \<and>
    befriended_by (hrAction req) q (w_db w) (w_db w')"
proof -
  obtain r w1 where tx: "run_state (transaction (handle_request_tx req (truncated s (hrRemark req) 100))) w = (r, w1)"
    by force
  show ?thesis
  proof (cases r)
    case (Inl e)
    then show ?thesis using assms tx handle_error_not_success by (simp add: HandleFriendRequest_def Let_def)
  next
    case (Inr x)
    obtain q nt where x: "x = (q, nt)" by force
    have notify: "keeps w_db (notify_response req q nt rs)" for nt rs
      unfolding notify_response_def by (intro io_intros)
    let ?rest = "do {
             _ \<leftarrow> deletePendingFriendRequestNotifications [(fToUID q, fID q)];
             _ \<leftarrow> InvalidateFriendCache (fFromUID q);
             _ \<leftarrow> InvalidateFriendCache (fToUID q);
             _ \<leftarrow> (if nt = ''friend_accepted'' then do {
                     _ \<leftarrow> PublishFriendAdded (fFromUID q) [];
                     _ \<leftarrow> PublishRebuild (fFromUID q) ''friend_added'';
                     _ \<leftarrow> PublishRebuild (fToUID q) ''friend_added'';
                     notify_response req q nt (truncated s (hrReason req) 200) }
                   else if nt = ''friend_rejected'' then notify_response req q nt (truncated s (hrReason req) 200)
                   else ret ());
             ret success }"
    have run: "run_state ?rest w1 = (success, w')"
      using assms tx Inr x by (simp add: HandleFriendRequest_def Let_def)
    have "keeps w_db ?rest" by (intro io_intros notify)
    from keepsD [OF this run] have "w_db w' = w_db w1" .
    then show ?thesis
      using transaction_result [OF tx_handle_settles refl tx [unfolded Inr x]] by auto
  qed
qed

text \<open>Agent 2 accepts the request of agent 1.\<close>

definition demo_answer :: HandleFriendRequestReq where
  "demo_answer = \<lparr>hrRequestId = 70, hrAgentId = 2, hrAction = ACCEPT, hrRemark = None, hrReason = None\<rparr>"

lemmas eval_answer = HandleFriendRequest_def handle_request_tx_def GetFriendRequestForUpdate_def accept_request_def
  settle_request_def notify_response_def

lemma demo_answer_ok: "fst (run_state (HandleFriendRequest demo demo_answer) demo_asked) = success"
  by (simp add: demo_answer_def eval_answer demo_asked_def demo_ask_def eval_all)

theorem handle_request_authorised_witness:
  "\<exists>w'. run_state (HandleFriendRequest demo demo_answer) demo_asked = (success, w') \<and>
     (\<exists>q \<in> set (friend_requests (w_db demo_asked)). fID q = 70 \<and> may_answer demo_answer q (w_db demo_asked) \<and>
        answered 70 RequestStatusAccepted (w_db demo_asked) (w_db w') \<and>
        (fFromUID q, fToUID q, RelTypeFriend) \<in> rels (w_db w'))"
proof -
  obtain w' where run: "run_state (HandleFriendRequest demo demo_answer) demo_asked = (success, w')"
    using demo_answer_ok by (metis prod.collapse)
  from handle_request_authorised [OF run] run show ?thesis
    by (auto simp: demo_answer_def answer_status_def befriended_by_def)
qed

end
