(* ===== verification/JournalTypes.thy ===== *)
theory JournalTypes
  imports GoText "HOL-Library.Word"
begin

text \<open>
  The data of the dispatcher of the command-line client (\<open>cli/internal/dispatch\<close>): bindings, jobs with the evidence
  of commissions, the state of the journal, and the checks that guard them (\<open>types.go\<close>, \<open>commission_fulfillment.go\<close>,
  \<open>commission_clarification.go\<close>, \<open>commission_readiness.go\<close>, \<open>commission_delivery.go\<close>, \<open>commission_execution.go\<close>). What
  \<open>encoding/json\<close> makes of a text, SHA-256 and the Unicode tables are fields of the record \<open>json_codec\<close>. Diagnostics of
  commissions are left out.
\<close>

section \<open>Data\<close>

record Binding =
  bdHome :: string
  bdScope :: string
  bdRevision :: string
  bdAgentID :: string
  bdEvents :: "string list"

record Message =
  mgID :: string
  mgConversation :: string
  mgSender :: string
  mgReceiver :: string
  mgContent :: string
  mgCreatedAt :: int

text \<open>A slice that may be \<open>nil\<close> is an option.\<close>

record CommissionIntakeDecision =
  idVersion :: int
  idRequestID :: string
  idOrderID :: string
  idOrderVersion :: int
  idOutcome :: string
  idSummary :: string
  idInspectedFiles :: "string list option"

record CommissionReadiness =
  rdResult :: CommissionIntakeDecision
  rdInputFingerprint :: string

record CommissionArtifact =
  caLogicalPath :: string
  caRelativePath :: string

record CommissionFulfillmentDecision =
  fdVersion :: int
  fdRequestID :: string
  fdOrderID :: string
  fdOrderVersion :: int
  fdOutcome :: string
  fdSummary :: string
  fdSelfCheck :: string
  fdArtifacts :: "CommissionArtifact list option"

record CommissionVerifiedArtifact =
  vaLogicalPath :: string
  vaRelativePath :: string
  vaSHA256 :: string
  vaByteSize :: int

record CommissionFulfillmentResult =
  frDecision :: CommissionFulfillmentDecision
  frOutputDirectory :: string
  frArtifacts :: "CommissionVerifiedArtifact list option"

record CommissionFulfillmentJob =
  fjVersion :: int
  fjOrderID :: string
  fjOrderVersion :: int
  fjIntakeRequestID :: string
  fjIntakeResult :: CommissionIntakeDecision
  fjInputFingerprint :: string

record CommissionClarificationJob =
  cjVersion :: int
  cjOrderID :: string
  cjOrderVersion :: int
  cjBuyerID :: string
  cjRequestID :: string
  cjRound :: int

record CommissionDeliveryRetry =
  drAttempts :: int
  drNextAttemptAt :: int
  drLastCode :: string
  drBuyerID :: string
  drSellerID :: string
  drSnapshotID :: string

record CommissionExecutionContext =
  ecOrderID :: string
  ecOrderVersion :: int
  ecExpectedRevision :: int
  ecStage :: string
  ecReported :: string
  ecMayResolve :: bool
  ecAcknowledgedRevision :: int

record CommissionExecutionReport =
  erOrderID :: string
  erExpectedVersion :: int
  erExpectedExecutionRevision :: int
  erJobID :: string
  erStage :: string
  erStatus :: string
  erCode :: string

record Job =
  jbID :: string
  jbKind :: string
  jbScope :: string
  jbRevision :: string
  jbMessage :: "Message option"
  jbData :: string
  jbStatus :: string
  jbCode :: string
  jbCreated :: int
  jbSessionID :: string
  jbReplyID :: string
  jbResult :: "CommissionIntakeDecision option"
  jbReadiness :: "CommissionReadiness option"
  jbFulfillment :: "CommissionFulfillmentResult option"
  jbCheckpoint :: "CommissionFulfillmentResult option"
  jbDelivery :: "CommissionDeliveryRetry option"
  jbDirectory :: string
  jbExecution :: "CommissionExecutionContext option"

text \<open>\<open>jsSequence\<close> is an unsigned 64-bit counter.\<close>

record journalState =
  jsVersion :: int
  jsScope :: string
  jsRevision :: string
  jsAgentID :: string
  jsSequence :: "64 word"
  jsJobs :: "Job list"
  jsSessions :: "string \<rightharpoonup> string"

record commissionNotificationKey =
  nkOrderID :: string
  nkOrderVersion :: string
  nkRecipientRole :: string

text \<open>
  Texts and values. \<open>jcFields\<close> is decoding into a map of raw members, without a value for \<open>null\<close>, \<open>jcText\<close> and \<open>jcTexts\<close> into a string
  and a list of strings, \<open>jcOrderID\<close> into a structure with an order identifier only; the others decode and encode the structures named in the code. \<open>jcTokens\<close> are the
  tokens of a \<open>json.Decoder\<close>, up to the first error, and \<open>jcValid\<close> is \<open>json.Valid\<close>.
\<close>

datatype token = Delim char | Name string | Atom

record json_codec =
  jcDigest :: "string list \<Rightarrow> string"
  jcUpper :: "string \<Rightarrow> string"
  jcControl :: "nat \<Rightarrow> bool"
  jcTokens :: "string \<Rightarrow> token list"
  jcValid :: "string \<Rightarrow> bool"
  jcFields :: "string \<Rightarrow> (string \<times> string) list option"
  jcText :: "string \<Rightarrow> string option"
  jcTexts :: "string \<Rightarrow> string list option"
  jcMessages :: "string \<Rightarrow> Message list option"
  jcFulfillment :: "string \<Rightarrow> CommissionFulfillmentJob option"
  jcClarification :: "string \<Rightarrow> CommissionClarificationJob option"
  jcOrderID :: "string \<Rightarrow> string option"
  jcRecovery :: "string \<Rightarrow> (string \<times> string \<times> int \<times> string) option"
  jcState :: "string \<Rightarrow> journalState option"
  jcOfTexts :: "string list \<Rightarrow> string"
  jcOfFields :: "(string \<times> string) list \<Rightarrow> string"
  jcOfFulfillment :: "CommissionFulfillmentJob \<Rightarrow> string"
  jcOfClarification :: "CommissionClarificationJob \<Rightarrow> string"
  jcOfRecovery :: "string \<times> string \<times> int \<times> string \<Rightarrow> string"
  jcOfReport :: "CommissionExecutionReport \<Rightarrow> string"
  jcOfState :: "journalState \<Rightarrow> string"
  jcIndented :: "journalState \<Rightarrow> string"

section \<open>Strict objects\<close>

text \<open>
  \<open>checkJSONContainer\<close> on the tokens behind the opening bracket, with the tokens behind the closing one as its result. Each
  call takes a token or more, so that a depth of the number of tokens is enough.
\<close>

fun checkJSONContainer :: "json_codec \<Rightarrow> nat \<Rightarrow> char \<Rightarrow> string list \<Rightarrow> token list \<Rightarrow> token list option" where
  "checkJSONContainer jc 0 brace keys toks = None"
| "checkJSONContainer jc (Suc n) brace keys toks =
     (case toks of
        [] \<Rightarrow> None
      | t # rest \<Rightarrow>
          if t = Delim (CHR ''}'') \<or> t = Delim (CHR '']'') then
            (if t = Delim (if brace = CHR ''['' then CHR '']'' else CHR ''}'') then Some rest else None)
          else
            (case (if brace = CHR ''{'' then
                     (case t of
                        Name name \<Rightarrow> if jcUpper jc name \<in> set keys then None else Some (jcUpper jc name # keys, rest)
                      | _ \<Rightarrow> None)
                   else Some (keys, toks)) of
               None \<Rightarrow> None
             | Some (keys', []) \<Rightarrow> None
             | Some (keys', v # toks') \<Rightarrow>
                 (case v of
                    Delim d \<Rightarrow>
                      if d \<noteq> CHR ''{'' \<and> d \<noteq> CHR ''['' then None
                      else (case checkJSONContainer jc n d [] toks' of
                          None \<Rightarrow> None
                        | Some after \<Rightarrow> checkJSONContainer jc n brace keys' after)
                  | _ \<Rightarrow> checkJSONContainer jc n brace keys' toks')))"

text \<open>\<open>decodeStrictObject\<close>, with the final decoding as an argument.\<close>

definition decodeStrictObject :: "json_codec \<Rightarrow> string \<Rightarrow> (string \<Rightarrow> 'a option) \<Rightarrow> 'a option" where
  "decodeStrictObject jc raw decode =
     (if \<not> ValidString raw then None
      else (case jcTokens jc raw of
          Delim c # toks \<Rightarrow>
            if c = CHR ''{'' \<and> checkJSONContainer jc (Suc (length toks)) (CHR ''{'') [] toks = Some [] then decode raw else None
        | _ \<Rightarrow> None))"

section \<open>Identifiers\<close>

definition journalID :: "json_codec \<Rightarrow> string list \<Rightarrow> string" where
  "journalID jc parts = jcDigest jc parts"

definition positiveNotificationInteger :: "json_codec \<Rightarrow> string \<Rightarrow> string option" where
  "positiveNotificationInteger jc raw =
     (case (if take 1 (TrimSpace raw) = ''\"'' then jcText jc raw else Some (TrimSpace raw)) of
        None \<Rightarrow> None
      | Some t \<Rightarrow>
          if \<not> list_all (\<lambda>c. c \<in> set ''0123456789'') t then None
          else (case ParseInt64 t of None \<Rightarrow> None | Some n \<Rightarrow> if n \<le> 0 then None else Some (itoa n)))"

definition member :: "string \<Rightarrow> (string \<times> string) list \<Rightarrow> string" where
  "member key fs = (case map_of fs key of None \<Rightarrow> [] | Some v \<Rightarrow> v)"

definition parseCommissionNotification :: "json_codec \<Rightarrow> string \<Rightarrow> string \<Rightarrow> string + commissionNotificationKey" where
  "parseCommissionNotification jc raw agentID =
     (case decodeStrictObject jc raw (jcFields jc) of
        None \<Rightarrow> Inl ''invalid_commission_notification''
      | Some notification \<Rightarrow>
          if jcText jc (member ''source_type'' notification) \<noteq> Some ''commission_order'' then Inl ''invalid_commission_notification_source''
          else if positiveNotificationInteger jc (member ''notification_id'' notification) = None then Inl ''invalid_commission_notification_id''
          else (case jcFields jc (member ''payload'' notification) of
              None \<Rightarrow> Inl ''invalid_commission_notification_payload''
            | Some payload \<Rightarrow>
                if positiveNotificationInteger jc (member ''recipient_agent_id'' payload) \<noteq> Some agentID
                then Inl ''commission_notification_identity_mismatch''
                else (case positiveNotificationInteger jc (member ''order_id'' payload) of
                    None \<Rightarrow> Inl ''invalid_commission_order_id''
                  | Some orderID \<Rightarrow> (case positiveNotificationInteger jc (member ''order_version'' payload) of
                      None \<Rightarrow> Inl ''invalid_commission_order_version''
                    | Some orderVersion \<Rightarrow>
                        if positiveNotificationInteger jc (member ''snapshot_id'' payload) = None then Inl ''invalid_commission_snapshot_id''
                        else if positiveNotificationInteger jc (member ''occurred_at'' payload) = None then Inl ''invalid_commission_occurred_at''
                        else (case jcText jc (member ''recipient_role'' payload) of
                            None \<Rightarrow> Inl ''invalid_commission_recipient_role''
                          | Some recipientRole \<Rightarrow>
                              if recipientRole \<noteq> ''buyer'' \<and> recipientRole \<noteq> ''seller'' then Inl ''invalid_commission_recipient_role''
                              else (case jcText jc (member ''to_state'' payload) of
                                  None \<Rightarrow> Inl ''invalid_commission_order_state''
                                | Some state \<Rightarrow>
                                    if TrimSpace state = [] then Inl ''invalid_commission_order_state''
                                    else Inr \<lparr>nkOrderID = orderID, nkOrderVersion = orderVersion,
                                      nkRecipientRole = recipientRole\<rparr>))))))"

definition parseCommissionIntakeData :: "json_codec \<Rightarrow> string \<Rightarrow> string \<Rightarrow> string + commissionNotificationKey" where
  "parseCommissionIntakeData jc raw agentID =
     (case jcRecovery jc raw of
        Some (src, orderID, version, role) \<Rightarrow>
          if src = ''operator_recovery'' \<or> src = ''notification_migration'' then
            (case ParseInt64 orderID of
               None \<Rightarrow> Inl ''invalid_commission_recovery''
             | Some n \<Rightarrow>
                 if n \<le> 0 \<or> version \<le> 0 \<or> role \<noteq> ''seller'' then Inl ''invalid_commission_recovery''
                 else Inr \<lparr>nkOrderID = orderID, nkOrderVersion = itoa version, nkRecipientRole = ''seller''\<rparr>)
          else parseCommissionNotification jc raw agentID
      | None \<Rightarrow> parseCommissionNotification jc raw agentID)"

definition commissionJournalID :: "json_codec \<Rightarrow> Binding \<Rightarrow> commissionNotificationKey \<Rightarrow> string" where
  "commissionJournalID jc b key =
     journalID jc [bdScope b, bdRevision b, ''commission_order'', nkOrderID key, nkOrderVersion key, nkRecipientRole key]"

definition commissionFulfillmentID :: "json_codec \<Rightarrow> Binding \<Rightarrow> string \<Rightarrow> string" where
  "commissionFulfillmentID jc b orderID = journalID jc [bdScope b, bdRevision b, ''commission_fulfillment'', orderID]"

definition commissionClarificationID :: "json_codec \<Rightarrow> Binding \<Rightarrow> string \<Rightarrow> string \<Rightarrow> string" where
  "commissionClarificationID jc b orderID requestID =
     journalID jc [bdScope b, bdRevision b, ''commission_clarification'', orderID, requestID]"

section \<open>Checks of decisions\<close>

definition has_control :: "json_codec \<Rightarrow> string \<Rightarrow> bool" where
  "has_control jc t \<longleftrightarrow> (\<exists>(r, _) \<in> set (runes t). jcControl jc r)"

fun valid_files :: "json_codec \<Rightarrow> string list \<Rightarrow> string list \<Rightarrow> bool" where
  "valid_files jc seen [] = True"
| "valid_files jc seen (file # rest) =
     (if \<not> ValidString file \<or> TrimSpace file = [] \<or> length file > 1024 \<or> has_control jc file \<or> file \<in> set seen then False
      else valid_files jc (file # seen) rest)"

text \<open>\<open>None\<close> when the decision is valid, else the error.\<close>

definition validateCommissionIntakeDecision ::
  "json_codec \<Rightarrow> CommissionIntakeDecision \<Rightarrow> string \<Rightarrow> string \<Rightarrow> int \<Rightarrow> string option" where
  "validateCommissionIntakeDecision jc result requestID orderID orderVersion =
     (if TrimSpace requestID = [] \<or> idVersion result \<noteq> 1 \<or> idRequestID result \<noteq> requestID \<or> idOrderID result \<noteq> orderID \<or>
         orderVersion \<le> 0 \<or> idOrderVersion result \<noteq> orderVersion then Some ''commission_result_identity_mismatch''
      else if positiveNotificationInteger jc orderID = None then Some ''invalid_commission_result_order_id''
      else if idOutcome result \<notin> {''ready'', ''needs_input'', ''needs_user'', ''failed''} then Some ''invalid_commission_result_outcome''
      else if \<not> ValidString (idSummary result) \<or> TrimSpace (idSummary result) = [] \<or> length (idSummary result) > 2000
        then Some ''invalid_commission_result_summary''
      else (case idInspectedFiles result of
          None \<Rightarrow> Some ''invalid_commission_result_files''
        | Some files \<Rightarrow>
            if length files > 128 \<or> \<not> valid_files jc [] files then Some ''invalid_commission_result_files'' else None))"

definition commissionResultMatchesNotification :: "CommissionIntakeDecision \<Rightarrow> commissionNotificationKey \<Rightarrow> bool" where
  "commissionResultMatchesNotification result key =
     (case ParseInt64 (nkOrderVersion key) of
        None \<Rightarrow> False
      | Some version \<Rightarrow> idOrderID result = nkOrderID key \<and> idOrderVersion result \<ge> version)"

definition commissionResultStatus :: "string \<Rightarrow> string" where
  "commissionResultStatus outcome =
     (if outcome = ''ready'' then ''completed''
      else if outcome = ''needs_input'' \<or> outcome = ''needs_user'' then ''needs_user''
      else ''failed'')"

definition lower_hex :: "char \<Rightarrow> bool" where
  "lower_hex c \<longleftrightarrow> c \<in> set ''0123456789abcdef''"

definition any_hex :: "char \<Rightarrow> bool" where
  "any_hex c \<longleftrightarrow> lower_hex c \<or> c \<in> set ''ABCDEF''"

text \<open>The pattern \<open>[a-f0-9]{64}\<close>; a fingerprint is the lower-case encoding of 32 bytes, which is the same.\<close>

definition executionReceiptPattern :: "string \<Rightarrow> bool" where
  "executionReceiptPattern t \<longleftrightarrow> length t = 64 \<and> list_all lower_hex t"

definition validCommissionInputFingerprint :: "string \<Rightarrow> bool" where
  "validCommissionInputFingerprint v \<longleftrightarrow> length v = 64 \<and> list_all any_hex v \<and> list_all lower_hex v"

definition validCommissionReadiness :: "json_codec \<Rightarrow> CommissionReadiness \<Rightarrow> bool" where
  "validCommissionReadiness jc v \<longleftrightarrow>
     (let result = rdResult v
      in idOutcome result = ''ready'' \<and> validCommissionInputFingerprint (rdInputFingerprint v) \<and>
         validateCommissionIntakeDecision jc result (idRequestID result) (idOrderID result) (idOrderVersion result) = None)"

definition quoted :: "string \<Rightarrow> string" where
  "quoted t = ''\"'' @ t @ ''\"''"

definition validCommissionClarification :: "json_codec \<Rightarrow> CommissionClarificationJob \<Rightarrow> string \<Rightarrow> bool" where
  "validCommissionClarification jc c buyerID \<longleftrightarrow>
     positiveNotificationInteger jc (quoted (cjOrderID c)) \<noteq> None \<and> cjVersion c = 1 \<and> cjOrderVersion c > 0 \<and>
     cjBuyerID c = buyerID \<and> executionReceiptPattern (cjRequestID c) \<and> cjRound c \<ge> 1 \<and> cjRound c \<le> 3"

section \<open>Paths\<close>

text \<open>\<open>path.Clean\<close>: the parts that stay, last one first, and the whole.\<close>

fun clean_parts :: "bool \<Rightarrow> string list \<Rightarrow> string list \<Rightarrow> string list" where
  "clean_parts rooted kept [] = rev kept"
| "clean_parts rooted kept (p # ps) =
     (if p = [] \<or> p = ''.'' then clean_parts rooted kept ps
      else if p = ''..'' then
        (case kept of
           [] \<Rightarrow> clean_parts rooted (if rooted then [] else [''..'']) ps
         | k # ks \<Rightarrow> if k = ''..'' then clean_parts rooted (''..'' # kept) ps else clean_parts rooted ks ps)
      else clean_parts rooted (p # kept) ps)"

definition path_Clean :: "string \<Rightarrow> string" where
  "path_Clean p =
     (let rooted = take 1 p = ''/'';
          out = (if rooted then ''/'' else []) @ strings_Join (clean_parts rooted [] (strings_Split (CHR ''/'') p)) ''/''
      in if out = [] then ''.'' else out)"

definition path_IsAbs :: "string \<Rightarrow> bool" where
  "path_IsAbs p \<longleftrightarrow> take 1 p = ''/''"

definition validCommissionArtifactPath :: "json_codec \<Rightarrow> string \<Rightarrow> bool" where
  "validCommissionArtifactPath jc v \<longleftrightarrow>
     \<not> (\<not> ValidString v \<or> TrimSpace v = [] \<or> length v > 1024 \<or> has_control jc v \<or> CHR 0x5C \<in> set v \<or> CHR '':'' \<in> set v \<or>
        path_IsAbs v \<or> path_Clean v \<noteq> v \<or> v = ''.'') \<and>
     ''..'' \<notin> set (strings_Split (CHR ''/'') v)"

definition validCommissionDirectory :: "json_codec \<Rightarrow> string \<Rightarrow> bool" where
  "validCommissionDirectory jc v \<longleftrightarrow> ValidString v \<and> length v \<le> 4096 \<and> \<not> has_control jc v \<and> path_IsAbs v \<and> path_Clean v = v"

section \<open>Checks of fulfilments\<close>

fun valid_artifacts :: "json_codec \<Rightarrow> string list \<Rightarrow> string list \<Rightarrow> CommissionArtifact list \<Rightarrow> bool" where
  "valid_artifacts jc logical relative [] = True"
| "valid_artifacts jc logical relative (a # rest) =
     (if \<not> validCommissionArtifactPath jc (caLogicalPath a) \<or> \<not> validCommissionArtifactPath jc (caRelativePath a) \<or>
         caLogicalPath a \<in> set logical \<or> caRelativePath a \<in> set relative then False
      else valid_artifacts jc (caLogicalPath a # logical) (caRelativePath a # relative) rest)"

definition validateCommissionFulfillmentDecision ::
  "json_codec \<Rightarrow> CommissionFulfillmentDecision \<Rightarrow> string \<Rightarrow> string \<Rightarrow> int \<Rightarrow> string option" where
  "validateCommissionFulfillmentDecision jc result requestID orderID orderVersion =
     (if TrimSpace requestID = [] \<or> fdVersion result \<noteq> 1 \<or> fdRequestID result \<noteq> requestID \<or> fdOrderID result \<noteq> orderID \<or>
         orderVersion \<le> 0 \<or> fdOrderVersion result \<noteq> orderVersion then Some ''commission_fulfillment_identity_mismatch''
      else if positiveNotificationInteger jc orderID = None then Some ''invalid_commission_fulfillment_order''
      else if fdOutcome result \<notin> {''artifacts_ready'', ''needs_input'', ''needs_user'', ''failed''} then Some ''invalid_commission_fulfillment_outcome''
      else if \<not> ValidString (fdSummary result) \<or> TrimSpace (fdSummary result) = [] \<or> length (fdSummary result) > 2000 \<or>
         \<not> ValidString (fdSelfCheck result) \<or> length (fdSelfCheck result) > 2000 then Some ''invalid_commission_fulfillment_summary''
      else (case fdArtifacts result of
          None \<Rightarrow> Some ''invalid_commission_fulfillment_artifacts''
        | Some artifacts \<Rightarrow>
            if length artifacts > 128 \<or> fdOutcome result = ''artifacts_ready'' \<and> (artifacts = [] \<or> TrimSpace (fdSelfCheck result) = [])
            then Some ''invalid_commission_fulfillment_artifacts''
            else if \<not> valid_artifacts jc [] [] artifacts then Some ''invalid_commission_fulfillment_artifact_path''
            else None))"

text \<open>\<open>requiredCommissionFields\<close> on the members of the text.\<close>

definition requiredCommissionFields :: "json_codec \<Rightarrow> string \<Rightarrow> string list \<Rightarrow> bool" where
  "requiredCommissionFields jc raw names \<longleftrightarrow>
     (case jcFields jc raw of
        None \<Rightarrow> False
      | Some fs \<Rightarrow> (\<forall>name \<in> set names. case map_of fs name of None \<Rightarrow> False | Some v \<Rightarrow> TrimSpace v \<noteq> ''null''))"

definition decode_fulfillment :: "json_codec \<Rightarrow> string \<Rightarrow> CommissionFulfillmentJob option" where
  "decode_fulfillment jc raw =
     (case decodeStrictObject jc raw (jcFulfillment jc) of
        None \<Rightarrow> None
      | Some d \<Rightarrow>
          if \<not> requiredCommissionFields jc raw [''version'', ''order_id'', ''order_version'', ''intake_request_id'', ''intake_result''] then None
          else if fjVersion d \<noteq> 1 \<or> fjOrderVersion d \<le> 0 \<or> TrimSpace (fjIntakeRequestID d) = [] then None
          else if positiveNotificationInteger jc (fjOrderID d) = None then None
          else if idOutcome (fjIntakeResult d) \<noteq> ''ready'' \<or> idOrderVersion (fjIntakeResult d) > fjOrderVersion d \<or>
            validateCommissionIntakeDecision jc (fjIntakeResult d) (fjIntakeRequestID d) (fjOrderID d) (idOrderVersion (fjIntakeResult d)) \<noteq> None \<or>
            fjInputFingerprint d \<noteq> [] \<and> \<not> validCommissionInputFingerprint (fjInputFingerprint d) then None
          else Some d)"

text \<open>The loop over the verified artifacts, with the paths still wanted and the bytes so far.\<close>

fun verified_artifacts :: "(string \<times> string) list \<Rightarrow> int \<Rightarrow> CommissionVerifiedArtifact list \<Rightarrow> string option" where
  "verified_artifacts wanted sofar [] = None"
| "verified_artifacts wanted sofar (a # rest) =
     (if map_of wanted (vaLogicalPath a) \<noteq> Some (vaRelativePath a) then Some ''commission_fulfillment_artifact_mismatch''
      else if \<not> (length (vaSHA256 a) = 64 \<and> list_all any_hex (vaSHA256 a)) \<or> vaByteSize a < 0 \<or> vaByteSize a > 67108864 - sofar
        then Some ''invalid_commission_fulfillment_artifact_evidence''
      else verified_artifacts (filter (\<lambda>w. fst w \<noteq> vaLogicalPath a) wanted) (sofar + vaByteSize a) rest)"

definition validateCommissionFulfillmentResult :: "json_codec \<Rightarrow> Job \<Rightarrow> CommissionFulfillmentResult \<Rightarrow> string option" where
  "validateCommissionFulfillmentResult jc job result =
     (case decode_fulfillment jc (jbData job) of
        None \<Rightarrow> Some ''invalid_commission_fulfillment_job''
      | Some payload \<Rightarrow>
          (case validateCommissionFulfillmentDecision jc (frDecision result) (jbID job) (fjOrderID payload) (fjOrderVersion payload) of
             Some e \<Rightarrow> Some e
           | None \<Rightarrow>
               (case (frArtifacts result, fdArtifacts (frDecision result)) of
                  (Some verified, Some wanted) \<Rightarrow>
                    if \<not> validCommissionDirectory jc (jbDirectory job) \<or> frOutputDirectory result \<noteq> jbDirectory job \<or>
                       length verified \<noteq> length wanted then Some ''invalid_commission_fulfillment_evidence''
                    else verified_artifacts (rev (map (\<lambda>a. (caLogicalPath a, caRelativePath a)) wanted)) 0 verified
                | _ \<Rightarrow> Some ''invalid_commission_fulfillment_evidence'')))"

section \<open>Checks of jobs\<close>

definition CommissionDeliveryMaxAttempts :: int where "CommissionDeliveryMaxAttempts = 5"

definition validCommissionDelivery :: "json_codec \<Rightarrow> Job \<Rightarrow> bool" where
  "validCommissionDelivery jc job =
     (case jbDelivery job of
        None \<Rightarrow> True
      | Some r \<Rightarrow>
          if jbKind job \<noteq> ''commission_fulfillment'' \<or> drAttempts r < 1 \<or> drAttempts r > CommissionDeliveryMaxAttempts \<or> drNextAttemptAt r < 0
          then False
          else if \<not> (\<forall>i \<in> {drBuyerID r, drSellerID r, drSnapshotID r}. positiveNotificationInteger jc i \<noteq> None) then False
          else if drBuyerID r = drSellerID r \<or> jbCheckpoint job = None \<and> jbFulfillment job = None then False
          else if drNextAttemptAt r > 0 then
            jbStatus job = ''pending'' \<and> jbCode job = ''commission_delivery_retry_pending'' \<and> drAttempts r < CommissionDeliveryMaxAttempts
          else jbStatus job \<noteq> ''pending'')"

definition validCommissionExecutionContext :: "json_codec \<Rightarrow> Job \<Rightarrow> bool" where
  "validCommissionExecutionContext jc job =
     (case jbExecution job of
        None \<Rightarrow> True
      | Some c \<Rightarrow>
          ecAcknowledgedRevision c \<ge> 0 \<and> ecOrderVersion c > 0 \<and> ecExpectedRevision c \<ge> 0 \<and>
          (ecReported c = [] \<or> executionReceiptPattern (ecReported c)) \<and>
          positiveNotificationInteger jc (quoted (ecOrderID c)) \<noteq> None \<and>
          (jbKind job = ''commission_order'' \<and> ecStage c = ''intake'' \<or> jbKind job = ''commission_fulfillment'' \<and> ecStage c = ''fulfillment''))"

definition validJobStatus :: "string \<Rightarrow> bool" where
  "validJobStatus s \<longleftrightarrow> s \<in> {''pending'', ''running'', ''sending'', ''replied'', ''no_reply'', ''needs_user'', ''failed'', ''unknown'',
     ''completed'', ''accepted''}"

definition completedStatus :: "string \<Rightarrow> bool" where
  "completedStatus s \<longleftrightarrow> s = ''replied'' \<or> s = ''no_reply'' \<or> s = ''completed'' \<or> s = ''accepted''"

definition validTransition :: "string \<Rightarrow> string \<Rightarrow> bool" where
  "validTransition old new \<longleftrightarrow> validJobStatus new \<and>
     (if old = ''running'' then new \<in> {''sending'', ''replied'', ''no_reply'', ''needs_user'', ''failed'', ''unknown'', ''completed'', ''accepted''}
      else if old = ''sending'' then new \<in> {''replied'', ''completed'', ''failed'', ''unknown'', ''needs_user''}
      else False)"

definition commissionResultStatusCompatible :: "Job \<Rightarrow> CommissionIntakeDecision \<Rightarrow> bool" where
  "commissionResultStatusCompatible job result =
     (if jbCode job = ''operator_verified'' then jbStatus job = ''completed'' \<or> jbStatus job = ''failed''
      else jbStatus job = commissionResultStatus (idOutcome result) \<and> jbCode job = ''commission_intake_'' @ idOutcome result)"

definition commissionFulfillmentStatus :: "string \<Rightarrow> string" where
  "commissionFulfillmentStatus outcome = (if outcome = ''failed'' then ''failed'' else ''needs_user'')"

text \<open>The part of \<open>validCommissionFulfillmentJob\<close> about a recorded result.\<close>

definition fulfillment_status_fits :: "json_codec \<Rightarrow> Job \<Rightarrow> CommissionFulfillmentResult \<Rightarrow> bool" where
  "fulfillment_status_fits jc job result =
     (let outcome = fdOutcome (frDecision result); st = jbStatus job; code = jbCode job
      in if code = ''operator_verified'' then st = ''completed'' \<or> st = ''failed''
         else if outcome = ''artifacts_ready'' \<and> jbDelivery job \<noteq> None \<and> validCommissionDelivery jc job \<and> (st = ''pending'' \<or> st = ''running'')
           then code = ''commission_delivery_retry_pending''
         else if outcome = ''artifacts_ready'' \<and> jbDelivery job \<noteq> None \<and> validCommissionDelivery jc job \<and>
           (st = ''failed'' \<or> st = ''needs_user'' \<or> st = ''unknown'') then code \<noteq> []
         else if outcome = ''artifacts_ready'' \<and> code = ''commission_delivery_sending'' then st = ''sending''
         else if outcome = ''artifacts_ready'' \<and> code = ''commission_delivery_confirmed'' then st = ''completed''
         else if outcome = ''artifacts_ready'' \<and> (code = ''commission_delivery_unconfirmed'' \<or> code = ''interrupted_execution'') then st = ''unknown''
         else st = commissionFulfillmentStatus outcome \<and> code = ''commission_fulfillment_'' @ outcome)"

definition validCommissionFulfillmentJob :: "json_codec \<Rightarrow> Job \<Rightarrow> Binding \<Rightarrow> bool" where
  "validCommissionFulfillmentJob jc job b =
     (case decode_fulfillment jc (jbData job) of
        None \<Rightarrow> False
      | Some payload \<Rightarrow>
          jbMessage job = None \<and> jbID job = commissionFulfillmentID jc b (fjOrderID payload) \<and>
          (jbDirectory job = [] \<or> validCommissionDirectory jc (jbDirectory job)) \<and>
          \<not> (jbCode job = ''commission_fulfillment_prepared'' \<and> jbDirectory job = []) \<and>
          (case jbCheckpoint job of
             None \<Rightarrow> True
           | Some checkpoint \<Rightarrow>
               fdOutcome (frDecision checkpoint) = ''artifacts_ready'' \<and> jbFulfillment job = None \<and> jbStatus job \<noteq> ''sending'' \<and>
               validateCommissionFulfillmentResult jc job checkpoint = None) \<and>
          (case jbFulfillment job of
             None \<Rightarrow> True
           | Some result \<Rightarrow> validateCommissionFulfillmentResult jc job result = None \<and> fulfillment_status_fits jc job result))"

end
