(* ===== verification/Journal.thy ===== *)
theory Journal
  imports JournalTypes "HOL-Library.AList"
begin

text \<open>
  The journal of the dispatcher, \<open>cli/internal/dispatch/journal.go\<close>: jobs that survive a crash of the client. A journal
  is the state in memory and the file on disk; \<open>save\<close> replaces the file in one step or fails, as \<open>jFaults\<close> says. The
  mutex makes every operation atomic. Copies made against aliasing are the identity here.
\<close>

abbreviation journalMaxBytes :: nat where "journalMaxBytes \<equiv> 16777216"
abbreviation journalMaxPending :: nat where "journalMaxPending \<equiv> 256"
abbreviation journalMaxCompleted :: nat where "journalMaxCompleted \<equiv> 1024"

record journal =
  jState :: journalState
  jDisk :: "string option"
  jFaults :: "string option list"
  jNow :: int
  jWake :: bool
  jOpen :: bool

type_synonym 'a jres = "string + 'a"

section \<open>Counting and trimming\<close>

definition completed :: "Job \<Rightarrow> bool" where
  "completed job \<longleftrightarrow> completedStatus (jbStatus job)"

definition unresolvedCount :: "journalState \<Rightarrow> nat" where
  "unresolvedCount s = length (filter (\<lambda>job. \<not> completed job) (jsJobs s))"

definition commissionReadinessCount :: "journalState \<Rightarrow> bool \<Rightarrow> nat" where
  "commissionReadinessCount s completedOnly =
     length (filter (\<lambda>job. jbReadiness job \<noteq> None \<and> (\<not> completedOnly \<or> completed job)) (jsJobs s))"

definition CommissionExecutionCode :: "string \<Rightarrow> string \<Rightarrow> string" where
  "CommissionExecutionCode code st =
     (if code \<in> {''commission_skill_missing'', ''commission_fulfillment_skill_unavailable''} then ''skill_missing''
      else if code = ''commission_skill_unreadable'' then ''skill_unreadable''
      else if code = ''commission_skill_invalid'' then ''skill_invalid''
      else if code = ''commission_contract_invalid'' then ''contract_invalid''
      else if code \<in> {''commission_intake_permission_required'', ''commission_fulfillment_permission_required''} then ''permission_required''
      else if code \<in> {''commission_materials_missing'', ''commission_intake_needs_input'', ''commission_fulfillment_needs_input''}
        then ''materials_missing''
      else if code = ''commission_materials_invalid'' then ''materials_invalid''
      else if code = ''commission_materials_unavailable'' then ''materials_unavailable''
      else if code = ''commission_fulfillment_inputs_changed'' then ''inputs_changed''
      else if code = ''commission_fulfillment_order_changed'' then ''order_changed''
      else if code = ''commission_output_directory_unavailable'' then ''output_unavailable''
      else if st = ''unknown'' then ''execution_unconfirmed''
      else if st = ''failed'' then ''execution_failed''
      else ''execution_blocked'')"

definition report_Key :: "json_codec \<Rightarrow> CommissionExecutionReport \<Rightarrow> string" where
  "report_Key jc r = journalID jc [erOrderID r, jcOfReport jc r]"

text \<open>The report of a job that is due, if one is.\<close>

definition commissionExecutionReport :: "json_codec \<Rightarrow> Job \<Rightarrow> CommissionExecutionReport option" where
  "commissionExecutionReport jc job =
     (case jbExecution job of
        None \<Rightarrow> None
      | Some c \<Rightarrow>
          (let r = \<lparr>erOrderID = ecOrderID c, erExpectedVersion = ecOrderVersion c, erExpectedExecutionRevision = ecExpectedRevision c,
                 erJobID = jbID job, erStage = ecStage c, erStatus = ''blocked'', erCode = []\<rparr>;
               due = (\<lambda>r. if ecReported c \<noteq> report_Key jc r then Some r else None)
           in if jbStatus job \<in> {''needs_user'', ''failed'', ''unknown''}
              then due (r\<lparr>erCode := CommissionExecutionCode (jbCode job) (jbStatus job)\<rparr>)
              else if jbStatus job = ''completed'' then
                (let verified = jbCode job = ''operator_verified'' \<and> ecAcknowledgedRevision c > ecExpectedRevision c
                 in if \<not> verified \<and> \<not> ecMayResolve c then None
                    else if jbCode job \<notin> {''commission_intake_ready'', ''commission_delivery_confirmed'', ''operator_verified''} then None
                    else due (r\<lparr>erExpectedExecutionRevision := (if verified then ecAcknowledgedRevision c else ecExpectedRevision c),
                      erStatus := ''resolved''\<rparr>))
              else None))"

text \<open>Drops the first \<open>n\<close> jobs that satisfy \<open>P\<close>, and says how many are still to be dropped.\<close>

fun drop_some :: "nat \<Rightarrow> (Job \<Rightarrow> bool) \<Rightarrow> Job list \<Rightarrow> nat \<times> Job list" where
  "drop_some n P [] = (n, [])"
| "drop_some n P (job # jobs) =
     (if n > 0 \<and> P job then drop_some (n - 1) P jobs
      else (case drop_some n P jobs of (m, kept) \<Rightarrow> (m, job # kept)))"

definition trimCompleted :: "json_codec \<Rightarrow> journalState \<Rightarrow> journalState" where
  "trimCompleted jc s =
     (let excess = length (jsJobs s) - unresolvedCount s - commissionReadinessCount s True - journalMaxCompleted
      in if excess = 0 then s
         else (case drop_some excess (\<lambda>job. completed job \<and> jbReadiness job = None \<and> commissionExecutionReport jc job = None) (jsJobs s) of
             (left, kept) \<Rightarrow> s\<lparr>jsJobs := snd (drop_some left (\<lambda>job. completed job \<and> jbReadiness job = None) kept)\<rparr>))"

definition compact_job :: "Job \<Rightarrow> Job" where
  "compact_job job =
     (if completed job
      then job\<lparr>jbData := (if jbKind job \<noteq> ''commission_fulfillment'' then [] else jbData job),
               jbMessage := map_option (\<lambda>m. m\<lparr>mgContent := []\<rparr>) (jbMessage job)\<rparr>
      else job)"

section \<open>Saving\<close>

text \<open>\<open>WriteJSON\<close>: a temporary file that replaces the old one.\<close>

definition WriteJSON :: "string \<Rightarrow> journal \<Rightarrow> unit jres \<times> journal" where
  "WriteJSON raw j =
     (case jFaults j of
        Some e # faults \<Rightarrow> (Inl e, j\<lparr>jFaults := faults\<rparr>)
      | None # faults \<Rightarrow> (Inr (), j\<lparr>jFaults := faults, jDisk := Some raw\<rparr>)
      | [] \<Rightarrow> (Inr (), j\<lparr>jDisk := Some raw\<rparr>))"

definition save :: "json_codec \<Rightarrow> journalState \<Rightarrow> journal \<Rightarrow> unit jres \<times> journal" where
  "save jc next0 j =
     (let next1 = trimCompleted jc (next0\<lparr>jsJobs := map compact_job (jsJobs next0)\<rparr>)
      in if unresolvedCount next1 > journalMaxPending \<or> commissionReadinessCount next1 False > journalMaxPending
         then (Inl ''journal_capacity_exceeded'', j)
         else if length (jcIndented jc next1) + 1 > journalMaxBytes then (Inl ''journal_size_limit'', j)
         else (case WriteJSON (jcOfState jc next1) j of
             (Inl e, j') \<Rightarrow> (Inl e, j')
           | (Inr _, j') \<Rightarrow> (Inr (), j'\<lparr>jState := next1\<rparr>)))"

definition signal :: "journal \<Rightarrow> journal" where
  "signal j = j\<lparr>jWake := True\<rparr>"

definition save_and_signal :: "json_codec \<Rightarrow> journalState \<Rightarrow> journal \<Rightarrow> unit jres \<times> journal" where
  "save_and_signal jc next0 j = (case save jc next0 j of (Inl e, j') \<Rightarrow> (Inl e, j') | (Inr _, j') \<Rightarrow> (Inr (), signal j'))"

definition hasPending :: "journal \<Rightarrow> bool" where
  "hasPending j \<longleftrightarrow> (\<exists>job \<in> set (jsJobs (jState j)). jbStatus job = ''pending'')"

definition HasCapacity :: "journal \<Rightarrow> bool" where
  "HasCapacity j \<longleftrightarrow> unresolvedCount (jState j) < journalMaxPending"

section \<open>Opening\<close>

definition validJournalBinding :: "Binding \<Rightarrow> bool" where
  "validJournalBinding b \<longleftrightarrow>
     \<not> (bdHome b = [] \<or> TrimSpace (bdScope b) = [] \<or> TrimSpace (bdRevision b) = [] \<or> TrimSpace (bdAgentID b) = [])"

text \<open>What the switch over the kinds checks.\<close>

definition kind_error :: "json_codec \<Rightarrow> Binding \<Rightarrow> Job \<Rightarrow> string option" where
  "kind_error jc b job =
     (if jbKind job = ''commission_clarification'' then
        (if jbMessage job \<noteq> None then Some ''invalid_clarification_job''
         else if completed job \<and> jbData job = [] then None
         else (case decodeStrictObject jc (jbData job) (jcClarification jc) of
             None \<Rightarrow> Some ''invalid_clarification_job''
           | Some d \<Rightarrow>
               if \<not> validCommissionClarification jc d (bdAgentID b) \<or> jbID job \<noteq> commissionClarificationID jc b (cjOrderID d) (cjRequestID d)
               then Some ''invalid_clarification_job'' else None))
      else if jbKind job = ''commission_fulfillment'' then
        (if validCommissionFulfillmentJob jc job b then None else Some ''invalid_journal_commission_fulfillment'')
      else if jbKind job = ''pm_push'' then
        (case jbMessage job of
           None \<Rightarrow> Some ''invalid_journal_message''
         | Some m \<Rightarrow>
             if TrimSpace (mgID m) = [] \<or> TrimSpace (mgConversation m) = [] \<or> mgSender m = [] \<or> mgSender m = bdAgentID b \<or>
                mgReceiver m \<noteq> bdAgentID b \<or> jbID job \<noteq> journalID jc [bdScope b, bdRevision b, mgConversation m, mgID m]
             then Some ''invalid_journal_message'' else None)
      else if jbKind job \<in> {''control_pending'', ''profile_review_due'', ''maintenance_due''} then
        (if jbMessage job \<noteq> None \<or> \<not> jcValid jc (jbData job) \<and> \<not> (completed job \<and> jbData job = [])
         then Some ''invalid_journal_hint'' else None)
      else if jbKind job = ''commission_order'' then
        (if jbMessage job \<noteq> None then Some ''invalid_journal_commission''
         else if (case jbResult job of
             None \<Rightarrow> False
           | Some r \<Rightarrow> validateCommissionIntakeDecision jc r (jbID job) (idOrderID r) (idOrderVersion r) \<noteq> None \<or>
               \<not> commissionResultStatusCompatible job r) then Some ''invalid_journal_commission_result''
         else if completed job \<and> jbData job = [] then None
         else (case parseCommissionIntakeData jc (jbData job) (bdAgentID b) of
             Inl _ \<Rightarrow> Some ''invalid_journal_commission''
           | Inr key \<Rightarrow>
               if jbID job \<noteq> commissionJournalID jc b key then Some ''invalid_journal_commission''
               else if (case jbResult job of None \<Rightarrow> False | Some r \<Rightarrow> \<not> commissionResultMatchesNotification r key)
               then Some ''invalid_journal_commission_result'' else None))
      else Some ''invalid_journal_kind'')"

definition job_error :: "json_codec \<Rightarrow> Binding \<Rightarrow> Job \<Rightarrow> string option" where
  "job_error jc b job =
     (if jbID job = [] \<or> jbScope job \<noteq> bdScope b \<or> jbRevision job \<noteq> bdRevision b \<or> \<not> validJobStatus (jbStatus job) then Some ''invalid_journal_job''
      else if \<not> validCommissionDelivery jc job then Some ''invalid_journal_commission_delivery''
      else if \<not> validCommissionExecutionContext jc job then Some ''invalid_journal_commission_execution''
      else if jbResult job \<noteq> None \<and> jbKind job \<noteq> ''commission_order'' then Some ''invalid_journal_commission_result''
      else if (case jbReadiness job of
          None \<Rightarrow> False
        | Some rd \<Rightarrow> jbKind job \<noteq> ''commission_order'' \<or> idRequestID (rdResult rd) \<noteq> jbID job \<or> \<not> validCommissionReadiness jc rd)
        then Some ''invalid_journal_commission_readiness''
      else if jbKind job \<noteq> ''commission_fulfillment'' \<and> (jbFulfillment job \<noteq> None \<or> jbCheckpoint job \<noteq> None \<or> jbDirectory job \<noteq> [])
        then Some ''invalid_journal_commission_fulfillment''
      else kind_error jc b job)"

fun jobs_error :: "json_codec \<Rightarrow> Binding \<Rightarrow> string list \<Rightarrow> Job list \<Rightarrow> string option" where
  "jobs_error jc b seen [] = None"
| "jobs_error jc b seen (job # jobs) =
     (if jbID job \<in> set seen then Some ''invalid_journal_job''
      else (case job_error jc b job of Some e \<Rightarrow> Some e | None \<Rightarrow> jobs_error jc b (jbID job # seen) jobs))"

definition empty_journal :: "Binding \<Rightarrow> journalState" where
  "empty_journal b = \<lparr>jsVersion = 1, jsScope = bdScope b, jsRevision = bdRevision b, jsAgentID = bdAgentID b, jsSequence = 0, jsJobs = [],
     jsSessions = Map.empty\<rparr>"

text \<open>The state and whether the file exists. A file whose jobs or sessions are \<open>null\<close> does not decode.\<close>

definition readJournal :: "json_codec \<Rightarrow> Binding \<Rightarrow> string option \<Rightarrow> (journalState \<times> bool) jres" where
  "readJournal jc b file =
     (if \<not> validJournalBinding b then Inl ''invalid_journal_binding''
      else (case file of
          None \<Rightarrow> Inr (empty_journal b, False)
        | Some raw \<Rightarrow>
            if length raw > journalMaxBytes then Inl ''journal_size_limit''
            else (case jcState jc raw of
                None \<Rightarrow> Inl ''invalid_journal''
              | Some s \<Rightarrow>
                  if jsVersion s \<noteq> 1 \<or> jsScope s \<noteq> bdScope b \<or> jsRevision s \<noteq> bdRevision b \<or> jsAgentID s \<noteq> bdAgentID b
                  then Inl ''journal_identity_or_version_mismatch''
                  else (case jobs_error jc b [] (jsJobs s) of
                      Some e \<Rightarrow> Inl e
                    | None \<Rightarrow>
                        if unresolvedCount s > journalMaxPending \<or> commissionReadinessCount s False > journalMaxPending \<or>
                           length (jsJobs s) - unresolvedCount s - commissionReadinessCount s True > journalMaxCompleted
                        then Inl ''journal_capacity_exceeded''
                        else Inr (s, True)))))"

definition commissionDeliveryDelay :: "int \<Rightarrow> int" where
  "commissionDeliveryDelay attempts = [60000, 120000, 300000, 600000] ! nat (attempts - 1)"

definition executing :: "Job \<Rightarrow> bool" where
  "executing job \<longleftrightarrow> jbStatus job = ''running'' \<or> jbStatus job = ''sending''"

definition recoverCommissionDelivery :: "Job \<Rightarrow> int \<Rightarrow> Job option" where
  "recoverCommissionDelivery job now =
     (case jbDelivery job of
        None \<Rightarrow> None
      | Some r \<Rightarrow>
          if \<not> executing job then None
          else if drAttempts r \<ge> CommissionDeliveryMaxAttempts
          then Some (job\<lparr>jbStatus := (if jbFulfillment job = None then ''failed'' else ''unknown''), jbCode := ''commission_delivery_retry_exhausted''\<rparr>)
          else Some (job\<lparr>jbStatus := ''pending'', jbCode := ''commission_delivery_retry_pending'',
            jbDelivery := Some (r\<lparr>drNextAttemptAt := now + commissionDeliveryDelay (drAttempts r)\<rparr>)\<rparr>))"

definition recover_job :: "int \<Rightarrow> Job \<Rightarrow> Job" where
  "recover_job now job =
     (case recoverCommissionDelivery job now of
        Some job' \<Rightarrow> job'
      | None \<Rightarrow> if executing job then job\<lparr>jbStatus := ''unknown'', jbCode := ''interrupted_execution''\<rparr> else job)"

text \<open>A new process: what was in memory is replaced by what the file says. \<open>jOpen\<close> says whether there is a journal; \<open>jState\<close> has
  no meaning while there is none.\<close>

definition OpenJournal :: "json_codec \<Rightarrow> Binding \<Rightarrow> journal \<Rightarrow> unit jres \<times> journal" where
  "OpenJournal jc b j =
     (case readJournal jc b (jDisk j) of
        Inl e \<Rightarrow> (Inl e, j\<lparr>jOpen := False\<rparr>)
      | Inr (s, exists) \<Rightarrow>
          (let s' = s\<lparr>jsJobs := map (recover_job (jNow j)) (jsJobs s)\<rparr>; changed = (\<not> exists \<or> (\<exists>job \<in> set (jsJobs s). executing job))
           in if \<not> changed then (let j' = j\<lparr>jState := s, jWake := False, jOpen := True\<rparr> in (Inr (), if hasPending j' then signal j' else j'))
              else (case save jc s' (j\<lparr>jWake := False\<rparr>) of
                  (Inl e, j') \<Rightarrow> (Inl e, j'\<lparr>jOpen := False\<rparr>)
                | (Inr _, j') \<Rightarrow> (Inr (), (if hasPending j' then signal j' else j')\<lparr>jOpen := True\<rparr>))))"

section \<open>Accepting work\<close>

definition newHint :: "Binding \<Rightarrow> int \<Rightarrow> string \<Rightarrow> string \<Rightarrow> string \<Rightarrow> Job" where
  "newHint b now i kind data =
     \<lparr>jbID = i, jbKind = kind, jbScope = bdScope b, jbRevision = bdRevision b, jbMessage = None, jbData = data, jbStatus = ''pending'', jbCode = [],
      jbCreated = now div 1000, jbSessionID = [], jbReplyID = [], jbResult = None, jbReadiness = None, jbFulfillment = None,
      jbCheckpoint = None, jbDelivery = None, jbDirectory = [], jbExecution = None\<rparr>"

definition message_id :: "json_codec \<Rightarrow> Binding \<Rightarrow> Message \<Rightarrow> string" where
  "message_id jc b m = journalID jc [bdScope b, bdRevision b, mgConversation m, mgID m]"

definition inbound :: "Binding \<Rightarrow> Message \<Rightarrow> bool" where
  "inbound b m \<longleftrightarrow> mgReceiver m = bdAgentID b \<and> mgSender m \<noteq> bdAgentID b"

fun collect_messages :: "json_codec \<Rightarrow> Binding \<Rightarrow> int \<Rightarrow> string list \<Rightarrow> Message list \<Rightarrow> Job list jres" where
  "collect_messages jc b now seen [] = Inr []"
| "collect_messages jc b now seen (m # ms) =
     (if \<not> inbound b m then collect_messages jc b now seen ms
      else if TrimSpace (mgID m) = [] \<or> TrimSpace (mgConversation m) = [] \<or> TrimSpace (mgSender m) = []
        then Inl ''invalid_inbound_message_identity''
      else if message_id jc b m \<in> set seen then collect_messages jc b now seen ms
      else (case collect_messages jc b now (message_id jc b m # seen) ms of
          Inl e \<Rightarrow> Inl e
        | Inr jobs \<Rightarrow> Inr ((newHint b now (message_id jc b m) ''pm_push'' [])\<lparr>jbMessage := Some m\<rparr> # jobs)))"

definition append_jobs :: "Job list \<Rightarrow> journalState \<Rightarrow> journalState" where
  "append_jobs jobs s = s\<lparr>jsJobs := jsJobs s @ jobs\<rparr>"

definition AddMessages :: "json_codec \<Rightarrow> Binding \<Rightarrow> string \<Rightarrow> journal \<Rightarrow> unit jres \<times> journal" where
  "AddMessages jc b raw j =
     (if length raw > journalMaxBytes then (Inl ''message_batch_size_limit'', j)
      else (case jcMessages jc raw of
          None \<Rightarrow> (Inl ''invalid_message_batch'', j)
        | Some msgs \<Rightarrow>
            (case collect_messages jc b (jNow j) (map jbID (jsJobs (jState j))) msgs of
               Inl e \<Rightarrow> (Inl e, j)
             | Inr [] \<Rightarrow> (Inr (), j)
             | Inr jobs \<Rightarrow> save_and_signal jc (append_jobs jobs (jState j)) j)))"

definition Handles :: "Binding \<Rightarrow> string \<Rightarrow> bool" where
  "Handles b kind \<longleftrightarrow> kind \<in> set (bdEvents b)"

fun collect_commands :: "json_codec \<Rightarrow> Binding \<Rightarrow> int \<Rightarrow> (string \<times> string) list \<Rightarrow> string list \<Rightarrow> string list \<Rightarrow> Job list jres" where
  "collect_commands jc b now obj seen [] = Inr []"
| "collect_commands jc b now obj seen (command # rest) =
     (if TrimSpace command = [] then Inl ''invalid_control_command_id''
      else (let i = journalID jc [bdScope b, bdRevision b, ''control_pending'', command]
        in if i \<in> set seen then collect_commands jc b now obj seen rest
           else (case collect_commands jc b now obj (i # seen) rest of
               Inl e \<Rightarrow> Inl e
             | Inr jobs \<Rightarrow>
                 Inr (newHint b now i ''control_pending'' (jcOfFields jc (AList.update ''command_ids'' (jcOfTexts jc [command]) obj)) # jobs))))"

definition AddHint :: "json_codec \<Rightarrow> Binding \<Rightarrow> string \<Rightarrow> string \<Rightarrow> journal \<Rightarrow> unit jres \<times> journal" where
  "AddHint jc b kind data j =
     (if kind \<notin> {''profile_review_due'', ''maintenance_due'', ''control_pending''} then (Inl ''unsupported_dispatch_hint'', j)
      else if \<not> Handles b kind then (Inr (), j)
      else if length data > journalMaxBytes then (Inl ''hint_size_limit'', j)
      else (case jcFields jc data of
          None \<Rightarrow> (Inl ''invalid_dispatch_hint'', j)
        | Some obj \<Rightarrow>
            if kind = ''control_pending'' then
              (case jcTexts jc (member ''command_ids'' obj) of
                 None \<Rightarrow> (Inl ''invalid_control_command_ids'', j)
               | Some ids \<Rightarrow>
                   (case collect_commands jc b (jNow j) obj (map jbID (jsJobs (jState j))) ids of
                      Inl e \<Rightarrow> (Inl e, j)
                    | Inr [] \<Rightarrow> (Inr (), j)
                    | Inr jobs \<Rightarrow> save_and_signal jc (append_jobs jobs (jState j)) j))
            else if \<exists>job \<in> set (jsJobs (jState j)). jbKind job = kind \<and> \<not> completed job then (Inr (), j)
            else (let n = jsSequence (jState j) + 1;
                      i = journalID jc [bdScope b, bdRevision b, kind, nat_dec (unat n)]
                  in save_and_signal jc (append_jobs [newHint b (jNow j) i kind data] ((jState j)\<lparr>jsSequence := n\<rparr>)) j)))"

definition AddCommissionNotification :: "json_codec \<Rightarrow> Binding \<Rightarrow> string \<Rightarrow> journal \<Rightarrow> unit jres \<times> journal" where
  "AddCommissionNotification jc b raw j =
     (if \<not> Handles b ''commission_order'' then (Inl ''commission_event_not_subscribed'', j)
      else if length raw > journalMaxBytes then (Inl ''commission_notification_size_limit'', j)
      else (case parseCommissionNotification jc raw (bdAgentID b) of
          Inl e \<Rightarrow> (Inl e, j)
        | Inr key \<Rightarrow>
            (let i = commissionJournalID jc b key
             in if i \<in> set (map jbID (jsJobs (jState j))) then (Inr (), j)
                else save_and_signal jc (append_jobs [newHint b (jNow j) i ''commission_order'' raw] (jState j)) j)))"

section \<open>Claiming and finishing work\<close>

definition commission_kind :: "string \<Rightarrow> bool" where
  "commission_kind k \<longleftrightarrow> k = ''commission_order'' \<or> k = ''commission_fulfillment'' \<or> k = ''commission_clarification''"

definition in_lane :: "string \<Rightarrow> Job \<Rightarrow> bool" where
  "in_lane kind job \<longleftrightarrow> \<not> (kind = [] \<and> commission_kind (jbKind job) \<or> kind \<noteq> [] \<and> jbKind job \<noteq> kind)"

definition waiting :: "int \<Rightarrow> Job \<Rightarrow> bool" where
  "waiting now job \<longleftrightarrow> (case jbDelivery job of None \<Rightarrow> False | Some r \<Rightarrow> drNextAttemptAt r > now)"

text \<open>The loop over the jobs with the best index so far; \<open>Inl ()\<close> when a job of the lane is being executed.\<close>

fun scan_next :: "string \<Rightarrow> int \<Rightarrow> Job list \<Rightarrow> nat \<Rightarrow> Job list \<Rightarrow> nat option \<Rightarrow> unit + nat option" where
  "scan_next kind now jobs i [] best = Inr best"
| "scan_next kind now jobs i (job # rest) best =
     (if \<not> in_lane kind job then scan_next kind now jobs (Suc i) rest best
      else if executing job then Inl ()
      else if waiting now job then scan_next kind now jobs (Suc i) rest best
      else if jbStatus job = ''pending'' \<and>
        (case best of None \<Rightarrow> True | Some k \<Rightarrow> jbKind job = ''pm_push'' \<and> jbKind (jobs ! k) \<noteq> ''pm_push'')
      then scan_next kind now jobs (Suc i) rest (Some i)
      else scan_next kind now jobs (Suc i) rest best)"

definition set_job :: "nat \<Rightarrow> Job \<Rightarrow> journalState \<Rightarrow> journalState" where
  "set_job i job s = s\<lparr>jsJobs := (jsJobs s)[i := job]\<rparr>"

definition claim_job :: "Job \<Rightarrow> Job" where
  "claim_job job = job\<lparr>jbStatus := ''running'', jbDelivery := (case jbDelivery job of
       None \<Rightarrow> None
     | Some r \<Rightarrow> Some (if drNextAttemptAt r > 0 then r\<lparr>drAttempts := drAttempts r + 1, drNextAttemptAt := 0\<rparr> else r))\<rparr>"

text \<open>The job that is returned is read from the state after it has been saved.\<close>

definition next_job :: "json_codec \<Rightarrow> string \<Rightarrow> journal \<Rightarrow> Job option jres \<times> journal" where
  "next_job jc kind j =
     (let jobs = jsJobs (jState j)
      in case scan_next kind (jNow j) jobs 0 jobs None of
           Inl _ \<Rightarrow> (Inr None, j)
         | Inr None \<Rightarrow> (Inr None, j)
         | Inr (Some i) \<Rightarrow>
             (case save jc (set_job i (claim_job (jobs ! i)) (jState j)) j of
                (Inl e, j') \<Rightarrow> (Inl e, j')
              | (Inr _, j') \<Rightarrow> (Inr (Some (jsJobs (jState j') ! i)), j')))"

definition NextKind :: "json_codec \<Rightarrow> string \<Rightarrow> journal \<Rightarrow> Job option jres \<times> journal" where
  "NextKind jc kind j =
     (if kind \<in> {''pm_push'', ''profile_review_due'', ''maintenance_due'', ''control_pending'', ''commission_order'', ''commission_fulfillment'',
         ''commission_clarification''} then next_job jc kind j
      else (Inl ''unsupported_dispatch_kind'', j))"

definition moveCompletedLast :: "nat \<Rightarrow> journalState \<Rightarrow> journalState" where
  "moveCompletedLast i s = s\<lparr>jsJobs := take i (jsJobs s) @ drop (Suc i) (jsJobs s) @ [jsJobs s ! i]\<rparr>"

definition saveUpdatedJob :: "json_codec \<Rightarrow> journalState \<Rightarrow> nat \<Rightarrow> journal \<Rightarrow> unit jres \<times> journal" where
  "saveUpdatedJob jc next0 i j =
     (case save jc (if completed (jsJobs next0 ! i) then moveCompletedLast i next0 else next0) j of
        (Inl e, j') \<Rightarrow> (Inl e, j')
      | (Inr _, j') \<Rightarrow> (Inr (), if hasPending j' then signal j' else j'))"

text \<open>The loop that looks for a job by its identifier.\<close>

fun index_of :: "string \<Rightarrow> Job list \<Rightarrow> nat option" where
  "index_of i [] = None"
| "index_of i (job # jobs) = (if jbID job = i then Some 0 else map_option Suc (index_of i jobs))"

definition with_job :: "string \<Rightarrow> (nat \<Rightarrow> Job \<Rightarrow> journal \<Rightarrow> 'a jres \<times> journal) \<Rightarrow> journal \<Rightarrow> 'a jres \<times> journal" where
  "with_job i f j =
     (case index_of i (jsJobs (jState j)) of
        None \<Rightarrow> (Inl ''job_not_found'', j)
      | Some k \<Rightarrow> f k (jsJobs (jState j) ! k) j)"

definition Update_job :: "json_codec \<Rightarrow> string \<Rightarrow> string \<Rightarrow> string \<Rightarrow> string \<Rightarrow> string \<Rightarrow> journal \<Rightarrow> unit jres \<times> journal" where
  "Update_job jc i st code sessionID replyID = with_job i (\<lambda>k job j.
     if \<not> validTransition (jbStatus job) st then (Inl ''invalid_job_transition'', j)
     else if st = ''replied'' \<and> replyID = [] then (Inl ''reply_id_required'', j)
     else if jbKind job = ''pm_push'' \<and> st = ''completed'' then (Inl ''pm_requires_explicit_decision'', j)
     else (let job' = job\<lparr>jbStatus := st, jbCode := code, jbSessionID := (if sessionID \<noteq> [] then sessionID else jbSessionID job),
                 jbReplyID := (if replyID \<noteq> [] then replyID else jbReplyID job)\<rparr>;
               s = set_job k job' (jState j)
           in saveUpdatedJob jc (case jbMessage job of
                Some m \<Rightarrow> if sessionID \<noteq> [] then s\<lparr>jsSessions := (jsSessions s)(mgConversation m \<mapsto> sessionID)\<rparr> else s
              | None \<Rightarrow> s) k j))"

definition Retry_job :: "json_codec \<Rightarrow> string \<Rightarrow> journal \<Rightarrow> unit jres \<times> journal" where
  "Retry_job jc i = with_job i (\<lambda>k job j.
     if jbStatus job \<noteq> ''failed'' \<and> jbStatus job \<noteq> ''needs_user'' then (Inl ''job_not_safe_to_retry'', j)
     else (case jbDelivery job of
         Some r \<Rightarrow>
           if drAttempts r \<ge> CommissionDeliveryMaxAttempts then (Inl ''commission_delivery_retry_limit_reached'', j)
           else save_and_signal jc (set_job k (job\<lparr>jbStatus := ''pending'', jbCode := ''commission_delivery_retry_pending'',
             jbDelivery := Some (r\<lparr>drNextAttemptAt := jNow j\<rparr>)\<rparr>) (jState j)) j
       | None \<Rightarrow>
           save_and_signal jc (set_job k (job\<lparr>jbStatus := ''pending'', jbCode := ''operator_retry'',
             jbResult := (if jbKind job = ''commission_order'' then None else jbResult job),
             jbReadiness := (if jbKind job = ''commission_order'' then None else jbReadiness job),
             jbFulfillment := (if jbKind job = ''commission_fulfillment'' then None else jbFulfillment job)\<rparr>) (jState j)) j))"

definition Reconcile_job :: "json_codec \<Rightarrow> string \<Rightarrow> string \<Rightarrow> string \<Rightarrow> journal \<Rightarrow> unit jres \<times> journal" where
  "Reconcile_job jc i act replyID j =
     (if act \<notin> {''no_reply'', ''replied'', ''completed'', ''failed''} \<or> act = ''replied'' \<and> replyID = [] \<or> act \<noteq> ''replied'' \<and> replyID \<noteq> []
      then (Inl ''invalid_reconciliation'', j)
      else with_job i (\<lambda>k job j.
        if jbStatus job \<noteq> ''unknown'' \<and> jbStatus job \<noteq> ''failed'' \<and> jbStatus job \<noteq> ''needs_user'' then (Inl ''job_not_reconcilable'', j)
        else if (jbKind job = ''pm_push'') \<noteq> (act = ''no_reply'' \<or> act = ''replied'')
        then (Inl ''reconciliation_outcome_does_not_match_job_kind'', j)
        else (let s = set_job k (job\<lparr>jbStatus := act, jbCode := ''operator_verified'', jbReplyID := replyID\<rparr>) (jState j)
              in save jc (if completedStatus act then moveCompletedLast k s else s) j)) j)"

section \<open>Reading\<close>

definition redacted :: "Job \<Rightarrow> Job" where
  "redacted job = job\<lparr>jbData := [], jbMessage := map_option (\<lambda>m. m\<lparr>mgContent := []\<rparr>) (jbMessage job)\<rparr>"

definition Snapshot :: "journal \<Rightarrow> Job list" where
  "Snapshot j = map redacted (jsJobs (jState j))"

definition ReadJournalStatus :: "json_codec \<Rightarrow> Binding \<Rightarrow> string option \<Rightarrow> Job list jres" where
  "ReadJournalStatus jc b file = (case readJournal jc b file of Inl e \<Rightarrow> Inl e | Inr (s, _) \<Rightarrow> Inr (map redacted (jsJobs s)))"

definition Session :: "string \<Rightarrow> journal \<Rightarrow> string" where
  "Session conversation j = (case jsSessions (jState j) conversation of None \<Rightarrow> [] | Some v \<Rightarrow> v)"

end
