(* ===== verification/JournalOps.thy ===== *)
theory JournalOps
  imports Journal
begin

text \<open>
  The operations of the journal for commissions (\<open>commission_delivery.go\<close>, \<open>commission_readiness.go\<close>,
  \<open>commission_execution.go\<close>, \<open>commission_clarification.go\<close>, \<open>commission_recovery.go\<close>, \<open>commission_migration.go\<close>,
  \<open>commission_acceptance.go\<close>, \<open>commission_fulfillment.go\<close> of \<open>cli/internal/dispatch\<close>).
\<close>

section \<open>Intake\<close>

text \<open>A job that is appended unless its identifier is taken.\<close>

definition admit :: "Job \<Rightarrow> journalState \<Rightarrow> journalState" where
  "admit job s = (if jbID job \<in> set (map jbID (jsJobs s)) then s else append_jobs [job] s)"

definition fulfillment_hint ::
  "json_codec \<Rightarrow> Binding \<Rightarrow> int \<Rightarrow> string \<Rightarrow> int \<Rightarrow> string \<Rightarrow> CommissionIntakeDecision \<Rightarrow> string \<Rightarrow> Job" where
  "fulfillment_hint jc b now orderID version i result fingerprint =
     newHint b now (commissionFulfillmentID jc b orderID) ''commission_fulfillment''
       (jcOfFulfillment jc \<lparr>fjVersion = 1, fjOrderID = orderID, fjOrderVersion = version, fjIntakeRequestID = i, fjIntakeResult = result,
          fjInputFingerprint = fingerprint\<rparr>)"

definition CompleteCommissionIntakeAndQueue ::
  "json_codec \<Rightarrow> Binding \<Rightarrow> string \<Rightarrow> CommissionIntakeDecision \<Rightarrow> string \<Rightarrow> bool \<Rightarrow> journal \<Rightarrow> unit jres \<times> journal" where
  "CompleteCommissionIntakeAndQueue jc b i result sessionID paid j =
     (case validateCommissionIntakeDecision jc result i (idOrderID result) (idOrderVersion result) of
        Some e \<Rightarrow> (Inl e, j)
      | None \<Rightarrow> with_job i (\<lambda>k job j.
          if jbKind job \<noteq> ''commission_order'' \<or> jbStatus job \<noteq> ''running'' then (Inl ''commission_intake_requires_running_job'', j)
          else (case parseCommissionIntakeData jc (jbData job) (bdAgentID b) of
              Inl _ \<Rightarrow> (Inl ''commission_result_notification_mismatch'', j)
            | Inr key \<Rightarrow>
                if \<not> commissionResultMatchesNotification result key then (Inl ''commission_result_notification_mismatch'', j)
                else if paid \<and> idOutcome result = ''ready'' \<and> nkRecipientRole key \<noteq> ''seller''
                then (Inl ''commission_fulfillment_requires_seller'', j)
                else (let job' = job\<lparr>jbResult := Some result, jbStatus := commissionResultStatus (idOutcome result),
                            jbCode := ''commission_intake_'' @ idOutcome result,
                            jbSessionID := (if sessionID \<noteq> [] then sessionID else jbSessionID job)\<rparr>;
                          s = set_job k job' (jState j)
                      in saveUpdatedJob jc
                           (if paid \<and> idOutcome result = ''ready''
                            then admit (fulfillment_hint jc b (jNow j) (idOrderID result) (idOrderVersion result) i result []) s
                            else s) k j))) j)"

definition CompleteCommissionIntake ::
  "json_codec \<Rightarrow> Binding \<Rightarrow> string \<Rightarrow> CommissionIntakeDecision \<Rightarrow> string \<Rightarrow> journal \<Rightarrow> unit jres \<times> journal" where
  "CompleteCommissionIntake jc b i result sessionID = CompleteCommissionIntakeAndQueue jc b i result sessionID False"

section \<open>Readiness\<close>

definition about_order :: "string \<Rightarrow> Job \<Rightarrow> bool" where
  "about_order orderID job \<longleftrightarrow> (case jbReadiness job of None \<Rightarrow> False | Some rd \<Rightarrow> idOrderID (rdResult rd) = orderID)"

definition clear_job :: "string \<Rightarrow> Job \<Rightarrow> Job" where
  "clear_job orderID job = (if about_order orderID job then job\<lparr>jbReadiness := None\<rparr> else job)"

definition clearCommissionReadiness :: "string \<Rightarrow> journalState \<Rightarrow> journalState \<times> bool" where
  "clearCommissionReadiness orderID s =
     (s\<lparr>jsJobs := map (clear_job orderID) (jsJobs s)\<rparr>, \<exists>job \<in> set (jsJobs s). about_order orderID job)"

definition RetireCommissionReadiness :: "json_codec \<Rightarrow> string \<Rightarrow> journal \<Rightarrow> unit jres \<times> journal" where
  "RetireCommissionReadiness jc orderID j =
     (if positiveNotificationInteger jc orderID = None then (Inl ''invalid_commission_readiness_order'', j)
      else (case clearCommissionReadiness orderID (jState j) of
          (s, changed) \<Rightarrow> if \<not> changed then (Inr (), j) else save jc s j))"

definition SaveCommissionReadiness ::
  "json_codec \<Rightarrow> Binding \<Rightarrow> string \<Rightarrow> CommissionReadiness \<Rightarrow> journal \<Rightarrow> unit jres \<times> journal" where
  "SaveCommissionReadiness jc b i rd j =
     (if idRequestID (rdResult rd) \<noteq> i \<or> \<not> validCommissionReadiness jc rd then (Inl ''invalid_commission_readiness'', j)
      else with_job i (\<lambda>k job j.
        if jbKind job \<noteq> ''commission_order'' \<or> jbStatus job \<noteq> ''running'' \<or>
           (case parseCommissionIntakeData jc (jbData job) (bdAgentID b) of
              Inl _ \<Rightarrow> True
            | Inr key \<Rightarrow> nkRecipientRole key \<noteq> ''seller'' \<or> \<not> commissionResultMatchesNotification (rdResult rd) key) \<or> jbReadiness job \<noteq> None
        then (Inl ''commission_readiness_requires_running_inspection'', j)
        else if commissionReadinessCount (jState j) False \<ge> journalMaxPending then (Inl ''commission_readiness_capacity_exceeded'', j)
        else save jc (set_job k (job\<lparr>jbReadiness := Some rd\<rparr>) (jState j)) j) j)"

text \<open>The loop that looks for the readiness of a source.\<close>

fun source_readiness :: "string \<Rightarrow> Job list \<Rightarrow> CommissionReadiness option" where
  "source_readiness sourceID [] = None"
| "source_readiness sourceID (job # jobs) =
     (if jbID job = sourceID \<and> jbKind job = ''commission_order'' then jbReadiness job else source_readiness sourceID jobs)"

text \<open>The key of a running intake whose notification is not newer than \<open>version\<close>.\<close>

definition running_intake :: "json_codec \<Rightarrow> Binding \<Rightarrow> string \<Rightarrow> string \<Rightarrow> int \<Rightarrow> Job \<Rightarrow> bool" where
  "running_intake jc b role orderID version job \<longleftrightarrow>
     jbKind job = ''commission_order'' \<and> jbStatus job = ''running'' \<and>
     (case parseCommissionIntakeData jc (jbData job) (bdAgentID b) of
        Inl _ \<Rightarrow> False
      | Inr key \<Rightarrow>
          (case ParseInt64 (nkOrderVersion key) of None \<Rightarrow> False | Some n \<Rightarrow> n \<le> version) \<and> nkRecipientRole key = role \<and> nkOrderID key = orderID)"

definition QueueCommissionFromReadiness ::
  "json_codec \<Rightarrow> Binding \<Rightarrow> string \<Rightarrow> string \<Rightarrow> string \<Rightarrow> int \<Rightarrow> journal \<Rightarrow> unit jres \<times> journal" where
  "QueueCommissionFromReadiness jc b i sourceID orderID version j =
     (case source_readiness sourceID (jsJobs (jState j)) of
        None \<Rightarrow> (Inl ''commission_readiness_unavailable'', j)
      | Some rd \<Rightarrow>
          if \<not> validCommissionReadiness jc rd \<or> idOrderID (rdResult rd) \<noteq> orderID \<or> idOrderVersion (rdResult rd) \<ge> version
          then (Inl ''commission_readiness_unavailable'', j)
          else with_job i (\<lambda>k job j.
            if \<not> running_intake jc b ''seller'' orderID version job then (Inl ''commission_fulfillment_requires_paid_seller'', j)
            else (let s = admit (fulfillment_hint jc b (jNow j) orderID version sourceID (rdResult rd) (rdInputFingerprint rd)) (jState j);
                      s' = fst (clearCommissionReadiness orderID s)
                  in saveUpdatedJob jc
                       (set_job k ((jsJobs s' ! k)\<lparr>jbStatus := ''completed'', jbCode := ''commission_intake_ready_reused''\<rparr>) s') k j)) j)"

definition QueueCommissionClarification ::
  "json_codec \<Rightarrow> Binding \<Rightarrow> string \<Rightarrow> CommissionClarificationJob \<Rightarrow> journal \<Rightarrow> unit jres \<times> journal" where
  "QueueCommissionClarification jc b sourceID d j =
     (if \<not> validCommissionClarification jc d (bdAgentID b) then (Inl ''invalid_clarification_job'', j)
      else with_job sourceID (\<lambda>k job j.
        if \<not> running_intake jc b ''buyer'' (cjOrderID d) (cjOrderVersion d) job then (Inl ''clarification_requires_buyer_notice'', j)
        else save jc
          (admit (newHint b (jNow j) (commissionClarificationID jc b (cjOrderID d) (cjRequestID d)) ''commission_clarification'' (jcOfClarification jc d))
            (set_job k (job\<lparr>jbStatus := ''completed'', jbCode := ''commission_clarification_queued''\<rparr>) (jState j))) j) j)"

section \<open>Delivery\<close>

definition InitializeCommissionDelivery ::
  "json_codec \<Rightarrow> string \<Rightarrow> string \<Rightarrow> string \<Rightarrow> string \<Rightarrow> journal \<Rightarrow> unit jres \<times> journal" where
  "InitializeCommissionDelivery jc i buyerID sellerID snapshotID = with_job i (\<lambda>k job j.
     case jbDelivery job of
       Some r \<Rightarrow>
         if drBuyerID r \<noteq> buyerID \<or> drSellerID r \<noteq> sellerID \<or> drSnapshotID r \<noteq> snapshotID then (Inl ''commission_delivery_identity_changed'', j)
         else (Inr (), j)
     | None \<Rightarrow>
         if jbKind job \<noteq> ''commission_fulfillment'' \<or> jbStatus job \<noteq> ''running'' \<or>
            (case jbCheckpoint job of None \<Rightarrow> True | Some c \<Rightarrow> fdOutcome (frDecision c) \<noteq> ''artifacts_ready'')
         then (Inl ''commission_delivery_requires_checkpoint'', j)
         else (let job' = job\<lparr>jbDelivery := Some \<lparr>drAttempts = 1, drNextAttemptAt = 0, drLastCode = [], drBuyerID = buyerID, drSellerID = sellerID,
                     drSnapshotID = snapshotID\<rparr>\<rparr>
               in if \<not> validCommissionDelivery jc job' then (Inl ''invalid_commission_delivery_retry'', j)
                  else save jc (set_job k job' (jState j)) j))"

text \<open>What becomes of a job whose delivery failed with \<open>code\<close>.\<close>

definition scheduled :: "string \<Rightarrow> string \<Rightarrow> int \<Rightarrow> CommissionDeliveryRetry \<Rightarrow> Job \<Rightarrow> Job" where
  "scheduled code session now r job =
     (let job' = job\<lparr>jbSessionID := (if session \<noteq> [] then session else jbSessionID job)\<rparr>
      in if drAttempts r \<ge> CommissionDeliveryMaxAttempts
         then job'\<lparr>jbStatus := (if jbFulfillment job \<noteq> None then ''unknown'' else ''failed''), jbCode := ''commission_delivery_retry_exhausted'',
           jbDelivery := Some (r\<lparr>drLastCode := code\<rparr>)\<rparr>
         else job'\<lparr>jbStatus := ''pending'', jbCode := ''commission_delivery_retry_pending'',
           jbDelivery := Some (r\<lparr>drLastCode := code, drNextAttemptAt := now + commissionDeliveryDelay (drAttempts r)\<rparr>)\<rparr>)"

definition ScheduleCommissionDeliveryRetry ::
  "json_codec \<Rightarrow> string \<Rightarrow> string \<Rightarrow> string \<Rightarrow> int \<Rightarrow> journal \<Rightarrow> bool jres \<times> journal" where
  "ScheduleCommissionDeliveryRetry jc i code session now = with_job i (\<lambda>k job j.
     case jbDelivery job of
       None \<Rightarrow> (Inr False, j)
     | Some r \<Rightarrow>
         if \<not> executing job \<or> \<not> validCommissionDelivery jc job then (Inl ''commission_delivery_not_schedulable'', j)
         else if length code = 0 \<or> length code > 128 then (Inl ''invalid_commission_delivery_error_code'', j)
         else (case save_and_signal jc (set_job k (scheduled code session now r job) (jState j)) j of
             (Inl e, j') \<Rightarrow> (Inl e, j')
           | (Inr _, j') \<Rightarrow> (Inr True, j')))"

section \<open>Execution reports\<close>

definition SetCommissionExecution ::
  "json_codec \<Rightarrow> Binding \<Rightarrow> string \<Rightarrow> string \<Rightarrow> int \<Rightarrow> int \<Rightarrow> bool \<Rightarrow> journal \<Rightarrow> unit jres \<times> journal" where
  "SetCommissionExecution jc b i orderID version revision mayResolve j =
     (if positiveNotificationInteger jc (quoted orderID) = None \<or> version \<le> 0 \<or> revision < 0 then (Inl ''invalid_commission_execution_context'', j)
      else with_job i (\<lambda>k job j.
        if jbStatus job \<noteq> ''running'' \<or> jbKind job \<noteq> ''commission_order'' \<and> jbKind job \<noteq> ''commission_fulfillment''
        then (Inl ''commission_execution_requires_running_order'', j)
        else if \<not> (if jbKind job = ''commission_order''
                   then (case parseCommissionIntakeData jc (jbData job) (bdAgentID b) of
                       Inl _ \<Rightarrow> False | Inr key \<Rightarrow> nkOrderID key = orderID \<and> nkRecipientRole key = ''seller'')
                   else (case decode_fulfillment jc (jbData job) of None \<Rightarrow> False | Some d \<Rightarrow> fjOrderID d = orderID))
        then (Inl ''commission_execution_order_mismatch'', j)
        else save jc (set_job k (job\<lparr>jbExecution := Some \<lparr>ecOrderID = orderID, ecOrderVersion = version, ecExpectedRevision = revision,
               ecStage = (if jbKind job = ''commission_fulfillment'' then ''fulfillment'' else ''intake''), ecReported = [],
               ecMayResolve = mayResolve, ecAcknowledgedRevision = 0\<rparr>\<rparr>) (jState j)) j) j)"

definition handed_off :: "json_codec \<Rightarrow> string \<Rightarrow> Job list \<Rightarrow> bool" where
  "handed_off jc orderID jobs \<longleftrightarrow>
     (\<exists>other \<in> set jobs. jbKind other = ''commission_fulfillment'' \<and>
        (case decode_fulfillment jc (jbData other) of None \<Rightarrow> False | Some d \<Rightarrow> fjOrderID d = orderID))"

definition CommissionExecutionReports :: "json_codec \<Rightarrow> journal \<Rightarrow> CommissionExecutionReport list" where
  "CommissionExecutionReports jc j = List.map_filter (\<lambda>job.
     case commissionExecutionReport jc job of
       None \<Rightarrow> None
     | Some r \<Rightarrow>
         if erStatus r = ''resolved'' \<and> jbKind job = ''commission_order'' \<and> handed_off jc (erOrderID r) (jsJobs (jState j)) then None
         else Some r) (jsJobs (jState j))"

text \<open>\<open>acknowledged\<close> is the optional argument of the code.\<close>

definition AcknowledgeCommissionExecution ::
  "json_codec \<Rightarrow> CommissionExecutionReport \<Rightarrow> int option \<Rightarrow> journal \<Rightarrow> unit jres \<times> journal" where
  "AcknowledgeCommissionExecution jc report acknowledged j =
     (case index_of (erJobID report) (jsJobs (jState j)) of
        None \<Rightarrow> (Inr (), j)
      | Some k \<Rightarrow>
          (let job = jsJobs (jState j) ! k
           in case (commissionExecutionReport jc job, jbExecution job) of
                (Some current, Some c) \<Rightarrow>
                  if report_Key jc current \<noteq> report_Key jc report then (Inr (), j)
                  else save jc (set_job k (job\<lparr>jbExecution := Some (c\<lparr>ecReported := report_Key jc report,
                    ecAcknowledgedRevision := (if erStatus report = ''blocked'' \<and> acknowledged = Some (erExpectedExecutionRevision report + 1)
                      then erExpectedExecutionRevision report + 1 else ecAcknowledgedRevision c)\<rparr>)\<rparr>) (jState j)) j
              | _ \<Rightarrow> (Inr (), j)))"

section \<open>Recovery\<close>

text \<open>The loop of \<open>recoverCommissionLocked\<close>: an error, that the job exists, or neither.\<close>

fun recovery_scan :: "json_codec \<Rightarrow> Binding \<Rightarrow> string \<Rightarrow> string \<Rightarrow> Job list \<Rightarrow> bool jres" where
  "recovery_scan jc b orderID i [] = Inr False"
| "recovery_scan jc b orderID i (job # jobs) =
     (if jbKind job = ''commission_order'' \<and> (jbStatus job = ''unknown'' \<or> executing job) \<and>
         (case parseCommissionIntakeData jc (jbData job) (bdAgentID b) of Inl _ \<Rightarrow> True | Inr key \<Rightarrow> nkOrderID key = orderID)
      then Inl ''commission_intake_unresolved_use_job_recovery''
      else if jbID job = commissionFulfillmentID jc b orderID then Inl ''commission_fulfillment_exists_use_job_recovery''
      else if jbID job = i then Inr True
      else recovery_scan jc b orderID i jobs)"

definition recoverCommissionLocked ::
  "json_codec \<Rightarrow> Binding \<Rightarrow> string \<Rightarrow> int \<Rightarrow> string \<Rightarrow> string \<Rightarrow> journal \<Rightarrow> string jres \<times> journal" where
  "recoverCommissionLocked jc b orderID version src code j =
     (if \<not> Handles b ''commission_order'' then (Inl ''commission_event_not_subscribed'', j)
      else if (case ParseInt64 orderID of None \<Rightarrow> True | Some n \<Rightarrow> n \<le> 0) \<or> version \<le> 0 then (Inl ''invalid_commission_order'', j)
      else (let i = commissionJournalID jc b \<lparr>nkOrderID = orderID, nkOrderVersion = itoa version, nkRecipientRole = ''seller''\<rparr>
            in case recovery_scan jc b orderID i (jsJobs (jState j)) of
                 Inl e \<Rightarrow> (Inl e, j)
               | Inr True \<Rightarrow> (Inr i, j)
               | Inr False \<Rightarrow>
                   (case save_and_signal jc (append_jobs [(newHint b (jNow j) i ''commission_order''
                       (jcOfRecovery jc (src, orderID, version, ''seller'')))\<lparr>jbCode := code\<rparr>] (jState j)) j of
                      (Inl e, j') \<Rightarrow> (Inl e, j')
                    | (Inr _, j') \<Rightarrow> (Inr i, j'))))"

definition RecoverCommission :: "json_codec \<Rightarrow> Binding \<Rightarrow> string \<Rightarrow> int \<Rightarrow> journal \<Rightarrow> string jres \<times> journal" where
  "RecoverCommission jc b orderID version = recoverCommissionLocked jc b orderID version ''operator_recovery'' ''operator_retry''"

definition recorded_in :: "json_codec \<Rightarrow> Binding \<Rightarrow> string \<Rightarrow> Job \<Rightarrow> bool" where
  "recorded_in jc b orderID job \<longleftrightarrow>
     (case jbResult job of None \<Rightarrow> False | Some r \<Rightarrow> idOrderID r = orderID) \<or>
     (case jbReadiness job of None \<Rightarrow> False | Some rd \<Rightarrow> idOrderID (rdResult rd) = orderID) \<or>
     (case jbExecution job of None \<Rightarrow> False | Some c \<Rightarrow> ecOrderID c = orderID) \<or>
     \<not> (completed job \<and> jbData job = []) \<and>
     (if jbKind job = ''commission_order''
      then (case parseCommissionIntakeData jc (jbData job) (bdAgentID b) of Inl _ \<Rightarrow> True | Inr key \<Rightarrow> nkOrderID key = orderID)
      else if jbKind job = ''commission_fulfillment'' \<or> jbKind job = ''commission_clarification''
      then (case jcOrderID jc (jbData job) of None \<Rightarrow> True | Some o' \<Rightarrow> o' = [] \<or> o' = orderID)
      else False)"

definition HasRecordedCommissionOrder :: "json_codec \<Rightarrow> Binding \<Rightarrow> string \<Rightarrow> journal \<Rightarrow> bool" where
  "HasRecordedCommissionOrder jc b orderID j \<longleftrightarrow> (\<exists>job \<in> set (jsJobs (jState j)). recorded_in jc b orderID job)"

definition RecoverUnrecordedCommission :: "json_codec \<Rightarrow> Binding \<Rightarrow> string \<Rightarrow> int \<Rightarrow> journal \<Rightarrow> bool jres \<times> journal" where
  "RecoverUnrecordedCommission jc b orderID version j =
     (if HasRecordedCommissionOrder jc b orderID j then (Inr False, j)
      else (case recoverCommissionLocked jc b orderID version ''notification_migration'' ''notification_migration'' j of
          (Inl e, j') \<Rightarrow> (Inl e, j')
        | (Inr _, j') \<Rightarrow> (Inr True, j')))"

section \<open>Acceptance\<close>

text \<open>The scan of \<open>ReadCommissionReadiness\<close>, with whether an unresolved intake of the order has been seen.\<close>

fun readiness_scan :: "json_codec \<Rightarrow> Binding \<Rightarrow> string \<Rightarrow> int \<Rightarrow> bool \<Rightarrow> Job list \<Rightarrow> Job option jres" where
  "readiness_scan jc b orderID version blocked [] =
     (if blocked then Inl ''commission_intake_unresolved_use_job_recovery'' else Inr None)"
| "readiness_scan jc b orderID version blocked (job # jobs) =
     (if jbKind job \<noteq> ''commission_order'' then readiness_scan jc b orderID version blocked jobs
      else if (case jbReadiness job of
          None \<Rightarrow> False | Some rd \<Rightarrow> idOrderID (rdResult rd) = orderID \<and> idOrderVersion (rdResult rd) = version) then Inr (Some job)
      else readiness_scan jc b orderID version
        (blocked \<or> (case parseCommissionIntakeData jc (jbData job) (bdAgentID b) of
             Inl _ \<Rightarrow> False | Inr key \<Rightarrow> nkOrderID key = orderID \<and> (jbStatus job = ''unknown'' \<or> executing job))) jobs)"

definition ReadCommissionReadiness :: "json_codec \<Rightarrow> Binding \<Rightarrow> string option \<Rightarrow> string \<Rightarrow> int \<Rightarrow> Job option jres" where
  "ReadCommissionReadiness jc b file orderID version =
     (case readJournal jc b file of Inl e \<Rightarrow> Inl e | Inr (s, _) \<Rightarrow> readiness_scan jc b orderID version False (jsJobs s))"

definition ClaimCommissionAcceptance :: "json_codec \<Rightarrow> Binding \<Rightarrow> string \<Rightarrow> int \<Rightarrow> journal \<Rightarrow> Job jres \<times> journal" where
  "ClaimCommissionAcceptance jc b orderID version j =
     (case recoverCommissionLocked jc b orderID version ''operator_recovery'' ''operator_retry'' j of
        (Inl e, j') \<Rightarrow> (Inl e, j')
      | (Inr i, j') \<Rightarrow> with_job i (\<lambda>k job j.
          if jbStatus job \<noteq> ''pending'' then (Inl ''commission_intake_not_pending: inspect the existing job before retrying'', j)
          else (case save jc (set_job k (job\<lparr>jbStatus := ''running''\<rparr>) (jState j)) j of
              (Inl e, j') \<Rightarrow> (Inl e, j')
            | (Inr _, j') \<Rightarrow> (Inr (jsJobs (jState j') ! k), j'))) j')"

section \<open>Fulfilment\<close>

definition HasCommissionFulfillment :: "json_codec \<Rightarrow> Binding \<Rightarrow> string \<Rightarrow> journal \<Rightarrow> bool" where
  "HasCommissionFulfillment jc b orderID j \<longleftrightarrow>
     (\<exists>job \<in> set (jsJobs (jState j)). jbID job = commissionFulfillmentID jc b orderID \<and> jbKind job = ''commission_fulfillment'')"

definition SetCommissionFulfillmentDirectory :: "json_codec \<Rightarrow> string \<Rightarrow> string \<Rightarrow> journal \<Rightarrow> unit jres \<times> journal" where
  "SetCommissionFulfillmentDirectory jc i directory j =
     (if \<not> validCommissionDirectory jc directory then (Inl ''invalid_commission_fulfillment_directory'', j)
      else with_job i (\<lambda>k job j.
        if jbKind job \<noteq> ''commission_fulfillment'' \<or> jbStatus job \<noteq> ''running'' \<or> jbCheckpoint job \<noteq> None \<or>
           jbDirectory job \<noteq> [] \<and> jbCode job \<noteq> ''operator_retry''
        then (Inl ''commission_fulfillment_directory_not_preparable'', j)
        else save jc (set_job k (job\<lparr>jbDirectory := directory, jbCode := ''commission_fulfillment_prepared''\<rparr>) (jState j)) j) j)"

text \<open>\<open>delivery\<close> are the optional arguments of the code.\<close>

definition SaveCommissionCheckpoint ::
  "json_codec \<Rightarrow> string \<Rightarrow> CommissionFulfillmentResult \<Rightarrow> string \<Rightarrow> CommissionDeliveryRetry list \<Rightarrow> journal \<Rightarrow> unit jres \<times> journal" where
  "SaveCommissionCheckpoint jc i result sessionID delivery = with_job i (\<lambda>k job j.
     if jbKind job \<noteq> ''commission_fulfillment'' \<or> jbStatus job \<noteq> ''running'' \<or> jbCode job \<noteq> ''commission_fulfillment_prepared'' \<or>
        jbFulfillment job \<noteq> None \<or> jbCheckpoint job \<noteq> None \<or> fdOutcome (frDecision result) \<noteq> ''artifacts_ready''
     then (Inl ''commission_checkpoint_requires_verified_prepared_job'', j)
     else (case validateCommissionFulfillmentResult jc job result of
         Some e \<Rightarrow> (Inl e, j)
       | None \<Rightarrow>
           (let job' = job\<lparr>jbCheckpoint := Some result, jbSessionID := sessionID\<rparr>
            in case delivery of
                 [] \<Rightarrow> save jc (set_job k job' (jState j)) j
               | [r] \<Rightarrow>
                   (let job'' = job'\<lparr>jbDelivery := Some r\<rparr>
                    in if drAttempts r \<noteq> 1 \<or> drNextAttemptAt r \<noteq> 0 \<or> \<not> validCommissionDelivery jc job''
                       then (Inl ''invalid_commission_delivery_retry'', j)
                       else save jc (set_job k job'' (jState j)) j)
               | _ \<Rightarrow> (Inl ''invalid_commission_delivery_retry'', j))))"

definition saveCommissionFulfillment ::
  "json_codec \<Rightarrow> string \<Rightarrow> CommissionFulfillmentResult \<Rightarrow> string \<Rightarrow> bool \<Rightarrow> journal \<Rightarrow> unit jres \<times> journal" where
  "saveCommissionFulfillment jc i result sessionID sending = with_job i (\<lambda>k job j.
     let resuming = (sending \<and> jbDelivery job \<noteq> None \<and> validCommissionDelivery jc job \<and> jbCode job = ''commission_delivery_retry_pending'')
     in if jbKind job \<noteq> ''commission_fulfillment'' \<or> jbStatus job \<noteq> ''running'' \<or>
           jbCode job \<noteq> ''commission_fulfillment_prepared'' \<and>
             \<not> (sending \<and> jbCode job = ''operator_retry'' \<and> jbCheckpoint job \<noteq> None) \<and> \<not> resuming
        then (Inl ''commission_fulfillment_requires_prepared_job'', j)
        else (case validateCommissionFulfillmentResult jc job result of
            Some e \<Rightarrow> (Inl e, j)
          | None \<Rightarrow>
              if resuming \<and> jbFulfillment job \<noteq> None \<and> jbFulfillment job \<noteq> Some result then (Inl ''commission_delivery_evidence_changed'', j)
              else if sending \<and> jbCheckpoint job \<noteq> None \<and> jbCheckpoint job \<noteq> Some result then (Inl ''commission_checkpoint_changed'', j)
              else saveUpdatedJob jc (set_job k (job\<lparr>jbFulfillment := Some result, jbCheckpoint := None,
                jbStatus := (if sending then ''sending'' else commissionFulfillmentStatus (fdOutcome (frDecision result))),
                jbCode := (if sending then ''commission_delivery_sending'' else ''commission_fulfillment_'' @ fdOutcome (frDecision result)),
                jbSessionID := (if sessionID \<noteq> [] then sessionID else jbSessionID job)\<rparr>) (jState j)) k j))"

definition CompleteCommissionFulfillment ::
  "json_codec \<Rightarrow> string \<Rightarrow> CommissionFulfillmentResult \<Rightarrow> string \<Rightarrow> journal \<Rightarrow> unit jres \<times> journal" where
  "CompleteCommissionFulfillment jc i result sessionID = saveCommissionFulfillment jc i result sessionID False"

definition BeginCommissionDelivery ::
  "json_codec \<Rightarrow> string \<Rightarrow> CommissionFulfillmentResult \<Rightarrow> string \<Rightarrow> journal \<Rightarrow> unit jres \<times> journal" where
  "BeginCommissionDelivery jc i result sessionID j =
     (if fdOutcome (frDecision result) \<noteq> ''artifacts_ready'' then (Inl ''commission_delivery_requires_artifacts'', j)
      else saveCommissionFulfillment jc i result sessionID True j)"

end
