(* ===== verification/JournalSpec.thy ===== *)
theory JournalSpec
  imports JournalOps
begin

text \<open>
  The specification of the journal: a map from the identifiers of jobs to what matters of a job, and what each operation
  may do to the job of an identifier. The second half relates the lists of the code to that map.
\<close>

section \<open>Operations and runs\<close>

datatype jop =
    Reopen
  | Tick int
  | Messages string
  | Hint string string
  | Notification string
  | Claim
  | ClaimKind string
  | Update string string string string string
  | Retry string
  | Reconcile string string string
  | Intake string CommissionIntakeDecision string bool
  | Retire string
  | SaveReadiness string CommissionReadiness
  | QueueReady string string string int
  | QueueClarification string CommissionClarificationJob
  | InitDelivery string string string string
  | Schedule string string string int
  | SetExecution string string int int bool
  | Acknowledge CommissionExecutionReport "int option"
  | Recover string int
  | Migrate string int
  | Accept string int
  | Directory string string
  | Checkpoint string CommissionFulfillmentResult string "CommissionDeliveryRetry list"
  | Fulfil string CommissionFulfillmentResult string
  | Deliver string CommissionFulfillmentResult string

definition got :: "Job option jres \<Rightarrow> Job option" where
  "got r = (case r of Inl _ \<Rightarrow> None | Inr x \<Rightarrow> x)"

text \<open>
  One operation, with the job it hands out for execution. Without a journal only \<open>Reopen\<close> and the clock do anything. A
  crash is a \<open>Reopen\<close> at any point of a run.
\<close>

fun perform :: "json_codec \<Rightarrow> Binding \<Rightarrow> jop \<Rightarrow> journal \<Rightarrow> Job option \<times> journal" where
  "perform jc b Reopen j = (None, snd (OpenJournal jc b j))"
| "perform jc b (Tick t) j = (None, j\<lparr>jNow := t\<rparr>)"
| "perform jc b op j =
     (if \<not> jOpen j then (None, j)
      else (case op of
          Messages raw \<Rightarrow> (None, snd (AddMessages jc b raw j))
        | Hint kind d \<Rightarrow> (None, snd (AddHint jc b kind d j))
        | Notification raw \<Rightarrow> (None, snd (AddCommissionNotification jc b raw j))
        | Claim \<Rightarrow> map_prod got id (next_job jc [] j)
        | ClaimKind kind \<Rightarrow> map_prod got id (NextKind jc kind j)
        | Update i st code sn rp \<Rightarrow> (None, snd (Update_job jc i st code sn rp j))
        | Retry i \<Rightarrow> (None, snd (Retry_job jc i j))
        | Reconcile i a rp \<Rightarrow> (None, snd (Reconcile_job jc i a rp j))
        | Intake i r sn paid \<Rightarrow> (None, snd (CompleteCommissionIntakeAndQueue jc b i r sn paid j))
        | Retire oid \<Rightarrow> (None, snd (RetireCommissionReadiness jc oid j))
        | SaveReadiness i rd \<Rightarrow> (None, snd (SaveCommissionReadiness jc b i rd j))
        | QueueReady i src oid v \<Rightarrow> (None, snd (QueueCommissionFromReadiness jc b i src oid v j))
        | QueueClarification i d \<Rightarrow> (None, snd (QueueCommissionClarification jc b i d j))
        | InitDelivery i buyer seller snap \<Rightarrow> (None, snd (InitializeCommissionDelivery jc i buyer seller snap j))
        | Schedule i code sn now \<Rightarrow> (None, snd (ScheduleCommissionDeliveryRetry jc i code sn now j))
        | SetExecution i oid v rv may \<Rightarrow> (None, snd (SetCommissionExecution jc b i oid v rv may j))
        | Acknowledge rep ack \<Rightarrow> (None, snd (AcknowledgeCommissionExecution jc rep ack j))
        | Recover oid v \<Rightarrow> (None, snd (RecoverCommission jc b oid v j))
        | Migrate oid v \<Rightarrow> (None, snd (RecoverUnrecordedCommission jc b oid v j))
        | Accept oid v \<Rightarrow> map_prod (\<lambda>r. got (map_sum id Some r)) id (ClaimCommissionAcceptance jc b oid v j)
        | Directory i d \<Rightarrow> (None, snd (SetCommissionFulfillmentDirectory jc i d j))
        | Checkpoint i r sn ds \<Rightarrow> (None, snd (SaveCommissionCheckpoint jc i r sn ds j))
        | Fulfil i r sn \<Rightarrow> (None, snd (CompleteCommissionFulfillment jc i r sn j))
        | Deliver i r sn \<Rightarrow> (None, snd (BeginCommissionDelivery jc i r sn j))
        | _ \<Rightarrow> (None, j)))"

fun operate :: "json_codec \<Rightarrow> Binding \<Rightarrow> jop list \<Rightarrow> journal \<Rightarrow> journal" where
  "operate jc b [] j = j"
| "operate jc b (op # ops) j = operate jc b ops (snd (perform jc b op j))"

lemma operate_append: "operate jc b (xs @ ys) j = operate jc b ys (operate jc b xs j)"
  by (induction xs arbitrary: j) simp_all

section \<open>The life of a job\<close>

text \<open>What the specification knows of a job: \<open>vRetry\<close> says that delivery evidence is held, \<open>vReady\<close> that readiness is.\<close>

record view =
  vKind :: string
  vStatus :: string
  vRetry :: bool
  vReady :: bool

definition view :: "Job \<Rightarrow> view" where
  "view job = \<lparr>vKind = jbKind job, vStatus = jbStatus job, vRetry = (jbDelivery job \<noteq> None), vReady = (jbReadiness job \<noteq> None)\<rparr>"

definition table :: "journalState \<Rightarrow> string \<Rightarrow> view option" where
  "table s = map_of (map (\<lambda>job. (jbID job, view job)) (jsJobs s))"

definition arrived :: "string \<Rightarrow> view option" where
  "arrived kind = Some \<lparr>vKind = kind, vStatus = ''pending'', vRetry = False, vReady = False\<rparr>"

definition busy :: "view \<Rightarrow> bool" where
  "busy v \<longleftrightarrow> vStatus v = ''running'' \<or> vStatus v = ''sending''"

definition arrives :: "string \<Rightarrow> view option \<Rightarrow> view option \<Rightarrow> bool" where
  "arrives kind x y \<longleftrightarrow> x = None \<and> y = arrived kind"

text \<open>A job that \<open>P\<close> holds of gets a status that \<open>Q\<close> allows.\<close>

definition turns :: "(view \<Rightarrow> bool) \<Rightarrow> (view \<Rightarrow> string \<Rightarrow> bool) \<Rightarrow> view option \<Rightarrow> view option \<Rightarrow> bool" where
  "turns P Q x y \<longleftrightarrow> (\<exists>v st. x = Some v \<and> P v \<and> Q v st \<and> y = Some (v\<lparr>vStatus := st\<rparr>))"

definition delivery_ends :: "string \<Rightarrow> bool" where
  "delivery_ends st \<longleftrightarrow> st \<in> {''pending'', ''failed'', ''unknown''}"

definition running_kind :: "string \<Rightarrow> view \<Rightarrow> bool" where
  "running_kind kind v \<longleftrightarrow> vKind v = kind \<and> vStatus v = ''running''"

definition released :: "view option \<Rightarrow> view option \<Rightarrow> bool" where
  "released x y \<longleftrightarrow> (\<exists>v. x = Some v \<and> vReady v \<and> y = Some (v\<lparr>vReady := False\<rparr>))"

text \<open>What an operation may do to the job of an identifier.\<close>

fun act :: "json_codec \<Rightarrow> Binding \<Rightarrow> jop \<Rightarrow> string \<Rightarrow> view option \<Rightarrow> view option \<Rightarrow> bool" where
  "act jc b Reopen i x y \<longleftrightarrow>
     y = x \<and> (\<forall>v. x = Some v \<longrightarrow> \<not> busy v) \<or>
     turns busy (\<lambda>v st. if vRetry v then delivery_ends st else st = ''unknown'') x y"
| "act jc b (Messages raw) i x y \<longleftrightarrow> y = x \<or> arrives ''pm_push'' x y"
| "act jc b (Hint kind d) i x y \<longleftrightarrow> y = x \<or> arrives kind x y"
| "act jc b (Notification raw) i x y \<longleftrightarrow> y = x \<or> arrives ''commission_order'' x y"
| "act jc b Claim i x y \<longleftrightarrow> y = x \<or> turns (\<lambda>v. vStatus v = ''pending'' \<and> \<not> commission_kind (vKind v)) (\<lambda>v st. st = ''running'') x y"
| "act jc b (ClaimKind kind) i x y \<longleftrightarrow> y = x \<or> turns (\<lambda>v. vStatus v = ''pending'' \<and> vKind v = kind) (\<lambda>v st. st = ''running'') x y"
| "act jc b (Update i' st code sn rp) i x y \<longleftrightarrow>
     y = x \<or> i = i' \<and> turns (\<lambda>v. validTransition (vStatus v) st \<and> \<not> (vKind v = ''pm_push'' \<and> st = ''completed'')) (\<lambda>v st'. st' = st) x y"
| "act jc b (Retry i') i x y \<longleftrightarrow>
     y = x \<or> i = i' \<and> (\<exists>v rd. x = Some v \<and> (vStatus v = ''failed'' \<or> vStatus v = ''needs_user'') \<and> (rd \<longrightarrow> vReady v) \<and>
       y = Some (v\<lparr>vStatus := ''pending'', vReady := rd\<rparr>))"
| "act jc b (Reconcile i' a rp) i x y \<longleftrightarrow>
     y = x \<or> i = i' \<and> a \<in> {''no_reply'', ''replied'', ''completed'', ''failed''} \<and>
       turns (\<lambda>v. vStatus v \<in> {''unknown'', ''failed'', ''needs_user''} \<and> (vKind v = ''pm_push'' \<longleftrightarrow> a = ''no_reply'' \<or> a = ''replied'')) (\<lambda>v st. st = a) x y"
| "act jc b (Intake i' r sn paid) i x y \<longleftrightarrow>
     y = x \<or> i = i' \<and> turns (running_kind ''commission_order'') (\<lambda>v st. st = commissionResultStatus (idOutcome r)) x y \<or>
     paid \<and> idOutcome r = ''ready'' \<and> i = commissionFulfillmentID jc b (idOrderID r) \<and> arrives ''commission_fulfillment'' x y"
| "act jc b (Retire oid) i x y \<longleftrightarrow> y = x \<or> released x y"
| "act jc b (SaveReadiness i' rd) i x y \<longleftrightarrow>
     y = x \<or> i = i' \<and> (\<exists>v. x = Some v \<and> running_kind ''commission_order'' v \<and> y = Some (v\<lparr>vReady := True\<rparr>))"
| "act jc b (QueueReady i' src oid n) i x y \<longleftrightarrow>
     y = x \<or> released x y \<or> i = commissionFulfillmentID jc b oid \<and> arrives ''commission_fulfillment'' x y \<or>
     i = i' \<and> (\<exists>v rd. x = Some v \<and> running_kind ''commission_order'' v \<and> (rd \<longrightarrow> vReady v) \<and>
       y = Some (v\<lparr>vStatus := ''completed'', vReady := rd\<rparr>))"
| "act jc b (QueueClarification i' d) i x y \<longleftrightarrow>
     y = x \<or> i = i' \<and> turns (running_kind ''commission_order'') (\<lambda>v st. st = ''completed'') x y \<or>
     i = commissionClarificationID jc b (cjOrderID d) (cjRequestID d) \<and> arrives ''commission_clarification'' x y"
| "act jc b (InitDelivery i' buyer seller snap) i x y \<longleftrightarrow>
     y = x \<or> i = i' \<and> (\<exists>v. x = Some v \<and> running_kind ''commission_fulfillment'' v \<and> y = Some (v\<lparr>vRetry := True\<rparr>))"
| "act jc b (Schedule i' code sn now) i x y \<longleftrightarrow> y = x \<or> i = i' \<and> turns (\<lambda>v. busy v \<and> vRetry v) (\<lambda>v. delivery_ends) x y"
| "act jc b (Recover oid n) i x y \<longleftrightarrow> y = x \<or> arrives ''commission_order'' x y"
| "act jc b (Migrate oid n) i x y \<longleftrightarrow> y = x \<or> arrives ''commission_order'' x y"
| "act jc b (Accept oid n) i x y \<longleftrightarrow>
     y = x \<or> arrives ''commission_order'' x y \<or>
     turns (\<lambda>v. vStatus v = ''pending'') (\<lambda>v st. st = ''running'') (if x = None then arrived ''commission_order'' else x) y"
| "act jc b (Checkpoint i' r sn ds) i x y \<longleftrightarrow>
     y = x \<or> i = i' \<and> (\<exists>v. x = Some v \<and> running_kind ''commission_fulfillment'' v \<and> y = Some (v\<lparr>vRetry := True\<rparr>))"
| "act jc b (Fulfil i' r sn) i x y \<longleftrightarrow>
     y = x \<or> i = i' \<and> turns (running_kind ''commission_fulfillment'') (\<lambda>v st. st = commissionFulfillmentStatus (fdOutcome (frDecision r))) x y"
| "act jc b (Deliver i' r sn) i x y \<longleftrightarrow>
     y = x \<or> i = i' \<and> turns (running_kind ''commission_fulfillment'') (\<lambda>v st. st = ''sending'') x y"
| "act jc b op i x y \<longleftrightarrow> y = x"

text \<open>The receipt of a finished job may be dropped when the state is saved.\<close>

definition settles :: "view option \<Rightarrow> view option \<Rightarrow> bool" where
  "settles y z \<longleftrightarrow> z = y \<or> z = None \<and> (\<exists>v. y = Some v \<and> completedStatus (vStatus v) \<and> \<not> vReady v)"

definition permits :: "json_codec \<Rightarrow> Binding \<Rightarrow> jop \<Rightarrow> string \<Rightarrow> view option \<Rightarrow> view option \<Rightarrow> bool" where
  "permits jc b op i x z \<longleftrightarrow> (\<exists>y. act jc b op i x y \<and> settles y z)"

lemma act_refl: "op \<noteq> Reopen \<Longrightarrow> act jc b op i x x"
  by (cases op) simp_all

lemma settles_refl [simp]: "settles x x"
  by (simp add: settles_def)

lemma settles_trans: "settles x y \<Longrightarrow> settles y z \<Longrightarrow> settles x z"
  by (auto simp: settles_def)

lemma settles_None [simp]: "settles None z \<longleftrightarrow> z = None"
  by (auto simp: settles_def)

end
