(* ===== verification/JournalInv.thy ===== *)
theory JournalInv
  imports JournalSpec
begin

text \<open>
  The lists of the code as the map of the specification, and what saving a state does: the invariant of a journal is that
  identifiers are distinct, that the bounds hold, and that the file agrees with the memory.
\<close>

section \<open>Lists of jobs as maps\<close>

abbreviation job_ids :: "journalState \<Rightarrow> string list" where
  "job_ids s \<equiv> map jbID (jsJobs s)"

lemma dom_table: "dom (table s) = set (job_ids s)"
  by (simp add: table_def dom_map_of_conv_image_fst image_image)

lemma table_None: "table s i = None \<longleftrightarrow> i \<notin> set (job_ids s)"
  using dom_table[of s] by auto

lemma table_Some_iff:
  "distinct (job_ids s) \<Longrightarrow> table s i = Some v \<longleftrightarrow> (\<exists>job \<in> set (jsJobs s). jbID job = i \<and> view job = v)"
  unfolding table_def by (subst map_of_eq_Some_iff) (auto simp: comp_def)

lemma table_nth:
  assumes "distinct (job_ids s)" "k < length (jsJobs s)"
  shows "table s (jbID (jsJobs s ! k)) = Some (view (jsJobs s ! k))"
  using assms by (auto simp: table_Some_iff)

lemma table_eqI:
  assumes "distinct (job_ids s)" "\<And>i v. (\<exists>job \<in> set (jsJobs s). jbID job = i \<and> view job = v) \<longleftrightarrow> f i = Some v"
  shows "table s = f"
  by (rule ext, rule option.expand[OF _]) (metis assms option.exhaust_sel option.simps(3) table_Some_iff)+

lemma ids_set_job [simp]:
  "k < length (jsJobs s) \<Longrightarrow> jbID job' = jbID (jsJobs s ! k) \<Longrightarrow> job_ids (set_job k job' s) = job_ids s"
  by (simp add: set_job_def map_update list_update_same_conv)

lemma id_unique: "distinct (job_ids s) \<Longrightarrow> job \<in> set (jsJobs s) \<Longrightarrow> job' \<in> set (jsJobs s) \<Longrightarrow> jbID job = jbID job' \<Longrightarrow> job = job'"
  by (auto simp: distinct_map inj_on_def)

lemma table_set_job:
  assumes "distinct (job_ids s)" "k < length (jsJobs s)" "jbID job' = jbID (jsJobs s ! k)"
  shows "table (set_job k job' s) = (table s)(jbID job' \<mapsto> view job')"
proof (rule table_eqI)
  show "distinct (job_ids (set_job k job' s))" using assms by simp
  have "distinct (jsJobs s)" using assms(1) by (simp add: distinct_map)
  then have "set (jsJobs (set_job k job' s)) = insert job' (set (jsJobs s) - {jsJobs s ! k})"
    using assms(2) by (simp add: set_job_def set_update_distinct)
  then show "(\<exists>job \<in> set (jsJobs (set_job k job' s)). jbID job = i \<and> view job = v) \<longleftrightarrow> ((table s)(jbID job' \<mapsto> view job')) i = Some v" for i v
    using assms id_unique[OF assms(1) _ nth_mem[OF assms(2)]] by (auto simp: table_Some_iff)
qed

lemma move_last:
  assumes "k < length (jsJobs s)"
  shows "set (jsJobs (moveCompletedLast k s)) = set (jsJobs s)"
    and "distinct (job_ids (moveCompletedLast k s)) = distinct (job_ids s)"
proof -
  have *: "take k (jsJobs s) @ jsJobs s ! k # drop (Suc k) (jsJobs s) = jsJobs s" by (rule id_take_nth_drop[OF assms, symmetric])
  have "set (jsJobs s) = set (take k (jsJobs s) @ jsJobs s ! k # drop (Suc k) (jsJobs s))"
    "distinct (job_ids s) = distinct (map jbID (take k (jsJobs s) @ jsJobs s ! k # drop (Suc k) (jsJobs s)))" by (simp_all only: *)
  then show "set (jsJobs (moveCompletedLast k s)) = set (jsJobs s)"
    "distinct (job_ids (moveCompletedLast k s)) = distinct (job_ids s)" by (auto simp: moveCompletedLast_def)
qed

lemma table_move_last [simp]:
  "k < length (jsJobs s) \<Longrightarrow> distinct (job_ids s) \<Longrightarrow> table (moveCompletedLast k s) = table s"
  by (rule table_eqI) (simp_all add: move_last table_Some_iff)

lemma table_append:
  assumes "\<And>job. job \<in> set jobs \<Longrightarrow> view job = v" "set (map jbID jobs) \<inter> set (job_ids s) = {}"
  shows "table (append_jobs jobs s) i = (if i \<in> set (map jbID jobs) then Some v else table s i)"
proof -
  have "map_of (map (\<lambda>job. (jbID job, view job)) jobs) i = (if i \<in> set (map jbID jobs) then Some v else None)"
    using assms(1) by (induction jobs) auto
  moreover have "i \<in> set (map jbID jobs) \<Longrightarrow> table s i = None" using assms(2) by (auto simp: table_None)
  ultimately show ?thesis by (auto simp: append_jobs_def table_def map_add_def split: option.splits)
qed

lemma table_map:
  assumes "\<And>job. jbID (f job) = jbID job" "\<And>job. job \<in> set (jsJobs s) \<Longrightarrow> R (Some (view job)) (Some (view (f job)))" "R None None"
  shows "R (table s i) (table (s\<lparr>jsJobs := map f (jsJobs s)\<rparr>) i)"
proof -
  have "(\<And>job. job \<in> set jobs \<Longrightarrow> R (Some (view job)) (Some (view (f job)))) \<Longrightarrow>
     R (map_of (map (\<lambda>job. (jbID job, view job)) jobs) i) (map_of (map (\<lambda>job. (jbID job, view job)) (map f jobs)) i)" for jobs
    using assms(1,3) by (induction jobs) auto
  from this[of "jsJobs s"] show ?thesis using assms(2) by (simp add: table_def comp_def)
qed

lemma index_of_Some: "index_of i jobs = Some k \<Longrightarrow> k < length jobs \<and> jbID (jobs ! k) = i"
  by (induction i jobs arbitrary: k rule: index_of.induct) (auto split: if_splits)

section \<open>Trimming\<close>

definition plainCount :: "journalState \<Rightarrow> nat" where
  "plainCount s = length (filter (\<lambda>job. completed job \<and> jbReadiness job = None) (jsJobs s))"

lemma plain_count: "length (jsJobs s) - unresolvedCount s - commissionReadinessCount s True = plainCount s"
proof -
  have "length jobs = length (filter (\<lambda>job. \<not> completed job) jobs) + length (filter (\<lambda>job. jbReadiness job \<noteq> None \<and> completed job) jobs) +
    length (filter (\<lambda>job. completed job \<and> jbReadiness job = None) jobs)" for jobs
    by (induction jobs) auto
  from this[of "jsJobs s"] show ?thesis
    by (simp add: unresolvedCount_def commissionReadinessCount_def plainCount_def conj_commute)
qed

lemma drop_some_sub: "set (snd (drop_some n P xs)) \<subseteq> set xs"
  by (induction n P xs rule: drop_some.induct) (auto split: prod.splits)

lemma drop_some_keeps: "x \<in> set xs \<Longrightarrow> \<not> P x \<Longrightarrow> x \<in> set (snd (drop_some n P xs))"
  by (induction n P xs rule: drop_some.induct) (auto split: prod.splits)

lemma drop_some_distinct: "distinct (map f xs) \<Longrightarrow> distinct (map f (snd (drop_some n P xs)))"
proof (induction n P xs rule: drop_some.induct)
  case (2 n P job jobs)
  then show ?case using drop_some_sub[of n P jobs] by (auto split: prod.splits)
qed simp

lemma drop_some_left: "fst (drop_some n P xs) = n - length (filter P xs)"
  by (induction n P xs rule: drop_some.induct) (auto split: prod.splits)

lemma drop_some_count:
  "(\<And>x. P x \<Longrightarrow> Q x) \<Longrightarrow> fst (drop_some n P xs) \<le> n \<and> length (filter Q (snd (drop_some n P xs))) + (n - fst (drop_some n P xs)) = length (filter Q xs)"
  by (induction n P xs rule: drop_some.induct) (force split: prod.splits)+

lemma drop_some_0: "drop_some 0 P xs = (0, xs)"
  by (induction xs) simp_all

definition droppable :: "Job \<Rightarrow> bool" where
  "droppable job \<longleftrightarrow> completed job \<and> jbReadiness job = None"

lemma trim_eq:
  "jsJobs (trimCompleted jc s) =
     (case drop_some (plainCount s - journalMaxCompleted) (\<lambda>job. droppable job \<and> commissionExecutionReport jc job = None) (jsJobs s) of
        (left, kept) \<Rightarrow> snd (drop_some left droppable kept))"
  unfolding trimCompleted_def plain_count Let_def droppable_def[abs_def]
  by (simp add: drop_some_0 split: prod.splits)

lemma trim_set: "set (jsJobs (trimCompleted jc s)) \<subseteq> set (jsJobs s)"
  unfolding trim_eq by (auto split: prod.splits) (metis drop_some_sub snd_conv subset_iff)

lemma trim_keeps: "job \<in> set (jsJobs s) \<Longrightarrow> \<not> droppable job \<Longrightarrow> job \<in> set (jsJobs (trimCompleted jc s))"
  unfolding trim_eq split_beta by (intro drop_some_keeps) simp_all

lemma trim_distinct: "distinct (job_ids s) \<Longrightarrow> distinct (job_ids (trimCompleted jc s))"
  unfolding trim_eq split_beta by (intro drop_some_distinct) simp_all

lemma trim_none: "plainCount s \<le> journalMaxCompleted \<Longrightarrow> trimCompleted jc s = s"
  unfolding trimCompleted_def plain_count by simp

lemma trim_some:
  assumes *: "plainCount s > journalMaxCompleted"
  shows "plainCount (trimCompleted jc s) = journalMaxCompleted"
proof -
  let ?P = "\<lambda>job. droppable job \<and> commissionExecutionReport jc job = None"
  let ?n = "plainCount s - journalMaxCompleted"
  have plain: "plainCount t = length (filter droppable (jsJobs t))" for t by (simp add: plainCount_def droppable_def[abs_def])
  obtain left kept where d: "drop_some ?n ?P (jsJobs s) = (left, kept)" by (cases "drop_some ?n ?P (jsJobs s)")
  have 1: "left \<le> ?n" "length (filter droppable kept) + (?n - left) = plainCount s"
    using drop_some_count[of ?P droppable ?n "jsJobs s"] d by (auto simp: plain)
  then have 2: "length (filter droppable kept) = journalMaxCompleted + left" using * by simp
  have "length (filter droppable (snd (drop_some left droppable kept))) + (left - fst (drop_some left droppable kept)) = length (filter droppable kept)"
    using drop_some_count[of droppable droppable left kept] by auto
  then have "length (filter droppable (snd (drop_some left droppable kept))) = journalMaxCompleted"
    using 2 drop_some_left[of left droppable kept] by simp
  then show ?thesis using d by (simp add: plain trim_eq)
qed

section \<open>Saving\<close>

definition settled :: "json_codec \<Rightarrow> journalState \<Rightarrow> journalState" where
  "settled jc s = trimCompleted jc (s\<lparr>jsJobs := map compact_job (jsJobs s)\<rparr>)"

lemma compact_job_fields [simp]:
  "jbID (compact_job job) = jbID job" "view (compact_job job) = view job" "jbStatus (compact_job job) = jbStatus job"
  "completed (compact_job job) = completed job" "jbReadiness (compact_job job) = jbReadiness job"
  by (simp_all add: compact_job_def view_def completed_def)

lemma trim_sequence [simp]: "jsSequence (trimCompleted jc s) = jsSequence s"
  by (simp add: trimCompleted_def Let_def split: prod.splits)

lemma settled_sequence [simp]: "jsSequence (settled jc s) = jsSequence s"
  by (simp add: settled_def)

lemma settled_distinct: "distinct (job_ids s) \<Longrightarrow> distinct (job_ids (settled jc s))"
  unfolding settled_def by (rule trim_distinct) (simp add: comp_def)

lemma settled_ids: "set (job_ids (settled jc s)) \<subseteq> set (job_ids s)"
  using trim_set[of jc "s\<lparr>jsJobs := map compact_job (jsJobs s)\<rparr>"] by (force simp: settled_def)

lemma plain_compact [simp]: "plainCount (s\<lparr>jsJobs := map compact_job (jsJobs s)\<rparr>) = plainCount s"
  by (simp add: plainCount_def filter_map comp_def)

lemma settled_plain: "plainCount (settled jc s) = min (plainCount s) journalMaxCompleted"
  using trim_some[of "s\<lparr>jsJobs := map compact_job (jsJobs s)\<rparr>" jc] trim_none[of "s\<lparr>jsJobs := map compact_job (jsJobs s)\<rparr>" jc]
  by (cases "plainCount s \<le> journalMaxCompleted") (simp_all add: settled_def)

lemma settled_none: "plainCount s \<le> journalMaxCompleted \<Longrightarrow> settled jc s = s\<lparr>jsJobs := map compact_job (jsJobs s)\<rparr>"
  by (simp add: settled_def trim_none)

lemma table_settled:
  assumes "distinct (job_ids s)"
  shows "settles (table s i) (table (settled jc s) i)"
proof -
  let ?s = "s\<lparr>jsJobs := map compact_job (jsJobs s)\<rparr>"
  have 1: "table ?s i = table s i" using table_map[of compact_job s "(=)" i] by simp
  have d: "distinct (job_ids ?s)" using assms by (simp add: comp_def)
  have d': "distinct (job_ids (settled jc s))" using assms by (rule settled_distinct)
  show ?thesis
  proof (cases "table s i")
    case None
    then have "table (settled jc s) i = None" using settled_ids[of jc s] by (auto simp: table_None)
    then show ?thesis using None by simp
  next
    case (Some v)
    then obtain job where job: "job \<in> set (jsJobs ?s)" "jbID job = i" "view job = v"
      using d 1 table_Some_iff by metis
    show ?thesis
    proof (cases "job \<in> set (jsJobs (settled jc s))")
      case True
      then have "table (settled jc s) i = Some v" using job d' by (auto simp: table_Some_iff)
      then show ?thesis using Some by simp
    next
      case False
      then have c: "droppable job" using job(1) trim_keeps unfolding settled_def by blast
      have "table (settled jc s) i = None"
      proof (rule ccontr)
        assume "table (settled jc s) i \<noteq> None"
        then obtain job' where "job' \<in> set (jsJobs (settled jc s))" "jbID job' = i" by (auto simp: table_None)
        moreover from this have "job' \<in> set (jsJobs ?s)" using trim_set[of jc ?s] unfolding settled_def by blast
        ultimately show False using False job id_unique[OF d] by metis
      qed
      then show ?thesis using c job Some by (auto simp: settles_def view_def completed_def droppable_def)
    qed
  qed
qed

lemma table_settled_none: "plainCount s \<le> journalMaxCompleted \<Longrightarrow> table (settled jc s) = table s"
  using table_map[of compact_job s "(=)"] by (auto simp: settled_none)

definition same :: "journal \<Rightarrow> journal \<Rightarrow> bool" where
  "same j j' \<longleftrightarrow> jState j' = jState j \<and> jDisk j' = jDisk j \<and> jOpen j' = jOpen j"

definition wrote :: "json_codec \<Rightarrow> journalState \<Rightarrow> journal \<Rightarrow> journal \<Rightarrow> bool" where
  "wrote jc s j j' \<longleftrightarrow> jState j' = settled jc s \<and> jDisk j' = Some (jcOfState jc (settled jc s)) \<and> jOpen j' = jOpen j \<and>
     unresolvedCount (settled jc s) \<le> journalMaxPending \<and> commissionReadinessCount (settled jc s) False \<le> journalMaxPending \<and>
     length (jcIndented jc (settled jc s)) + 1 \<le> journalMaxBytes"

text \<open>An operation leaves the journal alone, or it saves a state that \<open>P\<close> holds of.\<close>

definition leads :: "json_codec \<Rightarrow> (journalState \<Rightarrow> bool) \<Rightarrow> journal \<Rightarrow> journal \<Rightarrow> bool" where
  "leads jc P j j' \<longleftrightarrow> same j j' \<or> (\<exists>s. P s \<and> wrote jc s j j')"

lemma same_refl [simp]: "same j j"
  by (simp add: same_def)

lemma leads_refl [simp]: "leads jc P j j"
  by (simp add: leads_def)

lemma signal_same [simp]: "same j (signal j') = same j j'" "wrote jc s j (signal j') = wrote jc s j j'" "jState (signal j') = jState j'"
  "jDisk (signal j') = jDisk j'" "jOpen (signal j') = jOpen j'" "jNow (signal j') = jNow j'"
  by (simp_all add: same_def wrote_def signal_def)

lemma save_result: "case save jc s j of (Inl e, j') \<Rightarrow> same j j' | (Inr _, j') \<Rightarrow> wrote jc s j j'"
  by (auto simp: save_def Let_def WriteJSON_def settled_def[symmetric] same_def wrote_def not_less split: list.splits option.splits sum.splits prod.splits)

lemma leads_save: "P s \<Longrightarrow> leads jc P j (snd (save jc s j))"
  using save_result[where jc = jc and s = s and j = j] by (auto simp: leads_def split: prod.splits sum.splits)

lemma leads_save_and_signal: "P s \<Longrightarrow> leads jc P j (snd (save_and_signal jc s j))"
  using save_result[where jc = jc and s = s and j = j] by (auto simp: leads_def save_and_signal_def split: prod.splits sum.splits)

lemma leads_saveUpdatedJob:
  "(completed (jsJobs s ! k) \<Longrightarrow> P (moveCompletedLast k s)) \<Longrightarrow> (\<not> completed (jsJobs s ! k) \<Longrightarrow> P s) \<Longrightarrow> leads jc P j (snd (saveUpdatedJob jc s k j))"
  using save_result[where jc = jc and j = j and s = "if completed (jsJobs s ! k) then moveCompletedLast k s else s"]
  by (auto simp: leads_def saveUpdatedJob_def split: prod.splits sum.splits if_splits)

lemma leads_with_job:
  "(\<And>k. k < length (jsJobs (jState j)) \<Longrightarrow> jbID (jsJobs (jState j) ! k) = i \<Longrightarrow> leads jc P j (snd (f k (jsJobs (jState j) ! k) j))) \<Longrightarrow>
   leads jc P j (snd (with_job i f j))"
  using index_of_Some[of i "jsJobs (jState j)"] by (auto simp: with_job_def split: option.splits)

end
