(* ===== verification/JournalSteps.thy ===== *)
theory JournalSteps
  imports JournalInv
begin

text \<open>Every operation of the journal does what its specification permits and keeps the identifiers of the jobs distinct.\<close>

section \<open>States that may be saved\<close>

text \<open>The identifiers of periodic hints are those of a sequence number that has been used.\<close>

definition periodic :: "string set" where
  "periodic = {''profile_review_due'', ''maintenance_due''}"

definition hint_id :: "json_codec \<Rightarrow> Binding \<Rightarrow> string \<Rightarrow> nat \<Rightarrow> string" where
  "hint_id jc b kind m = journalID jc [bdScope b, bdRevision b, kind, nat_dec m]"

definition used :: "json_codec \<Rightarrow> Binding \<Rightarrow> nat \<Rightarrow> string \<Rightarrow> bool" where
  "used jc b n i \<longleftrightarrow> (\<forall>kind \<in> periodic. \<forall>m. i = hint_id jc b kind m \<longrightarrow> m \<le> n)"

definition sound :: "json_codec \<Rightarrow> Binding \<Rightarrow> nat \<Rightarrow> journalState \<Rightarrow> bool" where
  "sound jc b n s \<longleftrightarrow>
     distinct (job_ids s) \<and> (\<forall>i \<in> set (job_ids s). used jc b (unat (jsSequence s)) i) \<and> unat (jsSequence s) \<le> n"

definition next_ok :: "json_codec \<Rightarrow> Binding \<Rightarrow> nat \<Rightarrow> jop \<Rightarrow> journalState \<Rightarrow> journalState \<Rightarrow> bool" where
  "next_ok jc b n op s s' \<longleftrightarrow> sound jc b (Suc n) s' \<and> (\<forall>i. act jc b op i (table s i) (table s' i))"

lemma sound_Suc: "sound jc b n s \<Longrightarrow> sound jc b (Suc n) s"
  by (simp add: sound_def)

lemma sound_distinct: "sound jc b n s \<Longrightarrow> distinct (job_ids s)"
  by (simp add: sound_def)

lemma sound_ids: "sound jc b n s \<Longrightarrow> job_ids s' = job_ids s \<Longrightarrow> jsSequence s' = jsSequence s \<Longrightarrow> sound jc b n s'"
  by (simp add: sound_def)

lemma sound_settled: "sound jc b n s \<Longrightarrow> sound jc b n (settled jc s)"
  using settled_ids[of jc s] settled_distinct[of s jc] by (auto simp: sound_def)

lemma jobs_cong [simp]: "table (s\<lparr>jsSessions := x\<rparr>) = table s" "jsJobs (set_job k job s) = (jsJobs s)[k := job]"
  "jsSequence (set_job k job s) = jsSequence s" "jsJobs (append_jobs jobs s) = jsJobs s @ jobs"
  "jsSequence (append_jobs jobs s) = jsSequence s" "jsSequence (moveCompletedLast k s) = jsSequence s"
  by (simp_all add: table_def set_job_def append_jobs_def moveCompletedLast_def)

lemma next_ok_set:
  assumes "sound jc b n s" "k < length (jsJobs s)" "op \<noteq> Reopen" "jbID job' = jbID (jsJobs s ! k)"
    "act jc b op (jbID job') (Some (view (jsJobs s ! k))) (Some (view job'))"
  shows "next_ok jc b n op s (set_job k job' s)"
proof -
  have "distinct (job_ids s)" using assms(1) by (rule sound_distinct)
  then have "act jc b op i (table s i) (table (set_job k job' s) i)" for i
    using assms act_refl[OF assms(3), where jc = jc and b = b and i = i] table_nth[of s k]
    by (simp add: table_set_job)
  moreover have "sound jc b (Suc n) (set_job k job' s)"
    using assms sound_ids[OF sound_Suc[OF assms(1)], of "set_job k job' s"] ids_set_job[of k s job'] by simp
  ultimately show ?thesis by (simp add: next_ok_def)
qed

lemma next_ok_sessions [simp]: "next_ok jc b n op s (s'\<lparr>jsSessions := x\<rparr>) = next_ok jc b n op s s'"
  by (simp add: next_ok_def sound_def table_def)

lemma next_ok_move:
  "k < length (jsJobs s') \<Longrightarrow> next_ok jc b n op s s' \<Longrightarrow> next_ok jc b n op s (moveCompletedLast k s')"
  using move_last[of k s'] by (auto simp: next_ok_def sound_def)

text \<open>The rule for the operations that change one job and save.\<close>

lemma leads_updated:
  assumes "k < length (jsJobs s')" "next_ok jc b n op (jState j) s'"
  shows "leads jc (next_ok jc b n op (jState j)) j (snd (saveUpdatedJob jc s' k j))"
  by (rule leads_saveUpdatedJob) (simp_all add: assms next_ok_move)

lemma arrives_act: "table s i = None \<Longrightarrow> arrives kind (table s i) (arrived kind)"
  by (simp add: arrives_def)

lemma next_ok_append:
  assumes s': "next_ok jc b n op s s'" "set (job_ids s') = set (job_ids s)" "op \<noteq> Reopen"
    and jobs: "distinct (map jbID jobs)" "set (map jbID jobs) \<inter> set (job_ids s) = {}"
    and new: "\<And>job. job \<in> set jobs \<Longrightarrow> Some (view job) = arrived kind \<and> act jc b op (jbID job) None (arrived kind) \<and> used jc b 0 (jbID job)"
  shows "next_ok jc b n op s (append_jobs jobs s')"
proof -
  have "act jc b op i (table s i) (table (append_jobs jobs s') i)" for i
  proof (cases "i \<in> set (map jbID jobs)")
    case True
    then obtain job where job: "job \<in> set jobs" "i = jbID job" by auto
    have "i \<notin> set (job_ids s)" using True jobs(2) by blast
    then have "table s i = None" by (simp only: table_None not_False_eq_True)
    moreover have "table (append_jobs jobs s') i = arrived kind"
      using table_append[of jobs "the (arrived kind)" s' i] new jobs(2) s'(2) True by (auto simp: arrived_def)
    ultimately show ?thesis using new[OF job(1)] job(2) by simp
  next
    case False
    then have "table (append_jobs jobs s') i = table s' i"
      using table_append[of jobs "the (arrived kind)" s' i] new jobs(2) s'(2) by (auto simp: arrived_def)
    then show ?thesis using s'(1) by (simp add: next_ok_def)
  qed
  moreover have "sound jc b (Suc n) (append_jobs jobs s')"
  proof -
    have "sound jc b (Suc n) s'" using s'(1) by (simp add: next_ok_def)
    moreover have "distinct (job_ids (append_jobs jobs s'))" using calculation jobs s'(2) by (auto simp: sound_def append_jobs_def)
    moreover have "used jc b m (jbID job)" if "job \<in> set jobs" for job m using new[OF that] by (auto simp: used_def)
    ultimately show ?thesis by (auto simp: sound_def append_jobs_def)
  qed
  ultimately show ?thesis by (simp add: next_ok_def)
qed

lemma next_ok_refl: "sound jc b n s \<Longrightarrow> op \<noteq> Reopen \<Longrightarrow> next_ok jc b n op s s"
  by (simp add: next_ok_def sound_Suc act_refl)

lemma next_ok_admit:
  assumes "next_ok jc b n op s s'" "set (job_ids s') = set (job_ids s)" "op \<noteq> Reopen"
    "Some (view job) = arrived kind" "act jc b op (jbID job) None (arrived kind)" "used jc b 0 (jbID job)"
  shows "next_ok jc b n op s (admit job s')"
  using assms next_ok_append[of jc b n op s s' "[job]" kind] by (simp add: admit_def)

lemma view_newHint: "Some (view (newHint b now i kind d)) = arrived kind"
  by (simp add: view_def newHint_def arrived_def)

lemma newHint_ID [simp]: "jbID (newHint b now i kind d) = i"
  by (simp add: newHint_def)

section \<open>Identifiers\<close>

definition collision_free :: "json_codec \<Rightarrow> bool" where
  "collision_free jc \<longleftrightarrow> inj (jcDigest jc)"

lemma journalID_inject: "collision_free jc \<Longrightarrow> journalID jc xs = journalID jc ys \<longleftrightarrow> xs = ys"
  by (auto simp: collision_free_def journalID_def inj_def)

lemma used_other: "collision_free jc \<Longrightarrow> (\<And>kind m. kind \<in> periodic \<Longrightarrow> parts \<noteq> [bdScope b, bdRevision b, kind, nat_dec m]) \<Longrightarrow> used jc b 0 (journalID jc parts)"
  by (auto simp: used_def hint_id_def journalID_inject)

lemma used_commission:
  assumes "collision_free jc"
  shows "used jc b 0 (commissionJournalID jc b key)" "used jc b 0 (commissionFulfillmentID jc b oid)" "used jc b 0 (commissionClarificationID jc b oid rid)"
  unfolding commissionJournalID_def commissionFulfillmentID_def commissionClarificationID_def
  by (rule used_other[OF assms]; auto simp: periodic_def)+


section \<open>Operations on one job\<close>

lemma leads_guard: "(\<not> c \<Longrightarrow> leads jc P j (snd x)) \<Longrightarrow> leads jc P j (snd (if c then (r, j) else x))"
  by simp

lemmas one_job = leads_save leads_save_and_signal leads_updated next_ok_set

lemma Update_leads:
  assumes "sound jc b n (jState j)"
  shows "leads jc (next_ok jc b n (Update i st code sn rp) (jState j)) j (snd (Update_job jc i st code sn rp j))"
  unfolding Update_job_def
  by (rule leads_with_job) (auto simp: Let_def turns_def view_def intro!: one_job assms split: option.splits)

lemma Retry_leads:
  assumes "sound jc b n (jState j)"
  shows "leads jc (next_ok jc b n (Retry i) (jState j)) j (snd (Retry_job jc i j))"
  unfolding Retry_job_def
  by (rule leads_with_job) (auto simp: view_def intro!: one_job assms split: option.splits)

lemma Reconcile_leads:
  assumes "sound jc b n (jState j)"
  shows "leads jc (next_ok jc b n (Reconcile i a rp) (jState j)) j (snd (Reconcile_job jc i a rp j))"
  unfolding Reconcile_job_def Let_def
  by (intro leads_guard leads_with_job leads_save) (simp add: turns_def view_def next_ok_move next_ok_set assms)

lemma SaveReadiness_leads:
  assumes "sound jc b n (jState j)"
  shows "leads jc (next_ok jc b n (SaveReadiness i rd) (jState j)) j (snd (SaveCommissionReadiness jc b i rd j))"
  unfolding SaveCommissionReadiness_def
  by (intro leads_guard leads_with_job leads_save next_ok_set assms) (simp_all add: running_kind_def view_def)

lemma InitDelivery_leads:
  assumes "sound jc b n (jState j)"
  shows "leads jc (next_ok jc b n (InitDelivery i buyer seller snap) (jState j)) j (snd (InitializeCommissionDelivery jc i buyer seller snap j))"
  unfolding InitializeCommissionDelivery_def
  by (rule leads_with_job) (auto simp: Let_def running_kind_def view_def intro!: one_job assms split: option.splits)

lemma Schedule_leads:
  assumes "sound jc b n (jState j)"
  shows "leads jc (next_ok jc b n (Schedule i code sn now) (jState j)) j (snd (ScheduleCommissionDeliveryRetry jc i code sn now j))"
proof -
  have *: "snd (case r of (Inl e, j') \<Rightarrow> (Inl e, j') | (Inr _, j') \<Rightarrow> (Inr True, j')) = snd r" for r :: "unit jres \<times> journal"
    by (simp split: prod.splits sum.splits)
  show ?thesis unfolding ScheduleCommissionDeliveryRetry_def
    by (rule leads_with_job) (auto simp: * scheduled_def Let_def turns_def busy_def executing_def delivery_ends_def view_def
      intro!: one_job assms split: option.splits)
qed

lemma SetExecution_leads:
  assumes "sound jc b n (jState j)"
  shows "leads jc (next_ok jc b n (SetExecution i oid v rv may) (jState j)) j (snd (SetCommissionExecution jc b i oid v rv may j))"
  unfolding SetCommissionExecution_def
  by (intro leads_guard leads_with_job leads_save next_ok_set assms) (simp_all add: view_def)

lemma Acknowledge_leads:
  assumes "sound jc b n (jState j)"
  shows "leads jc (next_ok jc b n (Acknowledge rep ack) (jState j)) j (snd (AcknowledgeCommissionExecution jc rep ack j))"
  unfolding AcknowledgeCommissionExecution_def
  by (auto simp: Let_def view_def dest!: index_of_Some intro!: one_job assms split: option.splits)

lemma Directory_leads:
  assumes "sound jc b n (jState j)"
  shows "leads jc (next_ok jc b n (Directory i d) (jState j)) j (snd (SetCommissionFulfillmentDirectory jc i d j))"
  unfolding SetCommissionFulfillmentDirectory_def
  by (intro leads_guard leads_with_job leads_save next_ok_set assms) (simp_all add: view_def)

lemma Checkpoint_leads:
  assumes "sound jc b n (jState j)"
  shows "leads jc (next_ok jc b n (Checkpoint i r sn ds) (jState j)) j (snd (SaveCommissionCheckpoint jc i r sn ds j))"
  unfolding SaveCommissionCheckpoint_def
  by (rule leads_with_job)
     (auto simp: Let_def running_kind_def view_def intro!: one_job assms split: option.splits list.splits)

lemma fulfillment_leads:
  assumes "sound jc b n (jState j)" "op \<noteq> Reopen"
    "\<And>v. running_kind ''commission_fulfillment'' v \<Longrightarrow>
       act jc b op i (Some v) (Some (v\<lparr>vStatus := if sending then ''sending'' else commissionFulfillmentStatus (fdOutcome (frDecision r))\<rparr>))"
  shows "leads jc (next_ok jc b n op (jState j)) j (snd (saveCommissionFulfillment jc i r sn sending j))"
  unfolding saveCommissionFulfillment_def Let_def
proof (rule leads_with_job, goal_cases)
  case (1 k)
  show ?case
    using assms(3)[of "view (jsJobs (jState j) ! k)"] 1
    by (auto simp: running_kind_def view_def intro!: one_job assms(1,2) split: option.splits)
qed

lemma Fulfil_leads:
  assumes "sound jc b n (jState j)"
  shows "leads jc (next_ok jc b n (Fulfil i r sn) (jState j)) j (snd (CompleteCommissionFulfillment jc i r sn j))"
  unfolding CompleteCommissionFulfillment_def
  by (rule fulfillment_leads[OF assms]) (auto simp: turns_def)

lemma Deliver_leads:
  assumes "sound jc b n (jState j)"
  shows "leads jc (next_ok jc b n (Deliver i r sn) (jState j)) j (snd (BeginCommissionDelivery jc i r sn j))"
  unfolding BeginCommissionDelivery_def
  by (auto simp: turns_def intro!: fulfillment_leads[OF assms])

end
