(* ===== verification/JournalMoves.thy ===== *)
theory JournalMoves
  imports JournalSteps
begin

text \<open>The operations of the journal that admit, hand out or recover jobs, against the specification.\<close>

section \<open>Admitting jobs\<close>

text \<open>Conversations are not named like periodic hints.\<close>

fun clean :: "json_codec \<Rightarrow> jop \<Rightarrow> bool" where
  "clean jc (Messages raw) \<longleftrightarrow> (case jcMessages jc raw of None \<Rightarrow> True | Some ms \<Rightarrow> (\<forall>m \<in> set ms. mgConversation m \<notin> periodic))"
| "clean jc op \<longleftrightarrow> True"

lemma collect_messages_jobs:
  assumes "collect_messages jc b now seen ms = Inr jobs"
  shows "distinct (map jbID jobs) \<and> set (map jbID jobs) \<inter> set seen = {} \<and>
    (\<forall>job \<in> set jobs. Some (view job) = arrived ''pm_push'' \<and> (\<exists>m \<in> set ms. inbound b m \<and> jbMessage job = Some m \<and> jbID job = message_id jc b m))"
  using assms
proof (induction jc b now seen ms arbitrary: jobs rule: collect_messages.induct)
  case (2 jc b now seen m ms)
  show ?case
  proof (cases "inbound b m \<and> message_id jc b m \<notin> set seen")
    case False
    then show ?thesis using 2 by (auto split: if_splits)
  next
    case True
    with 2 obtain rest where rest: "collect_messages jc b now (message_id jc b m # seen) ms = Inr rest"
      "jobs = (newHint b now (message_id jc b m) ''pm_push'' [])\<lparr>jbMessage := Some m\<rparr> # rest"
      by (auto split: if_splits sum.splits)
    have "Some (view ((newHint b now (message_id jc b m) ''pm_push'' [])\<lparr>jbMessage := Some m\<rparr>)) = arrived ''pm_push''"
      by (simp add: view_def newHint_def arrived_def)
    moreover have "\<not> (TrimSpace (mgID m) = [] \<or> TrimSpace (mgConversation m) = [] \<or> TrimSpace (mgSender m) = [])"
      using 2(4) True by (auto split: if_splits)
    ultimately show ?thesis using 2(3) True rest by (auto simp: newHint_def)
  qed
qed simp

lemma collect_commands_jobs:
  assumes "collect_commands jc b now obj seen cs = Inr jobs"
  shows "distinct (map jbID jobs) \<and> set (map jbID jobs) \<inter> set seen = {} \<and>
    (\<forall>job \<in> set jobs. Some (view job) = arrived ''control_pending'' \<and> (\<exists>c. jbID job = journalID jc [bdScope b, bdRevision b, ''control_pending'', c]))"
  using assms
proof (induction jc b now obj seen cs arbitrary: jobs rule: collect_commands.induct)
  case (2 jc b now obj seen c cs)
  let ?i = "journalID jc [bdScope b, bdRevision b, ''control_pending'', c]"
  show ?case
  proof (cases "?i \<in> set seen")
    case True
    then show ?thesis using 2 by (auto simp: Let_def split: if_splits)
  next
    case False
    with 2 obtain rest where rest: "collect_commands jc b now obj (?i # seen) cs = Inr rest"
      "jobs = newHint b now ?i ''control_pending'' (jcOfFields jc (AList.update ''command_ids'' (jcOfTexts jc [c]) obj)) # rest"
      by (auto simp: Let_def split: if_splits sum.splits)
    then show ?thesis using 2 False view_newHint by (auto simp: Let_def split: if_splits)
  qed
qed simp

lemma Messages_leads:
  assumes "sound jc b n (jState j)" "collision_free jc" "clean jc (Messages raw)"
  shows "leads jc (next_ok jc b n (Messages raw) (jState j)) j (snd (AddMessages jc b raw j))"
proof -
  have "next_ok jc b n (Messages raw) (jState j) (append_jobs jobs (jState j))"
    if "jcMessages jc raw = Some ms" "collect_messages jc b (jNow j) (map jbID (jsJobs (jState j))) ms = Inr jobs" for ms jobs
    using collect_messages_jobs[OF that(2)] that(1) assms(3)
    by (intro next_ok_append[where kind = "''pm_push''"] next_ok_refl assms)
       (fastforce simp: arrives_def message_id_def intro!: used_other[OF assms(2)])+
  then show ?thesis unfolding AddMessages_def
    by (auto intro!: leads_save_and_signal split: option.splits sum.splits list.splits)
qed

lemma hint_next_ok:
  assumes "sound jc b n s" "collision_free jc" "Suc n < 2 ^ 64" "kind \<in> periodic"
  shows "next_ok jc b n (Hint kind d) s
    (append_jobs [newHint b now (hint_id jc b kind (unat (jsSequence s + 1))) kind d] (s\<lparr>jsSequence := jsSequence s + 1\<rparr>))"
proof -
  let ?i = "hint_id jc b kind (unat (jsSequence s + 1))"
  let ?s = "append_jobs [newHint b now ?i kind d] (s\<lparr>jsSequence := jsSequence s + 1\<rparr>)"
  have seq: "unat (jsSequence s + 1) = Suc (unat (jsSequence s))" using assms(1,3) by (simp add: sound_def unat_word_ariths)
  have fresh: "?i \<notin> set (job_ids s)"
  proof
    assume "?i \<in> set (job_ids s)"
    then have "used jc b (unat (jsSequence s)) ?i" using assms(1) unfolding sound_def by blast
    then have "unat (jsSequence s + 1) \<le> unat (jsSequence s)" using assms(4) unfolding used_def by blast
    then show False by (simp add: seq)
  qed
  have "used jc b (unat (jsSequence s + 1)) ?i" using assms(2) by (auto simp: used_def hint_id_def journalID_inject)
  moreover have "used jc b (unat (jsSequence s + 1)) i" if "used jc b (unat (jsSequence s)) i" for i using that by (fastforce simp: used_def seq)
  ultimately have "sound jc b (Suc n) ?s" using assms(1) fresh by (auto simp: sound_def append_jobs_def seq)
  moreover have "act jc b (Hint kind d) i (table s i) (table ?s i)" for i
    using table_append[of "[newHint b now ?i kind d]" "the (arrived kind)" "s\<lparr>jsSequence := jsSequence s + 1\<rparr>" i] fresh view_newHint[of b now ?i kind d]
      table_None[of s i]
    by (auto simp: arrives_def arrived_def table_def)
  ultimately show ?thesis by (simp add: next_ok_def)
qed

lemma Hint_leads:
  assumes "sound jc b n (jState j)" "collision_free jc" "Suc n < 2 ^ 64"
  shows "leads jc (next_ok jc b n (Hint kind d) (jState j)) j (snd (AddHint jc b kind d j))"
proof -
  have commands: "next_ok jc b n (Hint ''control_pending'' d) (jState j) (append_jobs jobs (jState j))"
    if "collect_commands jc b (jNow j) obj (map jbID (jsJobs (jState j))) ids = Inr jobs" for obj ids jobs
    using collect_commands_jobs[OF that]
    by (intro next_ok_append[where kind = "''control_pending''"] next_ok_refl assms)
       (fastforce simp: arrives_def periodic_def intro!: used_other[OF assms(2)])+
  have sequence: "next_ok jc b n (Hint kind d) (jState j) (append_jobs [newHint b (jNow j)
      (journalID jc [bdScope b, bdRevision b, kind, nat_dec (unat (jsSequence (jState j) + 1))]) kind d] ((jState j)\<lparr>jsSequence := jsSequence (jState j) + 1\<rparr>))"
    if "kind \<in> periodic" using hint_next_ok[OF assms that] by (simp add: hint_id_def)
  show ?thesis
  proof (cases "kind \<in> {''profile_review_due'', ''maintenance_due'', ''control_pending''}")
    case True
    then have "kind = ''control_pending'' \<or> kind \<in> periodic" by (auto simp: periodic_def)
    then show ?thesis
    proof
      assume kind: "kind = ''control_pending''"
      show ?thesis unfolding AddHint_def kind
        by (auto intro!: leads_save_and_signal commands split: option.splits sum.splits list.splits)
    next
      assume kind: "kind \<in> periodic"
      then have "kind \<noteq> ''control_pending''" by (auto simp: periodic_def)
      then show ?thesis using True unfolding AddHint_def Let_def
        by (auto intro!: leads_save_and_signal sequence[OF kind] split: option.splits)
    qed
  qed (auto simp: AddHint_def)
qed

lemma Notification_leads:
  assumes "sound jc b n (jState j)" "collision_free jc"
  shows "leads jc (next_ok jc b n (Notification raw) (jState j)) j (snd (AddCommissionNotification jc b raw j))"
  unfolding AddCommissionNotification_def Let_def
  by (auto simp: view_newHint arrives_def used_commission[OF assms(2)] intro!: leads_save_and_signal next_ok_append next_ok_refl assms split: sum.splits)

lemma view_code [simp]: "view (job\<lparr>jbCode := c\<rparr>) = view job"
  by (simp add: view_def)

lemma recovery_leads:
  assumes "sound jc b n (jState j)" "collision_free jc" "op \<noteq> Reopen" "\<And>i. act jc b op i None (arrived ''commission_order'')"
  shows "leads jc (next_ok jc b n op (jState j)) j (snd (recoverCommissionLocked jc b oid v src code j))"
proof -
  let ?i = "commissionJournalID jc b \<lparr>nkOrderID = oid, nkOrderVersion = itoa v, nkRecipientRole = ''seller''\<rparr>"
  have scan: "i \<notin> jbID ` set jobs" if "recovery_scan jc b oid i jobs = Inr False" for i jobs
    using that by (induction jc b oid i jobs rule: recovery_scan.induct) (auto split: if_splits)
  have "next_ok jc b n op (jState j) (append_jobs [(newHint b (jNow j) ?i ''commission_order'' d)\<lparr>jbCode := code\<rparr>] (jState j))"
    if "recovery_scan jc b oid ?i (jsJobs (jState j)) = Inr False" for d
    using scan[OF that] assms(4)
    by (intro next_ok_append[where kind = "''commission_order''"] next_ok_refl assms) (auto simp: view_newHint used_commission[OF assms(2)])
  then have *: "leads jc (next_ok jc b n op (jState j)) j
      (snd (save_and_signal jc (append_jobs [(newHint b (jNow j) ?i ''commission_order'' d)\<lparr>jbCode := code\<rparr>] (jState j)) j))"
    if "recovery_scan jc b oid ?i (jsJobs (jState j)) = Inr False" for d
    using that by (intro leads_save_and_signal)
  have pass: "snd (case r of (Inl e, j') \<Rightarrow> (Inl e, j') | (Inr _, j') \<Rightarrow> (Inr x, j')) = snd r" for r :: "unit jres \<times> journal" and x :: string
    by (simp split: prod.splits sum.splits)
  show ?thesis unfolding recoverCommissionLocked_def Let_def by (auto simp: pass * split: sum.splits bool.splits option.splits)
qed

lemma Recover_leads:
  assumes "sound jc b n (jState j)" "collision_free jc"
  shows "leads jc (next_ok jc b n (Recover oid v) (jState j)) j (snd (RecoverCommission jc b oid v j))"
  unfolding RecoverCommission_def by (rule recovery_leads[OF assms]) (simp_all add: arrives_def)

lemma Migrate_leads:
  assumes "sound jc b n (jState j)" "collision_free jc"
  shows "leads jc (next_ok jc b n (Migrate oid v) (jState j)) j (snd (RecoverUnrecordedCommission jc b oid v j))"
proof -
  have pass: "snd (case r of (Inl e, j') \<Rightarrow> (Inl e, j') | (Inr _, j') \<Rightarrow> (Inr True, j')) = snd r" for r :: "string jres \<times> journal"
    by (simp split: prod.splits sum.splits)
  show ?thesis unfolding RecoverUnrecordedCommission_def using recovery_leads[OF assms, of "Migrate oid v"] by (simp add: pass arrives_def)
qed

section \<open>Commissions\<close>

lemma ids_set: "k < length (jsJobs s) \<Longrightarrow> jbID job' = jbID (jsJobs s ! k) \<Longrightarrow> set (job_ids (set_job k job' s)) = set (job_ids s)"
  by (simp only: ids_set_job)

lemma admit_length: "k < length (jsJobs s) \<Longrightarrow> k < length (jsJobs (admit job s))"
  by (simp add: admit_def)

lemma fulfillment_hint_view:
  "Some (view (fulfillment_hint jc b now oid v i r fp)) = arrived ''commission_fulfillment''"
  "jbID (fulfillment_hint jc b now oid v i r fp) = commissionFulfillmentID jc b oid"
  by (simp_all add: fulfillment_hint_def view_newHint)

lemma Intake_leads:
  assumes "sound jc b n (jState j)" "collision_free jc"
  shows "leads jc (next_ok jc b n (Intake i r sn paid) (jState j)) j (snd (CompleteCommissionIntakeAndQueue jc b i r sn paid j))"
proof -
  let ?op = "Intake i r sn paid"
  let ?hint = "fulfillment_hint jc b (jNow j) (idOrderID r) (idOrderVersion r) i r []"
  have one: "next_ok jc b n ?op (jState j) (set_job k job' (jState j))"
    "set (job_ids (set_job k job' (jState j))) = set (job_ids (jState j))"
    if "k < length (jsJobs (jState j))" "jbID (jsJobs (jState j) ! k) = i" "jbID job' = i"
      "running_kind ''commission_order'' (view (jsJobs (jState j) ! k))"
      "view job' = (view (jsJobs (jState j) ! k))\<lparr>vStatus := commissionResultStatus (idOutcome r)\<rparr>" for k job'
  proof -
    show "next_ok jc b n ?op (jState j) (set_job k job' (jState j))"
      using that by (intro next_ok_set assms) (auto simp: turns_def)
    show "set (job_ids (set_job k job' (jState j))) = set (job_ids (jState j))" using that by (intro ids_set) simp_all
  qed
  have two: "next_ok jc b n ?op (jState j) (if paid \<and> idOutcome r = ''ready'' then admit ?hint s else s)"
    if "next_ok jc b n ?op (jState j) s" "set (job_ids s) = set (job_ids (jState j))" for s
    using that by (auto intro!: next_ok_admit[where kind = "''commission_fulfillment''"]
      simp: fulfillment_hint_view arrives_def used_commission[OF assms(2)])
  have "leads jc (next_ok jc b n ?op (jState j)) j (snd (saveUpdatedJob jc
      (if paid \<and> idOutcome r = ''ready'' then admit ?hint (set_job k job' (jState j)) else set_job k job' (jState j)) k j))"
    if "k < length (jsJobs (jState j))" "jbID (jsJobs (jState j) ! k) = i" "jbID job' = i"
      "running_kind ''commission_order'' (view (jsJobs (jState j) ! k))"
      "view job' = (view (jsJobs (jState j) ! k))\<lparr>vStatus := commissionResultStatus (idOutcome r)\<rparr>" for k job'
    using that by (intro leads_updated two one) (simp_all add: admit_length)
  note save = this
  show ?thesis
  proof (cases "validateCommissionIntakeDecision jc r i (idOrderID r) (idOrderVersion r)")
    case None
    show ?thesis unfolding CompleteCommissionIntakeAndQueue_def None option.case Let_def
    proof (rule leads_with_job, goal_cases)
      case (1 k)
      then show ?case
        by (cases "parseCommissionIntakeData jc (jbData (jsJobs (jState j) ! k)) (bdAgentID b)")
           (simp_all only: sum.case, intro leads_guard, simp, intro leads_guard save, simp_all add: running_kind_def view_def)
    qed
  qed (simp add: CompleteCommissionIntakeAndQueue_def)
qed

lemma clear_job_ID [simp]: "jbID (clear_job oid job) = jbID job"
  by (simp add: clear_job_def)

lemma clear_view: "view (clear_job oid job) = view job \<or> released (Some (view job)) (Some (view (clear_job oid job)))"
  by (auto simp: clear_job_def released_def view_def about_order_def split: option.splits)

lemma clear_table:
  "table (fst (clearCommissionReadiness oid s)) i = table s i \<or> released (table s i) (table (fst (clearCommissionReadiness oid s)) i)"
  unfolding clearCommissionReadiness_def fst_conv
  by (rule table_map[where R = "\<lambda>x y. y = x \<or> released x y"]) (use clear_view in auto)

lemma clear_ids: "job_ids (fst (clearCommissionReadiness oid s)) = job_ids s" "jsSequence (fst (clearCommissionReadiness oid s)) = jsSequence s"
  by (simp_all add: clearCommissionReadiness_def)

lemma Retire_leads:
  assumes "sound jc b n (jState j)"
  shows "leads jc (next_ok jc b n (Retire oid) (jState j)) j (snd (RetireCommissionReadiness jc oid j))"
proof -
  have "next_ok jc b n (Retire oid) (jState j) (fst (clearCommissionReadiness oid (jState j)))"
    unfolding next_ok_def using clear_table sound_ids[OF sound_Suc[OF assms] clear_ids] by simp
  then show ?thesis unfolding RetireCommissionReadiness_def by (auto intro!: leads_save split: prod.splits)
qed

lemma QueueClarification_leads:
  assumes "sound jc b n (jState j)" "collision_free jc"
  shows "leads jc (next_ok jc b n (QueueClarification i d) (jState j)) j (snd (QueueCommissionClarification jc b i d j))"
  unfolding QueueCommissionClarification_def
proof (intro leads_guard leads_with_job leads_save, goal_cases)
  case (1 k)
  have "next_ok jc b n (QueueClarification i d) (jState j) (set_job k ((jsJobs (jState j) ! k)\<lparr>jbStatus := ''completed'',
      jbCode := ''commission_clarification_queued''\<rparr>) (jState j))"
    using 1 by (intro next_ok_set assms) (auto simp: turns_def running_intake_def running_kind_def view_def)
  then show ?case
    by (rule next_ok_admit[where kind = "''commission_clarification''"])
       (use 1 in \<open>simp_all add: ids_set view_newHint arrives_def used_commission[OF assms(2)] del: jobs_cong\<close>)
qed

lemma QueueReady_next_ok:
  assumes s: "sound jc b n s" "collision_free jc" and k: "k < length (jsJobs s)" "jbID (jsJobs s ! k) = i"
    and run: "running_kind ''commission_order'' (view (jsJobs s ! k))"
    and s1: "s1 = admit (fulfillment_hint jc b now oid v src r fp) s" and s2: "s2 = fst (clearCommissionReadiness oid s1)"
    and job: "job = (jsJobs s2 ! k)\<lparr>jbStatus := ''completed'', jbCode := code\<rparr>"
  shows "next_ok jc b n (QueueReady i src oid v) s (set_job k job s2)"
proof -
  let ?op = "QueueReady i src oid v"
  let ?arrive = "\<lambda>i. i = commissionFulfillmentID jc b oid \<and> arrives ''commission_fulfillment'' (table s i) (table s1 i)"
  have ok1: "next_ok jc b n ?op s s1" unfolding s1
    using s by (intro next_ok_admit[where kind = "''commission_fulfillment''"] next_ok_refl)
      (simp_all add: fulfillment_hint_view arrives_def used_commission)
  have not_released: "\<not> released (arrived kind) y" for kind y by (simp add: released_def arrived_def)
  have t1: "table s1 i' = table s i' \<or> ?arrive i'" for i'
  proof (cases "commissionFulfillmentID jc b oid \<in> set (job_ids s)")
    case False
    then have "table s (commissionFulfillmentID jc b oid) = None" by (simp only: table_None not_False_eq_True)
    then show ?thesis using False fulfillment_hint_view[of jc b now oid v src r fp]
        table_append[of "[fulfillment_hint jc b now oid v src r fp]" "the (arrived ''commission_fulfillment'')" s i']
      by (auto simp: s1 admit_def arrives_def arrived_def)
  qed (simp add: s1 admit_def fulfillment_hint_view)
  have k1: "k < length (jsJobs s1)" "jsJobs s1 ! k = jsJobs s ! k" using k by (simp_all add: s1 admit_def nth_append)
  have k2: "k < length (jsJobs s2)" "jsJobs s2 ! k = clear_job oid (jsJobs s ! k)" using k1 by (simp_all add: s2 clearCommissionReadiness_def)
  have sound2: "sound jc b (Suc n) s2" unfolding s2 using ok1 by (intro sound_ids[OF _ clear_ids]) (simp add: next_ok_def)
  have id: "jbID job = i" "jbID job = jbID (jsJobs s2 ! k)" using k k2 by (simp_all add: job)
  have "act jc b ?op i' (table s i') (table (set_job k job s2) i')" for i'
  proof (cases "i' = i")
    case True
    have "table s i = Some (view (jsJobs s ! k))" using table_nth[OF sound_distinct[OF s(1)] k(1)] k(2) by simp
    then show ?thesis using True run id k2 table_set_job[OF sound_distinct[OF sound2] k2(1) id(2)]
      by (auto simp: job view_def clear_job_def)
  next
    case False
    then have "table (set_job k job s2) i' = table s2 i'" using table_set_job[OF sound_distinct[OF sound2] k2(1) id(2)] id by simp
    then show ?thesis using t1[of i'] clear_table[of oid s1 i'] not_released by (auto simp: s2[symmetric] arrives_def)
  qed
  moreover have "sound jc b (Suc n) (set_job k job s2)" using ids_set_job[OF k2(1) id(2)] by (intro sound_ids[OF sound2]) simp_all
  ultimately show ?thesis by (simp add: next_ok_def)
qed

lemma QueueReady_leads:
  assumes "sound jc b n (jState j)" "collision_free jc"
  shows "leads jc (next_ok jc b n (QueueReady i src oid v) (jState j)) j (snd (QueueCommissionFromReadiness jc b i src oid v j))"
proof (cases "source_readiness src (jsJobs (jState j))")
  case (Some rd)
  show ?thesis unfolding QueueCommissionFromReadiness_def Some option.case Let_def
  proof (intro leads_guard leads_with_job leads_updated, goal_cases)
    case (1 k)
    then show ?case by (simp add: admit_def clearCommissionReadiness_def)
  next
    case (2 k)
    then show ?case by (intro QueueReady_next_ok[OF assms _ _ _ refl refl refl]) (simp_all add: running_intake_def running_kind_def view_def)
  qed
qed (simp add: QueueCommissionFromReadiness_def)

section \<open>Handing out jobs\<close>

definition eligible :: "string \<Rightarrow> int \<Rightarrow> Job \<Rightarrow> bool" where
  "eligible kind now job \<longleftrightarrow> in_lane kind job \<and> \<not> waiting now job \<and> jbStatus job = ''pending''"

text \<open>The choice of \<open>next\<close>: the oldest message that is due, else the oldest job that is due.\<close>

fun first_index :: "('a \<Rightarrow> bool) \<Rightarrow> 'a list \<Rightarrow> nat option" where
  "first_index P [] = None"
| "first_index P (x # xs) = (if P x then Some 0 else map_option Suc (first_index P xs))"

definition chosen :: "string \<Rightarrow> int \<Rightarrow> Job list \<Rightarrow> nat option" where
  "chosen kind now jobs =
     (case first_index (\<lambda>job. eligible kind now job \<and> jbKind job = ''pm_push'') jobs of
        Some k \<Rightarrow> Some k
      | None \<Rightarrow> first_index (eligible kind now) jobs)"

definition lane_busy :: "string \<Rightarrow> Job list \<Rightarrow> bool" where
  "lane_busy kind jobs \<longleftrightarrow> (\<exists>job \<in> set jobs. in_lane kind job \<and> executing job)"

lemma executing_not_eligible: "executing job \<Longrightarrow> \<not> eligible kind now job"
  by (auto simp: executing_def eligible_def)

lemma scan_next_from:
  assumes "rest = drop i jobs" "i \<le> length jobs"
  shows "scan_next kind now jobs i rest best =
    (if lane_busy kind rest then Inl ()
     else Inr (case best of
         Some m \<Rightarrow> if jbKind (jobs ! m) = ''pm_push'' then Some m
           else (case first_index (\<lambda>job. eligible kind now job \<and> jbKind job = ''pm_push'') rest of Some k \<Rightarrow> Some (i + k) | None \<Rightarrow> Some m)
       | None \<Rightarrow> map_option ((+) i) (chosen kind now rest)))"
  using assms
proof (induction rest arbitrary: i best)
  case Nil
  then show ?case by (simp add: lane_busy_def chosen_def split: option.splits)
next
  case (Cons job rest)
  have job: "jobs ! i = job" "rest = drop (Suc i) jobs" "Suc i \<le> length jobs"
    using Cons(2) by (metis nth_via_drop, metis Cons_nth_drop_Suc drop_eq_Nil list.inject list.simps(3) not_le, metis Cons(2) drop_eq_Nil list.simps(3) not_less_eq_eq)
  note IH = Cons(1)[OF job(2,3)]
  show ?case
    by (cases "in_lane kind job \<and> executing job")
       (auto simp: IH job(1) lane_busy_def chosen_def eligible_def executing_def option.map_comp comp_def intro!: map_option_cong split: option.splits)
qed

lemma scan_next_chosen:
  "scan_next kind now jobs 0 jobs None = (if lane_busy kind jobs then Inl () else Inr (chosen kind now jobs))"
  using scan_next_from[of jobs 0 jobs kind now None] by (cases "chosen kind now jobs") simp_all

lemma first_index_Some: "first_index P xs = Some k \<Longrightarrow> k < length xs \<and> P (xs ! k)"
  by (induction xs arbitrary: k) (auto split: if_splits)

lemma chosen_Some: "chosen kind now jobs = Some k \<Longrightarrow> k < length jobs \<and> eligible kind now (jobs ! k)"
  unfolding chosen_def by (auto dest: first_index_Some split: option.splits)

lemma view_fields: "vKind (view job) = jbKind job" "vStatus (view job) = jbStatus job"
  by (simp_all add: view_def)

lemma claim_view: "view (claim_job job) = (view job)\<lparr>vStatus := ''running''\<rparr>" "jbID (claim_job job) = jbID job" "jbKind (claim_job job) = jbKind job"
  "jbReadiness (claim_job job) = jbReadiness job" "jbStatus (claim_job job) = ''running''"
  by (simp_all add: claim_job_def view_def split: option.splits)

lemma next_job_cases:
  obtains "next_job jc kind j = (Inr None, j)" "lane_busy kind (jsJobs (jState j)) \<or> chosen kind (jNow j) (jsJobs (jState j)) = None"
  | k where "\<not> lane_busy kind (jsJobs (jState j))" "chosen kind (jNow j) (jsJobs (jState j)) = Some k"
    "k < length (jsJobs (jState j))" "eligible kind (jNow j) (jsJobs (jState j) ! k)"
    "next_job jc kind j = (case save jc (set_job k (claim_job (jsJobs (jState j) ! k)) (jState j)) j of
       (Inl e, j') \<Rightarrow> (Inl e, j') | (Inr _, j') \<Rightarrow> (Inr (Some (jsJobs (jState j') ! k)), j'))"
  by (cases "lane_busy kind (jsJobs (jState j))"; cases "chosen kind (jNow j) (jsJobs (jState j))")
     (use chosen_Some in \<open>auto simp: next_job_def Let_def scan_next_chosen\<close>)

lemma next_leads:
  assumes "sound jc b n (jState j)" "op \<noteq> Reopen"
    "\<And>i v. vStatus v = ''pending'' \<Longrightarrow> (kind = [] \<longrightarrow> \<not> commission_kind (vKind v)) \<Longrightarrow> (kind \<noteq> [] \<longrightarrow> vKind v = kind) \<Longrightarrow>
       act jc b op i (Some v) (Some (v\<lparr>vStatus := ''running''\<rparr>))"
  shows "leads jc (next_ok jc b n op (jState j)) j (snd (next_job jc kind j))"
proof (cases rule: next_job_cases[of jc kind j])
  case (2 k)
  let ?job = "jsJobs (jState j) ! k"
  have "next_ok jc b n op (jState j) (set_job k (claim_job ?job) (jState j))"
    using 2(3,4) by (intro next_ok_set assms) (auto simp: claim_view eligible_def in_lane_def view_fields intro!: assms(3))
  then have "leads jc (next_ok jc b n op (jState j)) j (snd (save jc (set_job k (claim_job ?job) (jState j)) j))" by (rule leads_save)
  then show ?thesis unfolding 2(5) by (auto split: prod.splits sum.splits)
qed simp

lemma Claim_leads:
  assumes "sound jc b n (jState j)"
  shows "leads jc (next_ok jc b n Claim (jState j)) j (snd (next_job jc [] j))"
  by (rule next_leads[OF assms]) (auto simp: turns_def)

lemma ClaimKind_leads:
  assumes "sound jc b n (jState j)"
  shows "leads jc (next_ok jc b n (ClaimKind kind) (jState j)) j (snd (NextKind jc kind j))"
  unfolding NextKind_def by (auto simp: turns_def intro!: next_leads[OF assms])

section \<open>Recovery\<close>

lemma recover_view: "jbID (recover_job now job) = jbID job" "act jc b Reopen i (Some (view job)) (Some (view (recover_job now job)))"
  by (auto simp: recover_job_def recoverCommissionDelivery_def executing_def turns_def busy_def delivery_ends_def view_def split: option.splits)

lemma recovered_next_ok:
  assumes "sound jc b n s"
  shows "next_ok jc b n Reopen s (s\<lparr>jsJobs := map (recover_job now) (jsJobs s)\<rparr>)"
proof -
  have "act jc b Reopen i (table s i) (table (s\<lparr>jsJobs := map (recover_job now) (jsJobs s)\<rparr>) i)" for i
    by (rule table_map[where R = "act jc b Reopen i"]) (auto simp: recover_view simp del: act.simps, simp add: turns_def)
  then show ?thesis
    using sound_ids[OF sound_Suc[OF assms], of "s\<lparr>jsJobs := map (recover_job now) (jsJobs s)\<rparr>"] by (simp add: next_ok_def comp_def recover_view)
qed

lemma recover_idle: "\<not> executing job \<Longrightarrow> recover_job now job = job"
  by (auto simp: recover_job_def recoverCommissionDelivery_def split: option.splits)

lemma recover_not_executing: "\<not> executing (recover_job now job)"
  by (auto simp: recover_job_def recoverCommissionDelivery_def executing_def split: option.splits)

end
