(* ===== verification/JournalRuns.thy ===== *)
theory JournalRuns
  imports JournalMoves
begin

text \<open>
  Runs of the journal: any sequence of its operations, with crashes, restarts and failing writes in between. Every
  operation keeps the invariant and does to each job what the specification permits.
\<close>

section \<open>The invariant\<close>

text \<open>What is read back has the jobs that were written, as far as the specification sees them.\<close>

definition alike :: "journalState \<Rightarrow> journalState \<Rightarrow> bool" where
  "alike s s' \<longleftrightarrow> jsSequence s = jsSequence s' \<and> map (\<lambda>job. (jbID job, view job)) (jsJobs s) = map (\<lambda>job. (jbID job, view job)) (jsJobs s')"

definition reads_back :: "json_codec \<Rightarrow> bool" where
  "reads_back jc \<longleftrightarrow> (\<forall>s s'. jcState jc (jcOfState jc s) = Some s' \<longrightarrow> alike s' s)"

definition bounded :: "journalState \<Rightarrow> bool" where
  "bounded s \<longleftrightarrow> unresolvedCount s \<le> journalMaxPending \<and> commissionReadinessCount s False \<le> journalMaxPending \<and> plainCount s \<le> journalMaxCompleted"

definition on_disk :: "json_codec \<Rightarrow> journal \<Rightarrow> bool" where
  "on_disk jc j \<longleftrightarrow> (case jDisk j of
      None \<Rightarrow> jsJobs (jState j) = [] \<and> jsSequence (jState j) = 0
    | Some raw \<Rightarrow> (\<exists>s. raw = jcOfState jc s \<and> alike s (jState j)))"

definition consistent :: "json_codec \<Rightarrow> Binding \<Rightarrow> nat \<Rightarrow> journal \<Rightarrow> bool" where
  "consistent jc b n j \<longleftrightarrow> sound jc b n (jState j) \<and> bounded (jState j) \<and> on_disk jc j"

definition fresh :: "journal \<Rightarrow> bool" where
  "fresh j \<longleftrightarrow> jDisk j = None \<and> \<not> jOpen j \<and> jsJobs (jState j) = [] \<and> jsSequence (jState j) = 0"

lemma alike_refl [simp]: "alike s s"
  by (simp add: alike_def)

lemma alike_trans: "alike s t \<Longrightarrow> alike t u \<Longrightarrow> alike s u"
  by (simp add: alike_def)

lemma alike_sym: "alike s t \<Longrightarrow> alike t s"
  by (simp add: alike_def)

lemma alike_table: "alike s s' \<Longrightarrow> table s = table s'"
  by (simp add: alike_def table_def)

lemma alike_ids: assumes "alike s s'" shows "job_ids s = job_ids s'"
proof -
  have "map fst (map (\<lambda>job. (jbID job, view job)) (jsJobs s)) = map fst (map (\<lambda>job. (jbID job, view job)) (jsJobs s'))"
    using assms by (simp only: alike_def)
  then show ?thesis by (simp add: comp_def)
qed

lemma alike_counts:
  assumes "alike s s'"
  shows "unresolvedCount s = unresolvedCount s'" "commissionReadinessCount s c = commissionReadinessCount s' c" "plainCount s = plainCount s'"
proof -
  have *: "length (filter (P \<circ> view) (jsJobs s)) = length (filter (P \<circ> view) (jsJobs s'))" for P
  proof -
    have "length (filter (P \<circ> view) jobs) = length (filter (P \<circ> snd) (map (\<lambda>job. (jbID job, view job)) jobs))" for jobs :: "Job list"
      by (induction jobs) simp_all
    then show ?thesis using assms by (simp only: alike_def)
  qed
  show "unresolvedCount s = unresolvedCount s'" using *[of "\<lambda>v. \<not> completedStatus (vStatus v)"]
    by (simp add: unresolvedCount_def completed_def comp_def view_def)
  show "commissionReadinessCount s c = commissionReadinessCount s' c" using *[of "\<lambda>v. vReady v \<and> (\<not> c \<or> completedStatus (vStatus v))"]
    by (simp add: commissionReadinessCount_def completed_def comp_def view_def)
  show "plainCount s = plainCount s'" using *[of "\<lambda>v. completedStatus (vStatus v) \<and> \<not> vReady v"]
    by (simp add: plainCount_def completed_def comp_def view_def)
qed

lemma alike_inv: "alike s s' \<Longrightarrow> sound jc b n s' \<Longrightarrow> sound jc b n s" "alike s s' \<Longrightarrow> bounded s' \<Longrightarrow> bounded s"
  using alike_ids[of s s'] alike_counts[of s s'] by (auto simp: alike_def sound_def bounded_def)

lemma consistent_cong: "jState j' = jState j \<Longrightarrow> jDisk j' = jDisk j \<Longrightarrow> consistent jc b n j' = consistent jc b n j"
  by (simp add: consistent_def on_disk_def cong: option.case_cong)

lemma consistent_mono: "consistent jc b n j \<Longrightarrow> n \<le> m \<Longrightarrow> consistent jc b m j"
  by (simp add: consistent_def sound_def)

lemma fresh_inv: "fresh j \<Longrightarrow> consistent jc b 0 j"
  by (simp add: fresh_def consistent_def sound_def bounded_def on_disk_def unresolvedCount_def commissionReadinessCount_def plainCount_def)

section \<open>Steps\<close>

text \<open>The effect of a step on every job, as a relation between the map before and the map after.\<close>

definition moved :: "(string \<Rightarrow> view option \<Rightarrow> view option \<Rightarrow> bool) \<Rightarrow> journal \<Rightarrow> journal \<Rightarrow> bool" where
  "moved R j j' \<longleftrightarrow> (\<forall>i. \<exists>y. R i (table (jState j) i) y \<and> settles y (table (jState j') i)) \<and>
     (\<forall>i. table (jState j) i \<noteq> None \<and> table (jState j') i = None \<longrightarrow> plainCount (jState j') = journalMaxCompleted)"

lemma same_inv: "same j j' \<Longrightarrow> consistent jc b n j \<Longrightarrow> consistent jc b n j'"
  using consistent_cong[of j' j] by (simp add: same_def)

lemma wrote_inv:
  assumes "wrote jc s j j'" "sound jc b n s"
  shows "consistent jc b n j'"
  using assms sound_settled[OF assms(2)] by (simp add: wrote_def consistent_def bounded_def on_disk_def settled_plain) (metis alike_refl)

lemma wrote_moved:
  assumes "wrote jc s j j'" "sound jc b n s" "\<And>i. R i (table (jState j) i) (table s i)" "\<And>i v y. R i (Some v) y \<Longrightarrow> y \<noteq> None"
  shows "moved R j j'"
proof -
  have st: "jState j' = settled jc s" using assms(1) by (simp add: wrote_def)
  have "settles (table s i) (table (jState j') i)" for i unfolding st using assms(2) by (intro table_settled sound_distinct)
  moreover have "plainCount (jState j') = journalMaxCompleted" if "table (jState j) i \<noteq> None" "table (jState j') i = None" for i
  proof -
    have "table s i \<noteq> None" using that(1) assms(3)[of i] assms(4) by auto
    then have "table (settled jc s) \<noteq> table s" using that(2) st by auto
    then show ?thesis using table_settled_none[of s jc] settled_plain[of jc s] st by (cases "plainCount s \<le> journalMaxCompleted") auto
  qed
  ultimately show ?thesis using assms(3) unfolding moved_def by blast
qed

lemma not_None [simp]: "\<not> turns P Q x None" "\<not> released x None" "\<not> arrives kind (Some v) y"
  by (simp_all add: turns_def released_def arrives_def)

lemma act_not_None: "\<not> act jc b op i (Some v) None"
  by (cases op) simp_all

lemma act_keeps: "act jc b op i (Some v) y \<Longrightarrow> y \<noteq> None"
  using act_not_None by metis

lemma same_moved: "same j j' \<Longrightarrow> (\<And>i x. R i x x) \<Longrightarrow> moved R j j'"
  by (auto simp: same_def moved_def intro: settles_refl)

lemma leads_step:
  assumes "consistent jc b n j" "op \<noteq> Reopen" "leads jc (next_ok jc b n op (jState j)) j j'"
  shows "consistent jc b (Suc n) j' \<and> moved (act jc b op) j j'"
  using assms(3) unfolding leads_def
proof
  assume "same j j'"
  then show ?thesis using same_inv[OF _ consistent_mono[OF assms(1), of "Suc n"]] same_moved act_refl[OF assms(2)] by auto
next
  assume "\<exists>s. next_ok jc b n op (jState j) s \<and> wrote jc s j j'"
  then obtain s where s: "sound jc b (Suc n) s" "\<And>i. act jc b op i (table (jState j) i) (table s i)" "wrote jc s j j'"
    by (auto simp: next_ok_def)
  then show ?thesis using wrote_inv wrote_moved act_keeps by metis
qed

section \<open>Opening\<close>

lemma readJournal_alike:
  assumes "on_disk jc j" "reads_back jc" "readJournal jc b (jDisk j) = Inr (s, e)"
  shows "alike s (jState j) \<and> (e \<longleftrightarrow> jDisk j \<noteq> None)"
proof (cases "jDisk j")
  case None
  then show ?thesis using assms(1,3) by (auto simp: on_disk_def readJournal_def empty_journal_def alike_def split: if_splits)
next
  case (Some raw)
  then obtain t where t: "raw = jcOfState jc t" "alike t (jState j)" using assms(1) by (auto simp: on_disk_def)
  have "jcState jc raw = Some s" "e" using assms(3) Some by (auto simp: readJournal_def split: if_splits option.splits)
  then have "alike s t" using assms(2) t by (auto simp: reads_back_def)
  then show ?thesis using t alike_trans Some \<open>e\<close> by auto
qed

lemma Open_step:
  assumes "consistent jc b n j" "reads_back jc" "OpenJournal jc b j = (r, j')"
  shows "consistent jc b (Suc n) j' \<and> (jState j' = jState j \<and> \<not> jOpen j' \<and> jDisk j' = jDisk j \<or> jOpen j' \<and> moved (act jc b Reopen) j j')"
proof (cases "readJournal jc b (jDisk j)")
  case (Inl e)
  then have "j' = j\<lparr>jOpen := False\<rparr>" using assms(3) by (simp add: OpenJournal_def)
  then show ?thesis using consistent_mono[OF assms(1), of "Suc n"] consistent_cong[of j' j] by simp
next
  case (Inr p)
  then obtain s e where p: "readJournal jc b (jDisk j) = Inr (s, e)" by (cases p) auto
  have s: "alike s (jState j)" using readJournal_alike assms p by (auto simp: consistent_def)
  then have snd: "sound jc b n s" "bounded s" and tab: "table s = table (jState j)"
    using assms(1) alike_inv alike_table by (auto simp: consistent_def)
  let ?s = "s\<lparr>jsJobs := map (recover_job (jNow j)) (jsJobs s)\<rparr>"
  have "next_ok jc b n Reopen (jState j) ?s" using recovered_next_ok[OF snd(1)] by (simp add: next_ok_def tab)
  then have ok: "sound jc b (Suc n) ?s" "\<And>i. act jc b Reopen i (table (jState j) i) (table ?s i)" by (auto simp: next_ok_def)
  show ?thesis
  proof (cases "e \<and> (\<forall>job \<in> set (jsJobs s). \<not> executing job)")
    case True
    then have "?s = s" by (simp add: recover_idle map_idI)
    then have a: "act jc b Reopen i (table (jState j) i) (table s i)" for i using ok(2)[of i] by simp
    have j': "jState j' = s" "jDisk j' = jDisk j" "jOpen j'" using assms(3) p True by (auto simp: OpenJournal_def Let_def signal_def)
    have "on_disk jc j'" using assms(1) s j' by (auto simp: consistent_def on_disk_def alike_def split: option.splits)
    moreover have "moved (act jc b Reopen) j j'" using a tab j' unfolding moved_def by (auto intro: settles_refl simp del: act.simps)
    ultimately show ?thesis using snd j' sound_Suc by (simp add: consistent_def)
  next
    case False
    let ?j = "j\<lparr>jWake := False\<rparr>"
    obtain q j1 where q: "save jc ?s ?j = (q, j1)" by (cases "save jc ?s ?j")
    show ?thesis
    proof (cases q)
      case (Inl err)
      then have j': "j' = j1\<lparr>jOpen := False\<rparr>" using assms(3) p False q by (auto simp: OpenJournal_def Let_def)
      have "same ?j j1" using save_result[where jc = jc and s = ?s and j = ?j] q Inl by simp
      then show ?thesis using consistent_mono[OF assms(1), of "Suc n"] consistent_cong[of j' j] by (simp add: j' same_def)
    next
      case (Inr u)
      then have j': "jState j' = jState j1" "jDisk j' = jDisk j1" "jOpen j'" using assms(3) p False q by (auto simp: OpenJournal_def Let_def signal_def)
      have w: "wrote jc ?s ?j j1" using save_result[where jc = jc and s = ?s and j = ?j] q Inr by simp
      have "consistent jc b (Suc n) j1" using wrote_inv[OF w ok(1)] .
      moreover have "moved (act jc b Reopen) ?j j1" by (rule wrote_moved[OF w ok(1)]) (use ok(2) act_keeps in \<open>auto simp del: act.simps\<close>)
      ultimately show ?thesis using j' consistent_cong[of j' j1] by (simp add: moved_def)
    qed
  qed
qed

section \<open>Claims\<close>

lemma plain_set_job:
  assumes "k < length (jsJobs s)" "droppable job' = droppable (jsJobs s ! k)"
  shows "plainCount (set_job k job' s) = plainCount s"
proof -
  have *: "plainCount t = length (filter id (map droppable (jsJobs t)))" for t
    by (simp add: plainCount_def droppable_def[abs_def] filter_map comp_def)
  have "map droppable ((jsJobs s)[k := job']) = map droppable (jsJobs s)" unfolding map_update assms(2) using assms(1)
    by (simp add: list_update_same_conv)
  then show ?thesis by (simp only: * jobs_cong)
qed

text \<open>A job that is handed out is written in its place: nothing is trimmed.\<close>

lemma claim_wrote:
  assumes "consistent jc b n j" "wrote jc (set_job k job' (jState j)) j j'" "k < length (jsJobs (jState j))"
    "jbID job' = jbID (jsJobs (jState j) ! k)" "jbStatus (jsJobs (jState j) ! k) = ''pending''" "jbStatus job' = ''running''"
  shows "consistent jc b n j'" "table (jState j') = (table (jState j))(jbID job' \<mapsto> view job')" "jsJobs (jState j') ! k = compact_job job'"
    "plainCount (jState j') = plainCount (jState j)"
proof -
  let ?s = "set_job k job' (jState j)"
  have s: "sound jc b n (jState j)" "bounded (jState j)" using assms(1) by (auto simp: consistent_def)
  have p: "plainCount ?s = plainCount (jState j)" using assms by (intro plain_set_job) (auto simp: droppable_def completed_def completedStatus_def)
  then have p': "plainCount ?s \<le> journalMaxCompleted" using s(2) by (simp add: bounded_def)
  have j': "jState j' = settled jc ?s" using assms(2) by (simp add: wrote_def)
  have "sound jc b n ?s" using sound_ids[OF s(1) ids_set_job[OF assms(3,4)]] by simp
  then show "consistent jc b n j'" using wrote_inv[OF assms(2)] by blast
  show "table (jState j') = (table (jState j))(jbID job' \<mapsto> view job')"
    unfolding j' table_settled_none[OF p'] by (rule table_set_job[OF sound_distinct[OF s(1)] assms(3,4)])
  show "jsJobs (jState j') ! k = compact_job job'" unfolding j' settled_none[OF p'] using assms(3) by simp
  show "plainCount (jState j') = plainCount (jState j)" unfolding j' settled_plain p using p' p by simp
qed

text \<open>The specification of handing out: the job was not being executed before, and it is afterwards.\<close>

definition handed :: "journal \<Rightarrow> journal \<Rightarrow> Job \<Rightarrow> bool" where
  "handed j j' job \<longleftrightarrow>
     (case table (jState j) (jbID job) of None \<Rightarrow> True | Some v \<Rightarrow> vStatus v = ''pending'') \<and> jbStatus job = ''running'' \<and>
     table (jState j') (jbID job) = Some (view job)"

lemma next_handed:
  assumes "consistent jc b n j" "next_job jc kind j = (Inr (Some job), j')"
  shows "handed j j' job"
proof (cases rule: next_job_cases[of jc kind j])
  case 1
  then show ?thesis using assms(2) by simp
next
  case (2 k)
  let ?job = "jsJobs (jState j) ! k"
  have w: "wrote jc (set_job k (claim_job ?job) (jState j)) j j'" "job = jsJobs (jState j') ! k"
    using assms(2) save_result[where jc = jc and s = "set_job k (claim_job ?job) (jState j)" and j = j] unfolding 2(5)
    by (auto split: prod.splits sum.splits)
  have pend: "jbStatus ?job = ''pending''" using 2(4) by (simp add: eligible_def)
  note c = claim_wrote[OF assms(1) w(1) 2(3) claim_view(2) pend claim_view(5)]
  have "table (jState j) (jbID ?job) = Some (view ?job)" using assms(1) 2(3) by (intro table_nth) (simp_all add: consistent_def sound_def)
  then show ?thesis using c(2,3) pend w(2) by (simp add: handed_def claim_view view_fields)
qed

lemma moved_mono: "moved R j j' \<Longrightarrow> (\<And>i x y. R i x y \<Longrightarrow> R' i x y) \<Longrightarrow> moved R' j j'"
  unfolding moved_def by blast

lemma moved_cong: "moved R j j1 \<Longrightarrow> jState j' = jState j1 \<Longrightarrow> moved R j j'"
  by (simp add: moved_def)

lemma Accept_second:
  assumes m: "moved (act jc b (Recover oid v)) j j1" and c: "table (jState j') = (table (jState j1))(i \<mapsto> w\<lparr>vStatus := ''running''\<rparr>)"
    "table (jState j1) i = Some w" "vStatus w = ''pending''" "plainCount (jState j') = plainCount (jState j1)"
  shows "moved (act jc b (Accept oid v)) j j'" "case table (jState j) i of None \<Rightarrow> True | Some u \<Rightarrow> vStatus u = ''pending''"
proof -
  obtain y where y: "act jc b (Recover oid v) i (table (jState j) i) y" "settles y (Some w)" using m c(2) unfolding moved_def by metis
  then have "y = Some w" by (auto simp: settles_def)
  then have x: "table (jState j) i = Some w \<or> table (jState j) i = None \<and> Some w = arrived ''commission_order''"
    using y by (auto simp: arrives_def)
  then show "case table (jState j) i of None \<Rightarrow> True | Some u \<Rightarrow> vStatus u = ''pending''" using c(3) by auto
  have "act jc b (Accept oid v) i (table (jState j) i) (table (jState j') i)" using x c(1,3) by (auto simp: turns_def arrived_def)
  then have "\<exists>y. act jc b (Accept oid v) i' (table (jState j) i') y \<and> settles y (table (jState j') i')" for i'
  proof (cases "i' = i")
    case False
    then have "table (jState j') i' = table (jState j1) i'" using c(1) by simp
    moreover obtain y where "act jc b (Recover oid v) i' (table (jState j) i') y" "settles y (table (jState j1) i')"
      using m unfolding moved_def by blast
    ultimately show ?thesis by (intro exI[of _ y]) auto
  qed (auto intro: settles_refl simp del: act.simps)
  then show "moved (act jc b (Accept oid v)) j j'" using m c(1,2,4) unfolding moved_def by (metis fun_upd_apply option.simps(3))
qed

lemma Accept_step:
  assumes "consistent jc b n j" "collision_free jc" "ClaimCommissionAcceptance jc b oid v j = (r, j')"
  shows "consistent jc b (Suc n) j' \<and> moved (act jc b (Accept oid v)) j j' \<and> (\<forall>job. r = Inr job \<longrightarrow> handed j j' job)"
proof -
  obtain q j1 where q: "recoverCommissionLocked jc b oid v ''operator_recovery'' ''operator_retry'' j = (q, j1)"
    by (cases "recoverCommissionLocked jc b oid v ''operator_recovery'' ''operator_retry'' j")
  have "leads jc (next_ok jc b n (Recover oid v) (jState j)) j j1"
    using Recover_leads[of jc b n j oid v] assms(1,2) q by (simp add: RecoverCommission_def consistent_def)
  then have 1: "consistent jc b (Suc n) j1" "moved (act jc b (Recover oid v)) j j1" using leads_step[OF assms(1)] by auto
  have mono: "moved (act jc b (Accept oid v)) j j1" by (rule moved_mono[OF 1(2)]) auto
  have unchanged: "consistent jc b (Suc n) j2 \<and> moved (act jc b (Accept oid v)) j j2" if "same j1 j2" for j2
    using same_inv[OF that 1(1)] moved_cong[OF mono] that by (auto simp: same_def)
  show ?thesis
  proof (cases q)
    case (Inl e)
    then show ?thesis using assms(3) q unchanged[of j1] by (auto simp: ClaimCommissionAcceptance_def)
  next
    case (Inr i)
    show ?thesis
    proof (cases "index_of i (jsJobs (jState j1))")
      case None
      then show ?thesis using assms(3) q Inr unchanged[of j1] by (auto simp: ClaimCommissionAcceptance_def with_job_def)
    next
      case (Some k)
      let ?job = "jsJobs (jState j1) ! k"
      have k: "k < length (jsJobs (jState j1))" "jbID ?job = i" using index_of_Some[OF Some] by auto
      show ?thesis
      proof (cases "jbStatus ?job = ''pending''")
        case False
        then show ?thesis using assms(3) q Inr Some unchanged[of j1] by (auto simp: ClaimCommissionAcceptance_def with_job_def)
      next
        case True
        let ?s = "set_job k (?job\<lparr>jbStatus := ''running''\<rparr>) (jState j1)"
        obtain z j2 where z: "save jc ?s j1 = (z, j2)" by (cases "save jc ?s j1")
        note res = save_result[where jc = jc and s = ?s and j = j1]
        show ?thesis
        proof (cases z)
          case (Inl e)
          then show ?thesis using assms(3) q Inr Some True z res unchanged[of j2] by (auto simp: ClaimCommissionAcceptance_def with_job_def)
        next
          case z': (Inr u)
          then have w: "wrote jc ?s j1 j2" using z res by simp
          have r: "j' = j2" "r = Inr (jsJobs (jState j2) ! k)"
            using assms(3) q Inr Some True z z' by (auto simp: ClaimCommissionAcceptance_def with_job_def)
          note c = claim_wrote[OF 1(1) w k(1) _ True, simplified]
          have t: "table (jState j1) i = Some (view ?job)" using 1(1) k by (metis consistent_def sound_distinct table_nth)
          have t2: "table (jState j2) = (table (jState j1))(i \<mapsto> (view ?job)\<lparr>vStatus := ''running''\<rparr>)" using c(2) k(2) by (simp add: view_def)
          have "vStatus (view ?job) = ''pending''" using True by (simp add: view_fields)
          note a = Accept_second[OF 1(2) t2 t this c(4)]
          have "view (?job\<lparr>jbStatus := ''running''\<rparr>) = (view ?job)\<lparr>vStatus := ''running''\<rparr>" by (simp add: view_def)
          then show ?thesis unfolding r using a c(1,3) t2 k(2) by (simp add: handed_def)
        qed
      qed
    qed
  qed
qed

section \<open>Stores of tasks\<close>

text \<open>
  A store that hands out tasks: a step keeps the invariant \<open>ok\<close>, whose argument counts the steps, and a task that has been
  taken stays taken unless the step renews it.
\<close>

locale task_store =
  fixes step :: "'op \<Rightarrow> 's \<Rightarrow> 's" and ok :: "nat \<Rightarrow> 's \<Rightarrow> bool" and legal :: "'op \<Rightarrow> bool" and limit :: nat
    and holds :: "'i \<Rightarrow> 's \<Rightarrow> bool" and renewal :: "'op \<Rightarrow> 'i \<Rightarrow> 's \<Rightarrow> 's \<Rightarrow> bool"
  assumes ok_step: "ok n s \<Longrightarrow> legal op \<Longrightarrow> Suc n < limit \<Longrightarrow> ok (Suc n) (step op s)"
    and holds_step: "ok n s \<Longrightarrow> legal op \<Longrightarrow> Suc n < limit \<Longrightarrow> holds i s \<Longrightarrow> \<not> renewal op i s (step op s) \<Longrightarrow> holds i (step op s)"
begin

lemma ok_run: "ok n s \<Longrightarrow> \<forall>op \<in> set ops. legal op \<Longrightarrow> n + length ops < limit \<Longrightarrow> ok (n + length ops) (fold step ops s)"
proof (induction ops arbitrary: n s)
  case (Cons op ops)
  then have "ok (Suc n) (step op s)" by (intro ok_step) simp_all
  then show ?case using Cons(1)[of "Suc n"] Cons(3,4) by simp
qed simp

lemma renewed:
  assumes "ok n s" "\<forall>op \<in> set ops. legal op" "n + length ops < limit" "holds i s" "\<not> holds i (fold step ops s)"
  shows "\<exists>us op vs. ops = us @ op # vs \<and> renewal op i (fold step us s) (step op (fold step us s))"
  using assms
proof (induction ops arbitrary: n s)
  case (Cons op ops)
  have ok: "ok (Suc n) (step op s)" using Cons by (intro ok_step) simp_all
  show ?case
  proof (cases "renewal op i s (step op s)")
    case True
    then show ?thesis by (intro exI[of _ "[]"] exI[of _ op] exI[of _ ops]) simp
  next
    case False
    then have "holds i (step op s)" using holds_step[OF Cons(2), of op i] Cons(3-5) by simp
    then obtain us op' vs where "ops = us @ op' # vs" "renewal op' i (fold step us (step op s)) (step op' (fold step us (step op s)))"
      using Cons(1)[OF ok] Cons(3,4,6) by auto
    then show ?thesis by (intro exI[of _ "op # us"] exI[of _ op'] exI[of _ vs]) simp
  qed
qed simp

end

section \<open>Runs\<close>

definition effect :: "json_codec \<Rightarrow> Binding \<Rightarrow> jop \<Rightarrow> journal \<Rightarrow> journal \<Rightarrow> bool" where
  "effect jc b op j j' \<longleftrightarrow> op = Reopen \<and> \<not> jOpen j' \<and> jState j' = jState j \<or> moved (act jc b op) j j'"

lemmas open_leads = Messages_leads Hint_leads Notification_leads Claim_leads ClaimKind_leads Update_leads Retry_leads Reconcile_leads Intake_leads
  Retire_leads SaveReadiness_leads QueueReady_leads QueueClarification_leads InitDelivery_leads Schedule_leads SetExecution_leads Acknowledge_leads
  Recover_leads Migrate_leads Directory_leads Checkpoint_leads Fulfil_leads Deliver_leads

lemma got_Some: "got r = Some job \<longleftrightarrow> r = Inr (Some job)"
  by (auto simp: got_def split: sum.splits)

lemma leads_now [simp]: "leads jc P j (j\<lparr>jNow := t\<rparr>)"
  by (simp add: leads_def same_def)

lemma perform_leads:
  assumes "sound jc b n (jState j)" "collision_free jc" "clean jc op" "Suc n < 2 ^ 64" "op \<noteq> Reopen" "\<forall>oid v. op \<noteq> Accept oid v"
  shows "leads jc (next_ok jc b n op (jState j)) j (snd (perform jc b op j))"
  using assms by (cases op) (simp_all add: open_leads)

lemma perform_step:
  assumes j: "consistent jc b n j" and jc: "collision_free jc" "reads_back jc" and op: "clean jc op" "Suc n < 2 ^ 64"
    and p: "perform jc b op j = (out, j')"
  shows "consistent jc b (Suc n) j' \<and> effect jc b op j j' \<and> (\<forall>job. out = Some job \<longrightarrow> handed j j' job)"
proof (cases "\<exists>oid v. op = Accept oid v \<and> jOpen j")
  case True
  then obtain oid v where a: "op = Accept oid v" "jOpen j" by blast
  then obtain r where "ClaimCommissionAcceptance jc b oid v j = (r, j')" "out = got (map_sum id Some r)"
    using p by (cases "ClaimCommissionAcceptance jc b oid v j") simp
  with a show ?thesis using Accept_step[OF j jc(1)] by (cases r) (auto simp: effect_def got_def simp del: act.simps)
next
  case False
  show ?thesis
  proof (cases "op = Reopen")
    case True
    then have "OpenJournal jc b j = (fst (OpenJournal jc b j), j')" "out = None" using p by (auto simp: prod_eq_iff)
    then show ?thesis using Open_step[OF j jc(2)] True by (auto simp: effect_def simp del: act.simps)
  next
    case nr: False
    have "leads jc (next_ok jc b n op (jState j)) j j'"
    proof (cases "\<exists>oid v. op = Accept oid v")
      case True
      then show ?thesis using False p by auto
    next
      case False
      then show ?thesis using perform_leads[OF _ jc(1) op nr, of b j] j p by (auto simp: consistent_def)
    qed
    then have "consistent jc b (Suc n) j' \<and> effect jc b op j j'" using leads_step[OF j nr] by (simp add: effect_def)
    moreover have "handed j j' job" if "out = Some job" for job
      using p that False next_handed[OF j, of _ job j']
      by (cases op) (auto simp: got_Some NextKind_def map_prod_def split: if_splits prod.splits)
    ultimately show ?thesis by simp
  qed
qed

section \<open>At most once\<close>

text \<open>The operations that allow a job to be handed out again.\<close>

definition renews :: "jop \<Rightarrow> string \<Rightarrow> journal \<Rightarrow> journal \<Rightarrow> bool" where
  "renews op i j j' \<longleftrightarrow>
     op = Retry i \<or>
     (op = Reopen \<or> (\<exists>code sn now. op = Schedule i code sn now)) \<and> (\<exists>v. table (jState j) i = Some v \<and> busy v \<and> vRetry v) \<or>
     table (jState j') i = None \<and> plainCount (jState j') = journalMaxCompleted"

definition taken :: "string \<Rightarrow> journal \<Rightarrow> bool" where
  "taken i j \<longleftrightarrow> (\<exists>v. table (jState j) i = Some v \<and> vStatus v \<noteq> ''pending'')"

lemma turns_status: "turns P Q (Some v) (Some v') \<Longrightarrow> P v \<and> Q v (vStatus v')"
  by (auto simp: turns_def)

lemma released_status: "released (Some v) (Some v') \<Longrightarrow> vStatus v' = vStatus v"
  by (auto simp: released_def)

lemma not_pending: "\<not> validTransition st ''pending''" "commissionResultStatus outcome \<noteq> ''pending''" "commissionFulfillmentStatus outcome \<noteq> ''pending''"
  "''pending'' \<notin> {''no_reply'', ''replied'', ''completed'', ''failed''}"
  by (simp_all add: validTransition_def commissionResultStatus_def commissionFulfillmentStatus_def)

lemma act_taken:
  assumes "act jc b op i (Some v) (Some v')" "vStatus v \<noteq> ''pending''" "op \<noteq> Retry i" "\<not> ((op = Reopen \<or> (\<exists>code sn now. op = Schedule i code sn now)) \<and> busy v \<and> vRetry v)"
  shows "vStatus v' \<noteq> ''pending''"
  using assms by (cases op) (auto dest!: turns_status released_status simp: not_pending simp del: insert_iff)

lemma effect_taken:
  assumes "effect jc b op j j'" "taken i j" "\<not> renews op i j j'"
  shows "taken i j'"
proof -
  obtain v where v: "table (jState j) i = Some v" "vStatus v \<noteq> ''pending''" using assms(2) by (auto simp: taken_def)
  show ?thesis
  proof (cases "jState j' = jState j")
    case False
    then obtain y where y: "act jc b op i (Some v) y" "settles y (table (jState j') i)"
      and gone: "table (jState j') i = None \<Longrightarrow> plainCount (jState j') = journalMaxCompleted"
      using assms(1) v unfolding effect_def moved_def by (metis option.simps(3))
    have "table (jState j') i \<noteq> None" using gone assms(3) by (auto simp: renews_def)
    then obtain v' where v': "table (jState j') i = Some v'" by auto
    then have "y = Some v'" using y(2) by (auto simp: settles_def)
    then have "vStatus v' \<noteq> ''pending''" using act_taken[of jc b op i v v'] y(1) v assms(3) by (auto simp: renews_def)
    then show ?thesis using v' by (simp add: taken_def)
  qed (use assms(2) in \<open>simp add: taken_def\<close>)
qed

section \<open>The journal as a store of tasks\<close>

definition sane :: "json_codec \<Rightarrow> jop \<Rightarrow> bool" where
  "sane jc op \<longleftrightarrow> collision_free jc \<and> reads_back jc \<and> clean jc op"

lemma operate_fold: "operate jc b ops j = fold (\<lambda>op j. snd (perform jc b op j)) ops j"
  by (induction ops arbitrary: j) simp_all

interpretation jobs: task_store "\<lambda>op j. snd (perform jc b op j)" "consistent jc b" "sane jc" "2 ^ 64" taken renews for jc b
proof unfold_locales
  fix n j op i
  assume *: "consistent jc b n j" "sane jc op" "Suc n < 2 ^ 64"
  then have s: "consistent jc b (Suc n) (snd (perform jc b op j)) \<and> effect jc b op j (snd (perform jc b op j))"
    using perform_step[of jc b n j op] by (metis prod.collapse sane_def)
  then show "consistent jc b (Suc n) (snd (perform jc b op j))" by simp
  assume "taken i j" "\<not> renews op i j (snd (perform jc b op j))"
  then show "taken i (snd (perform jc b op j))" using s effect_taken by blast
qed

lemma run_consistent:
  assumes "fresh j0" "\<forall>op \<in> set ops. sane jc op" "length ops < 2 ^ 64"
  shows "consistent jc b (length ops) (operate jc b ops j0)"
  using jobs.ok_run[OF fresh_inv[OF assms(1)] assms(2)] assms(3) by (simp add: operate_fold)

lemma run_step:
  assumes "fresh j0" "\<forall>op \<in> set (ops @ [op]). sane jc op" "Suc (length ops) < 2 ^ 64" "perform jc b op (operate jc b ops j0) = (out, j')"
  shows "consistent jc b (Suc (length ops)) j' \<and> effect jc b op (operate jc b ops j0) j' \<and> (\<forall>job. out = Some job \<longrightarrow> handed (operate jc b ops j0) j' job)"
  using run_consistent[OF assms(1), of ops jc b] assms(2-) by (intro perform_step) (simp_all add: sane_def)

end
