(* ===== verification/JournalSample.thy ===== *)
theory JournalSample
  imports JournalRuns
begin

text \<open>
  A codec that satisfies what the laws of the journal ask of \<open>encoding/json\<close> and SHA-256, and a run with it: a message arrives,
  its job is claimed, fails and is retried.
\<close>

text \<open>What is read back keeps the identity of the jobs and the meaning of their data.\<close>

definition keeps_data :: "json_codec \<Rightarrow> bool" where
  "keeps_data jc \<longleftrightarrow> (\<forall>s s'. jcState jc (jcOfState jc s) = Some s' \<longrightarrow>
     list_all2 (\<lambda>x y. jbID y = jbID x \<and> jbKind y = jbKind x \<and> jbStatus y = jbStatus x \<and> jcRecovery jc (jbData y) = jcRecovery jc (jbData x))
       (jsJobs s) (jsJobs s'))"

section \<open>A small codec\<close>

text \<open>Lists of texts as one text, and back.\<close>

fun quote :: "string \<Rightarrow> string" where
  "quote [] = ''.''"
| "quote (c # cs) = CHR ''x'' # c # quote cs"

fun pack :: "string list \<Rightarrow> string" where
  "pack [] = []"
| "pack (p # ps) = quote p @ pack ps"

fun unpack :: "string \<Rightarrow> string \<Rightarrow> string list" where
  "unpack acc [] = []"
| "unpack acc [c] = (if c = CHR ''.'' then [rev acc] else [])"
| "unpack acc (c # d # cs) = (if c = CHR ''.'' then rev acc # unpack [] (d # cs) else unpack (d # acc) cs)"

lemma unpack_dot: "unpack acc (CHR ''.'' # cs) = rev acc # unpack [] cs"
  by (cases cs) simp_all

lemma unpack_quote: "unpack acc (quote p @ cs) = (rev acc @ p) # unpack [] cs"
  by (induction p arbitrary: acc) (simp_all add: unpack_dot)

lemma unpack_pack [simp]: "unpack [] (pack ps) = ps"
  by (induction ps) (simp_all add: unpack_quote)

lemma inj_pack: "inj pack"
  by (metis injI unpack_pack)

fun sample_fields :: "Job \<Rightarrow> string list" where
  "sample_fields job =
     [jbID job, jbKind job, jbStatus job, jbData job, (if jbDelivery job = None then [] else ''1''), (if jbReadiness job = None then [] else ''1'')] @
     (case jbMessage job of None \<Rightarrow> [[], [], [], []] | Some m \<Rightarrow> [mgID m, mgConversation m, mgSender m, mgReceiver m])"

definition sample_decision :: CommissionIntakeDecision where
  "sample_decision = \<lparr>idVersion = 1, idRequestID = [], idOrderID = [], idOrderVersion = 1, idOutcome = [], idSummary = [], idInspectedFiles = None\<rparr>"

definition sample_job :: "string \<Rightarrow> string \<Rightarrow> string \<Rightarrow> string \<Rightarrow> string \<Rightarrow> string \<Rightarrow> Message option \<Rightarrow> Job" where
  "sample_job i kind st d retry ready m =
     \<lparr>jbID = i, jbKind = kind, jbScope = ''s'', jbRevision = ''r'', jbMessage = m, jbData = d, jbStatus = st, jbCode = [], jbCreated = 0, jbSessionID = [],
      jbReplyID = [], jbResult = None,
      jbReadiness = (if ready = [] then None else Some \<lparr>rdResult = sample_decision, rdInputFingerprint = []\<rparr>),
      jbFulfillment = None, jbCheckpoint = None,
      jbDelivery = (if retry = [] then None else Some \<lparr>drAttempts = 1, drNextAttemptAt = 0, drLastCode = [], drBuyerID = [], drSellerID = [], drSnapshotID = []\<rparr>),
      jbDirectory = [], jbExecution = None\<rparr>"

fun sample_jobs :: "string list \<Rightarrow> Job list" where
  "sample_jobs (i # kind # st # d # retry # ready # mi # mc # ms # mr # rest) =
     sample_job i kind st d retry ready (if mi = [] then None
       else Some \<lparr>mgID = mi, mgConversation = mc, mgSender = ms, mgReceiver = mr, mgContent = [], mgCreatedAt = 0\<rparr>) # sample_jobs rest"
| "sample_jobs _ = []"

definition sample_encode :: "journalState \<Rightarrow> string" where
  "sample_encode s = pack (nat_dec (unat (jsSequence s)) # concat (map sample_fields (jsJobs s)))"

definition sample_decode :: "string \<Rightarrow> journalState option" where
  "sample_decode raw = (case unpack [] raw of
      [] \<Rightarrow> None
    | q # fs \<Rightarrow> (case parse_nat q of
        None \<Rightarrow> None
      | Some n \<Rightarrow> Some \<lparr>jsVersion = 1, jsScope = ''s'', jsRevision = ''r'', jsAgentID = ''7'', jsSequence = of_nat n, jsJobs = sample_jobs fs,
          jsSessions = Map.empty\<rparr>))"

definition sample_binding :: Binding where
  "sample_binding = \<lparr>bdHome = ''h'', bdScope = ''s'', bdRevision = ''r'', bdAgentID = ''7'', bdEvents = [''commission_order'']\<rparr>"

definition sample_message :: Message where
  "sample_message = \<lparr>mgID = ''1'', mgConversation = ''c'', mgSender = ''8'', mgReceiver = ''7'', mgContent = ''hi'', mgCreatedAt = 0\<rparr>"

text \<open>The codec knows one batch of messages, \<open>m\<close>, and one notification, \<open>n\<close>.\<close>

definition sample_members :: "string \<Rightarrow> (string \<times> string) list option" where
  "sample_members raw =
     (if raw = ''n'' then Some [(''source_type'', ''C''), (''notification_id'', ''1''), (''payload'', ''p'')]
      else if raw = ''p'' then Some [(''recipient_agent_id'', ''7''), (''order_id'', ''9''), (''order_version'', ''1''), (''snapshot_id'', ''1''),
        (''occurred_at'', ''1''), (''recipient_role'', ''B''), (''to_state'', ''B'')]
      else None)"

definition sample :: json_codec where
  "sample =
     \<lparr>jcDigest = pack, jcUpper = id, jcControl = (\<lambda>_. False), jcTokens = (\<lambda>_. [Delim (CHR ''{''), Delim (CHR ''}'')]), jcValid = (\<lambda>_. True),
      jcFields = sample_members, jcText = (\<lambda>raw. if raw = ''C'' then Some ''commission_order'' else if raw = ''B'' then Some ''buyer'' else None),
      jcTexts = (\<lambda>_. None), jcMessages = (\<lambda>raw. if raw = ''m'' then Some [sample_message] else None), jcFulfillment = (\<lambda>_. None),
      jcClarification = (\<lambda>_. None), jcOrderID = (\<lambda>_. None),
      jcRecovery = (\<lambda>raw. if raw = ''n'' then Some (''operator_recovery'', ''9'', 1, ''buyer'') else None), jcState = sample_decode,
      jcOfTexts = pack, jcOfFields = (\<lambda>_. []), jcOfFulfillment = (\<lambda>_. []), jcOfClarification = (\<lambda>_. []), jcOfRecovery = (\<lambda>_. []),
      jcOfReport = (\<lambda>_. []), jcOfState = sample_encode, jcIndented = sample_encode\<rparr>"

lemma sample_jobs_fields:
  "map (\<lambda>job. (jbID job, view job)) (sample_jobs (concat (map sample_fields jobs))) = map (\<lambda>job. (jbID job, view job)) jobs"
  "list_all2 (\<lambda>x y. jbID y = jbID x \<and> jbKind y = jbKind x \<and> jbStatus y = jbStatus x \<and> jbData y = jbData x)
     jobs (sample_jobs (concat (map sample_fields jobs)))"
  by (induction jobs) (auto simp: sample_job_def view_def split: option.splits)

lemma sample_decode_encode:
  "sample_decode (sample_encode s) = Some \<lparr>jsVersion = 1, jsScope = ''s'', jsRevision = ''r'', jsAgentID = ''7'', jsSequence = jsSequence s,
     jsJobs = sample_jobs (concat (map sample_fields (jsJobs s))), jsSessions = Map.empty\<rparr>"
  by (simp add: sample_decode_def sample_encode_def unpack_quote)

lemma length_quote: "length (quote p) = 2 * length p + 1"
  by (induction p) simp_all

lemma length_pack: "length (pack []) = 0" "length (pack (p # ps)) = 2 * length p + 1 + length (pack ps)"
  by (simp_all add: length_quote)

lemma length_encode: "length (sample_encode s) = 2 * length (nat_dec (unat (jsSequence s))) + 1 + length (pack (concat (map sample_fields (jsJobs s))))"
  by (simp only: sample_encode_def length_pack)

lemma nat_dec_0: "nat_dec 0 = ''0''"
  by code_simp

lemmas sample_size = length_encode length_pack nat_dec_0

lemma sample_collision_free: "collision_free sample"
  by (simp add: collision_free_def sample_def inj_pack)

lemma sample_reads_back: "reads_back sample"
  by (auto simp: reads_back_def sample_def sample_decode_encode alike_def sample_jobs_fields)

lemma sample_keeps_data: "keeps_data sample"
  using list_all2_mono[OF sample_jobs_fields(2)] by (fastforce simp: keeps_data_def sample_def sample_decode_encode)

definition sample_journal :: journal where
  "sample_journal = \<lparr>jState = empty_journal sample_binding, jDisk = None, jFaults = [], jNow = 0, jWake = False, jOpen = False\<rparr>"

lemma sample_fresh: "fresh sample_journal"
  by (simp add: fresh_def sample_journal_def empty_journal_def)

text \<open>A run with one message, whose job has the status and the code given.\<close>

definition sample_task :: "string \<Rightarrow> string \<Rightarrow> Job" where
  "sample_task st code = (newHint sample_binding 0 ''xs.xr.xc.x1.'' ''pm_push'' [])\<lparr>jbMessage := Some sample_message, jbStatus := st, jbCode := code\<rparr>"

definition sample_with :: "Job list \<Rightarrow> bool \<Rightarrow> journal" where
  "sample_with jobs wake = \<lparr>jState = (empty_journal sample_binding)\<lparr>jsJobs := jobs\<rparr>,
     jDisk = Some (sample_encode ((empty_journal sample_binding)\<lparr>jsJobs := jobs\<rparr>)), jFaults = [], jNow = 0, jWake = wake, jOpen = True\<rparr>"

lemmas saving = save_def trimCompleted_def unresolvedCount_def commissionReadinessCount_def compact_job_def completed_def completedStatus_def WriteJSON_def
  save_and_signal_def saveUpdatedJob_def signal_def hasPending_def append_jobs_def set_job_def sample_with_def sample_task_def newHint_def empty_journal_def Let_def
  sample_size

lemma sample_codec: "jcIndented sample = sample_encode" "jcOfState sample = sample_encode" "jcState sample = sample_decode" "journalID sample = pack"
  "jcMessages sample raw = (if raw = ''m'' then Some [sample_message] else None)"
  by (simp_all add: sample_def journalID_def fun_eq_iff)

definition graphic :: "string \<Rightarrow> bool" where
  "graphic s \<longleftrightarrow> list_all (\<lambda>c. 32 < byte c \<and> byte c < 127) s"

lemma runes_ascii: "graphic s \<Longrightarrow> runes s = map (\<lambda>c. (byte c, 1, True)) s"
proof (induction s)
  case (Cons c s)
  then have "DecodeRune (c # s) = (byte c, 1, True)" by (simp add: graphic_def DecodeRune.simps)
  then show ?case using Cons runes_Cons[of "c # s" "byte c" 1 True] by (simp add: graphic_def)
qed simp

lemma slices_ascii: "graphic s \<Longrightarrow> slices s (runes s) = map (\<lambda>c. (byte c, [c])) s"
proof -
  have "slices s (map (\<lambda>c. (byte c, 1, True)) s) = map (\<lambda>c. (byte c, [c])) s" by (induction s) simp_all
  then show "graphic s \<Longrightarrow> slices s (runes s) = map (\<lambda>c. (byte c, [c])) s" by (simp only: runes_ascii)
qed

lemma TrimSpace_ascii: assumes "graphic s" shows "TrimSpace s = s"
proof -
  have "dropWhile (\<lambda>x. IsSpace (fst x)) xs = xs" if "set xs \<subseteq> set (map (\<lambda>c. (byte c, [c])) s)" for xs
    using that assms by (cases xs) (auto simp: graphic_def IsSpace_def list_all_iff)
  then have "dropWhile (\<lambda>x. IsSpace (fst x)) (map (\<lambda>c. (byte c, [c])) s) = map (\<lambda>c. (byte c, [c])) s"
    "dropWhile (\<lambda>x. IsSpace (fst x)) (rev (map (\<lambda>c. (byte c, [c])) s)) = rev (map (\<lambda>c. (byte c, [c])) s)" by auto
  then have "TrimSpace s = concat (map snd (map (\<lambda>c. (byte c, [c])) s))" using assms by (simp only: TrimSpace_def slices_ascii rev_rev_ident)
  then show ?thesis by (simp add: comp_def)
qed

lemma sample_trim: "TrimSpace ''s'' = ''s''" "TrimSpace ''r'' = ''r''" "TrimSpace ''7'' = ''7''" "TrimSpace ''1'' = ''1''" "TrimSpace ''c'' = ''c''"
  "TrimSpace ''8'' = ''8''" "TrimSpace ''9'' = ''9''" "TrimSpace ''buyer'' = ''buyer''"
  by (simp_all add: TrimSpace_ascii graphic_def)

lemma sample_numbers: "ParseInt64 ''1'' = Some 1" "ParseInt64 ''7'' = Some 7" "ParseInt64 ''9'' = Some 9" "itoa 1 = ''1''" "itoa 7 = ''7''" "itoa 9 = ''9''"
  by code_simp+

lemma sample_sane: "sane sample Reopen" "sane sample Claim" "sane sample (Messages ''m'')" "sane sample (Update i st code sn rp)" "sane sample (Retry i)"
  by (simp_all add: sane_def sample_collision_free sample_reads_back sample_codec sample_message_def periodic_def)

lemma sample_run:
  "perform sample sample_binding Reopen sample_journal = (None, sample_with [] False)"
  "perform sample sample_binding (Messages ''m'') (sample_with [] False) = (None, sample_with [sample_task ''pending'' []] True)"
  "perform sample sample_binding Claim (sample_with [sample_task ''pending'' code] True) =
     (Some (sample_task ''running'' code), sample_with [sample_task ''running'' code] True)"
  "perform sample sample_binding (Update ''xs.xr.xc.x1.'' ''failed'' ''e'' [] []) (sample_with [sample_task ''running'' code] True) =
     (None, sample_with [sample_task ''failed'' ''e''] True)"
  "perform sample sample_binding (Retry ''xs.xr.xc.x1.'') (sample_with [sample_task ''failed'' code] True) =
     (None, sample_with [sample_task ''pending'' ''operator_retry''] True)"
  subgoal by (simp add: OpenJournal_def readJournal_def validJournalBinding_def sample_journal_def sample_binding_def saving sample_codec sample_trim)
  subgoal by (simp add: AddMessages_def inbound_def message_id_def sample_message_def sample_binding_def saving sample_codec sample_trim)
  subgoal by (simp add: next_job_def got_def in_lane_def executing_def waiting_def commission_kind_def claim_job_def saving sample_codec sample_message_def)
  subgoal
  proof -
    have t: "validTransition ''running'' ''failed''" by (simp add: validTransition_def validJobStatus_def)
    have "Update_job sample ''xs.xr.xc.x1.'' ''failed'' ''e'' [] [] (sample_with [sample_task ''running'' code] True) =
        saveUpdatedJob sample ((empty_journal sample_binding)\<lparr>jsJobs := [sample_task ''failed'' ''e'']\<rparr>) 0 (sample_with [sample_task ''running'' code] True)"
      by (simp add: Update_job_def with_job_def t sample_with_def sample_task_def newHint_def set_job_def sample_message_def)
    then show ?thesis by (simp add: saving sample_codec sample_message_def)
  qed
  subgoal by (simp add: Retry_job_def with_job_def saving sample_codec sample_message_def)
  done

end
