(* ===== verification/Artifacts.thy ===== *)
theory Artifacts
  imports JournalSample
begin

text \<open>
  The paths of artifacts (\<open>commission_fulfillment.go\<close>): a path that passes the check stays below the output directory when
  it is joined to it.
\<close>

section \<open>Splitting and joining\<close>

abbreviation parts :: "string \<Rightarrow> string list" where
  "parts v \<equiv> strings_Split (CHR ''/'') v"

definition proper :: "string \<Rightarrow> bool" where
  "proper p \<longleftrightarrow> p \<noteq> [] \<and> p \<noteq> ''.'' \<and> p \<noteq> ''..''"

lemma parts_nonempty: "parts v \<noteq> []"
  by (induction v) (auto split: list.splits)

lemma join_cons: "xs \<noteq> [] \<Longrightarrow> strings_Join (x # xs) sep = x @ sep @ strings_Join xs sep"
  by (cases xs) simp_all

lemma join_append: "xs \<noteq> [] \<Longrightarrow> ys \<noteq> [] \<Longrightarrow> strings_Join (xs @ ys) sep = strings_Join xs sep @ sep @ strings_Join ys sep"
proof (induction xs)
  case (Cons x xs)
  then show ?case by (cases "xs = []") (simp_all add: join_cons)
qed simp

lemma join_head: "strings_Join ((x # p) # ps) sep = x # strings_Join (p # ps) sep"
  by (cases ps) simp_all

lemma join_parts: "strings_Join (parts v) ''/'' = v"
proof (induction v)
  case (Cons x xs)
  show ?case
  proof (cases "x = CHR ''/''")
    case True
    then show ?thesis using Cons by (simp add: join_cons parts_nonempty)
  next
    case False
    then show ?thesis using Cons parts_nonempty[of xs] by (cases "parts xs") (simp_all add: join_head)
  qed
qed simp

lemma parts_append: "parts (a @ ''/'' @ v) = parts a @ parts v"
proof (induction a)
  case (Cons x a)
  then show ?case using parts_nonempty[of a] by (cases "parts a") simp_all
qed simp

lemma parts_noslash: "p \<in> set (parts v) \<Longrightarrow> CHR ''/'' \<notin> set p"
proof (induction v arbitrary: p)
  case (Cons x v)
  then show ?case using parts_nonempty[of v] by (cases "parts v") (auto split: if_splits)
qed simp

lemma parts_join: "xs \<noteq> [] \<Longrightarrow> \<forall>p \<in> set xs. CHR ''/'' \<notin> set p \<Longrightarrow> parts (strings_Join xs ''/'') = xs"
proof (induction xs)
  case (Cons p ps)
  show ?case
  proof (cases "ps = []")
    case False
    then have "parts (p @ ''/'' @ strings_Join ps ''/'') = parts p @ ps" using Cons by (simp only: parts_append) simp
    moreover have "parts p = [p]" using Cons(3) by simp
    ultimately show ?thesis using False by (simp add: join_cons)
  qed (use Cons in simp)
qed simp

section \<open>Cleaning\<close>

lemma clean_plain: "''..'' \<notin> set ps \<Longrightarrow> clean_parts r kept ps = rev kept @ filter proper ps"
  by (induction r kept ps rule: clean_parts.induct) (auto simp: proper_def)

lemma clean_rooted:
  "\<forall>p \<in> set kept. proper p \<and> p \<in> P \<Longrightarrow> set ps \<subseteq> P \<Longrightarrow> \<forall>p \<in> set (clean_parts True kept ps). proper p \<and> p \<in> P"
proof (induction ps arbitrary: kept)
  case (Cons q ps)
  show ?case
  proof (cases "proper q")
    case True
    then have "clean_parts True kept (q # ps) = clean_parts True (q # kept) ps" by (simp add: proper_def)
    moreover have "\<forall>p \<in> set (q # kept). proper p \<and> p \<in> P" using True Cons.prems by simp
    then have "\<forall>p \<in> set (clean_parts True (q # kept) ps). proper p \<and> p \<in> P" using Cons.prems by (intro Cons.IH) simp_all
    ultimately show ?thesis by metis
  next
    case False
    then have q: "q = [] \<or> q = ''.'' \<or> q = ''..''" by (simp add: proper_def)
    have IH: "\<forall>p \<in> set (clean_parts True kept' ps). proper p \<and> p \<in> P" if "set kept' \<subseteq> set kept" for kept'
      using that Cons.prems by (intro Cons.IH) auto
    have "clean_parts True kept (q # ps) = clean_parts True (if q = ''..'' then tl kept else kept) ps"
    proof (cases kept)
      case (Cons k ks)
      then have "k \<noteq> ''..''" using Cons.prems(1) by (simp add: proper_def)
      then show ?thesis using q Cons by (elim disjE) simp_all
    qed (use q in \<open>elim disjE; simp\<close>)
    moreover have "set (tl kept) \<subseteq> set kept" by (cases kept) auto
    ultimately show ?thesis using IH[of kept] IH[of "tl kept"] by simp
  qed
qed simp

lemma relative_parts:
  assumes "path_Clean v = v" "\<not> path_IsAbs v" "v \<noteq> ''.''" "''..'' \<notin> set (parts v)"
  shows "\<forall>p \<in> set (parts v). proper p"
proof -
  let ?F = "filter proper (parts v)"
  have out: "clean_parts False [] (parts v) = ?F" using clean_plain[OF assms(4)] by simp
  have j: "strings_Join ?F ''/'' = v"
    using assms(1-3) by (auto simp: path_Clean_def path_IsAbs_def out Let_def split: if_splits)
  have "?F \<noteq> []"
  proof
    assume "?F = []"
    then show False using assms(1-3) by (simp add: path_Clean_def path_IsAbs_def out Let_def)
  qed
  moreover have "\<forall>p \<in> set ?F. CHR ''/'' \<notin> set p" using parts_noslash by (simp only: set_filter) blast
  ultimately have "parts (strings_Join ?F ''/'') = ?F" by (rule parts_join)
  then have F: "?F = parts v" by (simp only: j)
  show ?thesis by (subst F[symmetric]) simp
qed

lemma rooted_parts:
  assumes "path_Clean (CHR ''/'' # d) = CHR ''/'' # d" "d \<noteq> []"
  shows "\<forall>p \<in> set (parts d). proper p"
proof -
  let ?C = "clean_parts True [] (parts (CHR ''/'' # d))"
  have j: "strings_Join ?C ''/'' = d" using assms(1) by (simp add: path_Clean_def Let_def)
  then have "?C \<noteq> []" using assms(2) by auto
  moreover have C: "proper p \<and> p \<in> set (parts (CHR ''/'' # d))" if "p \<in> set ?C" for p using that clean_rooted[of "[]" "set (parts (CHR ''/'' # d))" "parts (CHR ''/'' # d)"] by simp
  ultimately have "parts d = ?C" using parts_join[of ?C] parts_noslash[of _ "CHR ''/'' # d"] j by metis
  then show ?thesis using C by metis
qed

text \<open>C25: An artifact path that passes the check, joined to an output directory that passes its own, names a
  place below that directory: cleaning the joined path leaves both parts as they are, so no part of it leads out.\<close>

theorem artifact_paths_confined:
  assumes "validCommissionDirectory jc dir" "validCommissionArtifactPath jc v"
  shows "path_Clean (dir @ ''/'' @ v) = (if dir = ''/'' then dir else dir @ ''/'') @ v"
proof -
  obtain d where d: "dir = CHR ''/'' # d" using assms(1) by (cases dir) (auto simp: validCommissionDirectory_def path_IsAbs_def)
  have v: "\<forall>p \<in> set (parts v). proper p" using assms(2) by (intro relative_parts) (auto simp: validCommissionArtifactPath_def)
  have ds: "\<forall>p \<in> set (parts d). proper p" if "d \<noteq> []" using assms(1) that by (intro rooted_parts) (auto simp: validCommissionDirectory_def d)
  have "''..'' \<notin> set (parts (dir @ ''/'' @ v))" using v ds by (cases "d = []") (auto simp: parts_append d proper_def simp del: append.simps)
  then have "clean_parts True [] (parts (dir @ ''/'' @ v)) = filter proper (parts (dir @ ''/'' @ v))" using clean_plain by simp
  also have "\<dots> = (if d = [] then [] else parts d) @ parts v"
    using v ds unfolding parts_append by (auto simp: d proper_def[of "[]"] filter_True)
  finally have "path_Clean (dir @ ''/'' @ v) = ''/'' @ strings_Join ((if d = [] then [] else parts d) @ parts v) ''/''"
    by (simp add: path_Clean_def Let_def d)
  then show ?thesis using join_append[OF parts_nonempty parts_nonempty, of d v "''/''"] by (simp add: join_parts d)
qed

theorem artifact_paths_confined_witness:
  "path_Clean (''/out'' @ ''/'' @ ''a/b'') = ''/out/a/b''"
proof -
  have "graphic ''/out''" "graphic ''a/b''" by (simp_all add: graphic_def)
  then have "ValidString ''/out''" "ValidString ''a/b''" "TrimSpace ''a/b'' = ''a/b''" "\<not> has_control sample ''/out''" "\<not> has_control sample ''a/b''"
    by (auto simp: ValidString_def runes_ascii TrimSpace_ascii has_control_def sample_def)
  then have "validCommissionDirectory sample ''/out''" "validCommissionArtifactPath sample ''a/b''"
    by (simp_all add: validCommissionDirectory_def validCommissionArtifactPath_def path_IsAbs_def path_Clean_def)
  then show ?thesis using artifact_paths_confined[of sample "''/out''" "''a/b''"] by simp
qed

end
