(* ===== verification/JournalLaws.thy ===== *)
theory JournalLaws
  imports JournalSample
begin

text \<open>What the journal of the dispatcher guarantees, with the run of \<open>JournalSample\<close> as witness.\<close>

section \<open>Lemmas\<close>

lemma collect_messages_ids:
  "collect_messages jc b now seen ms = Inr jobs \<Longrightarrow> m \<in> set ms \<Longrightarrow> inbound b m \<Longrightarrow> message_id jc b m \<in> set seen \<union> set (map jbID jobs)"
proof (induction jc b now seen ms arbitrary: jobs rule: collect_messages.induct)
  case (2 jc b now seen m' ms)
  then show ?case by (auto split: if_splits sum.splits simp: newHint_def)
qed simp

lemma collect_messages_again:
  "collect_messages jc b now seen ms = Inr jobs \<Longrightarrow> set seen \<union> set (map jbID jobs) \<subseteq> set seen' \<Longrightarrow> collect_messages jc b now' seen' ms = Inr []"
proof (induction jc b now seen ms arbitrary: jobs rule: collect_messages.induct)
  case (2 jc b now seen m ms)
  then show ?case by (auto split: if_splits sum.splits simp: newHint_def)
qed simp

lemma jobs_error_job: "job \<in> set jobs \<Longrightarrow> job_error jc b job \<noteq> None \<Longrightarrow> jobs_error jc b seen jobs \<noteq> None"
  by (induction jobs arbitrary: seen) (auto split: option.splits)

lemma readJournal_job:
  "jcState jc raw = Some s \<Longrightarrow> job \<in> set (jsJobs s) \<Longrightarrow> job_error jc b job \<noteq> None \<Longrightarrow> \<exists>e. readJournal jc b (Some raw) = Inl e"
  using jobs_error_job[of job "jsJobs s" jc b "[]"] by (auto simp: readJournal_def split: option.splits)

lemma readiness_le: "commissionReadinessCount s True \<le> commissionReadinessCount s False"
proof -
  have "length (filter (\<lambda>job. P job \<and> Q job) jobs) \<le> length (filter P jobs)" for P Q and jobs :: "Job list"
    by (induction jobs) auto
  then show ?thesis by (simp add: commissionReadinessCount_def)
qed

lemma plain_append: "(\<And>job. job \<in> set jobs \<Longrightarrow> jbStatus job = ''pending'') \<Longrightarrow> plainCount (append_jobs jobs s) = plainCount s"
  by (auto simp: plainCount_def completed_def completedStatus_def intro!: filter_False)

lemma append_wrote:
  assumes "consistent jc b n j" "wrote jc (append_jobs jobs (jState j)) j j'" "\<And>job. job \<in> set jobs \<Longrightarrow> jbStatus job = ''pending''"
  shows "table (jState j') = table (append_jobs jobs (jState j))" "job_ids (jState j') = job_ids (jState j) @ map jbID jobs"
    "jsJobs (jState j') = map compact_job (jsJobs (jState j) @ jobs)"
proof -
  have p: "plainCount (append_jobs jobs (jState j)) \<le> journalMaxCompleted"
    using assms(1) plain_append[OF assms(3)] by (simp add: consistent_def bounded_def)
  have j': "jState j' = settled jc (append_jobs jobs (jState j))" using assms(2) by (simp add: wrote_def)
  show "table (jState j') = table (append_jobs jobs (jState j))" unfolding j' by (rule table_settled_none[OF p])
  show "job_ids (jState j') = job_ids (jState j) @ map jbID jobs" "jsJobs (jState j') = map compact_job (jsJobs (jState j) @ jobs)"
    unfolding j' settled_none[OF p] by (simp_all add: comp_def)
qed

section \<open>The life of a job\<close>

text \<open>C10: After any sequence of operations of the journal, from one without a file, the next operation does to each
  identifier what the specification permits, or it is a failing attempt to open the journal, which changes nothing. The
  specification says which operation may move a job from which status to which, and that only the receipt of a finished
  job without readiness may disappear. Crashes and failing writes are among the operations. Identifiers are free of
  collisions, what is read back agrees with what was written, and no conversation is named like a periodic hint.\<close>

theorem journal_life_cycle:
  assumes "fresh j0" "\<forall>op \<in> set (ops @ [op]). sane jc op" "Suc (length ops) < 2 ^ 64" "perform jc b op (operate jc b ops j0) = (out, j')"
  shows "op = Reopen \<and> \<not> jOpen j' \<and> jState j' = jState (operate jc b ops j0) \<or>
    (\<forall>i. permits jc b op i (table (jState (operate jc b ops j0)) i) (table (jState j') i))"
  using run_step[OF assms] by (auto simp: effect_def moved_def permits_def simp del: act.simps)

theorem journal_life_cycle_witness:
  "\<forall>i. permits sample sample_binding Claim i (table (jState (operate sample sample_binding [Reopen, Messages ''m''] sample_journal)) i)
     (table (jState (sample_with [sample_task ''running'' []] True)) i)"
  using journal_life_cycle[OF sample_fresh, of "[Reopen, Messages ''m'']" Claim sample sample_binding "Some (sample_task ''running'' [])"
    "sample_with [sample_task ''running'' []] True"]
  by (simp add: sample_run sample_sane del: perform.simps)

text \<open>C23: After any sequence of operations the identifiers of the jobs are distinct, at most 256 jobs are
  unresolved, at most 256 hold readiness and at most 1024 receipts are kept.\<close>

theorem journal_bounded:
  assumes "fresh j0" "\<forall>op \<in> set ops. sane jc op" "length ops < 2 ^ 64"
  shows "distinct (map jbID (jsJobs (jState (operate jc b ops j0)))) \<and> unresolvedCount (jState (operate jc b ops j0)) \<le> 256 \<and>
    commissionReadinessCount (jState (operate jc b ops j0)) False \<le> 256 \<and>
    length (jsJobs (jState (operate jc b ops j0))) \<le> 256 + 256 + 1024"
proof -
  let ?s = "jState (operate jc b ops j0)"
  have c: "sound jc b (length ops) ?s" "bounded ?s" using run_consistent[OF assms, of b] by (auto simp: consistent_def)
  have "length (jsJobs ?s) \<le> 256 + 256 + 1024" using c(2) plain_count[of ?s] readiness_le[of ?s] unfolding bounded_def by linarith
  then show ?thesis using c by (simp add: bounded_def sound_def)
qed

theorem journal_bounded_witness:
  "unresolvedCount (jState (operate sample sample_binding [Reopen, Messages ''m'', Claim] sample_journal)) \<le> 256"
  using journal_bounded[OF sample_fresh, of "[Reopen, Messages ''m'', Claim]" sample sample_binding] by (simp add: sample_sane del: operate.simps)

text \<open>C6: A job that has been handed out for execution is handed out again only after an operation that
  renews it: a retry of the operator for this job, a delivery that failed or was interrupted while the evidence of the
  delivery was held, or that its receipt has been dropped, with 1024 others kept. In particular a crash never makes the
  journal repeat an agent's turn.\<close>

theorem executed_at_most_once:
  assumes "fresh j0" "\<forall>op \<in> set (us @ op # vs @ [op']). sane jc op" "length (us @ op # vs @ [op']) < 2 ^ 64"
    "perform jc b op (operate jc b us j0) = (Some job, j1)" "perform jc b op' (operate jc b vs j1) = (Some job', j2)" "jbID job' = jbID job"
  shows "\<exists>ws op'' xs. vs = ws @ op'' # xs \<and> renews op'' (jbID job) (operate jc b ws j1) (operate jc b (ws @ [op'']) j1)"
proof -
  have first: "consistent jc b (Suc (length us)) j1" "handed (operate jc b us j0) j1 job"
    using run_step[OF assms(1) _ _ assms(4)] assms(2,3) by simp_all
  have run: "operate jc b (us @ op # vs) j0 = operate jc b vs j1" using assms(4) by (simp add: operate_append)
  then have "handed (operate jc b vs j1) j2 job'"
    using run_step[OF assms(1), of "us @ op # vs" op' jc b "Some job'" j2] assms(2,3,5) by simp
  then have "\<not> taken (jbID job) (operate jc b vs j1)" using assms(6) by (auto simp: handed_def taken_def split: option.splits)
  moreover have "taken (jbID job) j1" using first(2) by (simp add: handed_def taken_def view_fields)
  ultimately show ?thesis
    using jobs.renewed[OF first(1), where ops = vs and i = "jbID job"] assms(2,3) by (simp add: operate_fold)
qed

theorem executed_at_most_once_witness:
  "\<exists>ws op'' xs. [Update ''xs.xr.xc.x1.'' ''failed'' ''e'' [] [], Retry ''xs.xr.xc.x1.''] = ws @ op'' # xs \<and>
     renews op'' ''xs.xr.xc.x1.'' (operate sample sample_binding ws (sample_with [sample_task ''running'' []] True))
       (operate sample sample_binding (ws @ [op'']) (sample_with [sample_task ''running'' []] True))"
proof -
  have i: "jbID (sample_task st code) = ''xs.xr.xc.x1.''" for st code by (simp add: sample_task_def)
  show ?thesis
    using executed_at_most_once[OF sample_fresh, of "[Reopen, Messages ''m'']" Claim
      "[Update ''xs.xr.xc.x1.'' ''failed'' ''e'' [] [], Retry ''xs.xr.xc.x1.'']" Claim sample sample_binding "sample_task ''running'' []"
      "sample_with [sample_task ''running'' []] True" "sample_task ''running'' ''operator_retry''" "sample_with [sample_task ''running'' ''operator_retry''] True"]
    by (simp add: sample_run sample_sane i del: perform.simps)
qed

text \<open>C12: A batch of messages that has been accepted is in the journal: each message addressed to the agent has a
  job, a new one unless it had one before, no other job changes, and accepting the batch again changes nothing.\<close>

theorem messages_kept:
  assumes "fresh j0" "\<forall>op \<in> set ops. sane jc op" "length ops < 2 ^ 64" "j = operate jc b ops j0"
    "jcMessages jc raw = Some ms" "AddMessages jc b raw j = (Inr (), j')"
  shows "(\<forall>i. table (jState j') i =
      (if table (jState j) i = None \<and> (\<exists>m \<in> set ms. inbound b m \<and> message_id jc b m = i) then arrived ''pm_push'' else table (jState j) i)) \<and>
    AddMessages jc b raw j' = (Inr (), j')"
proof -
  have c: "consistent jc b (length ops) j" using run_consistent[OF assms(1-3)] assms(4) by simp
  have len: "length raw \<le> journalMaxBytes" using assms(6) by (simp add: AddMessages_def split: if_splits)
  obtain jobs where jobs: "collect_messages jc b (jNow j) (job_ids (jState j)) ms = Inr jobs"
    using assms(5,6) by (auto simp: AddMessages_def split: if_splits sum.splits)
  note new = collect_messages_jobs[OF jobs]
  have pend: "jbStatus job = ''pending''" if "job \<in> set jobs" for job
    using new that by (fastforce simp: arrived_def view_def)
  have ids: "table (jState j') = table (append_jobs jobs (jState j)) \<and> job_ids (jState j') = job_ids (jState j) @ map jbID jobs"
  proof (cases jobs)
    case Nil
    then have "j' = j" using assms(5,6) jobs len by (simp add: AddMessages_def)
    then show ?thesis using Nil by (simp add: append_jobs_def)
  next
    case (Cons x xs)
    then have "save_and_signal jc (append_jobs jobs (jState j)) j = (Inr (), j')" using assms(5,6) jobs len by (simp add: AddMessages_def)
    then have "wrote jc (append_jobs jobs (jState j)) j j'"
      using save_result[where jc = jc and s = "append_jobs jobs (jState j)" and j = j] by (auto simp: save_and_signal_def split: prod.splits sum.splits)
    then show ?thesis using append_wrote[OF c _ pend] by blast
  qed
  have again: "collect_messages jc b (jNow j') (job_ids (jState j')) ms = Inr []"
    by (rule collect_messages_again[OF jobs]) (simp add: ids)
  have "table (jState j') i =
      (if table (jState j) i = None \<and> (\<exists>m \<in> set ms. inbound b m \<and> message_id jc b m = i) then arrived ''pm_push'' else table (jState j) i)" for i
  proof -
    have "table (jState j') i = (if i \<in> set (map jbID jobs) then arrived ''pm_push'' else table (jState j) i)"
      using ids table_append[of jobs "the (arrived ''pm_push'')" "jState j" i] new by (auto simp: arrived_def)
    moreover have "i \<in> set (map jbID jobs) \<longleftrightarrow> table (jState j) i = None \<and> (\<exists>m \<in> set ms. inbound b m \<and> message_id jc b m = i)"
    proof
      assume i: "i \<in> set (map jbID jobs)"
      then have "i \<notin> set (job_ids (jState j))" using new by blast
      moreover obtain job where "job \<in> set jobs" "jbID job = i" using i by auto
      ultimately show "table (jState j) i = None \<and> (\<exists>m \<in> set ms. inbound b m \<and> message_id jc b m = i)"
        using new unfolding table_None by metis
    next
      assume "table (jState j) i = None \<and> (\<exists>m \<in> set ms. inbound b m \<and> message_id jc b m = i)"
      then show "i \<in> set (map jbID jobs)" using collect_messages_ids[OF jobs] unfolding table_None by blast
    qed
    ultimately show ?thesis by simp
  qed
  then show ?thesis using again assms(5) len by (simp add: AddMessages_def)
qed

theorem messages_kept_witness:
  "table (jState (sample_with [sample_task ''pending'' []] True)) ''xs.xr.xc.x1.'' = arrived ''pm_push''"
proof -
  have 1: "AddMessages sample sample_binding ''m'' (sample_with [] False) = (Inr (), sample_with [sample_task ''pending'' []] True)"
    by (simp add: AddMessages_def inbound_def message_id_def sample_message_def sample_binding_def saving sample_codec sample_trim)
  have 2: "operate sample sample_binding [Reopen] sample_journal = sample_with [] False" by (simp add: sample_run del: perform.simps)
  have 3: "message_id sample sample_binding sample_message = ''xs.xr.xc.x1.''" "inbound sample_binding sample_message"
    by (simp_all add: message_id_def inbound_def sample_codec sample_message_def sample_binding_def)
  have 4: "table (jState (sample_with [] False)) i = None" for i by (simp add: table_def sample_with_def)
  show ?thesis
    using messages_kept[OF sample_fresh, of "[Reopen]" sample "sample_with [] False" sample_binding "''m''" "[sample_message]"
      "sample_with [sample_task ''pending'' []] True"]
    by (simp add: 1 2 3 4 sample_sane sample_codec del: operate.simps)
qed

lemma first_index_None: "first_index P xs = None \<longleftrightarrow> (\<forall>x \<in> set xs. \<not> P x)"
  by (induction xs) auto

lemma chosen_None: "chosen kind now jobs = None \<longleftrightarrow> (\<forall>job \<in> set jobs. \<not> eligible kind now job)"
  by (auto simp: chosen_def first_index_None dest!: first_index_Some split: option.splits)

lemma compact_running [simp]: "jbStatus job = ''running'' \<Longrightarrow> compact_job job = job"
  by (simp add: compact_job_def completed_def completedStatus_def)

text \<open>C21: \<open>Next\<close> and \<open>NextKind\<close> hand out the job that a reference definition chooses: none while a job of the lane is
  being executed, else the oldest message that is due, else the oldest job that is due. The job is handed out as running, with the
  attempt counted if it is a delivery, and no other job changes. A failing write changes nothing.\<close>

theorem next_serves:
  assumes "fresh j0" "\<forall>op \<in> set ops. sane jc op" "length ops < 2 ^ 64" "j = operate jc b ops j0"
  shows "case next_job jc kind j of
      (Inl _, j') \<Rightarrow> jState j' = jState j \<and> jDisk j' = jDisk j
    | (Inr None, j') \<Rightarrow> j' = j \<and> (lane_busy kind (jsJobs (jState j)) \<or> (\<forall>job \<in> set (jsJobs (jState j)). \<not> eligible kind (jNow j) job))
    | (Inr (Some job), j') \<Rightarrow> \<not> lane_busy kind (jsJobs (jState j)) \<and>
        (\<exists>k. chosen kind (jNow j) (jsJobs (jState j)) = Some k \<and> job = claim_job (jsJobs (jState j) ! k)) \<and>
        table (jState j') = (table (jState j))(jbID job \<mapsto> view job)"
proof -
  have c: "consistent jc b (length ops) j" using run_consistent[OF assms(1-3)] assms(4) by simp
  show ?thesis
  proof (cases rule: next_job_cases[of jc kind j])
    case 1
    then show ?thesis by (auto simp: chosen_None)
  next
    case (2 k)
    let ?job = "jsJobs (jState j) ! k"
    let ?s = "set_job k (claim_job ?job) (jState j)"
    have pend: "jbStatus ?job = ''pending''" using 2(4) by (simp add: eligible_def)
    obtain r j' where r: "save jc ?s j = (r, j')" by (cases "save jc ?s j")
    note res = save_result[where jc = jc and s = ?s and j = j, unfolded r]
    show ?thesis
    proof (cases r)
      case (Inl e)
      then show ?thesis using res by (simp add: 2(5) r same_def)
    next
      case (Inr u)
      then have w: "wrote jc ?s j j'" using res by simp
      note cw = claim_wrote[OF c w 2(3) claim_view(2) pend claim_view(5)]
      show ?thesis using 2(1,2) cw(2,3) Inr by (simp add: 2(5) r claim_view)
    qed
  qed
qed

theorem next_serves_witness:
  "\<not> lane_busy [] [sample_task ''pending'' []]"
proof -
  have 1: "next_job sample [] (sample_with [sample_task ''pending'' []] True) =
      (Inr (Some (sample_task ''running'' [])), sample_with [sample_task ''running'' []] True)"
    by (simp add: next_job_def in_lane_def executing_def waiting_def commission_kind_def claim_job_def saving sample_codec sample_message_def)
  have 2: "operate sample sample_binding [Reopen, Messages ''m''] sample_journal = sample_with [sample_task ''pending'' []] True"
    by (simp add: sample_run del: perform.simps)
  have 3: "jsJobs (jState (sample_with jobs wake)) = jobs" for jobs wake by (simp add: sample_with_def)
  show ?thesis
    using next_serves[OF sample_fresh, of "[Reopen, Messages ''m'']" sample "sample_with [sample_task ''pending'' []] True" sample_binding "[]"]
    by (simp add: 1 2 3 sample_sane del: operate.simps)
qed

section \<open>A notification that locks the journal\<close>

lemma recovery_job_error:
  assumes "jbKind job = ''commission_order''" "jbStatus job = ''pending''" "jcRecovery jc (jbData job) = Some (''operator_recovery'', oid, v, role)"
    "role \<noteq> ''seller''"
  shows "job_error jc b job \<noteq> None"
proof -
  have "parseCommissionIntakeData jc (jbData job) a = Inl ''invalid_commission_recovery''" for a
    using assms by (auto simp: parseCommissionIntakeData_def split: option.splits)
  then show ?thesis using assms by (simp add: job_error_def kind_error_def completed_def completedStatus_def)
qed

text \<open>C40: A notification of a commission with a member \<open>source\<close> that says \<open>operator_recovery\<close>, for a role other than the
  seller, is accepted and saved, so that it may be acknowledged; the journal it has been saved in cannot be opened again.\<close>

theorem notification_locks_journal:
  assumes "AddCommissionNotification jc b raw j = (Inr (), j')" "parseCommissionNotification jc raw (bdAgentID b) = Inr key"
    "commissionJournalID jc b key \<notin> set (map jbID (jsJobs (jState j)))" "keeps_data jc"
    "jcRecovery jc raw = Some (''operator_recovery'', oid, v, role)" "role \<noteq> ''seller''"
  shows "\<exists>e. fst (OpenJournal jc b j') = Inl e"
proof -
  let ?job = "newHint b (jNow j) (commissionJournalID jc b key) ''commission_order'' raw"
  let ?s = "append_jobs [?job] (jState j)"
  have "save_and_signal jc ?s j = (Inr (), j')"
    using assms(1-3) by (auto simp: AddCommissionNotification_def Let_def split: if_splits)
  then have w: "jDisk j' = Some (jcOfState jc (settled jc ?s))"
    using save_result[where jc = jc and s = ?s and j = j] by (auto simp: save_and_signal_def wrote_def split: prod.splits sum.splits)
  have p: "jbStatus ?job = ''pending''" by (simp add: newHint_def)
  then have "compact_job ?job = ?job" "\<not> droppable ?job" by (simp_all add: compact_job_def droppable_def completed_def completedStatus_def)
  then have "?job \<in> set (jsJobs (settled jc ?s))"
    unfolding settled_def by (intro trim_keeps) (auto intro!: image_eqI[of _ _ ?job])
  then obtain k where k: "k < length (jsJobs (settled jc ?s))" "jsJobs (settled jc ?s) ! k = ?job" by (auto simp: in_set_conv_nth)
  have "\<exists>e. readJournal jc b (jDisk j') = Inl e"
  proof (cases "jcState jc (jcOfState jc (settled jc ?s))")
    case None
    then show ?thesis by (simp add: w readJournal_def)
  next
    case (Some t)
    then have l: "list_all2 (\<lambda>x y. jbID y = jbID x \<and> jbKind y = jbKind x \<and> jbStatus y = jbStatus x \<and> jcRecovery jc (jbData y) = jcRecovery jc (jbData x))
       (jsJobs (settled jc ?s)) (jsJobs t)" using assms(4) by (simp add: keeps_data_def)
    then have "k < length (jsJobs t)" using k(1) list_all2_lengthD by fastforce
    moreover have "job_error jc b (jsJobs t ! k) \<noteq> None"
      using list_all2_nthD[OF l k(1)] k(2) assms(5) by (intro recovery_job_error[OF _ _ _ assms(6)]) (simp_all add: newHint_def)
    ultimately show ?thesis using readJournal_job[OF Some] w nth_mem by metis
  qed
  then show ?thesis by (auto simp: OpenJournal_def)
qed

theorem notification_locks_journal_witness:
  "\<exists>e. fst (OpenJournal sample sample_binding (snd (AddCommissionNotification sample sample_binding ''n'' (sample_with [] False)))) = Inl e"
proof -
  let ?key = "\<lparr>nkOrderID = ''9'', nkOrderVersion = ''1'', nkRecipientRole = ''buyer''\<rparr>"
  have p: "parseCommissionNotification sample ''n'' (bdAgentID sample_binding) = Inr ?key"
    by (simp add: parseCommissionNotification_def decodeStrictObject_def positiveNotificationInteger_def member_def sample_def sample_members_def
      sample_binding_def sample_trim sample_numbers ValidString_def runes_ascii graphic_def)
  have "AddCommissionNotification sample sample_binding ''n'' (sample_with [] False) =
      (Inr (), snd (AddCommissionNotification sample sample_binding ''n'' (sample_with [] False)))"
    unfolding AddCommissionNotification_def p
    by (simp add: Handles_def sample_binding_def commissionJournalID_def saving sample_codec)
  then show ?thesis
    by (rule notification_locks_journal[where key = ?key and oid = "''9''" and v = 1 and role = "''buyer''"])
       (simp_all add: p sample_keeps_data sample_with_def empty_journal_def, simp add: sample_def)
qed

end
