(* ===== verification/JournalReopen.thy ===== *)
theory JournalReopen
  imports JournalLaws
begin

text \<open>
  What the journal has saved it can read again: every operation on messages and hints keeps the jobs in a form that passes
  all the checks of \<open>readJournal\<close>.
\<close>

section \<open>Jobs that pass the checks\<close>

definition wf_job :: "json_codec \<Rightarrow> Binding \<Rightarrow> Job \<Rightarrow> bool" where
  "wf_job jc b job \<longleftrightarrow>
     jbID job \<noteq> [] \<and> jbScope job = bdScope b \<and> jbRevision job = bdRevision b \<and> validJobStatus (jbStatus job) \<and>
     jbDelivery job = None \<and> jbExecution job = None \<and> jbResult job = None \<and> jbReadiness job = None \<and> jbFulfillment job = None \<and>
     jbCheckpoint job = None \<and> jbDirectory job = [] \<and>
     (if jbKind job = ''pm_push''
      then (case jbMessage job of
          None \<Rightarrow> False
        | Some m \<Rightarrow> TrimSpace (mgID m) \<noteq> [] \<and> TrimSpace (mgConversation m) \<noteq> [] \<and> mgSender m \<noteq> [] \<and> mgSender m \<noteq> bdAgentID b \<and>
            mgReceiver m = bdAgentID b \<and> jbID job = message_id jc b m)
      else jbKind job \<in> {''control_pending'', ''profile_review_due'', ''maintenance_due''} \<and> jbMessage job = None \<and>
        (jcValid jc (jbData job) \<or> completed job \<and> jbData job = []))"

definition wf_state :: "json_codec \<Rightarrow> Binding \<Rightarrow> journalState \<Rightarrow> bool" where
  "wf_state jc b s \<longleftrightarrow>
     jsVersion s = 1 \<and> jsScope s = bdScope b \<and> jsRevision s = bdRevision b \<and> jsAgentID s = bdAgentID b \<and> (\<forall>job \<in> set (jsJobs s). wf_job jc b job)"

text \<open>The operations on messages and hints.\<close>

fun plain_op :: "jop \<Rightarrow> bool" where
  "plain_op Reopen = True" | "plain_op (Tick t) = True" | "plain_op (Messages raw) = True" | "plain_op (Hint kind d) = True"
| "plain_op Claim = True" | "plain_op (ClaimKind kind) = True" | "plain_op (Update i st code sn rp) = True" | "plain_op (Retry i) = True"
| "plain_op (Reconcile i a rp) = True" | "plain_op _ = False"

text \<open>
  What decoding keeps of a job that has been encoded: all that the checks look at. The data may be spaced differently.
\<close>

definition kept_job :: "json_codec \<Rightarrow> Job \<Rightarrow> Job \<Rightarrow> bool" where
  "kept_job jc x y \<longleftrightarrow>
     y = x\<lparr>jbData := jbData y, jbMessage := jbMessage y, jbCode := jbCode y, jbCreated := jbCreated y, jbSessionID := jbSessionID y, jbReplyID := jbReplyID y\<rparr> \<and>
     map_option (\<lambda>m. (mgID m, mgConversation m, mgSender m, mgReceiver m)) (jbMessage y) =
       map_option (\<lambda>m. (mgID m, mgConversation m, mgSender m, mgReceiver m)) (jbMessage x) \<and>
     jcValid jc (jbData y) = jcValid jc (jbData x) \<and> (jbData y = [] \<longleftrightarrow> jbData x = [])"

definition json_laws :: "json_codec \<Rightarrow> Binding \<Rightarrow> bool" where
  "json_laws jc b \<longleftrightarrow>
     (\<forall>x xs. jcDigest jc (x # xs) \<noteq> []) \<and> (\<forall>d fs. jcFields jc d = Some fs \<longrightarrow> jcValid jc d) \<and> (\<forall>fs. jcValid jc (jcOfFields jc fs)) \<and>
     (\<forall>s. length (jcOfState jc s) \<le> length (jcIndented jc s) + 1) \<and>
     (\<forall>s. wf_state jc b s \<longrightarrow> (\<exists>s'. jcState jc (jcOfState jc s) = Some s' \<and> jsVersion s' = 1 \<and> jsScope s' = jsScope s \<and>
        jsRevision s' = jsRevision s \<and> jsAgentID s' = jsAgentID s \<and> list_all2 (kept_job jc) (jsJobs s) (jsJobs s')))"

lemma wf_job_ok: "wf_job jc b job \<Longrightarrow> job_error jc b job = None"
  by (auto simp: wf_job_def job_error_def kind_error_def validCommissionDelivery_def validCommissionExecutionContext_def message_id_def
    split: if_splits option.splits)

lemma kept_wf:
  assumes "kept_job jc x y" "wf_job jc b x" shows "wf_job jc b y"
proof -
  have f: "jbID y = jbID x" "jbKind y = jbKind x" "jbScope y = jbScope x" "jbRevision y = jbRevision x" "jbStatus y = jbStatus x"
    "jbDelivery y = jbDelivery x" "jbExecution y = jbExecution x" "jbResult y = jbResult x" "jbReadiness y = jbReadiness x"
    "jbFulfillment y = jbFulfillment x" "jbCheckpoint y = jbCheckpoint x" "jbDirectory y = jbDirectory x"
    using assms(1) by (cases x; cases y; simp add: kept_job_def)+
  have d: "jcValid jc (jbData y) = jcValid jc (jbData x)" "jbData y = [] \<longleftrightarrow> jbData x = []"
    "map_option (\<lambda>m. (mgID m, mgConversation m, mgSender m, mgReceiver m)) (jbMessage y) =
       map_option (\<lambda>m. (mgID m, mgConversation m, mgSender m, mgReceiver m)) (jbMessage x)"
    using assms(1) by (auto simp: kept_job_def)
  show ?thesis using assms(2) d unfolding wf_job_def f completed_def
    by (cases "jbMessage x"; cases "jbMessage y") (auto simp: message_id_def split: if_splits)
qed

lemma wf_jobs_ok: "\<forall>job \<in> set jobs. wf_job jc b job \<Longrightarrow> distinct (map jbID jobs) \<Longrightarrow> set seen \<inter> set (map jbID jobs) = {} \<Longrightarrow> jobs_error jc b seen jobs = None"
  by (induction jobs arbitrary: seen) (auto simp: wf_job_ok)

section \<open>Operations\<close>

lemma wf_parts [simp]: "wf_state jc b (append_jobs jobs s) \<longleftrightarrow> wf_state jc b s \<and> (\<forall>job \<in> set jobs. wf_job jc b job)"
  "wf_state jc b (s\<lparr>jsSessions := x\<rparr>) = wf_state jc b s" "wf_state jc b (s\<lparr>jsSequence := q\<rparr>) = wf_state jc b s"
  by (auto simp: wf_state_def append_jobs_def)

lemma wf_set: "wf_state jc b s \<Longrightarrow> wf_job jc b job \<Longrightarrow> wf_state jc b (set_job k job s)"
  using set_update_subset_insert[of "jsJobs s" k job] by (auto simp: wf_state_def set_job_def)

lemma wf_move: "k < length (jsJobs s) \<Longrightarrow> wf_state jc b s \<Longrightarrow> wf_state jc b (moveCompletedLast k s)"
  using move_last(1)[of k s] by (auto simp: wf_state_def) (simp_all add: moveCompletedLast_def)

lemma wf_compact: "wf_job jc b job \<Longrightarrow> wf_job jc b (compact_job job)"
  by (auto simp: wf_job_def compact_job_def completed_def message_id_def split: option.splits if_splits)

lemma wf_settled: "wf_state jc b s \<Longrightarrow> wf_state jc b (settled jc s)"
  using trim_set[of jc "s\<lparr>jsJobs := map compact_job (jsJobs s)\<rparr>"] wf_compact
  by (fastforce simp: wf_state_def settled_def trimCompleted_def Let_def split: prod.splits)

lemma wf_status:
  assumes "wf_job jc b job" "\<not> completed job" "validJobStatus (jbStatus job')"
    "job' = job\<lparr>jbStatus := jbStatus job', jbCode := jbCode job', jbSessionID := jbSessionID job', jbReplyID := jbReplyID job'\<rparr>"
  shows "wf_job jc b job'"
  using assms(1-3) by (subst assms(4)) (auto simp: wf_job_def split: option.splits)

lemma wf_nth: "wf_state jc b s \<Longrightarrow> k < length (jsJobs s) \<Longrightarrow> wf_job jc b (jsJobs s ! k)"
  by (simp add: wf_state_def)

lemma transition_facts: "validTransition old new \<Longrightarrow> validJobStatus new \<and> \<not> completedStatus old"
  by (auto simp: validTransition_def completedStatus_def split: if_splits)

lemma Update_wf:
  assumes "wf_state jc b (jState j)"
  shows "leads jc (wf_state jc b) j (snd (Update_job jc i st code sn rp j))"
proof -
  have w: "wf_job jc b job'"
    if "k < length (jsJobs (jState j))" "validTransition (jbStatus (jsJobs (jState j) ! k)) st" "jbStatus job' = st"
      "job' = (jsJobs (jState j) ! k)\<lparr>jbStatus := jbStatus job', jbCode := jbCode job', jbSessionID := jbSessionID job', jbReplyID := jbReplyID job'\<rparr>" for k job'
    using wf_status[OF wf_nth[OF assms that(1)] _ _ that(4)] transition_facts[OF that(2)] that(3) by (simp add: completed_def)
  show ?thesis unfolding Update_job_def Let_def
    by (intro leads_with_job leads_guard leads_saveUpdatedJob) (auto intro!: wf_move wf_set w assms split: option.splits)
qed

lemma wf_retry: "wf_job jc b job \<Longrightarrow> jbStatus job = ''failed'' \<or> jbStatus job = ''needs_user'' \<Longrightarrow>
    wf_job jc b (job\<lparr>jbStatus := ''pending'', jbCode := c, jbResult := r, jbReadiness := rd, jbFulfillment := f\<rparr>)"
  if "r = None" "rd = None" "f = None"
  using that by (auto simp: wf_job_def completed_def completedStatus_def validJobStatus_def split: option.splits)

lemma Retry_wf:
  assumes "wf_state jc b (jState j)"
  shows "leads jc (wf_state jc b) j (snd (Retry_job jc i j))"
  unfolding Retry_job_def
proof (intro leads_with_job leads_guard, goal_cases)
  case (1 k)
  have w: "wf_job jc b (jsJobs (jState j) ! k)" using assms 1(1) by (rule wf_nth)
  then have "jbDelivery (jsJobs (jState j) ! k) = None" "jbKind (jsJobs (jState j) ! k) \<noteq> ''commission_order''"
    "jbKind (jsJobs (jState j) ! k) \<noteq> ''commission_fulfillment''" "jbResult (jsJobs (jState j) ! k) = None"
    "jbReadiness (jsJobs (jState j) ! k) = None" "jbFulfillment (jsJobs (jState j) ! k) = None"
    by (auto simp: wf_job_def split: if_splits)
  then show ?case using wf_retry[OF refl refl refl w] 1(3) by (auto intro!: leads_save_and_signal wf_set assms)
qed

lemma Reconcile_wf:
  assumes "wf_state jc b (jState j)"
  shows "leads jc (wf_state jc b) j (snd (Reconcile_job jc i a rp j))"
  unfolding Reconcile_job_def Let_def
proof (intro leads_guard leads_with_job leads_save, goal_cases)
  case (1 k)
  have "validJobStatus a" using 1(1) by (auto simp: validJobStatus_def)
  then have "wf_job jc b ((jsJobs (jState j) ! k)\<lparr>jbStatus := a, jbCode := ''operator_verified'', jbReplyID := rp\<rparr>)"
    using wf_nth[OF assms 1(2)] 1(4) by (auto simp: wf_job_def completed_def completedStatus_def split: option.splits)
  then show ?case using 1(2) by (auto intro!: wf_move wf_set assms)
qed

lemma Messages_wf:
  assumes "wf_state jc b (jState j)" "json_laws jc b"
  shows "leads jc (wf_state jc b) j (snd (AddMessages jc b raw j))"
proof -
  have t: "TrimSpace [] = []" by (simp add: TrimSpace_def)
  have "wf_job jc b job" if "collect_messages jc b now seen ms = Inr jobs" "job \<in> set jobs" "\<And>m. message_id jc b m \<noteq> []" for now seen ms jobs job
    using that
  proof (induction jc b now seen ms arbitrary: jobs rule: collect_messages.induct)
    case (2 jc b now seen m ms)
    have m: "wf_job jc b ((newHint b now (message_id jc b m) ''pm_push'' [])\<lparr>jbMessage := Some m\<rparr>)"
      if "inbound b m" "\<not> (TrimSpace (mgID m) = [] \<or> TrimSpace (mgConversation m) = [] \<or> TrimSpace (mgSender m) = [])" "message_id jc b m \<noteq> []"
      using that t by (auto simp: wf_job_def newHint_def inbound_def validJobStatus_def)
    show ?case using 2 m by (auto split: if_splits sum.splits)
  qed simp
  moreover have "message_id jc b m \<noteq> []" for m using assms(2) by (simp add: json_laws_def message_id_def journalID_def)
  ultimately show ?thesis unfolding AddMessages_def using assms(1)
    by (auto intro!: leads_save_and_signal split: option.splits sum.splits list.splits)
qed

lemma wf_newHint:
  "i \<noteq> [] \<Longrightarrow> kind \<in> {''control_pending'', ''profile_review_due'', ''maintenance_due''} \<Longrightarrow> jcValid jc d \<Longrightarrow> wf_job jc b (newHint b now i kind d)"
  by (auto simp: wf_job_def newHint_def validJobStatus_def)

lemma Hint_wf:
  assumes "wf_state jc b (jState j)" "json_laws jc b"
  shows "leads jc (wf_state jc b) j (snd (AddHint jc b kind d j))"
proof -
  have laws: "journalID jc (x # xs) \<noteq> []" "jcFields jc d = Some fs \<Longrightarrow> jcValid jc d" "jcValid jc (jcOfFields jc fs)" for x xs d fs
    using assms(2) by (auto simp: json_laws_def journalID_def)
  have "wf_job jc b job" if "collect_commands jc b now obj seen ids = Inr jobs" "job \<in> set jobs" "\<And>x xs. journalID jc (x # xs) \<noteq> []"
      "\<And>fs. jcValid jc (jcOfFields jc fs)" for now obj seen ids jobs job
    using that
    by (induction jc b now obj seen ids arbitrary: jobs rule: collect_commands.induct)
       (auto simp: Let_def wf_newHint split: if_splits sum.splits)
  then show ?thesis unfolding AddHint_def Let_def using assms(1) laws
    by (auto intro!: leads_save_and_signal wf_newHint split: option.splits sum.splits list.splits)
qed

lemma claim_wf: "wf_job jc b job \<Longrightarrow> jbStatus job = ''pending'' \<Longrightarrow> wf_job jc b (claim_job job)"
  by (auto simp: wf_job_def claim_job_def completed_def completedStatus_def validJobStatus_def split: option.splits)

lemma next_wf:
  assumes "wf_state jc b (jState j)"
  shows "leads jc (wf_state jc b) j (snd (next_job jc kind j))"
proof (cases rule: next_job_cases[of jc kind j])
  case (2 k)
  let ?job = "jsJobs (jState j) ! k"
  have "wf_state jc b (set_job k (claim_job ?job) (jState j))"
    using 2(3,4) by (intro wf_set assms claim_wf wf_nth) (simp_all add: eligible_def)
  then have "leads jc (wf_state jc b) j (snd (save jc (set_job k (claim_job ?job) (jState j)) j))" by (rule leads_save)
  then show ?thesis unfolding 2(5) by (auto split: prod.splits sum.splits)
qed simp

lemma plain_wf:
  assumes "jOpen j" "wf_state jc b (jState j)" "json_laws jc b" "plain_op op" "op \<noteq> Reopen"
  shows "leads jc (wf_state jc b) j (snd (perform jc b op j))"
  using assms by (cases op) (simp_all add: Update_wf Retry_wf Reconcile_wf Messages_wf Hint_wf next_wf NextKind_def)

section \<open>The file can be read\<close>

definition saved :: "json_codec \<Rightarrow> Binding \<Rightarrow> journal \<Rightarrow> bool" where
  "saved jc b j \<longleftrightarrow> (jOpen j \<longrightarrow> wf_state jc b (jState j)) \<and>
     (\<forall>raw. jDisk j = Some raw \<longrightarrow> (\<exists>s. raw = jcOfState jc s \<and> wf_state jc b s \<and> length (jcIndented jc s) + 1 \<le> journalMaxBytes \<and>
        distinct (job_ids s) \<and> bounded s))"

lemma wrote_saved:
  assumes "wrote jc s j j'" "wf_state jc b s" "consistent jc b n j'"
  shows "saved jc b j'"
  using assms wf_settled[OF assms(2)] by (auto simp: wrote_def saved_def consistent_def sound_def)

lemma recover_wf: "wf_job jc b job \<Longrightarrow> wf_job jc b (recover_job now job)"
  by (auto simp: recover_job_def recoverCommissionDelivery_def wf_job_def executing_def completed_def completedStatus_def validJobStatus_def
    split: option.splits)

lemma kept_state:
  assumes "json_laws jc b" "wf_state jc b s"
  obtains s' where "jcState jc (jcOfState jc s) = Some s'" "wf_state jc b s'"
proof -
  obtain s' where s': "jcState jc (jcOfState jc s) = Some s'" "jsVersion s' = 1" "jsScope s' = jsScope s" "jsRevision s' = jsRevision s"
    "jsAgentID s' = jsAgentID s" "list_all2 (kept_job jc) (jsJobs s) (jsJobs s')" using assms unfolding json_laws_def by blast
  have "wf_job jc b job" if "job \<in> set (jsJobs s')" for job
    using that s'(6) assms(2) kept_wf by (fastforce simp: list_all2_conv_all_nth in_set_conv_nth wf_state_def)
  then have "wf_state jc b s'" using s' assms(2) by (simp add: wf_state_def)
  then show ?thesis using that s'(1) by blast
qed

lemma saved_reads:
  assumes "saved jc b j" "on_disk jc j" "json_laws jc b" "reads_back jc" "validJournalBinding b"
  shows "\<exists>s e. readJournal jc b (jDisk j) = Inr (s, e) \<and> wf_state jc b s"
proof (cases "jDisk j")
  case None
  then show ?thesis using assms(5) by (intro exI[of _ "empty_journal b"] exI[of _ False]) (simp add: readJournal_def empty_journal_def wf_state_def)
next
  case (Some raw)
  then obtain s where s: "raw = jcOfState jc s" "wf_state jc b s" "length (jcIndented jc s) + 1 \<le> journalMaxBytes" "distinct (job_ids s)" "bounded s"
    using assms(1) unfolding saved_def by blast
  obtain t where t: "jcState jc raw = Some t" "wf_state jc b t" using kept_state[OF assms(3) s(2)] s(1) by auto
  have a: "alike t s" using assms(4) t s(1) by (auto simp: reads_back_def)
  have "length raw \<le> length (jcIndented jc s) + 1" unfolding s(1) using assms(3) by (simp add: json_laws_def)
  then have "length raw \<le> journalMaxBytes" using s(3) by linarith
  moreover have "jobs_error jc b [] (jsJobs t) = None"
    using t(2) s(4) alike_ids[OF a] by (intro wf_jobs_ok) (simp_all add: wf_state_def)
  moreover have "bounded t" using alike_inv(2)[OF a s(5)] .
  ultimately show ?thesis using Some t assms(5) plain_count[of t]
    by (intro exI[of _ t] exI[of _ True]) (simp add: readJournal_def wf_state_def bounded_def)
qed

lemma saved_cong: "saved jc b j \<Longrightarrow> jState j' = jState j \<Longrightarrow> jDisk j' = jDisk j \<Longrightarrow> (jOpen j' \<longrightarrow> jOpen j) \<Longrightarrow> saved jc b j'"
  by (simp add: saved_def)

lemma Open_saved:
  assumes "saved jc b j" "consistent jc b n j" "json_laws jc b" "reads_back jc" "validJournalBinding b"
  shows "saved jc b (snd (OpenJournal jc b j))"
proof -
  obtain s e where r: "readJournal jc b (jDisk j) = Inr (s, e)" "wf_state jc b s"
    using saved_reads[OF assms(1) _ assms(3-5)] assms(2) by (auto simp: consistent_def)
  let ?s = "s\<lparr>jsJobs := map (recover_job (jNow j)) (jsJobs s)\<rparr>"
  let ?j = "j\<lparr>jWake := False\<rparr>"
  obtain q j1 where q: "save jc ?s ?j = (q, j1)" by (cases "save jc ?s ?j")
  note res = save_result[where jc = jc and s = ?s and j = ?j, unfolded q]
  have c: "consistent jc b (Suc n) (snd (OpenJournal jc b j))" using Open_step[OF assms(2,4)] by (metis prod.collapse)
  show ?thesis
  proof (cases "e \<and> (\<forall>job \<in> set (jsJobs s). \<not> executing job)")
    case True
    then show ?thesis using assms(1) r by (auto simp: OpenJournal_def Let_def saved_def signal_def)
  next
    case False
    have w: "wf_state jc b ?s" using r(2) recover_wf by (auto simp: wf_state_def)
    show ?thesis
    proof (cases q)
      case (Inl err)
      then show ?thesis using False r q res by (intro saved_cong[OF assms(1)]) (auto simp: OpenJournal_def Let_def same_def)
    next
      case (Inr u)
      let ?j' = "snd (OpenJournal jc b j)"
      have j': "jState ?j' = jState j1" "jDisk ?j' = jDisk j1" using False r q Inr by (auto simp: OpenJournal_def Let_def signal_def)
      have wr: "wrote jc ?s ?j j1" using res Inr by simp
      have "consistent jc b (Suc n) j1" using c consistent_cong[OF j'] by simp
      from wrote_saved[OF wr w this] j' show ?thesis using wr wf_settled[OF w] by (simp add: saved_def wrote_def)
    qed
  qed
qed

lemma perform_saved:
  assumes "saved jc b j" "consistent jc b n j" "consistent jc b (Suc n) (snd (perform jc b op j))" "json_laws jc b" "reads_back jc"
    "validJournalBinding b" "plain_op op"
  shows "saved jc b (snd (perform jc b op j))"
proof (cases "op = Reopen \<or> \<not> jOpen j")
  case True
  then show ?thesis using Open_saved[OF assms(1,2,4-6)] assms(1,7) by (cases op) (auto simp: saved_def)
next
  case False
  then have "leads jc (wf_state jc b) j (snd (perform jc b op j))" using assms(1,4,7) by (intro plain_wf) (auto simp: saved_def)
  then show ?thesis unfolding leads_def
  proof
    assume "same j (snd (perform jc b op j))"
    then show ?thesis using assms(1) by (intro saved_cong[OF assms(1)]) (auto simp: same_def)
  qed (use wrote_saved assms(3) in blast)
qed

lemma operate_saved:
  assumes "consistent jc b n j" "saved jc b j" "\<forall>op \<in> set ops. sane jc op \<and> plain_op op" "n + length ops < 2 ^ 64" "json_laws jc b" "reads_back jc"
    "validJournalBinding b"
  shows "saved jc b (operate jc b ops j)"
  using assms
proof (induction ops arbitrary: n j)
  case (Cons op ops)
  have c: "consistent jc b (Suc n) (snd (perform jc b op j))" using Cons(2,4,5) by (intro jobs.ok_step) simp_all
  then have "saved jc b (snd (perform jc b op j))" using perform_saved[OF Cons(3,2)] Cons(4,6-8) by simp
  then show ?case using Cons(1)[OF c] Cons(4-8) by simp
qed simp

text \<open>C15: After any run of the operations on messages and hints, with crashes and failing writes, the file passes every
  check of \<open>readJournal\<close>, and what is read has the jobs that the journal in memory has. The codec is that of
  \<open>encoding/json\<close>: digests are not empty, what decodes is valid, the file is not longer than its indented form, and decoding gives
  back all that the checks look at.\<close>

theorem journal_reopens:
  assumes "fresh j0" "\<forall>op \<in> set ops. sane jc op \<and> plain_op op" "length ops < 2 ^ 64" "json_laws jc b" "reads_back jc" "validJournalBinding b"
  shows "\<exists>s e. readJournal jc b (jDisk (operate jc b ops j0)) = Inr (s, e) \<and> alike s (jState (operate jc b ops j0))"
proof -
  have c: "consistent jc b (length ops) (operate jc b ops j0)" using assms(2) by (intro run_consistent[OF assms(1) _ assms(3)]) simp
  have "saved jc b j0" using assms(1) by (simp add: saved_def fresh_def)
  then have "saved jc b (operate jc b ops j0)" using operate_saved[OF fresh_inv[OF assms(1)] _ assms(2)] assms(3-6) by simp
  then obtain s e where "readJournal jc b (jDisk (operate jc b ops j0)) = Inr (s, e)"
    using saved_reads[OF _ _ assms(4-6), of "operate jc b ops j0"] c by (auto simp: consistent_def)
  then show ?thesis using readJournal_alike[OF _ assms(5)] c by (auto simp: consistent_def)
qed

lemma sample_kept:
  assumes "\<forall>job \<in> set jobs. wf_job sample sample_binding job"
  shows "list_all2 (kept_job sample) jobs (sample_jobs (concat (map sample_fields jobs)))"
  using assms
proof (induction jobs)
  case (Cons job jobs)
  have t: "TrimSpace [] = []" by (simp add: TrimSpace_def)
  have w: "wf_job sample sample_binding job" using Cons(2) by simp
  have "kept_job sample job (hd (sample_jobs (sample_fields job @ rest)))" for rest
    using w t by (cases job; cases "jbMessage job") (auto simp: wf_job_def kept_job_def sample_job_def sample_binding_def split: if_splits option.splits)
  then show ?case using Cons by (auto split: option.splits)
qed simp

lemma sample_laws: "json_laws sample sample_binding"
proof -
  have "\<exists>s'. sample_decode (sample_encode s) = Some s' \<and> jsVersion s' = 1 \<and> jsScope s' = jsScope s \<and> jsRevision s' = jsRevision s \<and>
      jsAgentID s' = jsAgentID s \<and> list_all2 (kept_job sample) (jsJobs s) (jsJobs s')" if "wf_state sample sample_binding s" for s
    using that sample_kept[of "jsJobs s"] by (simp add: sample_decode_encode wf_state_def sample_binding_def)
  moreover have "jcDigest sample = pack" "jcValid sample d" "quote p \<noteq> []" for d p by (simp_all add: sample_def) (cases p; simp)
  ultimately show ?thesis unfolding json_laws_def sample_codec by simp
qed

lemma sample_valid: "validJournalBinding sample_binding"
  by (simp add: validJournalBinding_def sample_binding_def sample_trim)

theorem journal_reopens_witness:
  "\<exists>s e. readJournal sample sample_binding (jDisk (operate sample sample_binding [Reopen, Messages ''m'', Claim] sample_journal)) = Inr (s, e) \<and>
     alike s (jState (operate sample sample_binding [Reopen, Messages ''m'', Claim] sample_journal))"
  by (rule journal_reopens[OF sample_fresh])
     (simp_all add: sample_sane sample_laws sample_reads_back sample_valid)

end
