(* ===== verification/Inbox.thy ===== *)
theory Inbox
  imports Notify "HOL-Library.List_Lexorder" "HOL-Library.Char_ord"
begin

text \<open>
  What the notification service keeps (\<open>rpc/notification/dal\<close>): the durable inbox and the record of
  deliveries in Postgres, the hashes of milestone, friend and system notifications in Redis, and
  the payloads of moderation notices (\<open>pkg/notificationpayload\<close>). Decoding of JSON documents, the
  expression language of audiences and the normal form of a \<open>JSONB\<close> column are fields of the service record.
  \<open>sort.Slice\<close> leaves the order of equal elements open; \<open>sort_slice\<close> keeps them as they came.
\<close>

section \<open>Parameters and constants\<close>

datatype json = JsonNull | JsonBool bool | JsonNumber string | JsonString string | JsonArray "json list"
  | JsonObject "(string \<times> json) list"

datatype expr_value = ExprInt int | ExprString string

record CommissionModeration =
  cmNotificationVersion :: int
  cmModerationID :: string
  cmCommissionID :: string
  cmRecipientAgentID :: string
  cmDraftVersion :: int
  cmStatus :: string
  cmDecision :: string
  cmFlag :: string
  cmField :: string
  cmReason :: string
  cmOccurredAt :: int

text \<open>
  \<open>json_decode\<close> is \<open>json.Unmarshal\<close> into an \<open>interface{}\<close>, with the members of an object in the order of
  their names, so that \<open>reflect.DeepEqual\<close> is equality; \<open>unmarshal_moderation\<close> and \<open>raw_fields\<close> are
  \<open>json.Unmarshal\<close> into a \<open>CommissionModeration\<close> and into a map of raw messages; \<open>expr_run\<close> compiles and
  runs an expression.
\<close>

record NotificationServiceImpl =
  json_decode :: "string \<Rightarrow> json option"
  jsonb_text :: "string \<Rightarrow> string"
  unmarshal_moderation :: "string \<Rightarrow> CommissionModeration option"
  raw_fields :: "string \<Rightarrow> (string \<times> string) list option"
  expr_run :: "string \<Rightarrow> (string \<times> expr_value) list \<Rightarrow> bool res"

abbreviation SourceTypeMilestone :: string where "SourceTypeMilestone \<equiv> ''milestone''"
abbreviation SourceTypeSystem :: string where "SourceTypeSystem \<equiv> ''system''"
abbreviation SourceTypeFriendRequest :: string where "SourceTypeFriendRequest \<equiv> ''friend_request''"
abbreviation SourceTypeCommissionOrder :: string where "SourceTypeCommissionOrder \<equiv> ''commission_order''"
abbreviation SourceCommissionModeration :: string where "SourceCommissionModeration \<equiv> ''commission_moderation''"
abbreviation TypeSystem :: string where "TypeSystem \<equiv> ''system''"
abbreviation AudienceTypeExpression :: string where "AudienceTypeExpression \<equiv> ''expression''"
abbreviation NotifyStatusActive :: int where "NotifyStatusActive \<equiv> 1"

section \<open>Sorting\<close>

fun insert_by :: "('a \<Rightarrow> 'a \<Rightarrow> bool) \<Rightarrow> 'a \<Rightarrow> 'a list \<Rightarrow> 'a list" where
  "insert_by lt x [] = [x]"
| "insert_by lt x (y # ys) = (if lt y x then y # insert_by lt x ys else x # y # ys)"

definition sort_slice :: "('a \<Rightarrow> 'a \<Rightarrow> bool) \<Rightarrow> 'a list \<Rightarrow> 'a list" where
  "sort_slice lt xs = foldr (insert_by lt) xs []"

text \<open>The comparison of two notifications by time and then by identifier, as text when one is no number.\<close>

definition notification_less :: "int \<times> string \<Rightarrow> int \<times> string \<Rightarrow> bool" where
  "notification_less x y =
     (if fst x \<noteq> fst y then fst x < fst y
      else (case (ParseInt64 (snd x), ParseInt64 (snd y)) of
          (Some l, Some r) \<Rightarrow> l < r
        | _ \<Rightarrow> snd x < snd y))"

section \<open>Milestone and friend notifications in Redis\<close>

definition ListMilestoneNotifications :: "int \<Rightarrow> MilestoneNotification list res io" where
  "ListMilestoneNotifications agentID =
     and_then (redis_cmd (HVALS (MilestoneNotify agentID))) (\<lambda>values.
       ret (Inr (sort_slice (\<lambda>x y. notification_less (mnCreatedAt x, mnNotificationID x) (mnCreatedAt y, mnNotificationID y))
         (List.map_filter json_MilestoneNotification values))))"

definition DeleteMilestoneNotifications :: "int \<Rightarrow> int list \<Rightarrow> unit res io" where
  "DeleteMilestoneNotifications agentID eventIDs =
     (if eventIDs = [] then ret (Inr ())
      else redis_cmd (HDEL (MilestoneNotify agentID) (map itoa eventIDs)))"

definition mark_milestones :: "int \<Rightarrow> int list \<Rightarrow> int \<Rightarrow> database \<Rightarrow> unit res \<times> database" where
  "mark_milestones agentID eventIDs notifiedAt d =
     (Inr (), d\<lparr>milestone_events := update_where
        (\<lambda>e. meAuthorAgentID e = agentID \<and> meEventID e \<in> set eventIDs \<and> meNotificationStatus e = 0)
        (\<lambda>e. e\<lparr>meNotificationStatus := 1, meNotifiedAt := notifiedAt\<rparr>) (milestone_events d)\<rparr>)"

definition MarkMilestoneEventsNotified :: "int \<Rightarrow> int list \<Rightarrow> int \<Rightarrow> unit res io" where
  "MarkMilestoneEventsNotified agentID eventIDs notifiedAt =
     (if eventIDs = [] then ret (Inr ()) else db_stmt (mark_milestones agentID eventIDs notifiedAt))"

definition ListPMNotifications :: "int \<Rightarrow> PMNotification list res io" where
  "ListPMNotifications agentID =
     and_then (redis_cmd (HVALS (PMNotify agentID))) (\<lambda>values.
       ret (Inr (sort_slice (\<lambda>x y. notification_less (nCreatedAt x, nNotificationID x) (nCreatedAt y, nNotificationID y))
         (List.map_filter json_PMNotification values))))"

definition DeletePMNotifications_dal :: "int \<Rightarrow> int list \<Rightarrow> unit res io" where
  "DeletePMNotifications_dal agentID requestIDs =
     (if requestIDs = [] then ret (Inr ())
      else redis_cmd (HDEL (PMNotify agentID) (map itoa requestIDs)))"

section \<open>System notifications\<close>

definition IsActive :: "SystemNotification \<Rightarrow> int \<Rightarrow> bool" where
  "IsActive n nowMS =
     (if snStatus n \<noteq> NotifyStatusActive then False
      else if snOfflineAt n \<noteq> 0 then False
      else if snStartAt n \<noteq> 0 \<and> snStartAt n > nowMS then False
      else if snEndAt n \<noteq> 0 \<and> snEndAt n \<le> nowMS then False
      else True)"

definition payloadFromNotification :: "SystemNotification \<Rightarrow> activePayload" where
  "payloadFromNotification n =
     \<lparr>acNotificationID = snNotificationID n, acType = snType n, acContent = snContent n, acStatus = snStatus n,
      acAudienceType = snAudienceType n, acStartAt = snStartAt n, acEndAt = snEndAt n, acOfflineAt = snOfflineAt n,
      acCreatedAt = snCreatedAt n, acAudienceExpression = snAudienceExpression n\<rparr>"

definition notification_of_payload :: "activePayload \<Rightarrow> SystemNotification" where
  "notification_of_payload p =
     \<lparr>snNotificationID = acNotificationID p, snType = acType p, snContent = acContent p, snStatus = acStatus p,
      snAudienceType = acAudienceType p, snAudienceExpression = acAudienceExpression p, snStartAt = acStartAt p,
      snEndAt = acEndAt p, snOfflineAt = acOfflineAt p, snCreatedAt = acCreatedAt p, snUpdatedAt = 0\<rparr>"

definition ActiveStore_List :: "SystemNotification list res io" where
  "ActiveStore_List =
     and_then (redis_cmd (HVALS SystemActive)) (\<lambda>vals.
       ret (Inr (map notification_of_payload (List.map_filter json_activePayload vals))))"

definition replace_active :: "SystemNotification list \<Rightarrow> unit rcmd" where
  "replace_active notifications t rs =
     (Inr (), fold (\<lambda>n rs'. snd (HSET SystemActive (itoa (snNotificationID n)) (JActive (payloadFromNotification n)) t rs'))
        notifications (snd (DEL [SystemActive] t rs)))"

definition ActiveStore_ReplaceAll :: "SystemNotification list \<Rightarrow> unit res io" where
  "ActiveStore_ReplaceAll notifications = redis_cmd (replace_active notifications)"

section \<open>Deliveries\<close>

definition AreDelivered :: "string \<Rightarrow> int list \<Rightarrow> int \<Rightarrow> int list res io" where
  "AreDelivered sourceType sourceIDs agentID =
     (if sourceIDs = [] then ret (Inr [])
      else db_query (\<lambda>d. map ndSourceID (filter (\<lambda>r. ndSourceType r = sourceType \<and> ndSourceID r \<in> set sourceIDs
        \<and> ndAgentID r = agentID) (notification_deliveries d))))"

definition delivery_key :: "NotificationDelivery \<Rightarrow> string \<times> int \<times> int" where
  "delivery_key r = (ndSourceType r, ndSourceID r, ndAgentID r)"

text \<open>\<open>INSERT ... ON CONFLICT DO NOTHING\<close>; a row that conflicts uses up its number all the same.\<close>

fun insert_deliveries :: "NotificationDelivery list \<Rightarrow> database \<Rightarrow> unit res \<times> database" where
  "insert_deliveries [] d = (Inr (), d)"
| "insert_deliveries (r # rs) d =
     (if delivery_key r \<in> delivery_key ` set (notification_deliveries d)
      then insert_deliveries rs (d\<lparr>delivery_seq := delivery_seq d + 1\<rparr>)
      else if ndAgentID r \<notin> aAgentID ` set (agents d)
      then (Inl (ForeignKeyViolation ''fk_notification_deliveries_agent''), d)
      else insert_deliveries rs (d\<lparr>notification_deliveries := notification_deliveries d @ [r\<lparr>ndDeliveryID := delivery_seq d\<rparr>],
        delivery_seq := delivery_seq d + 1\<rparr>))"

definition RecordDeliveries :: "NotificationDelivery list \<Rightarrow> unit res io" where
  "RecordDeliveries items =
     (if items = [] then ret (Inr ())
      else do {
        now \<leftarrow> now_ms;
        db_stmt (insert_deliveries (map (\<lambda>r. if ndDeliveredAt r = 0 then r\<lparr>ndDeliveredAt := now\<rparr> else r) items)) })"

section \<open>The durable inbox\<close>

definition validInboxSource :: "string \<Rightarrow> bool" where
  "validInboxSource source \<longleftrightarrow> source = SourceTypeCommissionOrder \<or> source = SourceCommissionModeration"

definition validInboxOrderFields :: "InboxNotification \<Rightarrow> bool" where
  "validInboxOrderFields v =
     (if ibSourceType v = SourceCommissionModeration then ibOrderID v = 0 \<and> ibOrderVersion v = 0
      else ibOrderID v > 0 \<and> ibOrderVersion v > 0)"

definition sameJSON :: "NotificationServiceImpl \<Rightarrow> string \<Rightarrow> string \<Rightarrow> bool" where
  "sameJSON s left right \<longleftrightarrow> json_decode s left \<noteq> None \<and> json_decode s right \<noteq> None \<and>
     json_decode s left = json_decode s right"

definition valid_inbox :: "InboxNotification \<Rightarrow> bool" where
  "valid_inbox v \<longleftrightarrow> ibNotificationID v > 0 \<and> ibAgentID v > 0 \<and> validInboxSource (ibSourceType v) \<and> ibSourceID v > 0 \<and>
     ibDedupeKey v \<noteq> [] \<and> ibEventKind v \<noteq> [] \<and> validInboxOrderFields v \<and> ibPayloadJSON v \<noteq> [] \<and>
     ibOccurredAt v > 0 \<and> ibReceivedAt v > 0 \<and> ibExpiresAt v > ibReceivedAt v"

text \<open>The three unique constraints of the table.\<close>

definition inbox_conflict :: "InboxNotification \<Rightarrow> InboxNotification \<Rightarrow> bool" where
  "inbox_conflict v r \<longleftrightarrow> ibNotificationID r = ibNotificationID v \<or> ibDedupeKey r = ibDedupeKey v \<or>
     (ibSourceType r = ibSourceType v \<and> ibSourceID r = ibSourceID v \<and> ibAgentID r = ibAgentID v)"

definition insert_inbox :: "NotificationServiceImpl \<Rightarrow> InboxNotification \<Rightarrow> database \<Rightarrow> bool res \<times> database" where
  "insert_inbox s v d =
     (if json_decode s (ibPayloadJSON v) = None then (Inl (DriverErr ''invalid input syntax for type json''), d)
      else if \<exists>r \<in> set (notification_inbox d). inbox_conflict v r then (Inr False, d)
      else if ibAgentID v \<notin> aAgentID ` set (agents d) then (Inl (ForeignKeyViolation ''notification_inbox_agent_id_fkey''), d)
      else (Inr True, d\<lparr>notification_inbox := notification_inbox d @ [v\<lparr>ibPayloadJSON := jsonb_text s (ibPayloadJSON v)\<rparr>]\<rparr>))"

definition same_fact :: "NotificationServiceImpl \<Rightarrow> InboxNotification \<Rightarrow> InboxNotification \<Rightarrow> bool" where
  "same_fact s existing v \<longleftrightarrow> ibNotificationID existing = ibNotificationID v \<and> ibAgentID existing = ibAgentID v \<and>
     ibSourceType existing = ibSourceType v \<and> ibSourceID existing = ibSourceID v \<and>
     ibDedupeKey existing = ibDedupeKey v \<and> ibEventKind existing = ibEventKind v \<and>
     ibOrderID existing = ibOrderID v \<and> ibOrderVersion existing = ibOrderVersion v \<and>
     sameJSON s (ibPayloadJSON existing) (ibPayloadJSON v) \<and> ibOccurredAt existing = ibOccurredAt v"

definition InsertInboxNotification :: "NotificationServiceImpl \<Rightarrow> InboxNotification \<Rightarrow> bool res io" where
  "InsertInboxNotification s v =
     (if \<not> valid_inbox v then ret (Inl (ErrText ''invalid inbox notification''))
      else and_then (db_stmt (insert_inbox s v)) (\<lambda>inserted.
        if inserted then ret (Inr True)
        else and_then (db_query (\<lambda>d. find (\<lambda>r. ibNotificationID r = ibNotificationID v \<or> ibDedupeKey r = ibDedupeKey v)
            (notification_inbox d))) (\<lambda>found.
          case found of
            None \<Rightarrow> ret (Inl RecordNotFound)
          | Some existing \<Rightarrow>
              if \<not> same_fact s existing v
              then ret (Inl (ErrText ''inbox notification conflict does not match existing fact''))
              else ret (Inr False))))"

abbreviation maxDeliveryErrorRunes :: nat where "maxDeliveryErrorRunes \<equiv> 2000"

definition runes_prefix :: "nat \<Rightarrow> string \<Rightarrow> string" where
  "runes_prefix n s = concat (map (EncodeRune \<circ> fst) (take n (runes s)))"

definition update_inbox :: "(InboxNotification \<Rightarrow> bool) \<Rightarrow> (InboxNotification \<Rightarrow> InboxNotification) \<Rightarrow> database \<Rightarrow> unit res \<times> database" where
  "update_inbox P f d = (Inr (), d\<lparr>notification_inbox := update_where P f (notification_inbox d)\<rparr>)"

definition SetInboxDeliveryError :: "int \<Rightarrow> int \<Rightarrow> string \<Rightarrow> unit res io" where
  "SetInboxDeliveryError notificationID agentID deliveryError =
     (if notificationID \<le> 0 \<or> agentID \<le> 0 then ret (Inl (ErrText ''invalid inbox delivery error update''))
      else
        (let trimmed = TrimSpace deliveryError;
             message = (if length (runes trimmed) > maxDeliveryErrorRunes then runes_prefix maxDeliveryErrorRunes trimmed
                        else trimmed)
         in db_stmt (update_inbox (\<lambda>r. ibNotificationID r = notificationID \<and> ibAgentID r = agentID \<and>
              validInboxSource (ibSourceType r)) (\<lambda>r. r\<lparr>ibLastDeliveryError := message\<rparr>))))"

definition inbox_key :: "InboxNotification \<Rightarrow> int \<times> int \<times> int" where
  "inbox_key r = (ibOccurredAt r, ibOrderVersion r, ibNotificationID r)"

definition inbox_pending :: "int \<Rightarrow> int \<Rightarrow> InboxNotification \<Rightarrow> bool" where
  "inbox_pending agentID now r \<longleftrightarrow> ibAgentID r = agentID \<and> validInboxSource (ibSourceType r) \<and>
     ibAcknowledgedAt r = None \<and> ibExpiresAt r > now"

definition ListInboxNotifications :: "int \<Rightarrow> int \<Rightarrow> InboxNotification list res io" where
  "ListInboxNotifications agentID now =
     (if agentID \<le> 0 \<or> now \<le> 0 then ret (Inl (ErrText ''invalid inbox list request''))
      else db_query (\<lambda>d. sort_key inbox_key (filter (inbox_pending agentID now) (notification_inbox d))))"

definition named_rows :: "int \<Rightarrow> string \<Rightarrow> int list \<Rightarrow> InboxNotification \<Rightarrow> bool" where
  "named_rows agentID source ids r \<longleftrightarrow>
     ibAgentID r = agentID \<and> ibSourceType r = source \<and> ibNotificationID r \<in> set ids"

text \<open>
  The body of the transaction. The handler calls it inside a transaction of its own, where gorm makes
  it a savepoint; the handler passes its error on, which undoes everything.
\<close>

definition ack_inbox_tx :: "int \<Rightarrow> string \<Rightarrow> int list \<Rightarrow> int \<Rightarrow> unit res io" where
  "ack_inbox_tx agentID source uniqueIDs acknowledgedAt =
     and_then (db_query (\<lambda>d. filter (named_rows agentID source uniqueIDs) (notification_inbox d))) (\<lambda>owned.
       if length owned \<noteq> length uniqueIDs then ret (Inl RecordNotFound)
       else db_stmt (update_inbox (\<lambda>r. named_rows agentID source uniqueIDs r \<and> ibAcknowledgedAt r = None)
         (\<lambda>r. r\<lparr>ibAcknowledgedAt := Some acknowledgedAt\<rparr>)))"

fun unique_ids :: "int list \<Rightarrow> int list \<Rightarrow> int list res" where
  "unique_ids [] seen = Inr []"
| "unique_ids (i # is) seen =
     (if i \<le> 0 then Inl (ErrText ''invalid inbox notification ID'')
      else if i \<in> set seen then unique_ids is seen
      else map_sum id (Cons i) (unique_ids is (i # seen)))"

definition AckInboxNotificationsBySource :: "int \<Rightarrow> string \<Rightarrow> int list \<Rightarrow> int \<Rightarrow> unit res io" where
  "AckInboxNotificationsBySource agentID source notificationIDs acknowledgedAt =
     (if agentID \<le> 0 \<or> \<not> validInboxSource source \<or> notificationIDs = [] \<or> acknowledgedAt \<le> 0
      then ret (Inl (ErrText ''invalid inbox acknowledgement''))
      else (case unique_ids notificationIDs [] of
          Inl e \<Rightarrow> ret (Inl e)
        | Inr uniqueIDs \<Rightarrow> ack_inbox_tx agentID source uniqueIDs acknowledgedAt))"

section \<open>Moderation notices\<close>

definition positive_id :: "string \<Rightarrow> bool" where
  "positive_id i \<longleftrightarrow> (case ParseInt64 i of None \<Rightarrow> False | Some v \<Rightarrow> v > 0 \<and> itoa v = i)"

definition status_fits :: "CommissionModeration \<Rightarrow> bool" where
  "status_fits p =
     (if cmStatus p = ''pending'' then cmDecision p = []
      else if cmStatus p = ''pass'' \<or> cmStatus p = ''published'' then cmDecision p = ''pass''
      else if cmStatus p = ''review'' \<or> cmStatus p = ''reject''
      then cmDecision p = cmStatus p \<and> TrimSpace (cmReason p) \<noteq> []
      else if cmStatus p = ''failed'' \<or> cmStatus p = ''stale''
      then cmDecision p \<in> {[], ''pass'', ''review'', ''reject''}
      else False)"

definition ParseCommissionModeration :: "NotificationServiceImpl \<Rightarrow> string \<Rightarrow> CommissionModeration option" where
  "ParseCommissionModeration s raw =
     (if length raw > 65536 then None
      else (case (unmarshal_moderation s raw, raw_fields s raw) of
          (Some payload, Some members) \<Rightarrow>
            if (\<forall>name \<in> set [''decision'', ''flag'', ''field'', ''reason''].
                  map_of members name \<notin> {None, Some ''null''}) \<and>
               (\<forall>i \<in> set [cmModerationID payload, cmCommissionID payload, cmRecipientAgentID payload]. positive_id i) \<and>
               cmNotificationVersion payload > 0 \<and> cmDraftVersion payload > 0 \<and> cmOccurredAt payload > 0 \<and>
               status_fits payload
            then Some payload else None
        | _ \<Rightarrow> None))"

definition ModerationForAgent :: "NotificationServiceImpl \<Rightarrow> string \<Rightarrow> int \<Rightarrow> CommissionModeration option" where
  "ModerationForAgent s raw agentID =
     (case ParseCommissionModeration s raw of
        None \<Rightarrow> None
      | Some payload \<Rightarrow>
          if agentID \<le> 0 \<or> cmRecipientAgentID payload \<noteq> itoa agentID then None else Some payload)"

definition Moderation_Content :: "CommissionModeration \<Rightarrow> string" where
  "Moderation_Content p =
     ''Service listing moderation: '' @ cmStatus p
       @ (if cmReason p \<noteq> [] then '' '' @ [CHR 0xE2, CHR 0x80, CHR 0x94] @ '' '' @ cmReason p else [])"

end
