(* ===== verification/Streams.thy ===== *)
theory Streams
  imports Store
begin

text \<open>
  Streams and their consumers: \<open>pkg/mq/redis.go\<close> over one stream with one group, and the runtime that every
  consumer of the pipeline uses (\<open>pipeline/consumer/stream_consumer.go\<close>, \<open>stream_lease.go\<close>). Durations of blocking reads and
  of polling are left out: a read that finds nothing returns nothing. \<open>SHA-256\<close> and \<open>json.Marshal\<close> of a map
  are fields of a record.
\<close>

section \<open>Commands\<close>

type_synonym 'a bcmd = "int \<Rightarrow> broker \<Rightarrow> 'a res \<times> broker"

definition mq_cmd :: "'a bcmd \<Rightarrow> 'a res io" where
  "mq_cmd c = do {
     oc \<leftarrow> io_step;
     w \<leftarrow> get_st;
     (case c (w_now w) (w_mq w) of (r, b) \<Rightarrow>
       (case oc of
          Fine \<Rightarrow> do { _ \<leftarrow> put_st (w\<lparr>w_mq := b\<rparr>); ret r }
        | Lost e \<Rightarrow> ret (Inl (DriverErr e))
        | Unacked e \<Rightarrow> do { _ \<leftarrow> put_st (w\<lparr>w_mq := b\<rparr>); ret (Inl (DriverErr e)) })) }"

text \<open>With \<open>MAXLEN ~\<close> Redis evicts as many of the oldest entries as it likes, but keeps \<open>maxLen\<close>; \<open>evict\<close> says how far it goes.\<close>

definition XADD :: "nat \<Rightarrow> int \<Rightarrow> (string \<times> string) list \<Rightarrow> nat bcmd" where
  "XADD evict maxLen values t b =
     (let i = Suc (length (b_entries b))
      in (Inr i, b\<lparr>b_entries := b_entries b @ [\<lparr>xID = i, xValues = values\<rparr>],
            b_trimmed := (if maxLen > 0 then max (b_trimmed b) (min evict (i - nat maxLen)) else b_trimmed b)\<rparr>))"

definition busyGroup :: string where
  "busyGroup = ''BUSYGROUP Consumer Group name already exists''"

definition XGROUP_CREATE :: "unit bcmd" where
  "XGROUP_CREATE t b =
     (if b_group b then (Inl (DriverErr busyGroup), b) else (Inr (), b\<lparr>b_group := True, b_last := 0\<rparr>))"

definition fresh_entry :: "broker \<Rightarrow> XMessage \<Rightarrow> bool" where
  "fresh_entry b e \<longleftrightarrow> b_last b < xID e \<and> b_trimmed b < xID e"

definition delivered_to :: "string \<Rightarrow> int \<Rightarrow> XMessage \<Rightarrow> XPendingExt" where
  "delivered_to consumer t e = \<lparr>xpID = xID e, xpConsumer = consumer, xpDelivered = t, xpRetryCount = 1\<rparr>"

definition XREADGROUP :: "string \<Rightarrow> int \<Rightarrow> XMessage list bcmd" where
  "XREADGROUP consumer count t b =
     (if \<not> b_group b then (Inl (DriverErr ''NOGROUP''), b)
      else (let msgs = take (nat count) (filter (fresh_entry b) (b_entries b))
            in (Inr msgs, b\<lparr>b_last := (if msgs = [] then b_last b else xID (last msgs)),
                  b_pel := b_pel b @ map (delivered_to consumer t) msgs\<rparr>)))"

definition idle_for :: "int \<Rightarrow> int \<Rightarrow> XPendingExt \<Rightarrow> bool" where
  "idle_for minIdle t p \<longleftrightarrow> minIdle \<le> t - xpDelivered p"

definition XPENDING_EXT :: "int \<Rightarrow> int \<Rightarrow> XPendingExt list bcmd" where
  "XPENDING_EXT count minIdle t b = (Inr (take (nat count) (filter (idle_for minIdle t) (b_pel b))), b)"

text \<open>A claim of an entry that has been evicted from the stream removes it from the pending entries.\<close>

definition XCLAIM :: "string \<Rightarrow> int \<Rightarrow> nat list \<Rightarrow> XMessage list bcmd" where
  "XCLAIM consumer minIdle ids t b =
     (let claimed = (\<lambda>p. xpID p \<in> set ids \<and> idle_for minIdle t p)
      in (Inr (List.map_filter (\<lambda>i. if \<exists>p \<in> set (b_pel b). xpID p = i \<and> claimed p
              then find (\<lambda>e. xID e = i \<and> b_trimmed b < i) (b_entries b) else None) ids),
          b\<lparr>b_pel := map (\<lambda>p. if claimed p then p\<lparr>xpConsumer := consumer, xpDelivered := t, xpRetryCount := xpRetryCount p + 1\<rparr> else p)
              (filter (\<lambda>p. \<not> (claimed p \<and> xpID p \<le> b_trimmed b)) (b_pel b))\<rparr>))"

definition XACK :: "nat \<Rightarrow> unit bcmd" where
  "XACK i t b = (Inr (), b\<lparr>b_pel := filter (\<lambda>p. xpID p \<noteq> i) (b_pel b)\<rparr>)"

definition owner_of :: "nat \<Rightarrow> broker \<Rightarrow> string option" where
  "owner_of i b = map_option xpConsumer (find (\<lambda>p. xpID p = i) (b_pel b))"

definition refresh_script :: "string \<Rightarrow> nat \<Rightarrow> bool bcmd" where
  "refresh_script owner i t b =
     (if owner_of i b \<noteq> Some owner then (Inr False, b)
      else (Inr True, b\<lparr>b_pel := (if i \<le> b_trimmed b then filter (\<lambda>p. xpID p \<noteq> i) (b_pel b)
          else map (\<lambda>p. if xpID p = i then p\<lparr>xpDelivered := t\<rparr> else p) (b_pel b))\<rparr>))"

definition ack_owned_script :: "string \<Rightarrow> nat \<Rightarrow> bool bcmd" where
  "ack_owned_script owner i t b =
     (if owner_of i b \<noteq> Some owner then (Inr False, b) else (Inr True, snd (XACK i t b)))"

definition seen_now :: "int \<Rightarrow> broker \<Rightarrow> (nat \<times> int) list" where
  "seen_now t b = (if t < b_seen_until b then b_seen b else [])"

text \<open>The sorted set keeps its 10000 members of the highest scores; the dead-letter stream is bounded in the same way, which
  the complete list \<open>b_dead\<close> does not show.\<close>

definition add_marker :: "nat \<Rightarrow> int \<Rightarrow> int \<Rightarrow> broker \<Rightarrow> broker" where
  "add_marker i score t b =
     (let members = sort_key (\<lambda>m. (snd m, fst m)) ((i, score) # seen_now t b)
      in b\<lparr>b_seen := drop (length members - 10000) members, b_seen_until := t + 604800000\<rparr>)"

definition dead_letter_script :: "string \<Rightarrow> nat \<Rightarrow> DeadLetter \<Rightarrow> int bcmd" where
  "dead_letter_script owner i letter t b =
     (if owner \<noteq> [] \<and> owner_of i b \<noteq> Some owner then (Inr 0, b)
      else if i \<in> fst ` set (seen_now t b) then (Inr 2, snd (XACK i t b))
      else (Inr 1, snd (XACK i t (add_marker i (dlFailedAt letter) t (b\<lparr>b_dead := b_dead b @ [letter]\<rparr>)))))"

section \<open>The package \<open>mq\<close>\<close>

definition defaultStreamMaxLen :: int where "defaultStreamMaxLen = 20000"

definition streamsExemptFromCap :: "string list" where
  "streamsExemptFromCap = [''stream:item:publish'', ''stream:profile:update'']"

definition PublishCapped :: "nat \<Rightarrow> int \<Rightarrow> (string \<times> string) list \<Rightarrow> nat res io" where
  "PublishCapped evict maxLen values = do {
     n \<leftarrow> gets w_rdb_nil;
     if n then ret (Inl NilClient) else mq_cmd (XADD evict maxLen values) }"

definition Publish :: "nat \<Rightarrow> string \<Rightarrow> (string \<times> string) list \<Rightarrow> nat res io" where
  "Publish evict stream values =
     PublishCapped evict (if stream \<in> set streamsExemptFromCap then 0 else defaultStreamMaxLen) values"

definition EnsureConsumerGroup :: "unit res io" where
  "EnsureConsumerGroup = do {
     r \<leftarrow> mq_cmd XGROUP_CREATE;
     ret (case r of Inl e \<Rightarrow> if e = DriverErr busyGroup then Inr () else Inl e | Inr _ \<Rightarrow> Inr ()) }"

definition ConsumeWithBlock :: "string \<Rightarrow> int \<Rightarrow> XMessage list res io" where
  "ConsumeWithBlock consumer count = mq_cmd (XREADGROUP consumer count)"

definition Consume :: "string \<Rightarrow> int \<Rightarrow> XMessage list res io" where
  "Consume consumer count = ConsumeWithBlock consumer count"

definition PendingCount :: "int res io" where
  "PendingCount = mq_cmd (\<lambda>t b. (Inr (int (length (b_pel b))), b))"

record PendingMessage =
  pmMessage :: XMessage
  pmRetryCount :: int
  pmConsumer :: string

text \<open>\<open>ConsumePendingExcept\<close> in its two commands.\<close>

definition pending_scan :: "int \<Rightarrow> int \<Rightarrow> nat list \<Rightarrow> XPendingExt list res io" where
  "pending_scan count minIdle active =
     and_then (mq_cmd (XPENDING_EXT count minIdle)) (\<lambda>entries. ret (Inr (filter (\<lambda>p. xpID p \<notin> set active) entries)))"

definition pending_message :: "XPendingExt list \<Rightarrow> XMessage \<Rightarrow> PendingMessage option" where
  "pending_message entries msg =
     map_option (\<lambda>p. \<lparr>pmMessage = msg, pmRetryCount = xpRetryCount p, pmConsumer = xpConsumer p\<rparr>)
       (find (\<lambda>p. xpID p = xID msg) entries)"

definition pending_claim :: "string \<Rightarrow> int \<Rightarrow> XPendingExt list \<Rightarrow> PendingMessage list res io" where
  "pending_claim consumer minIdle entries =
     (if entries = [] then ret (Inr [])
      else and_then (mq_cmd (XCLAIM consumer minIdle (map xpID entries))) (\<lambda>messages.
        ret (Inr (List.map_filter (pending_message entries) messages))))"

definition ConsumePendingExcept :: "string \<Rightarrow> int \<Rightarrow> int \<Rightarrow> nat list \<Rightarrow> PendingMessage list res io" where
  "ConsumePendingExcept consumer count minIdle active =
     and_then (pending_scan count minIdle active) (pending_claim consumer minIdle)"

definition ConsumePending :: "string \<Rightarrow> int \<Rightarrow> int \<Rightarrow> PendingMessage list res io" where
  "ConsumePending consumer count minIdle = ConsumePendingExcept consumer count minIdle []"

definition Ack :: "nat \<Rightarrow> unit res io" where
  "Ack i = mq_cmd (XACK i)"

definition RefreshOwnedPending :: "string \<Rightarrow> nat \<Rightarrow> bool res io" where
  "RefreshOwnedPending owner i = mq_cmd (refresh_script owner i)"

definition AckOwned :: "string \<Rightarrow> nat \<Rightarrow> bool res io" where
  "AckOwned owner i = mq_cmd (ack_owned_script owner i)"

definition DeadLetterAndAckOwned :: "string \<Rightarrow> nat \<Rightarrow> DeadLetter \<Rightarrow> bool res io" where
  "DeadLetterAndAckOwned owner i letter =
     and_then (mq_cmd (dead_letter_script owner i letter)) (\<lambda>n. ret (Inr (n > 0)))"

definition DeadLetterAndAck :: "nat \<Rightarrow> DeadLetter \<Rightarrow> unit res io" where
  "DeadLetterAndAck i letter = and_then (DeadLetterAndAckOwned [] i letter) (\<lambda>_. ret (Inr ()))"

section \<open>The runtime of a consumer\<close>

datatype HandleResult = HandleSuccess | HandleFailure | HandleRetry

record StreamConsumer =
  scConsumerName :: string
  scBatchSize :: int
  scMaxRetries :: int
  scRetryMinIdle :: int
  scDeadLetterStream :: string
  scHandle :: "nat \<Rightarrow> (string \<times> string) list \<Rightarrow> HandleResult io"

record Encoding =
  enSha256 :: "string \<Rightarrow> string"
  enMarshal :: "(string \<times> string) list \<Rightarrow> string"

definition batch_of :: "StreamConsumer \<Rightarrow> int" where
  "batch_of c = (if scBatchSize c \<le> 0 then 10 else scBatchSize c)"

definition min_idle_of :: "StreamConsumer \<Rightarrow> int" where
  "min_idle_of c = (if scRetryMinIdle c \<le> 0 then 1000 else scRetryMinIdle c)"

abbreviation deadLetterPayloadLimit :: nat where "deadLetterPayloadLimit \<equiv> 16384"

fun safe_fields :: "Encoding \<Rightarrow> (string \<times> string) list \<Rightarrow> (string \<times> string) list \<Rightarrow> bool \<Rightarrow> (string \<times> string) list \<times> bool" where
  "safe_fields enc [] safe truncated = (safe, truncated)"
| "safe_fields enc ((key, rendered) # rest) safe truncated =
     (if length safe \<ge> 32 then (safe, True)
      else safe_fields enc rest
        (AList.update (take 128 key) (if length rendered > 1024
           then take 1024 rendered @ ''...[sha256:'' @ enSha256 enc rendered @ '']'' else rendered) safe)
        (truncated \<or> length key > 128 \<or> length rendered > 1024))"

definition dead_letter :: "Encoding \<Rightarrow> nat \<Rightarrow> (string \<times> string) list \<Rightarrow> int \<Rightarrow> int \<Rightarrow> DeadLetter" where
  "dead_letter enc i values retryCount now =
     (let (safe, truncated) = safe_fields enc values [] False;
          payload = enMarshal enc safe;
          long = length payload > deadLetterPayloadLimit
      in \<lparr>dlOriginalID = i, dlRetryCount = retryCount,
          dlPayload = (if long then ''{\"sha256\":\"'' @ enSha256 enc payload @ ''\",\"note\":\"payload exceeded limit\"}'' else payload),
          dlTruncated = truncated \<or> long, dlFailedAt = now\<rparr>)"

definition deadLetterAndAck :: "Encoding \<Rightarrow> StreamConsumer \<Rightarrow> nat \<Rightarrow> (string \<times> string) list \<Rightarrow> int \<Rightarrow> unit res io" where
  "deadLetterAndAck enc c i values retryCount = do {
     now \<leftarrow> now_ms;
     and_then (DeadLetterAndAckOwned (scConsumerName c) i (dead_letter enc i values retryCount now)) (\<lambda>_. ret (Inr ())) }"

definition nextBatchSimple :: "StreamConsumer \<Rightarrow> PendingMessage list res io" where
  "nextBatchSimple c =
     and_then (Consume (scConsumerName c) (batch_of c)) (\<lambda>raw.
       ret (Inr (map (\<lambda>m. \<lparr>pmMessage = m, pmRetryCount = 0, pmConsumer = []\<rparr>) raw)))"

definition exhausted :: "StreamConsumer \<Rightarrow> PendingMessage \<Rightarrow> bool" where
  "exhausted c p \<longleftrightarrow> pmRetryCount p \<ge> scMaxRetries c"

definition drop_message :: "Encoding \<Rightarrow> StreamConsumer \<Rightarrow> PendingMessage \<Rightarrow> unit res io" where
  "drop_message enc c p =
     (if scDeadLetterStream c \<noteq> [] then deadLetterAndAck enc c (xID (pmMessage p)) (xValues (pmMessage p)) (pmRetryCount p)
      else and_then (AckOwned (scConsumerName c) (xID (pmMessage p))) (\<lambda>_. ret (Inr ())))"

fun drop_exhausted :: "Encoding \<Rightarrow> StreamConsumer \<Rightarrow> PendingMessage list \<Rightarrow> PendingMessage list res io" where
  "drop_exhausted enc c [] = ret (Inr [])"
| "drop_exhausted enc c (p # ps) =
     (if exhausted c p then and_then (drop_message enc c p) (\<lambda>_. drop_exhausted enc c ps)
      else and_then (drop_exhausted enc c ps) (\<lambda>msgs. ret (Inr (p # msgs))))"

definition read_fresh :: "StreamConsumer \<Rightarrow> PendingMessage list res io" where
  "read_fresh c =
     and_then (ConsumeWithBlock (scConsumerName c) (batch_of c)) (\<lambda>messages.
       ret (Inr (map (\<lambda>m. \<lparr>pmMessage = m, pmRetryCount = 0, pmConsumer = []\<rparr>) messages)))"

text \<open>The field \<open>preferFresh\<close> is passed in and returned.\<close>

definition nextBatchWithRetry :: "Encoding \<Rightarrow> StreamConsumer \<Rightarrow> nat list \<Rightarrow> bool \<Rightarrow> (PendingMessage list res \<times> bool) io" where
  "nextBatchWithRetry enc c active preferFresh = do {
     reclaimed \<leftarrow> (if preferFresh then ret (Inr [])
       else ConsumePendingExcept (scConsumerName c) (batch_of c) (min_idle_of c) active);
     (case reclaimed of
        Inl e \<Rightarrow> ret (Inl e, preferFresh)
      | Inr found \<Rightarrow> do {
          kept \<leftarrow> drop_exhausted enc c found;
          (case kept of
             Inl e \<Rightarrow> ret (Inl e, preferFresh)
           | Inr msgs \<Rightarrow>
               if msgs \<noteq> [] then ret (Inr msgs, True)
               else do {
                 r \<leftarrow> and_then PendingCount (\<lambda>_. read_fresh c);
                 ret (r, False) }) }) }"

definition startLease :: "StreamConsumer \<Rightarrow> nat list \<Rightarrow> nat \<Rightarrow> bool res io" where
  "startLease c active i =
     (if i \<in> set active then ret (Inr False) else RefreshOwnedPending (scConsumerName c) i)"

text \<open>What a worker does once the handler has returned.\<close>

definition settle :: "Encoding \<Rightarrow> StreamConsumer \<Rightarrow> bool \<Rightarrow> XMessage \<Rightarrow> HandleResult \<Rightarrow> unit io" where
  "settle enc c leased m result =
     (if result = HandleFailure \<and> scDeadLetterStream c \<noteq> []
      then do { _ \<leftarrow> deadLetterAndAck enc c (xID m) (xValues m) 0; ret () }
      else if result \<noteq> HandleRetry
      then (if leased then do { _ \<leftarrow> AckOwned (scConsumerName c) (xID m); ret () } else do { _ \<leftarrow> Ack (xID m); ret () })
      else ret ())"

definition work :: "Encoding \<Rightarrow> StreamConsumer \<Rightarrow> bool \<Rightarrow> XMessage \<Rightarrow> unit io" where
  "work enc c leased m = do {
     result \<leftarrow> scHandle c (xID m) (xValues m);
     settle enc c leased m result }"

fun lease_all :: "StreamConsumer \<Rightarrow> nat list \<Rightarrow> PendingMessage list \<Rightarrow> XMessage list io" where
  "lease_all c active [] = ret []"
| "lease_all c active (p # ps) = do {
     r \<leftarrow> startLease c active (xID (pmMessage p));
     (if r = Inr True
      then do { ms \<leftarrow> lease_all c (xID (pmMessage p) # active) ps; ret (pmMessage p # ms) }
      else lease_all c active ps) }"

fun work_all :: "Encoding \<Rightarrow> StreamConsumer \<Rightarrow> bool \<Rightarrow> XMessage list \<Rightarrow> unit io" where
  "work_all enc c leased [] = ret ()"
| "work_all enc c leased (m # ms) = do { _ \<leftarrow> work enc c leased m; work_all enc c leased ms }"

text \<open>One round of the dispatcher with a single worker and nothing in flight.\<close>

definition poll :: "Encoding \<Rightarrow> StreamConsumer \<Rightarrow> bool \<Rightarrow> bool io" where
  "poll enc c preferFresh =
     (if scMaxRetries c > 0 then do {
        (r, fresh) \<leftarrow> nextBatchWithRetry enc c [] preferFresh;
        (case r of
           Inl _ \<Rightarrow> ret fresh
         | Inr msgs \<Rightarrow> do { tasks \<leftarrow> lease_all c [] msgs; _ \<leftarrow> work_all enc c True tasks; ret fresh }) }
      else do {
        r \<leftarrow> nextBatchSimple c;
        (case r of
           Inl _ \<Rightarrow> ret preferFresh
         | Inr msgs \<Rightarrow> do { _ \<leftarrow> work_all enc c False (map pmMessage msgs); ret preferFresh }) })"

end
