(* ===== verification/Consumers.thy ===== *)
theory Consumers
  imports Inbox Streams
begin

text \<open>
  The handlers of the two streams that fill the durable inbox: notifications about orders
  (\<open>pipeline/consumer/commission_order_notification_consumer.go\<close>) and about moderation
  (\<open>commission_moderation_notification_consumer.go\<close>). The values of a message are texts. Decoding the
  JSON document of an order is a field of the consumer record; metrics and log lines are left out.
\<close>

section \<open>Reading the envelope\<close>

definition res_then :: "'a res \<Rightarrow> ('a \<Rightarrow> 'b res) \<Rightarrow> 'b res" where
  "res_then r f = (case r of Inl e \<Rightarrow> Inl e | Inr x \<Rightarrow> f x)"

definition streamText :: "string option \<Rightarrow> string" where
  "streamText v = (case v of None \<Rightarrow> [] | Some t \<Rightarrow> t)"

definition read_field :: "(string \<times> string) list \<Rightarrow> string \<Rightarrow> nat \<Rightarrow> string res" where
  "read_field vs key maxLen =
     (case map_of vs key of
        None \<Rightarrow> Inl (ErrText (''missing '' @ key))
      | Some t \<Rightarrow> if t = [] \<or> length t > maxLen then Inl (ErrText (''invalid '' @ key)) else Inr t)"

definition parseID :: "(string \<times> string) list \<Rightarrow> string \<Rightarrow> int res" where
  "parseID vs key = res_then (read_field vs key 32) (\<lambda>t.
     case ParseInt64 t of
       None \<Rightarrow> Inl (ErrText (''invalid '' @ key))
     | Some n \<Rightarrow> if n \<le> 0 then Inl (ErrText (''invalid '' @ key)) else Inr n)"

section \<open>Orders\<close>

record commissionOrderNotificationPayload =
  opEventID :: int
  opEventKind :: string
  opOrderID :: int
  opOrderVersion :: int
  opRecipientAgentID :: int
  opRecipientRole :: string
  opState :: string
  opFromState :: string
  opToState :: string
  opCommandKind :: string
  opActorKind :: string
  opActorAgentID :: int
  opSnapshotID :: int
  opOccurredAt :: int
  opPaymentDueAt :: int
  opSellerConfirmDueAt :: int
  opDeliveryDueAt :: int
  opBuyerConfirmDueAt :: int

record commissionOrderNotificationEvent =
  oeOutboxID :: int
  oeEventID :: int
  oeOrderID :: int
  oeOrderVersion :: int
  oeRecipientAgentID :: int
  oeOccurredAt :: int
  oeEventKind :: string
  oeDedupeKey :: string
  oePayloadJSON :: string

record CommissionOrderNotificationConsumer =
  ocService :: NotificationServiceImpl
  ocUnmarshal :: "string \<Rightarrow> commissionOrderNotificationPayload option"

fun recipient_part :: "string list \<Rightarrow> string \<Rightarrow> bool" where
  "recipient_part (p # q # rest) want = (if p = ''recipient'' then q = want else recipient_part (q # rest) want)"
| "recipient_part _ want = False"

definition dedupeKeyMatchesRecipient :: "string \<Rightarrow> int \<Rightarrow> int \<Rightarrow> bool" where
  "dedupeKeyMatchesRecipient key orderID recipientID =
     (let parts = strings_Split (CHR '':'') key
      in if length parts < 4 \<or> parts ! 0 \<noteq> ''order'' \<or> parts ! 1 \<noteq> itoa orderID then False
         else recipient_part (drop 2 parts) (itoa recipientID))"

definition envelope_agrees :: "commissionOrderNotificationEvent \<Rightarrow> commissionOrderNotificationPayload \<Rightarrow> bool" where
  "envelope_agrees e p \<longleftrightarrow> opEventID p = oeEventID e \<and> opEventKind p = oeEventKind e \<and> opOrderID p = oeOrderID e \<and>
     opOrderVersion p = oeOrderVersion e \<and> opRecipientAgentID p = oeRecipientAgentID e \<and> opOccurredAt p = oeOccurredAt e \<and>
     (opRecipientRole p = ''buyer'' \<or> opRecipientRole p = ''seller'') \<and>
     opState p \<noteq> [] \<and> opToState p \<noteq> [] \<and> opState p = opToState p \<and> opActorKind p \<noteq> [] \<and> opSnapshotID p > 0 \<and>
     (opActorKind p = ''system'' \<longrightarrow> opActorAgentID p = 0) \<and> (opActorKind p \<noteq> ''system'' \<longrightarrow> opActorAgentID p > 0)"

definition parse_envelope :: "(string \<times> string) list \<Rightarrow> commissionOrderNotificationEvent res" where
  "parse_envelope vs =
     (if parseID vs ''schema_version'' \<noteq> Inr 1 then Inl (ErrText ''unsupported schema_version'')
      else
        res_then (parseID vs ''event_id'') (\<lambda>eventID.
        res_then (parseID vs ''outbox_id'') (\<lambda>outboxID.
        res_then (parseID vs ''order_id'') (\<lambda>orderID.
        res_then (parseID vs ''order_version'') (\<lambda>orderVersion.
        res_then (parseID vs ''recipient_agent_id'') (\<lambda>recipient.
        res_then (parseID vs ''occurred_at'') (\<lambda>occurredAt.
        res_then (read_field vs ''event_kind'' 64) (\<lambda>eventKind.
        res_then (read_field vs ''dedupe_key'' 192) (\<lambda>dedupeKey.
        res_then (read_field vs ''payload_json'' 16384) (\<lambda>payloadJSON.
          Inr \<lparr>oeOutboxID = outboxID, oeEventID = eventID, oeOrderID = orderID, oeOrderVersion = orderVersion,
             oeRecipientAgentID = recipient, oeOccurredAt = occurredAt, oeEventKind = eventKind, oeDedupeKey = dedupeKey,
             oePayloadJSON = payloadJSON\<rparr>))))))))))"

definition parseCommissionOrderNotification ::
  "CommissionOrderNotificationConsumer \<Rightarrow> (string \<times> string) list \<Rightarrow> (commissionOrderNotificationEvent \<times> commissionOrderNotificationPayload) res" where
  "parseCommissionOrderNotification oc vs =
     res_then (parse_envelope vs) (\<lambda>event.
       case ocUnmarshal oc (oePayloadJSON event) of
         None \<Rightarrow> Inl (ErrText ''decode payload_json'')
       | Some payload \<Rightarrow>
           if \<not> envelope_agrees event payload then Inl (ErrText ''envelope and payload disagree'')
           else if oeEventKind event = ''order.state.changed.v1'' \<and> opCommandKind payload = []
           then Inl (ErrText ''state-change notification is missing command_kind'')
           else if \<not> dedupeKeyMatchesRecipient (oeDedupeKey event) (oeOrderID event) (oeRecipientAgentID event)
           then Inl (ErrText ''dedupe_key does not identify the order recipient'')
           else Inr (event, payload))"

definition PendingRetention :: int where "PendingRetention = 90 * 24 * 60 * 60 * 1000"

definition order_row :: "commissionOrderNotificationEvent \<Rightarrow> int \<Rightarrow> InboxNotification" where
  "order_row event now =
     \<lparr>ibNotificationID = oeOutboxID event, ibAgentID = oeRecipientAgentID event, ibSourceType = SourceTypeCommissionOrder,
      ibSourceID = oeOutboxID event, ibDedupeKey = oeDedupeKey event, ibEventKind = oeEventKind event, ibOrderID = oeOrderID event,
      ibOrderVersion = oeOrderVersion event, ibPayloadJSON = oePayloadJSON event, ibOccurredAt = oeOccurredAt event,
      ibReceivedAt = now, ibExpiresAt = now + PendingRetention, ibAcknowledgedAt = None, ibLastDeliveryError = []\<rparr>"

text \<open>The wake-up of the recipient; \<open>errorText\<close> is what is recorded when it fails.\<close>

definition wake_recipient :: "InboxNotification \<Rightarrow> (err \<Rightarrow> string) \<Rightarrow> unit io" where
  "wake_recipient row errorText = do {
     r \<leftarrow> publish_push (ibAgentID row) (PushWake (ibSourceType row) (itoa (ibNotificationID row)) (itoa (ibNotificationID row)));
     (case r of
        Inl e \<Rightarrow> do { _ \<leftarrow> SetInboxDeliveryError (ibNotificationID row) (ibAgentID row) (errorText e); ret () }
      | Inr _ \<Rightarrow> ret ()) }"

text \<open>What both handlers do with the row they have made.\<close>

definition store_and_wake :: "NotificationServiceImpl \<Rightarrow> InboxNotification \<Rightarrow> (err \<Rightarrow> string) \<Rightarrow> HandleResult io" where
  "store_and_wake s row errorText = do {
     inserted \<leftarrow> InsertInboxNotification s row;
     (case inserted of
        Inl _ \<Rightarrow> ret HandleRetry
      | Inr new \<Rightarrow> if \<not> new then ret HandleSuccess else do { _ \<leftarrow> wake_recipient row errorText; ret HandleSuccess }) }"

definition Handle_order :: "CommissionOrderNotificationConsumer \<Rightarrow> nat \<Rightarrow> (string \<times> string) list \<Rightarrow> HandleResult io" where
  "Handle_order oc msgID vs =
     (case parseCommissionOrderNotification oc vs of
        Inl _ \<Rightarrow> ret HandleFailure
      | Inr (event, payload) \<Rightarrow> do {
          now \<leftarrow> now_ms;
          store_and_wake (ocService oc) (order_row event now) err_text })"

section \<open>Moderation\<close>

abbreviation CommissionModerationTopic :: string where "CommissionModerationTopic \<equiv> ''commission.moderation.changed.v1''"

definition exact_id :: "(string \<times> string) list \<Rightarrow> string \<Rightarrow> int option" where
  "exact_id vs key =
     (let raw = streamText (map_of vs key)
      in case ParseInt64 raw of None \<Rightarrow> None | Some n \<Rightarrow> if n \<le> 0 \<or> itoa n \<noteq> raw then None else Some n)"

definition moderation_row :: "int \<Rightarrow> int \<Rightarrow> string \<Rightarrow> CommissionModeration \<Rightarrow> int \<Rightarrow> InboxNotification" where
  "moderation_row eventID aggregateVersion raw payload now =
     \<lparr>ibNotificationID = eventID, ibAgentID = ParseInt64_value (cmRecipientAgentID payload), ibSourceType = SourceCommissionModeration,
      ibSourceID = eventID,
      ibDedupeKey = ''commission_moderation:'' @ cmModerationID payload @ '':version:'' @ itoa aggregateVersion
        @ '':recipient:'' @ cmRecipientAgentID payload,
      ibEventKind = CommissionModerationTopic, ibOrderID = 0, ibOrderVersion = 0, ibPayloadJSON = raw,
      ibOccurredAt = cmOccurredAt payload, ibReceivedAt = now, ibExpiresAt = now + PendingRetention,
      ibAcknowledgedAt = None, ibLastDeliveryError = []\<rparr>"

definition parseCommissionModerationNotification ::
  "NotificationServiceImpl \<Rightarrow> (string \<times> string) list \<Rightarrow> int \<Rightarrow> InboxNotification option" where
  "parseCommissionModerationNotification s vs now =
     (if streamText (map_of vs ''schema_version'') \<noteq> ''1'' \<or> streamText (map_of vs ''topic'') \<noteq> CommissionModerationTopic \<or>
         streamText (map_of vs ''aggregate_type'') \<noteq> ''commission_moderation'' then None
      else (case (exact_id vs ''event_id'', exact_id vs ''aggregate_id'', exact_id vs ''aggregate_version'', exact_id vs ''occurred_at'') of
          (Some eventID, Some _, Some aggregateVersion, Some occurredAt) \<Rightarrow>
            (let raw = streamText (map_of vs ''payload_json'')
             in case ParseCommissionModeration s raw of
                  None \<Rightarrow> None
                | Some payload \<Rightarrow>
                    if cmModerationID payload \<noteq> streamText (map_of vs ''aggregate_id'') \<or> cmOccurredAt payload \<noteq> occurredAt \<or>
                       cmNotificationVersion payload \<noteq> aggregateVersion then None
                    else Some (moderation_row eventID aggregateVersion raw payload now))
        | _ \<Rightarrow> None))"

definition Handle_moderation :: "NotificationServiceImpl \<Rightarrow> nat \<Rightarrow> (string \<times> string) list \<Rightarrow> HandleResult io" where
  "Handle_moderation s msgID vs =
     (if streamText (map_of vs ''topic'') \<noteq> CommissionModerationTopic then ret HandleSuccess
      else do {
        now \<leftarrow> now_ms;
        (case parseCommissionModerationNotification s vs now of
           None \<Rightarrow> ret HandleFailure
         | Some row \<Rightarrow> store_and_wake s row (\<lambda>_. ''wake-up failed'')) })"

end
