(* ===== verification/Delivery.thy ===== *)
theory Delivery
  imports Streams
begin

text \<open>
  Any number of instances of a consumer on one stream, in every interleaving of their commands, with crashes, lost
  commands and lost replies. No message of the stream is lost: one that has been delivered is pending,
  or recorded by its handler, or in the dead-letter stream, unless the stream itself evicted it.
\<close>

section \<open>What a command does to the stream\<close>

lemma run_mq_cmd:
  obtains e n where "run_state (mq_cmd c) w = (fst (c n (w_mq w)), w\<lparr>w_env := e, w_now := n, w_mq := snd (c n (w_mq w))\<rparr>)"
  | e n er where "run_state (mq_cmd c) w = (Inl er, w\<lparr>w_env := e, w_now := n\<rparr>)"
  | e n er where "run_state (mq_cmd c) w = (Inl er, w\<lparr>w_env := e, w_now := n, w_mq := snd (c n (w_mq w))\<rparr>)"
proof -
  obtain oc e n where st: "run_state io_step w = (oc, w\<lparr>w_env := e, w_now := n\<rparr>)" using run_io_step by blast
  obtain r b where c: "c n (w_mq w) = (r, b)" by force
  show ?thesis
  proof (cases oc)
    case Fine
    with st c show ?thesis by (intro that(1) [where n = n and e = e]) (simp add: mq_cmd_def)
  next
    case (Lost er)
    with st c show ?thesis by (intro that(2)) (simp add: mq_cmd_def)
  next
    case (Unacked er)
    with st c show ?thesis by (intro that(3) [where n = n and e = e]) (simp add: mq_cmd_def)
  qed
qed

text \<open>A relation between the stream before and after a command, whatever becomes of the command and its reply.\<close>

definition mq_rel :: "(broker \<Rightarrow> broker \<Rightarrow> bool) \<Rightarrow> 'a io \<Rightarrow> bool" where
  "mq_rel R m \<longleftrightarrow> (\<forall>w r w'. run_state m w = (r, w') \<longrightarrow> w_db w' = w_db w \<and> R (w_mq w) (w_mq w'))"

lemma mq_relD: "mq_rel R m \<Longrightarrow> run_state m w = (r, w') \<Longrightarrow> w_db w' = w_db w \<and> R (w_mq w) (w_mq w')"
  by (auto simp: mq_rel_def)

lemma mq_rel_cmd:
  assumes "\<And>b. R b b" "\<And>t b. R b (snd (c t b))"
  shows "mq_rel R (mq_cmd c)"
  unfolding mq_rel_def
proof (intro allI impI)
  fix w r w' assume "run_state (mq_cmd c) w = (r, w')"
  then show "w_db w' = w_db w \<and> R (w_mq w) (w_mq w')"
    by (cases rule: run_mq_cmd [of c w]) (auto simp: assms)
qed

lemma mq_rel_ret: "(\<And>b. R b b) \<Longrightarrow> mq_rel R (ret x)"
  by (simp add: mq_rel_def)

lemma mq_rel_and_then: "mq_rel R m \<Longrightarrow> mq_rel R (and_then m (\<lambda>x. ret (g x)))"
  unfolding mq_rel_def and_then_def by (force split: prod.splits sum.splits)

lemma mq_rel_bind_ret: "mq_rel R m \<Longrightarrow> mq_rel R (m \<bind> (\<lambda>x. ret (g x)))"
  unfolding mq_rel_def by (force split: prod.splits)

lemma mq_rel_now: "(\<And>t. mq_rel R (f t)) \<Longrightarrow> mq_rel R (now_ms \<bind> f)"
  by (simp add: mq_rel_def now_ms_def)

lemmas mq_rel_intros = mq_rel_ret mq_rel_and_then mq_rel_bind_ret mq_rel_now mq_rel_cmd

text \<open>What the other commands do leaves the stream alone.\<close>

lemma keeps_mq_prims:
  "keeps w_mq (redis_cmd c)" "keeps w_mq (db_stmt f)" "keeps w_mq (publish_push a p)" "keeps w_mq now_ms" "keeps w_mq (db_query q)"
  "keeps w_mq m \<Longrightarrow> keeps w_mq (transaction m)"
  by (auto intro!: keeps_redis_cmd keeps_db_stmt keeps_publish_push keeps_transaction simp: now_ms_def keeps_gets db_query_def)

lemma keeps_mq_more:
  "keeps w_mq (spawn t)" "keeps w_mq (modify (\<lambda>w. w\<lparr>w_rule_cache := g w\<rparr>))" "keeps w_mq next_event_id"
  by (auto simp: keeps_def spawn_def next_event_id_def split: list.splits)

lemma quiet_mq: "quiet w \<Longrightarrow> c (w_now w) (w_mq w) = (r, b) \<Longrightarrow> run_state (mq_cmd c) w = (r, w\<lparr>w_mq := b\<rparr>)"
  by (simp add: quiet_def mq_cmd_def io_step_def)

lemma quiet_more [simp]: "quiet (w\<lparr>w_mq := b\<rparr>) = quiet w" "quiet (w\<lparr>w_pushes := ps\<rparr>) = quiet w"
  by (simp_all add: quiet_def)

section \<open>Instances\<close>

record instance_state =
  in_name :: string
  in_scanned :: "XPendingExt list"
  in_claimed :: "PendingMessage list"
  in_tasks :: "(PendingMessage \<times> HandleResult option) list"

definition new_instance :: "string \<Rightarrow> instance_state" where
  "new_instance n = \<lparr>in_name = n, in_scanned = [], in_claimed = [], in_tasks = []\<rparr>"

definition active_ids :: "instance_state \<Rightarrow> nat list" where
  "active_ids x = map (\<lambda>(p, _). xID (pmMessage p)) (in_tasks x)"

abbreviation named :: "StreamConsumer \<Rightarrow> instance_state \<Rightarrow> StreamConsumer" where
  "named c x \<equiv> c\<lparr>scConsumerName := in_name x\<rparr>"

text \<open>
  The steps: a message is published, another service works, time passes; an instance starts or crashes; its dispatcher
  looks for idle messages, claims them, gives up one that is exhausted, reads fresh ones, takes a lease; its workers
  run the handler and settle the result; a heartbeat renews a lease or finds it lost. Every step runs
  the definitions of the code, and its commands can fail.
\<close>

inductive step :: "Encoding \<Rightarrow> StreamConsumer \<Rightarrow> (world \<Rightarrow> world \<Rightarrow> bool) \<Rightarrow>
    world \<times> instance_state list \<Rightarrow> world \<times> instance_state list \<Rightarrow> bool"
  for enc c others where
  publish: "run_state (PublishCapped evict maxLen values) w = (r, w') \<Longrightarrow> step enc c others (w, xs) (w', xs)"
| serve: "others w w' \<Longrightarrow> step enc c others (w, xs) (w', xs)"
| pass: "w_now w \<le> t \<Longrightarrow> step enc c others (w, xs) (w\<lparr>w_now := t, w_env := e\<rparr>, xs)"
| join: "run_state EnsureConsumerGroup w = (Inr (), w') \<Longrightarrow> step enc c others (w, xs) (w', xs @ [new_instance n])"
| crash: "step enc c others (w, xs @ x # ys) (w, xs @ ys)"
| scan: "run_state (pending_scan (batch_of c) (min_idle_of c) (active_ids x)) w = (r, w') \<Longrightarrow>
    step enc c others (w, xs @ x # ys) (w', xs @ x\<lparr>in_scanned := (case r of Inl _ \<Rightarrow> [] | Inr ps \<Rightarrow> ps)\<rparr> # ys)"
| claim: "run_state (pending_claim (in_name x) (min_idle_of c) (in_scanned x)) w = (r, w') \<Longrightarrow>
    step enc c others (w, xs @ x # ys)
      (w', xs @ x\<lparr>in_scanned := [], in_claimed := in_claimed x @ (case r of Inl _ \<Rightarrow> [] | Inr ms \<Rightarrow> ms)\<rparr> # ys)"
| give_up: "p \<in> set (in_claimed x) \<Longrightarrow> exhausted c p \<Longrightarrow> run_state (drop_message enc (named c x) p) w = (r, w') \<Longrightarrow>
    step enc c others (w, xs @ x # ys)
      (w', xs @ x\<lparr>in_claimed := (case r of Inl _ \<Rightarrow> [] | Inr _ \<Rightarrow> remove1 p (in_claimed x))\<rparr> # ys)"
| read: "run_state (read_fresh (named c x)) w = (r, w') \<Longrightarrow>
    step enc c others (w, xs @ x # ys) (w', xs @ x\<lparr>in_claimed := in_claimed x @ (case r of Inl _ \<Rightarrow> [] | Inr ms \<Rightarrow> ms)\<rparr> # ys)"
| lease: "p \<in> set (in_claimed x) \<Longrightarrow> \<not> exhausted c p \<Longrightarrow>
    run_state (startLease (named c x) (active_ids x) (xID (pmMessage p))) w = (r, w') \<Longrightarrow>
    step enc c others (w, xs @ x # ys) (w', xs @ x\<lparr>in_claimed := remove1 p (in_claimed x),
      in_tasks := in_tasks x @ (if r = Inr True then [(p, None)] else [])\<rparr> # ys)"
| handle: "in_tasks x = us @ (p, None) # vs \<Longrightarrow> run_state (scHandle c (xID (pmMessage p)) (xValues (pmMessage p))) w = (r, w') \<Longrightarrow>
    step enc c others (w, xs @ x # ys) (w', xs @ x\<lparr>in_tasks := us @ (p, Some r) # vs\<rparr> # ys)"
| finish: "in_tasks x = us @ (p, Some r) # vs \<Longrightarrow> run_state (settle enc (named c x) True (pmMessage p) r) w = (u, w') \<Longrightarrow>
    step enc c others (w, xs @ x # ys) (w', xs @ x\<lparr>in_tasks := us @ vs\<rparr> # ys)"
| heartbeat: "in_tasks x = us @ (p, r) # vs \<Longrightarrow> run_state (RefreshOwnedPending (in_name x) (xID (pmMessage p))) w = (o', w') \<Longrightarrow>
    step enc c others (w, xs @ x # ys) (w', xs @ x\<lparr>in_tasks := (if o' = Inr True then in_tasks x else us @ vs)\<rparr> # ys)"

inductive reachable :: "Encoding \<Rightarrow> StreamConsumer \<Rightarrow> (world \<Rightarrow> world \<Rightarrow> bool) \<Rightarrow> world \<Rightarrow> world \<times> instance_state list \<Rightarrow> bool"
  for enc c others w0 where
  start: "reachable enc c others w0 (w0, [])"
| more: "reachable enc c others w0 s \<Longrightarrow> step enc c others s s' \<Longrightarrow> reachable enc c others w0 s'"

section \<open>How the stream may change\<close>

definition dead_ids :: "broker \<Rightarrow> nat set" where
  "dead_ids b = dlOriginalID ` set (b_dead b)"

definition pending_ids :: "broker \<Rightarrow> nat set" where
  "pending_ids b = xpID ` set (b_pel b)"

text \<open>The entries are numbered in order and delivered in order, and a marker stands for a dead letter.\<close>

definition broker_ok :: "broker \<Rightarrow> bool" where
  "broker_ok b \<longleftrightarrow> map xID (b_entries b) = [1..<Suc (length (b_entries b))] \<and> b_last b \<le> length (b_entries b) \<and>
     fst ` set (b_seen b) \<subseteq> dead_ids b \<and> (\<not> b_group b \<longrightarrow> b_last b = 0)"

text \<open>
  Apart from acknowledgements of the messages in \<open>acked\<close> the stream only grows: no entry goes away, no dead letter, and
  what was delivered stays pending unless it is dead or evicted.
\<close>

definition grows :: "nat set \<Rightarrow> broker \<Rightarrow> broker \<Rightarrow> bool" where
  "grows acked b b' \<longleftrightarrow> (broker_ok b \<longrightarrow> broker_ok b' \<and> (\<exists>es. b_entries b' = b_entries b @ es) \<and> b_last b \<le> b_last b' \<and>
     b_trimmed b \<le> b_trimmed b' \<and> dead_ids b \<subseteq> dead_ids b' \<and>
     (\<forall>e \<in> set (b_entries b'). xID e \<le> b_last b' \<longrightarrow> b_last b < xID e \<or> xID e \<in> pending_ids b \<longrightarrow>
        xID e \<in> pending_ids b' \<union> dead_ids b' \<union> acked \<or> xID e \<le> b_trimmed b'))"

lemma grows_refl: "grows acked b b"
  by (auto simp: grows_def)

lemma grows_mono: "grows A b b' \<Longrightarrow> A \<subseteq> B \<Longrightarrow> grows B b b'"
  unfolding grows_def by blast

lemma grows_same:
  assumes "b_entries b' = b_entries b" "b_last b' = b_last b" "b_trimmed b' = b_trimmed b" "b_group b' = b_group b"
    and "b_dead b' = b_dead b" "b_seen b' = b_seen b" "\<forall>i \<in> pending_ids b. i \<in> pending_ids b' \<union> acked \<or> i \<le> b_trimmed b"
  shows "grows acked b b'"
  using assms by (auto simp: grows_def broker_ok_def dead_ids_def)

lemma ids_range: "broker_ok b \<Longrightarrow> e \<in> set (b_entries b) \<Longrightarrow> xID e \<in> {1..length (b_entries b)}"
  by (metis (no_types, lifting) atLeastLessThanSuc_atLeastAtMost broker_ok_def image_eqI image_set set_upt)

lemma grows_XADD: "grows A b (snd (XADD evict maxLen values t b))"
proof -
  let ?b' = "snd (XADD evict maxLen values t b)"
  have b': "b_entries ?b' = b_entries b @ [\<lparr>xID = Suc (length (b_entries b)), xValues = values\<rparr>]" "b_last ?b' = b_last b"
    "b_pel ?b' = b_pel b" "b_dead ?b' = b_dead b" "b_seen ?b' = b_seen b" "b_group ?b' = b_group b" "b_trimmed b \<le> b_trimmed ?b'"
    by (simp_all add: XADD_def Let_def)
  then show ?thesis
    unfolding grows_def by (auto simp: broker_ok_def dead_ids_def pending_ids_def)
qed

lemma grows_GROUP: "grows A b (snd (XGROUP_CREATE t b))"
  by (auto simp: grows_def XGROUP_CREATE_def broker_ok_def dead_ids_def pending_ids_def)

lemma take_upto:
  fixes f :: "'a \<Rightarrow> nat"
  assumes "sorted_wrt (\<lambda>x y. f x < f y) L" "take n L \<noteq> []" "x \<in> set L" "f x \<le> f (last (take n L))"
  shows "x \<in> set (take n L)"
proof (rule ccontr)
  assume "x \<notin> set (take n L)"
  then have "x \<in> set (drop n L)" using assms(3) by (metis Un_iff append_take_drop_id set_append)
  moreover have "sorted_wrt (\<lambda>x y. f x < f y) (take n L @ drop n L)" using assms(1) by simp
  ultimately have "f (last (take n L)) < f x" using assms(2) by (metis last_in_set sorted_wrt_append)
  then show False using assms(4) by simp
qed

lemma entries_inj: "broker_ok b \<Longrightarrow> inj_on xID (set (b_entries b))"
  by (metis broker_ok_def distinct_map distinct_upt)

lemma entries_increasing: "broker_ok b \<Longrightarrow> sorted_wrt (\<lambda>x y. xID x < xID y) (b_entries b)"
  unfolding broker_ok_def by (metis sorted_wrt_map strict_sorted_iff sorted_wrt_upt)

lemma grows_READ: "grows A b (snd (XREADGROUP consumer count t b))"
proof (cases "b_group b")
  case True
  define msgs where "msgs = take (nat count) (filter (fresh_entry b) (b_entries b))"
  let ?b' = "snd (XREADGROUP consumer count t b)"
  have b': "b_entries ?b' = b_entries b" "b_trimmed ?b' = b_trimmed b" "b_dead ?b' = b_dead b" "b_seen ?b' = b_seen b" "b_group ?b'"
    "pending_ids ?b' = pending_ids b \<union> xID ` set msgs" "b_last ?b' = (if msgs = [] then b_last b else xID (last msgs))"
    using True by (simp_all add: XREADGROUP_def Let_def msgs_def pending_ids_def delivered_to_def image_Un image_image)
  have sub: "set msgs \<subseteq> set (filter (fresh_entry b) (b_entries b))" by (auto simp: msgs_def dest: in_set_takeD)
  show ?thesis
  proof (cases "msgs = []")
    case none: True
    then show ?thesis using b' True by (intro grows_same) auto
  next
    case False
    then have fresh: "fresh_entry b (last msgs)" "last msgs \<in> set (b_entries b)" using sub by force+
    have new: "xID e \<in> xID ` set msgs \<or> xID e \<le> b_trimmed b" if "broker_ok b" "e \<in> set (b_entries b)" "b_last b < xID e" "xID e \<le> xID (last msgs)" for e
    proof (cases "b_trimmed b < xID e")
      case True
      then have "e \<in> set (take (nat count) (filter (fresh_entry b) (b_entries b)))"
        using that False entries_increasing [OF that(1)]
        by (intro take_upto [where f = xID]) (auto simp: msgs_def fresh_entry_def intro: sorted_wrt_filter)
      then show ?thesis by (simp add: msgs_def)
    qed simp
    show ?thesis
      unfolding grows_def
    proof (intro impI conjI ballI)
      assume ok: "broker_ok b"
      show "broker_ok ?b'" using ok b' False ids_range [OF ok fresh(2)] by (simp add: broker_ok_def dead_ids_def)
      show "b_last b \<le> b_last ?b'" using b' False fresh(1) by (simp add: fresh_entry_def)
      show "xID e \<in> pending_ids ?b' \<union> dead_ids ?b' \<union> A \<or> xID e \<le> b_trimmed ?b'"
        if "e \<in> set (b_entries ?b')" "xID e \<le> b_last ?b'" "b_last b < xID e \<or> xID e \<in> pending_ids b" for e
        using that new [OF ok, of e] b' False by auto
    qed (use b' in \<open>auto simp: dead_ids_def\<close>)
  qed
qed (simp add: XREADGROUP_def grows_refl)

lemma pel_ids_map: "(\<And>p. xpID (f p) = xpID p) \<Longrightarrow> xpID ` set (map f ps) = xpID ` set ps"
  by (simp add: image_image)

lemma grows_CLAIM: "grows A b (snd (XCLAIM consumer minIdle ids t b))"
proof -
  have "pending_ids (snd (XCLAIM consumer minIdle ids t b)) =
      xpID ` set (filter (\<lambda>p. \<not> ((xpID p \<in> set ids \<and> idle_for minIdle t p) \<and> xpID p \<le> b_trimmed b)) (b_pel b))"
    unfolding XCLAIM_def Let_def pending_ids_def by (subst (2) pel_ids_map [symmetric, of "\<lambda>p. if xpID p \<in> set ids \<and> idle_for minIdle t p
      then p\<lparr>xpConsumer := consumer, xpDelivered := t, xpRetryCount := xpRetryCount p + 1\<rparr> else p"]) simp_all
  then show ?thesis by (intro grows_same) (auto simp: XCLAIM_def Let_def pending_ids_def)
qed

lemma grows_ACK: "grows {i} b (snd (XACK i t b))"
  by (intro grows_same) (auto simp: XACK_def pending_ids_def image_iff)

lemma grows_refresh: "grows A b (snd (refresh_script owner i t b))"
proof (cases "owner_of i b = Some owner")
  case True
  have same: "xpID ` set (map (\<lambda>p. if xpID p = i then p\<lparr>xpDelivered := t\<rparr> else p) (b_pel b)) = xpID ` set (b_pel b)"
    by (rule pel_ids_map) simp
  show ?thesis
    by (rule grows_same) (use True same in \<open>auto simp: refresh_script_def pending_ids_def simp del: set_map\<close>)
qed (simp add: refresh_script_def grows_refl)

lemma grows_ack_owned: "grows {i} b (snd (ack_owned_script owner i t b))"
  using grows_ACK by (auto simp: ack_owned_script_def grows_refl)

lemma grows_dead:
  assumes "dlOriginalID letter = i"
  shows "grows A b (snd (dead_letter_script owner i letter t b))"
proof -
  have marked: "i \<in> dead_ids b" if "broker_ok b" "i \<in> fst ` set (seen_now t b)"
    using that by (auto simp: broker_ok_def seen_now_def split: if_splits)
  have members: "fst ` set (b_seen (add_marker i score t b)) \<subseteq> insert i (fst ` set (b_seen b))" for score b
    by (auto simp: add_marker_def Let_def seen_now_def set_insort_key dest!: in_set_dropD split: if_splits)
  have kept: "b_entries (add_marker i score t b) = b_entries b" "b_last (add_marker i score t b) = b_last b"
    "b_trimmed (add_marker i score t b) = b_trimmed b" "b_group (add_marker i score t b) = b_group b"
    "b_pel (add_marker i score t b) = b_pel b" "b_dead (add_marker i score t b) = b_dead b" for score b
    by (simp_all add: add_marker_def Let_def)
  consider (other) "owner \<noteq> [] \<and> owner_of i b \<noteq> Some owner"
    | (again) "\<not> (owner \<noteq> [] \<and> owner_of i b \<noteq> Some owner)" "i \<in> fst ` set (seen_now t b)"
    | (first) "\<not> (owner \<noteq> [] \<and> owner_of i b \<noteq> Some owner)" "i \<notin> fst ` set (seen_now t b)" by blast
  then show ?thesis
  proof cases
    case other
    then show ?thesis by (simp add: dead_letter_script_def grows_refl)
  next
    case again
    then show ?thesis using marked
      by (auto simp: dead_letter_script_def grows_def XACK_def broker_ok_def dead_ids_def pending_ids_def image_iff)
  next
    case first
    define b1 where "b1 = b\<lparr>b_dead := b_dead b @ [letter]\<rparr>"
    have "snd (dead_letter_script owner i letter t b) = snd (XACK i t (add_marker i (dlFailedAt letter) t b1))"
      using first unfolding dead_letter_script_def b1_def by auto
    moreover have "grows A b (snd (XACK i t (add_marker i (dlFailedAt letter) t b1)))"
      using members [of "dlFailedAt letter" b1] assms
      unfolding grows_def by (auto simp: XACK_def kept broker_ok_def dead_ids_def pending_ids_def b1_def image_iff)
    ultimately show ?thesis by simp
  qed
qed


section \<open>The steps of an instance\<close>

lemma publish_grows: "mq_rel (grows A) (PublishCapped evict maxLen values)"
proof -
  have cmd: "mq_rel (grows A) (mq_cmd (XADD evict maxLen values))" by (intro mq_rel_cmd grows_refl grows_XADD)
  then show ?thesis unfolding mq_rel_def PublishCapped_def by (auto simp: grows_refl)
qed

lemma join_grows: "mq_rel (grows A) EnsureConsumerGroup"
  unfolding EnsureConsumerGroup_def by (intro mq_rel_intros grows_refl grows_GROUP)

lemma scan_grows: "mq_rel (grows A) (pending_scan n idle active)"
  unfolding pending_scan_def by (intro mq_rel_intros) (simp_all add: grows_refl XPENDING_EXT_def)

lemma claim_grows: "mq_rel (grows A) (pending_claim name idle ps)"
  unfolding pending_claim_def by (auto intro!: mq_rel_intros grows_refl grows_CLAIM)

lemma read_grows: "mq_rel (grows A) (read_fresh c)"
  unfolding read_fresh_def ConsumeWithBlock_def by (intro mq_rel_intros grows_refl grows_READ)

lemma refresh_grows: "mq_rel (grows A) (RefreshOwnedPending owner i)"
  unfolding RefreshOwnedPending_def by (intro mq_rel_intros grows_refl grows_refresh)

lemma lease_grows: "mq_rel (grows A) (startLease c active i)"
  using refresh_grows by (auto simp: startLease_def intro!: mq_rel_ret grows_refl)

lemma dead_grows: "mq_rel (grows A) (deadLetterAndAck enc c i values n)"
  unfolding deadLetterAndAck_def DeadLetterAndAckOwned_def
  by (intro mq_rel_intros grows_refl grows_dead) (simp add: dead_letter_def Let_def split: prod.splits)

lemma settle_grows:
  assumes "scDeadLetterStream c \<noteq> []"
  shows "mq_rel (grows (if r = HandleSuccess then {xID m} else {})) (settle enc c True m r)"
proof (cases r)
  case HandleSuccess
  then show ?thesis unfolding settle_def AckOwned_def by (auto intro!: mq_rel_intros grows_refl grows_ack_owned)
next
  case HandleFailure
  then show ?thesis using assms unfolding settle_def by (auto intro!: mq_rel_bind_ret dead_grows)
next
  case HandleRetry
  then show ?thesis unfolding settle_def by (auto intro!: mq_rel_ret grows_refl)
qed

text \<open>What an instance holds are entries of the stream.\<close>

lemma in_map_filter: "y \<in> set (List.map_filter f xs) \<Longrightarrow> \<exists>x \<in> set xs. f x = Some y"
  by (auto simp: map_filter_def)

lemma claimed_entries:
  assumes "run_state (pending_claim name idle ps) w = (Inr ms, w')"
  shows "\<forall>m \<in> set ms. pmMessage m \<in> set (b_entries (w_mq w))"
proof (cases "ps = []")
  case False
  have found: "set (case fst (XCLAIM name idle ids t b) of Inl _ \<Rightarrow> [] | Inr l \<Rightarrow> l) \<subseteq> set (b_entries b)" for ids t b
    by (auto simp: XCLAIM_def Let_def find_Some_iff dest!: in_map_filter split: if_splits)
  obtain l where l: "run_state (mq_cmd (XCLAIM name idle (map xpID ps))) w = (Inr l, w')" "ms = List.map_filter (pending_message ps) l"
    using assms False by (auto simp: pending_claim_def and_then_def split: prod.splits sum.splits)
  have "set l \<subseteq> set (b_entries (w_mq w))"
  proof (cases rule: run_mq_cmd [of "XCLAIM name idle (map xpID ps)" w])
    case (1 e n)
    then show ?thesis using l(1) found [where ids = "map xpID ps" and t = n and b = "w_mq w"] by auto
  qed (use l(1) in auto)
  then show ?thesis by (auto simp: l(2) map_filter_def pending_message_def)
qed (use assms in \<open>simp add: pending_claim_def\<close>)

lemma read_entries:
  assumes "run_state (read_fresh c) w = (Inr ms, w')"
  shows "\<forall>m \<in> set ms. pmMessage m \<in> set (b_entries (w_mq w))"
proof -
  let ?c = "XREADGROUP (scConsumerName c) (batch_of c)"
  have found: "set (case fst (?c t b) of Inl _ \<Rightarrow> [] | Inr l \<Rightarrow> l) \<subseteq> set (b_entries b)" for t b
    by (auto simp: XREADGROUP_def Let_def dest!: in_set_takeD)
  obtain l where l: "run_state (mq_cmd ?c) w = (Inr l, w')" "ms = map (\<lambda>m. \<lparr>pmMessage = m, pmRetryCount = 0, pmConsumer = []\<rparr>) l"
    using assms by (auto simp: read_fresh_def ConsumeWithBlock_def and_then_def split: prod.splits sum.splits)
  have "set l \<subseteq> set (b_entries (w_mq w))"
  proof (cases rule: run_mq_cmd [of ?c w])
    case (1 e n)
    then show ?thesis using l(1) found [where t = n and b = "w_mq w"] by auto
  qed (use l(1) in auto)
  then show ?thesis by (auto simp: l(2))
qed

section \<open>No message is lost\<close>

text \<open>
  What the runtime relies on: a handler that reports success has recorded the message, and neither handlers nor the
  other services ever undo a record or touch the stream. \<open>recorded\<close> says in the tables that a message has had
  its effect.
\<close>

locale stream_handler =
  fixes handler :: "nat \<Rightarrow> (string \<times> string) list \<Rightarrow> HandleResult io"
    and recorded :: "(string \<times> string) list \<Rightarrow> database \<Rightarrow> bool"
    and others :: "world \<Rightarrow> world \<Rightarrow> bool"
  assumes success: "run_state (handler i vs) w = (HandleSuccess, w') \<Longrightarrow> recorded vs (w_db w')"
    and lasting: "run_state (handler i vs) w = (r, w') \<Longrightarrow> recorded us (w_db w) \<Longrightarrow> recorded us (w_db w')"
    and apart: "run_state (handler i vs) w = (r, w') \<Longrightarrow> w_mq w' = w_mq w"
    and others: "others w w' \<Longrightarrow> w_mq w' = w_mq w \<and> (recorded us (w_db w) \<longrightarrow> recorded us (w_db w'))"
begin

definition accounted :: "world \<Rightarrow> bool" where
  "accounted w \<longleftrightarrow> broker_ok (w_mq w) \<and> (\<forall>e \<in> set (b_entries (w_mq w)). xID e \<le> b_last (w_mq w) \<longrightarrow>
     xID e \<in> pending_ids (w_mq w) \<union> dead_ids (w_mq w) \<or> recorded (xValues e) (w_db w) \<or> xID e \<le> b_trimmed (w_mq w))"

definition held_ok :: "world \<Rightarrow> instance_state \<Rightarrow> bool" where
  "held_ok w x \<longleftrightarrow> (\<forall>p \<in> set (in_claimed x). pmMessage p \<in> set (b_entries (w_mq w))) \<and>
     (\<forall>(p, r) \<in> set (in_tasks x). pmMessage p \<in> set (b_entries (w_mq w)) \<and>
        (r = Some HandleSuccess \<longrightarrow> recorded (xValues (pmMessage p)) (w_db w)))"

definition invariant :: "world \<times> instance_state list \<Rightarrow> bool" where
  "invariant s \<longleftrightarrow> accounted (fst s) \<and> (\<forall>x \<in> set (snd s). held_ok (fst s) x)"

text \<open>A world that is later than another: the stream has grown and no record is gone.\<close>

definition later :: "world \<Rightarrow> world \<Rightarrow> bool" where
  "later w w' \<longleftrightarrow> (\<exists>es. b_entries (w_mq w') = b_entries (w_mq w) @ es) \<and> (\<forall>vs. recorded vs (w_db w) \<longrightarrow> recorded vs (w_db w'))"

lemma held_later: "held_ok w x \<Longrightarrow> later w w' \<Longrightarrow> held_ok w' x"
  by (fastforce simp: held_ok_def later_def)

lemma accounted_grows:
  assumes "accounted w" "grows acked (w_mq w) (w_mq w')" "\<forall>vs. recorded vs (w_db w) \<longrightarrow> recorded vs (w_db w')"
    and "\<forall>e \<in> set (b_entries (w_mq w)). xID e \<in> acked \<longrightarrow> recorded (xValues e) (w_db w)"
    and "acked \<subseteq> xID ` set (b_entries (w_mq w))"
  shows "accounted w'" "later w w'"
proof -
  have ok: "broker_ok (w_mq w)" using assms(1) by (simp add: accounted_def)
  note g = assms(2) [unfolded grows_def, THEN mp, OF ok]
  obtain es where es: "b_entries (w_mq w') = b_entries (w_mq w) @ es" using g by blast
  show "later w w'" using es assms(3) by (auto simp: later_def)
  have old: "set (b_entries (w_mq w)) \<subseteq> set (b_entries (w_mq w'))" using es by auto
  have inj: "inj_on xID (set (b_entries (w_mq w')))" using g by (simp add: entries_inj)
  have acked: "recorded (xValues e) (w_db w')" if e: "e \<in> set (b_entries (w_mq w'))" "xID e \<in> acked" for e
  proof -
    obtain e' where e': "e' \<in> set (b_entries (w_mq w))" "xID e' = xID e" using e(2) assms(5) by auto
    then have "e' = e" using inj_onD [OF inj] e(1) old by blast
    then show ?thesis using e' e(2) assms(3,4) by auto
  qed
  show "accounted w'"
    unfolding accounted_def
  proof (intro conjI ballI impI)
    show "broker_ok (w_mq w')" using g by blast
    fix e assume e: "e \<in> set (b_entries (w_mq w'))" "xID e \<le> b_last (w_mq w')"
    show "xID e \<in> pending_ids (w_mq w') \<union> dead_ids (w_mq w') \<or> recorded (xValues e) (w_db w') \<or> xID e \<le> b_trimmed (w_mq w')"
    proof (cases "b_last (w_mq w) < xID e \<or> xID e \<in> pending_ids (w_mq w)")
      case True
      then show ?thesis using g e acked [OF e(1)] by blast
    next
      case False
      have "1 \<le> xID e" using ids_range [of "w_mq w'" e] g e(1) by simp
      moreover have "xID e \<le> length (b_entries (w_mq w))" using False ok by (simp add: broker_ok_def)
      ultimately have "xID e \<in> set (map xID (b_entries (w_mq w)))" using ok unfolding broker_ok_def by (metis atLeastLessThan_iff le_imp_less_Suc set_upt)
      then obtain e' where "e' \<in> set (b_entries (w_mq w))" "xID e' = xID e" by auto
      then have "e \<in> set (b_entries (w_mq w))" using inj_onD [OF inj] e(1) old by blast
      then have "xID e \<in> dead_ids (w_mq w) \<or> recorded (xValues e) (w_db w) \<or> xID e \<le> b_trimmed (w_mq w)"
        using False assms(1) unfolding accounted_def by auto
      moreover have "dead_ids (w_mq w) \<subseteq> dead_ids (w_mq w')" "b_trimmed (w_mq w) \<le> b_trimmed (w_mq w')" using g by simp_all
      ultimately show ?thesis using assms(3) by auto
    qed
  qed
qed

lemma quiet_step:
  assumes "accounted w" "mq_rel (grows {}) m" "run_state m w = (r, w')"
  shows "accounted w'" "later w w'"
  using accounted_grows [OF assms(1), of "{}" w'] mq_relD [OF assms(2,3)] by simp_all

lemma world_step:
  assumes "accounted w" "w_mq w' = w_mq w" "\<forall>vs. recorded vs (w_db w) \<longrightarrow> recorded vs (w_db w')"
  shows "accounted w'" "later w w'"
  using accounted_grows [OF assms(1), of "{}" w'] assms(2,3) by (simp_all add: grows_refl)

lemma invariant_replace:
  assumes "invariant (w, xs @ x # ys)" "accounted w'" "later w w'" "held_ok w' x'"
  shows "invariant (w', xs @ x' # ys)"
  using assms held_later by (auto simp: invariant_def)

lemma invariant_keep: "invariant (w, xs) \<Longrightarrow> accounted w' \<Longrightarrow> later w w' \<Longrightarrow> invariant (w', xs)"
  using held_later by (auto simp: invariant_def)

lemma invariant_accounted: "invariant (w, xs) \<Longrightarrow> accounted w"
  by (simp add: invariant_def)

lemma invariant_held: "invariant (w, xs @ x # ys) \<Longrightarrow> held_ok w x"
  by (simp add: invariant_def)

lemma settled:
  assumes "accounted w" "held_ok w x" "(p, Some r) \<in> set (in_tasks x)" "scDeadLetterStream c \<noteq> []"
    and "run_state (settle enc c True (pmMessage p) r) w = (u, w')"
  shows "accounted w'" "later w w'"
proof -
  let ?A = "if r = HandleSuccess then {xID (pmMessage p)} else {}"
  have p: "pmMessage p \<in> set (b_entries (w_mq w))" "r = HandleSuccess \<Longrightarrow> recorded (xValues (pmMessage p)) (w_db w)"
    using assms(2,3) by (auto simp: held_ok_def)
  have "inj_on xID (set (b_entries (w_mq w)))" using assms(1) by (simp add: accounted_def entries_inj)
  then have "\<forall>e \<in> set (b_entries (w_mq w)). xID e \<in> ?A \<longrightarrow> recorded (xValues e) (w_db w)"
    using p by (auto dest: inj_onD)
  then show "accounted w'" "later w w'"
    using accounted_grows [OF assms(1), of ?A w'] mq_relD [OF settle_grows [OF assms(4)] assms(5)] p(1) by auto
qed

lemma invariant_step:
  assumes "step enc c others s s'" "scHandle c = handler" "scDeadLetterStream c \<noteq> []" "invariant s"
  shows "invariant s'"
  using assms(1,4)
proof (induction rule: step.induct)
  case (publish evict maxLen vs w r w' xs)
  then show ?case using quiet_step [OF _ publish_grows publish.hyps] by (blast intro: invariant_keep invariant_accounted)
next
  case (serve w w' xs)
  have same: "w_mq w' = w_mq w" "\<forall>vs. recorded vs (w_db w) \<longrightarrow> recorded vs (w_db w')" using others [OF serve.hyps] by simp_all
  show ?case by (rule invariant_keep [OF serve.prems world_step [OF invariant_accounted [OF serve.prems] same]])
next
  case (pass w t xs e)
  then show ?case by (simp add: invariant_def accounted_def held_ok_def)
next
  case (join w w' xs n)
  then show ?case using quiet_step [OF _ join_grows join.hyps] invariant_keep [OF join.prems, of w'] invariant_accounted
    by (auto simp: invariant_def new_instance_def held_ok_def)
next
  case (crash w xs x ys)
  then show ?case by (auto simp: invariant_def)
next
  case (scan x w r w' xs ys)
  note w' = quiet_step [OF invariant_accounted [OF scan.prems] scan_grows scan.hyps]
  show ?case using held_later [OF invariant_held [OF scan.prems] w'(2)]
    by (intro invariant_replace [OF scan.prems w']) (simp add: held_ok_def)
next
  case (claim x w r w' xs ys)
  note w' = quiet_step [OF invariant_accounted [OF claim.prems] claim_grows claim.hyps]
  define ms where "ms = (case r of Inl _ \<Rightarrow> [] | Inr l \<Rightarrow> l)"
  have "\<forall>m \<in> set ms. pmMessage m \<in> set (b_entries (w_mq w'))"
    using claim.hyps claimed_entries w'(2) by (fastforce simp: later_def ms_def split: sum.splits)
  then show ?case using held_later [OF invariant_held [OF claim.prems] w'(2)]
    unfolding ms_def [symmetric] by (intro invariant_replace [OF claim.prems w']) (auto simp: held_ok_def)
next
  case (give_up p x w r w' xs ys)
  have g: "mq_rel (grows {}) (drop_message enc (named c x) p)"
    using assms(3) dead_grows by (simp add: drop_message_def)
  note w' = quiet_step [OF invariant_accounted [OF give_up.prems] g give_up.hyps(3)]
  show ?case using held_later [OF invariant_held [OF give_up.prems] w'(2)]
    by (intro invariant_replace [OF give_up.prems w']) (auto simp: held_ok_def split: sum.splits dest: notin_set_remove1 set_remove1_subset [THEN subsetD])
next
  case (read x w r w' xs ys)
  note w' = quiet_step [OF invariant_accounted [OF read.prems] read_grows read.hyps]
  define ms where "ms = (case r of Inl _ \<Rightarrow> [] | Inr l \<Rightarrow> l)"
  have "\<forall>m \<in> set ms. pmMessage m \<in> set (b_entries (w_mq w'))"
    using read.hyps read_entries w'(2) by (fastforce simp: later_def ms_def split: sum.splits)
  then show ?case using held_later [OF invariant_held [OF read.prems] w'(2)]
    unfolding ms_def [symmetric] by (intro invariant_replace [OF read.prems w']) (auto simp: held_ok_def)
next
  case (lease p x w r w' xs ys)
  note w' = quiet_step [OF invariant_accounted [OF lease.prems] lease_grows lease.hyps(3)]
  show ?case using held_later [OF invariant_held [OF lease.prems] w'(2)] lease.hyps(1)
    by (intro invariant_replace [OF lease.prems w']) (auto simp: held_ok_def dest: set_remove1_subset [THEN subsetD])
next
  case (handle x us p vs w r w' xs ys)
  note run = handle.hyps(2) [unfolded assms(2)]
  note w' = world_step [OF invariant_accounted [OF handle.prems] apart [OF run]]
  have w'': "accounted w'" "later w w'" using w' lasting [OF run] by blast+
  show ?case using held_later [OF invariant_held [OF handle.prems] w''(2)] handle.hyps(1) success run
    by (intro invariant_replace [OF handle.prems w'']) (auto simp: held_ok_def)
next
  case (finish x us p r vs w u w' xs ys)
  have "(p, Some r) \<in> set (in_tasks x)" "scDeadLetterStream (named c x) \<noteq> []" using finish.hyps(1) assms(3) by simp_all
  note w' = settled [OF invariant_accounted [OF finish.prems] invariant_held [OF finish.prems] this finish.hyps(2)]
  show ?case using held_later [OF invariant_held [OF finish.prems] w'(2)] finish.hyps(1)
    by (intro invariant_replace [OF finish.prems w']) (auto simp: held_ok_def)
next
  case (heartbeat x us p r vs w o' w' xs ys)
  note w' = quiet_step [OF invariant_accounted [OF heartbeat.prems] refresh_grows heartbeat.hyps(2)]
  show ?case using held_later [OF invariant_held [OF heartbeat.prems] w'(2)] heartbeat.hyps(1)
    by (intro invariant_replace [OF heartbeat.prems w']) (auto simp: held_ok_def)
qed

lemma reachable_invariant:
  assumes "reachable enc c others w0 s" "scHandle c = handler" "scDeadLetterStream c \<noteq> []" "accounted w0"
  shows "invariant s"
  using assms(1)
proof induction
  case start
  then show ?case using assms(4) by (simp add: invariant_def)
next
  case (more s s')
  then show ?case using invariant_step assms(2,3) by blast
qed

end

section \<open>Effects of handlers on the tables\<close>

text \<open>The stream is only extended, whatever the configuration.\<close>

definition extends :: "broker \<Rightarrow> broker \<Rightarrow> bool" where
  "extends b b' \<longleftrightarrow> set (b_entries b) \<subseteq> set (b_entries b')"

lemma extends_refl: "extends b b"
  by (simp add: extends_def)

lemma extends_cmds:
  "extends b (snd (XADD evict maxLen values t b))" "extends b (snd (XGROUP_CREATE t b))" "extends b (snd (XREADGROUP name n t b))"
  "extends b (snd (XPENDING_EXT n idle t b))" "extends b (snd (XCLAIM name idle ids t b))" "extends b (snd (XACK i t b))"
  "extends b (snd (refresh_script owner i t b))" "extends b (snd (ack_owned_script owner i t b))"
  "extends b (snd (dead_letter_script owner i letter t b))"
  by (auto simp: extends_def XADD_def XGROUP_CREATE_def XREADGROUP_def XPENDING_EXT_def XCLAIM_def XACK_def refresh_script_def
      ack_owned_script_def dead_letter_script_def add_marker_def Let_def)

lemma extends_ops:
  "mq_rel extends (PublishCapped evict maxLen values)" "mq_rel extends EnsureConsumerGroup" "mq_rel extends (pending_scan n idle active)"
  "mq_rel extends (pending_claim name idle ps)" "mq_rel extends (read_fresh c)" "mq_rel extends (RefreshOwnedPending owner i)"
  "mq_rel extends (startLease c active i)" "mq_rel extends (drop_message enc c q)" "mq_rel extends (settle enc c leased m r)"
proof -
  have "mq_rel extends (mq_cmd (XADD evict maxLen values))" by (intro mq_rel_cmd extends_refl extends_cmds)
  then show "mq_rel extends (PublishCapped evict maxLen values)" unfolding mq_rel_def PublishCapped_def by (auto simp: extends_refl)
qed (unfold EnsureConsumerGroup_def pending_scan_def pending_claim_def read_fresh_def ConsumeWithBlock_def RefreshOwnedPending_def
    startLease_def drop_message_def settle_def deadLetterAndAck_def DeadLetterAndAckOwned_def AckOwned_def Ack_def,
  auto intro!: mq_rel_intros extends_refl extends_cmds)

text \<open>
  An invariant of the tables that may speak about the messages of the stream: the handler keeps it for a message that
  is among them, and so do the other services.
\<close>

locale table_handler =
  fixes handler :: "nat \<Rightarrow> (string \<times> string) list \<Rightarrow> HandleResult io"
    and sound :: "XMessage set \<Rightarrow> database \<Rightarrow> bool"
    and others :: "world \<Rightarrow> world \<Rightarrow> bool"
  assumes handled: "m \<in> E \<Longrightarrow> sound E (w_db w) \<Longrightarrow> run_state (handler (xID m) (xValues m)) w = (r, w') \<Longrightarrow> sound E (w_db w')"
    and more_messages: "sound E d \<Longrightarrow> E \<subseteq> E' \<Longrightarrow> sound E' d"
    and apart: "run_state (handler i vs) w = (r, w') \<Longrightarrow> w_mq w' = w_mq w"
    and others: "others w w' \<Longrightarrow> w_mq w' = w_mq w \<and> (sound E (w_db w) \<longrightarrow> sound E (w_db w'))"
begin

definition held :: "broker \<Rightarrow> instance_state \<Rightarrow> bool" where
  "held b x \<longleftrightarrow> pmMessage ` set (in_claimed x) \<union> (pmMessage \<circ> fst) ` set (in_tasks x) \<subseteq> set (b_entries b)"

definition tables_ok :: "world \<times> instance_state list \<Rightarrow> bool" where
  "tables_ok s \<longleftrightarrow> sound (set (b_entries (w_mq (fst s)))) (w_db (fst s)) \<and> (\<forall>x \<in> set (snd s). held (w_mq (fst s)) x)"

lemma held_extends: "held b x \<Longrightarrow> extends b b' \<Longrightarrow> held b' x"
  by (auto simp: held_def extends_def)

lemma tables_command:
  assumes "tables_ok (w, xs)" "mq_rel extends m" "run_state m w = (r, w')"
  shows "tables_ok (w', xs)"
  using assms(1) mq_relD [OF assms(2,3)] more_messages held_extends by (auto simp: tables_ok_def extends_def)

lemma tables_replace:
  assumes "tables_ok (w', xs @ x # ys)" "held (w_mq w') x \<Longrightarrow> held (w_mq w') x'"
  shows "tables_ok (w', xs @ x' # ys)"
  using assms by (auto simp: tables_ok_def)

lemma tables_step:
  assumes "step enc c others s s'" "scHandle c = handler" "tables_ok s"
  shows "tables_ok s'"
  using assms(1,3)
proof (induction rule: step.induct)
  case (publish evict maxLen vs w r w' xs)
  show ?case by (rule tables_command [OF publish.prems extends_ops(1) publish.hyps])
next
  case (serve w w' xs)
  then show ?case using others by (auto simp: tables_ok_def)
next
  case (pass w t xs e)
  then show ?case by (simp add: tables_ok_def)
next
  case (join w w' xs n)
  show ?case using tables_command [OF join.prems extends_ops(2) join.hyps] by (simp add: tables_ok_def held_def new_instance_def)
next
  case (crash w xs x ys)
  then show ?case by (simp add: tables_ok_def)
next
  case (scan x w r w' xs ys)
  then show ?case by (intro tables_replace [OF tables_command [OF scan.prems extends_ops(3) scan.hyps]]) (simp add: held_def)
next
  case (claim x w r w' xs ys)
  note ok = tables_command [OF claim.prems extends_ops(4) claim.hyps]
  have "\<forall>m \<in> set (case r of Inl _ \<Rightarrow> [] | Inr l \<Rightarrow> l). pmMessage m \<in> set (b_entries (w_mq w'))"
    using claim.hyps claimed_entries mq_relD [OF extends_ops(4) claim.hyps] by (fastforce simp: extends_def split: sum.splits)
  then show ?case by (intro tables_replace [OF ok]) (auto simp: held_def)
next
  case (give_up p x w r w' xs ys)
  note ok = tables_command [OF give_up.prems extends_ops(8) give_up.hyps(3)]
  show ?case using set_remove1_subset [of p "in_claimed x"] by (intro tables_replace [OF ok]) (auto simp: held_def image_subset_iff split: sum.splits)
next
  case (read x w r w' xs ys)
  note ok = tables_command [OF read.prems extends_ops(5) read.hyps]
  have "\<forall>m \<in> set (case r of Inl _ \<Rightarrow> [] | Inr l \<Rightarrow> l). pmMessage m \<in> set (b_entries (w_mq w'))"
    using read.hyps read_entries mq_relD [OF extends_ops(5) read.hyps] by (fastforce simp: extends_def split: sum.splits)
  then show ?case by (intro tables_replace [OF ok]) (auto simp: held_def)
next
  case (lease p x w r w' xs ys)
  note ok = tables_command [OF lease.prems extends_ops(7) lease.hyps(3)]
  show ?case using lease.hyps(1) set_remove1_subset [of p "in_claimed x"] by (intro tables_replace [OF ok]) (auto simp: held_def image_subset_iff)
next
  case (handle x us p vs w r w' xs ys)
  note run = handle.hyps(2) [unfolded assms(2)]
  have "pmMessage p \<in> set (b_entries (w_mq w))" using handle by (auto simp: tables_ok_def held_def)
  then have "tables_ok (w', xs @ x # ys)" using handle.prems handled [OF _ _ run] apart [OF run] by (auto simp: tables_ok_def)
  then show ?case by (rule tables_replace) (use handle.hyps(1) in \<open>auto simp: held_def\<close>)
next
  case (finish x us p r vs w u w' xs ys)
  note ok = tables_command [OF finish.prems extends_ops(9) finish.hyps(2)]
  show ?case using finish.hyps(1) by (intro tables_replace [OF ok]) (auto simp: held_def)
next
  case (heartbeat x us p r vs w o' w' xs ys)
  note ok = tables_command [OF heartbeat.prems extends_ops(6) heartbeat.hyps(2)]
  show ?case using heartbeat.hyps(1) by (intro tables_replace [OF ok]) (auto simp: held_def)
qed

lemma reachable_tables:
  assumes "reachable enc c others w0 s" "scHandle c = handler" "sound (set (b_entries (w_mq w0))) (w_db w0)"
  shows "tables_ok s"
  using assms(1)
proof induction
  case start
  then show ?case using assms(3) by (simp add: tables_ok_def)
next
  case (more s s')
  then show ?case using tables_step assms(2) by blast
qed

end

section \<open>A first delivery\<close>

text \<open>A message is published on an empty stream; one instance starts, reads it and takes its lease.\<close>

definition fresh_broker :: broker where
  "fresh_broker = \<lparr>b_entries = [], b_trimmed = 0, b_group = False, b_last = 0, b_pel = [], b_dead = [], b_seen = [], b_seen_until = 0\<rparr>"

definition first_broker :: "(string \<times> string) list \<Rightarrow> XPendingExt list \<Rightarrow> broker" where
  "first_broker vs ps = fresh_broker\<lparr>b_entries := [\<lparr>xID = 1, xValues = vs\<rparr>], b_group := True, b_last := 1, b_pel := ps\<rparr>"

definition first_message :: "(string \<times> string) list \<Rightarrow> PendingMessage" where
  "first_message vs = \<lparr>pmMessage = \<lparr>xID = 1, xValues = vs\<rparr>, pmRetryCount = 0, pmConsumer = []\<rparr>"

lemma first_delivery:
  assumes w: "quiet w" "w_mq w = fresh_broker" and c: "0 < scMaxRetries c"
  shows "reachable enc c others w (w\<lparr>w_mq := first_broker vs [\<lparr>xpID = 1, xpConsumer = n, xpDelivered = w_now w, xpRetryCount = 1\<rparr>]\<rparr>,
    [(new_instance n)\<lparr>in_tasks := [(first_message vs, None)]\<rparr>])"
proof -
  let ?x = "new_instance n" and ?pm = "first_message vs" and ?e = "\<lparr>xID = 1, xValues = vs\<rparr>"
  let ?b1 = "fresh_broker\<lparr>b_entries := [?e]\<rparr>" and ?w = "\<lambda>b. w\<lparr>w_mq := b\<rparr>"
  let ?b2 = "?b1\<lparr>b_group := True\<rparr>" and ?b3 = "first_broker vs [\<lparr>xpID = 1, xpConsumer = n, xpDelivered = w_now w, xpRetryCount = 1\<rparr>]"
  note R = reachable.more [of enc c others w]
  have nil: "\<not> w_rdb_nil w" using w(1) by (simp add: quiet_def)
  have "run_state (PublishCapped 0 0 vs) w = (Inr 1, ?w ?b1)"
    using quiet_mq [OF w(1), of "XADD 0 0 vs"] nil by (simp add: PublishCapped_def XADD_def w(2) fresh_broker_def Let_def)
  then have r1: "reachable enc c others w (?w ?b1, [])" by (rule R [OF reachable.start step.publish])
  have "run_state EnsureConsumerGroup (?w ?b1) = (Inr (), ?w ?b2)"
    using quiet_mq [of "?w ?b1" XGROUP_CREATE] w(1) by (simp add: EnsureConsumerGroup_def XGROUP_CREATE_def fresh_broker_def)
  then have r2: "reachable enc c others w (?w ?b2, [] @ [?x])" by (rule R [OF r1 step.join])
  have same: "batch_of (named c ?x) = batch_of c" and pos: "0 < batch_of c" by (simp_all add: batch_of_def)
  then obtain k where k: "nat (batch_of c) = Suc k" by (cases "nat (batch_of c)") auto
  have fresh: "run_state (read_fresh (named c ?x)) (?w ?b2) = (Inr [?pm], ?w ?b3)"
    using quiet_mq [of "?w ?b2" "XREADGROUP n (batch_of c)"] w(1) k pos same
    by (simp add: read_fresh_def ConsumeWithBlock_def and_then_def XREADGROUP_def Let_def fresh_entry_def
        new_instance_def first_broker_def fresh_broker_def delivered_to_def first_message_def)
  have r3: "reachable enc c others w (?w ?b3, [] @ ?x\<lparr>in_claimed := [?pm]\<rparr> # [])"
    using R [OF _ step.read [OF fresh, where xs = "[]" and ys = "[]"]] r2 by (simp add: new_instance_def)
  have "run_state (startLease (named c ?x) [] 1) (?w ?b3) = (Inr True, ?w ?b3)"
    using quiet_mq [of "?w ?b3" "refresh_script n 1"] w(1)
    by (simp add: startLease_def RefreshOwnedPending_def refresh_script_def owner_of_def first_broker_def fresh_broker_def new_instance_def)
  then show ?thesis
    using R [OF r3 step.lease [where r = "Inr True" and p = ?pm and x = "?x\<lparr>in_claimed := [?pm]\<rparr>" and xs = "[]" and ys = "[]"]] c
    by (simp add: new_instance_def active_ids_def first_message_def exhausted_def)
qed

lemma first_handled:
  assumes "quiet w" "w_mq w = fresh_broker" "0 < scMaxRetries c"
    and "run_state (scHandle c 1 vs) (w\<lparr>w_mq := first_broker vs [\<lparr>xpID = 1, xpConsumer = n, xpDelivered = w_now w, xpRetryCount = 1\<rparr>]\<rparr>) = (r, w')"
  shows "reachable enc c others w (w', [(new_instance n)\<lparr>in_tasks := [(first_message vs, Some r)]\<rparr>])"
  using reachable.more [OF first_delivery [OF assms(1-3)] step.handle [where us = "[]" and vs = "[]" and p = "first_message vs" and r = r
    and x = "(new_instance n)\<lparr>in_tasks := [(first_message vs, None)]\<rparr>" and xs = "[]" and ys = "[]", of c _ w', simplified]] assms(4)
  by (simp add: first_message_def)

end
