(* ===== verification/Pages.thy ===== *)
theory Pages
  imports Runs "HOL-Library.Multiset"
begin

text \<open>
  Keyset pagination. The listing queries return the first rows after a cursor in a total order; a
  client walks the pages with the cursor of the last row it saw. The locale \<open>keyset\<close> is
  the contract of such a query, and inside it the walk is shown to deliver every matching row
  exactly once, in order. The queries over conversations, which sort and cut each side of
  a conversation separately, are shown to return the page of the plain query.
\<close>

section \<open>Sorted lists and prefixes\<close>

lemma take_insort:
  "n \<le> length xs \<Longrightarrow> (\<And>y. y \<in> set (take n xs) \<Longrightarrow> f y < f x) \<Longrightarrow> take n (insort_key f x xs) = take n xs"
proof (induction xs arbitrary: n)
  case (Cons y ys)
  show ?case
  proof (cases n)
    case (Suc m)
    then have "\<not> f x \<le> f y" using Cons.prems(2) [of y] by simp
    moreover have "take m (insort_key f x ys) = take m ys" using Cons.prems Suc by (intro Cons.IH) auto
    ultimately show ?thesis using Suc by simp
  qed simp
qed simp

lemma sorted_prefix_below:
  assumes "sorted (map f xs)" "n \<le> length (filter (\<lambda>y. f y < k) xs)" "y \<in> set (take n xs)"
  shows "f y < k"
  using assms
proof (induction xs arbitrary: n)
  case (Cons x xs)
  show ?case
  proof (cases "f x < k")
    case True
    then show ?thesis using Cons by (cases n) auto
  next
    case False
    then have "filter (\<lambda>y. f y < k) (x # xs) = []" using Cons.prems(1) by (auto simp: filter_empty_conv)
    then show ?thesis using Cons.prems(2,3) by simp
  qed
qed simp

lemma length_filter_sort: "length (filter P (sort_key f xs)) = length (filter P xs)"
  by (simp add: filter_sort)

lemma take_sort_drop:
  assumes "\<And>r. r \<in> set rs \<Longrightarrow> n \<le> length (filter (\<lambda>y. f y < f r) zs)"
  shows "take n (sort_key f (rs @ zs)) = take n (sort_key f zs)"
  using assms
proof (induction rs)
  case (Cons r rs)
  let ?L = "sort_key f (rs @ zs)"
  have "n \<le> length (filter (\<lambda>y. f y < f r) (rs @ zs))" using Cons.prems [of r] by simp
  then have below: "n \<le> length (filter (\<lambda>y. f y < f r) ?L)" by (simp only: length_filter_sort)
  have "take n (insort_key f r ?L) = take n ?L"
  proof (rule take_insort)
    show "n \<le> length ?L" using below length_filter_le [of "\<lambda>y. f y < f r" ?L] by simp
    show "f y < f r" if "y \<in> set (take n ?L)" for y using sorted_prefix_below [OF _ below that] by simp
  qed
  then show ?case using Cons by simp
qed simp

lemma sort_key_perm:
  assumes "distinct (map f xs)" "mset ys = mset xs"
  shows "sort_key f ys = sort_key f xs"
proof (rule properties_for_sort_key)
  show "mset (sort_key f xs) = mset ys" using assms(2) by simp
  have "inj_on f (set xs)" using assms(1) by (simp add: distinct_map)
  moreover have "distinct xs" using assms(1) by (simp add: distinct_map)
  ultimately show "filter (\<lambda>x. f k = f x) (sort_key f xs) = filter (\<lambda>x. f k = f x) ys" if "k \<in> set (sort_key f xs)" for k
  proof -
    have k: "k \<in> set xs" using that by simp
    have "filter (\<lambda>x. f k = f x) zs = filter (\<lambda>x. x = k) zs" if "set zs = set xs" for zs
      using k that \<open>inj_on f (set xs)\<close> by (intro filter_cong) (auto simp: inj_on_def)
    moreover have "filter (\<lambda>x. x = k) zs = [k]" if "mset zs = mset xs" for zs
    proof -
      have "distinct zs" "k \<in> set zs" using \<open>distinct xs\<close> k that by (metis mset_eq_imp_distinct_iff, metis mset_eq_setD)
      then show ?thesis by (induction zs) (auto simp: filter_empty_conv)
    qed
    ultimately show ?thesis using assms(2) by (metis mset_eq_setD mset_sort)
  qed
qed simp

text \<open>Cutting a part before the merge does not change the first rows.\<close>

lemma take_sort_take:
  assumes "distinct (map f (xs @ ys))"
  shows "take n (sort_key f (take n (sort_key f xs) @ ys)) = take n (sort_key f (xs @ ys))"
proof -
  let ?S = "sort_key f xs"
  have "n \<le> length (filter (\<lambda>y. f y < f r) (take n ?S @ ys))" if r: "r \<in> set (drop n ?S)" for r
  proof -
    have len: "n \<le> length ?S" using r by (metis drop_all empty_iff linorder_le_cases list.set(1))
    have st: "sorted (map f (take n ?S @ drop n ?S))" "distinct (map f (take n ?S @ drop n ?S))"
      unfolding append_take_drop_id using assms by (simp_all add: distinct_map)
    have "f y < f r" if "y \<in> set (take n ?S)" for y
    proof -
      have "f y \<le> f r" using st(1) that r by (auto simp: sorted_append simp del: append_take_drop_id)
      moreover have "f y \<noteq> f r" using st(2) that r by (auto simp del: append_take_drop_id)
      ultimately show ?thesis by simp
    qed
    then have "filter (\<lambda>y. f y < f r) (take n ?S) = take n ?S" by (simp add: filter_id_conv)
    then show ?thesis using len by simp
  qed
  then have "take n (sort_key f (drop n ?S @ (take n ?S @ ys))) = take n (sort_key f (take n ?S @ ys))"
    by (rule take_sort_drop)
  moreover have "sort_key f (drop n ?S @ (take n ?S @ ys)) = sort_key f (xs @ ys)"
  proof (rule sort_key_perm [OF assms])
    have "mset (take n ?S) + mset (drop n ?S) = mset xs"
      by (metis append_take_drop_id mset_append mset_sort)
    then show "mset (drop n ?S @ (take n ?S @ ys)) = mset (xs @ ys)" by (simp add: ac_simps)
  qed
  ultimately show ?thesis by simp
qed

lemma distinct_take_sort:
  assumes "distinct (map f (xs @ ys))"
  shows "distinct (map f (take n (sort_key f xs) @ ys))"
proof -
  have "distinct (map f ((take n (sort_key f xs) @ drop n (sort_key f xs)) @ ys))"
    unfolding append_take_drop_id using assms by (simp add: distinct_map)
  then show ?thesis unfolding map_append distinct_append set_append by blast
qed

lemma distinct_swap: "distinct (map f (xs @ ys)) \<Longrightarrow> distinct (map f (ys @ xs))"
  by auto

section \<open>Walking the pages\<close>

text \<open>A client that asks for page after page, each with the cursor of the last row before it.\<close>

fun walk_pages :: "nat \<Rightarrow> ('c \<Rightarrow> 'a list res io) \<Rightarrow> ('a \<Rightarrow> 'c) \<Rightarrow> 'c \<Rightarrow> 'a list res io" where
  "walk_pages 0 fetch cur c = ret (Inr [])"
| "walk_pages (Suc k) fetch cur c =
     and_then (fetch c) (\<lambda>page.
       if page = [] then ret (Inr [])
       else and_then (walk_pages k fetch cur (cur (last page))) (\<lambda>rest. ret (Inr (page @ rest))))"

lemma sorted_after:
  assumes "sorted (map f xs)" "distinct (map f xs)" "i < length xs"
  shows "filter (\<lambda>y. f (xs ! i) < f y) xs = drop (Suc i) xs"
proof -
  have "xs = take (Suc i) xs @ drop (Suc i) xs" by simp
  moreover have "filter (\<lambda>y. f (xs ! i) < f y) (take (Suc i) xs) = []"
    using assms(1,3) by (auto simp: filter_empty_conv in_set_conv_nth not_less sorted_iff_nth_mono)
  moreover have "filter (\<lambda>y. f (xs ! i) < f y) (drop (Suc i) xs) = drop (Suc i) xs"
  proof -
    have "f (xs ! i) < f y" if y: "y \<in> set (drop (Suc i) xs)" for y
    proof -
      obtain j where j: "j < length xs - Suc i" "y = xs ! (Suc i + j)" using y by (auto simp: in_set_conv_nth)
      then have "f (xs ! i) \<le> f y" using assms(1,3) sorted_iff_nth_mono [of "map f xs"] by simp
      moreover have "f (xs ! i) \<noteq> f y" using assms(2) j nth_eq_iff_index_eq [of "map f xs" i "Suc i + j"] by auto
      ultimately show ?thesis by simp
    qed
    then show ?thesis by (simp add: filter_id_conv)
  qed
  ultimately show ?thesis by (metis append_Nil filter_append)
qed

text \<open>
  The contract of a listing query: the rows it is about, their order, the first page, and the
  page after a row.
\<close>

locale keyset =
  fixes rows :: "world \<Rightarrow> 'a list" and key :: "'a \<Rightarrow> 'k :: linorder" and sane :: "world \<Rightarrow> bool"
    and ok :: "'a \<Rightarrow> bool" and fetch :: "nat \<Rightarrow> 'c \<Rightarrow> 'a list res io" and cur :: "'a \<Rightarrow> 'c" and start :: 'c
    and allowed :: "nat \<Rightarrow> bool"
  assumes total: "sane w \<Longrightarrow> distinct (map key (rows w))"
    and first_page: "quiet w \<Longrightarrow> sane w \<Longrightarrow> allowed n \<Longrightarrow>
      run_state (fetch n start) w = (Inr (take n (sort_key key (rows w))), w)"
    and next_page: "quiet w \<Longrightarrow> sane w \<Longrightarrow> allowed n \<Longrightarrow> x \<in> set (rows w) \<Longrightarrow> ok x \<Longrightarrow>
      run_state (fetch n (cur x)) w =
        (Inr (take n (sort_key key (filter (\<lambda>y. key x < key y) (rows w)))), w)"
begin

lemma page_after:
  assumes "quiet w" "sane w" "\<forall>x \<in> set (rows w). ok x" "allowed n"
    and S: "S = sort_key key (rows w)" and "i < length S"
  shows "run_state (fetch n (cur (S ! i))) w = (Inr (take n (drop (Suc i) S)), w)"
proof -
  have in_rows: "S ! i \<in> set (rows w)" using assms(5,6) nth_mem [of i S] by simp
  have "sort_key key (filter (\<lambda>y. key (S ! i) < key y) (rows w)) = filter (\<lambda>y. key (S ! i) < key y) S"
    by (simp only: S filter_sort)
  also have "\<dots> = drop (Suc i) S"
  proof (rule sorted_after)
    show "sorted (map key S)" "i < length S" using assms by simp_all
    show "distinct (map key S)" using total [OF assms(2)] by (simp add: S distinct_map)
  qed
  finally show ?thesis using next_page [OF assms(1,2,4) in_rows] assms(3) in_rows by simp
qed

lemma walk_from:
  assumes "quiet w" "sane w" "\<forall>x \<in> set (rows w). ok x" "allowed n" "0 < n"
    and S: "S = sort_key key (rows w)"
    and "run_state (fetch n c) w = (Inr (take n (drop i S)), w)" and "length S - i < k"
  shows "run_state (walk_pages k (fetch n) cur c) w = (Inr (drop i S), w)"
  using assms(7,8)
proof (induction k arbitrary: c i)
  case (Suc k)
  let ?p = "take n (drop i S)"
  show ?case
  proof (cases "drop i S = []")
    case True
    then show ?thesis using Suc.prems(1) by (simp add: and_then_def)
  next
    case False
    let ?j = "i + length ?p"
    have pos: "0 < length ?p" and j: "i < ?j" "?j \<le> length S" using False assms(5) by (auto simp: min_def)
    have "last ?p = ?p ! (length ?p - 1)" using pos by (intro last_conv_nth) auto
    also have "\<dots> = S ! (?j - 1)" using pos j by simp
    finally have last: "last ?p = S ! (?j - 1)" .
    have "run_state (fetch n (cur (S ! (?j - 1)))) w = (Inr (take n (drop (Suc (?j - 1)) S)), w)"
      by (rule page_after [OF assms(1-4) S]) (use j in linarith)
    then have "run_state (fetch n (cur (last ?p))) w = (Inr (take n (drop ?j S)), w)" using last j by simp
    then have "run_state (walk_pages k (fetch n) cur (cur (last ?p))) w = (Inr (drop ?j S), w)"
      using Suc.prems(2) j by (intro Suc.IH) auto
    moreover have "?p @ drop ?j S = drop i S"
      by (metis add.commute append_take_drop_id drop_drop length_take take_all_iff nat_le_linear min_def drop_all append_Nil2)
    moreover have "?p \<noteq> []" using pos by auto
    ultimately show ?thesis using Suc.prems(1) by (simp add: and_then_def)
  qed
qed simp

text \<open>The walk delivers every row once, in order.\<close>

lemma walk_complete:
  assumes "quiet w" "sane w" "\<forall>x \<in> set (rows w). ok x" "allowed n" "0 < n" "length (rows w) < k"
  shows "run_state (walk_pages k (fetch n) cur start) w = (Inr (sort_key key (rows w)), w)"
  using walk_from [OF assms(1-5) refl, where c = start and i = 0 and k = k] first_page [OF assms(1,2,4)] assms(6) by simp

end

section \<open>The queries\<close>

lemma distinct_neg: "distinct (map (\<lambda>x. - f x :: int) xs) \<longleftrightarrow> distinct (map f xs)"
  by (induction xs) auto

subsection \<open>Messages of a conversation\<close>

definition history_rows :: "int \<Rightarrow> database \<Rightarrow> PrivateMessage list" where
  "history_rows convID d = filter (\<lambda>m. mConvID m = convID) (private_messages d)"

interpretation history: keyset "\<lambda>w. history_rows convID (w_db w)" "\<lambda>m. - mMsgID m"
  "\<lambda>w. distinct (map mMsgID (private_messages (w_db w)))"
  "\<lambda>m. 0 < mMsgID m" "\<lambda>n c. GetConvMessages convID c (int n)" mMsgID 0 "\<lambda>_. True" for convID
proof unfold_locales
  fix w :: world assume "distinct (map mMsgID (private_messages (w_db w)))"
  then show "distinct (map (\<lambda>m. - mMsgID m) (history_rows convID (w_db w)))"
    by (simp add: distinct_neg history_rows_def distinct_map_filter)
next
  fix w :: world and n assume "quiet w"
  then show "run_state (GetConvMessages convID 0 (int n)) w =
      (Inr (take n (sort_key (\<lambda>m. - mMsgID m) (history_rows convID (w_db w)))), w)"
    by (simp add: GetConvMessages_def quiet_query history_rows_def)
next
  fix w :: world and n and x assume q: "quiet w" "0 < mMsgID x"
  have "filter (\<lambda>m. mConvID m = convID \<and> (mMsgID x > 0 \<longrightarrow> mMsgID m < mMsgID x)) ms =
      filter (\<lambda>m. - mMsgID x < - mMsgID m) (filter (\<lambda>m. mConvID m = convID) ms)" for ms
    using q(2) by (auto intro!: filter_cong)
  then show "run_state (GetConvMessages convID (mMsgID x) (int n)) w =
      (Inr (take n (sort_key (\<lambda>m. - mMsgID m) (filter (\<lambda>m. - mMsgID x < - mMsgID m) (history_rows convID (w_db w))))), w)"
    using q by (simp add: GetConvMessages_def quiet_query history_rows_def)
qed

text \<open>Paging through \<open>GetConvMessages\<close> with the last message ID of each page as the next cursor
  returns every message of the conversation exactly once, newest first, for every page size and
  with as many pages as it takes.\<close>

theorem history_walk_complete:
  assumes "quiet w" "distinct (map mMsgID (private_messages (w_db w)))"
    and "\<forall>m \<in> set (history_rows convID (w_db w)). 0 < mMsgID m"
    and "0 < n" "length (history_rows convID (w_db w)) < k"
  shows "run_state (walk_pages k (\<lambda>c. GetConvMessages convID c (int n)) mMsgID 0) w =
    (Inr (sort_key (\<lambda>m. - mMsgID m) (history_rows convID (w_db w))), w)"
  using history.walk_complete [OF assms(1-3) TrueI assms(4,5)] .

definition history_world :: world where
  "history_world = empty_world\<lparr>w_db := empty_db\<lparr>private_messages :=
     [new_message 5 9 1 2 ''a'' [] [], new_message 6 9 2 1 ''b'' [] [], new_message 7 8 1 3 ''c'' [] [],
      new_message 8 9 1 2 ''d'' [] []]\<rparr>\<rparr>"

theorem history_walk_complete_witness:
  "quiet history_world \<and> length (history_rows 9 (w_db history_world)) = 3 \<and>
   run_state (walk_pages 4 (\<lambda>c. GetConvMessages 9 c (int 2)) mMsgID 0) history_world =
     (Inr [new_message 8 9 1 2 ''d'' [] [], new_message 6 9 2 1 ''b'' [] [], new_message 5 9 1 2 ''a'' [] []], history_world)"
  using history_walk_complete [of history_world 9 2 4]
  by (simp add: history_world_def quiet_def empty_world_def empty_db_def history_rows_def new_message_def)

subsection \<open>Friend requests\<close>

definition request_rows :: "int \<Rightarrow> string \<Rightarrow> database \<Rightarrow> FriendRequest list" where
  "request_rows agentID direction d = filter (\<lambda>q. fStatus q = RequestStatusPending \<and>
     (if direction = ''incoming'' then fToUID q = agentID else fFromUID q = agentID)) (friend_requests d)"

definition request_page :: "int \<Rightarrow> string \<Rightarrow> nat \<Rightarrow> int \<Rightarrow> FriendRequest list res io" where
  "request_page agentID direction n c =
     and_then (ListFriendRequests_db agentID direction c (int n)) (\<lambda>(page, more). ret (Inr page))"

lemma request_page_run:
  assumes "quiet w"
  shows "run_state (request_page agentID direction n c) w = (Inr (take n (sort_key (\<lambda>q. - fID q)
    (filter (\<lambda>q. c > 0 \<longrightarrow> fID q < c) (request_rows agentID direction (w_db w))))), w)"
proof -
  have "filter (\<lambda>q. fStatus q = RequestStatusPending \<and>
      (if direction = ''incoming'' then fToUID q = agentID else fFromUID q = agentID) \<and> (c > 0 \<longrightarrow> fID q < c)) qs =
    filter (\<lambda>q. c > 0 \<longrightarrow> fID q < c) (filter (\<lambda>q. fStatus q = RequestStatusPending \<and>
      (if direction = ''incoming'' then fToUID q = agentID else fFromUID q = agentID)) qs)" for qs
    by (auto intro!: filter_cong)
  then show ?thesis
    using assms
    by (simp add: request_page_def ListFriendRequests_db_def and_then_def quiet_query request_rows_def nat_add_distrib)
qed

interpretation requests: keyset "\<lambda>w. request_rows agentID direction (w_db w)" "\<lambda>q. - fID q"
  "\<lambda>w. distinct (map fID (friend_requests (w_db w)))"
  "\<lambda>q. 0 < fID q" "request_page agentID direction" fID 0 "\<lambda>_. True" for agentID direction
proof unfold_locales
  fix w :: world assume "distinct (map fID (friend_requests (w_db w)))"
  then show "distinct (map (\<lambda>q. - fID q) (request_rows agentID direction (w_db w)))"
    by (simp add: distinct_neg request_rows_def distinct_map_filter)
qed (simp_all add: request_page_run)

text \<open>A page of friend requests says whether there are more exactly when there are, and
  walking the pages returns every pending request of the agent in that direction once,
  newest first.\<close>

theorem request_pages:
  assumes "quiet w" "distinct (map fID (friend_requests (w_db w)))"
    and "\<forall>q \<in> set (request_rows agentID direction (w_db w)). 0 < fID q"
    and "0 < n" "length (request_rows agentID direction (w_db w)) < k"
  shows "run_state (walk_pages k (request_page agentID direction n) fID 0) w =
      (Inr (sort_key (\<lambda>q. - fID q) (request_rows agentID direction (w_db w))), w) \<and>
    run_state (ListFriendRequests_db agentID direction 0 (int n)) w =
      (Inr (take n (sort_key (\<lambda>q. - fID q) (request_rows agentID direction (w_db w))),
            n < length (request_rows agentID direction (w_db w))), w)"
proof
  show "run_state (walk_pages k (request_page agentID direction n) fID 0) w =
      (Inr (sort_key (\<lambda>q. - fID q) (request_rows agentID direction (w_db w))), w)"
    using requests.walk_complete [OF assms(1-3) TrueI assms(4,5)] .
  show "run_state (ListFriendRequests_db agentID direction 0 (int n)) w =
      (Inr (take n (sort_key (\<lambda>q. - fID q) (request_rows agentID direction (w_db w))),
            n < length (request_rows agentID direction (w_db w))), w)"
    using assms(1)
    by (simp add: ListFriendRequests_db_def and_then_def quiet_query request_rows_def nat_add_distrib)
qed

definition requests_world :: world where
  "requests_world = empty_world\<lparr>w_db := empty_db\<lparr>friend_requests :=
     map (\<lambda>i. \<lparr>fID = i, fFromUID = i, fToUID = 1, fStatus = RequestStatusPending, fGreeting = [], fRemark = [],
       fCreatedAt = 0, fUpdatedAt = 0\<rparr>) [5, 6, 7]\<rparr>\<rparr>"

theorem request_pages_witness:
  "map_sum id (map fID) (fst (run_state (walk_pages 4 (request_page 1 ''incoming'' 2) fID 0) requests_world)) = Inr [7, 6, 5] \<and>
   map_sum id snd (fst (run_state (ListFriendRequests_db 1 ''incoming'' 0 (int 2)) requests_world)) = Inr True"
  using request_pages [of requests_world 1 "''incoming''" 2 4]
  by (simp add: requests_world_def quiet_def empty_world_def empty_db_def request_rows_def)

subsection \<open>Conversations\<close>

text \<open>The page of the plain query: all conversations of the agent, sorted, cut once.\<close>

definition one_page :: "(Conversation \<Rightarrow> 'k :: linorder) \<Rightarrow> (Conversation \<Rightarrow> bool) \<Rightarrow> int \<Rightarrow> nat
    \<Rightarrow> Conversation list \<Rightarrow> Conversation list" where
  "one_page key P agentID n cs =
     take n (sort_key key (filter (\<lambda>c. (cParticipantA c = agentID \<or> cParticipantB c = agentID) \<and> P c) cs))"

lemma two_sided_one_page:
  assumes keys: "distinct (map key cs)" and ab: "\<forall>c \<in> set cs. cParticipantA c \<noteq> cParticipantB c"
  shows "two_sided key P agentID n cs = one_page key P agentID n cs"
proof -
  let ?A = "filter (\<lambda>c. cParticipantA c = agentID \<and> P c) cs"
  let ?B = "filter (\<lambda>c. cParticipantB c = agentID \<and> P c) cs"
  let ?U = "filter (\<lambda>c. (cParticipantA c = agentID \<or> cParticipantB c = agentID) \<and> P c) cs"
  have mset: "mset (?A @ ?B) = mset ?U"
    using ab by (induction cs) auto
  have dU: "distinct (map key ?U)" using keys by (rule distinct_map_filter)
  have dAB: "distinct (map key (?A @ ?B))"
  proof -
    have "mset (map key (?A @ ?B)) = mset (map key ?U)" using arg_cong [OF mset, of "image_mset key"] by simp
    then show ?thesis using dU mset_eq_imp_distinct_iff by blast
  qed
  let ?tA = "take n (sort_key key ?A)" and ?tB = "take n (sort_key key ?B)"
  have dtAB: "distinct (map key (?tA @ ?B))" by (rule distinct_take_sort [OF dAB])
  have dBtA: "distinct (map key (?B @ ?tA))" by (rule distinct_swap [OF dtAB])
  have dtBA: "distinct (map key (?tB @ ?tA))" by (rule distinct_take_sort [OF dBtA])
  have "sort_key key (?tA @ ?tB) = sort_key key (?tB @ ?tA)" by (rule sort_key_perm [OF dtBA]) simp
  also have "take n \<dots> = take n (sort_key key (?B @ ?tA))" by (rule take_sort_take [OF dBtA])
  also have "sort_key key (?B @ ?tA) = sort_key key (?tA @ ?B)" by (rule sort_key_perm [OF dtAB]) simp
  also have "take n \<dots> = take n (sort_key key (?A @ ?B))" by (rule take_sort_take [OF dAB])
  also have "sort_key key (?A @ ?B) = sort_key key ?U" by (rule sort_key_perm [OF dU mset])
  finally show ?thesis unfolding two_sided_def one_page_def Let_def .
qed

text \<open>What the tables guarantee of conversations (\<open>messages_consistent\<close>).\<close>

definition convs_sane :: "database \<Rightarrow> bool" where
  "convs_sane d \<longleftrightarrow> distinct (map cConvID (conversations d)) \<and>
     (\<forall>c \<in> set (conversations d). cParticipantA c \<noteq> cParticipantB c)"

lemma conv_keys_distinct:
  assumes "distinct (map cConvID cs)"
  shows "distinct (map recent_key cs)" "distinct (map topic_key cs)"
  using assms by (auto simp: distinct_map inj_on_def recent_key_def topic_key_def)

definition of_agent :: "int \<Rightarrow> Conversation \<Rightarrow> bool" where
  "of_agent agentID c \<longleftrightarrow> cParticipantA c = agentID \<or> cParticipantB c = agentID"

text \<open>The filter of the list by recency, for every value of \<open>origin_type\<close>.\<close>

definition listed :: "int \<Rightarrow> string \<Rightarrow> Conversation \<Rightarrow> bool" where
  "listed agentID originType c \<longleftrightarrow>
     (if originType = ''unbroken''
      then cStatus c = 0 \<and> cOriginType c \<noteq> ''friend'' \<and> cMsgCount c = 1 \<and> cLastSenderID c \<noteq> agentID
      else recent_filter originType c)"

definition recent_rows :: "int \<Rightarrow> string \<Rightarrow> database \<Rightarrow> Conversation list" where
  "recent_rows agentID originType d = filter (\<lambda>c. of_agent agentID c \<and> listed agentID originType c) (conversations d)"

definition topic_rows :: "int \<Rightarrow> string \<Rightarrow> database \<Rightarrow> Conversation list" where
  "topic_rows agentID originType d = filter (\<lambda>c. of_agent agentID c \<and> topic_filter agentID originType c) (conversations d)"

lemma one_page_filter:
  "one_page key (\<lambda>c. P c \<and> Q c) agentID n cs =
   take n (sort_key key (filter Q (filter (\<lambda>c. of_agent agentID c \<and> P c) cs)))"
  unfolding one_page_def of_agent_def filter_filter by (intro arg_cong [where f = "\<lambda>xs. take n (sort_key key xs)"] filter_cong) auto

lemma recent_page_run:
  assumes "quiet w" "convs_sane (w_db w)"
  shows "run_state (ListConversationsFiltered agentID u k (int n) originType) w =
    (Inr (take n (sort_key recent_key (filter (before_cursor u k) (recent_rows agentID originType (w_db w))))), w)"
proof -
  note one = two_sided_one_page [OF conv_keys_distinct(1)]
  have sane: "distinct (map cConvID (conversations (w_db w)))"
    "\<forall>c \<in> set (conversations (w_db w)). cParticipantA c \<noteq> cParticipantB c"
    using assms(2) by (auto simp: convs_sane_def)
  show ?thesis
  proof (cases "originType = ''unbroken''")
    case True
    have *: "(\<lambda>c. cStatus c = 0 \<and> cOriginType c \<noteq> ''friend'' \<and> cMsgCount c = 1 \<and> cLastSenderID c \<noteq> agentID \<and> before_cursor u k c) =
        (\<lambda>c. listed agentID originType c \<and> before_cursor u k c)"
      using True by (auto simp: listed_def)
    show ?thesis
      using True assms(1)
      by (simp add: ListConversationsFiltered_def listUnbrokenInbound_def quiet_query one [OF sane] recent_rows_def
          * [unfolded True] one_page_filter)
  next
    case False
    then have *: "recent_filter originType = listed agentID originType" by (auto simp: listed_def)
    show ?thesis
      using False assms(1)
      by (simp add: ListConversationsFiltered_def quiet_query one [OF sane] recent_rows_def * one_page_filter)
  qed
qed

interpretation recent: keyset "\<lambda>w. recent_rows agentID originType (w_db w)" recent_key "\<lambda>w. convs_sane (w_db w)"
  "\<lambda>c. 0 < cUpdatedAt c \<and> 0 < cConvID c"
  "\<lambda>n (u, k). ListConversationsFiltered agentID u k (int n) originType" "\<lambda>c. (cUpdatedAt c, cConvID c)" "(0, 0)"
  "\<lambda>_. True" for agentID originType
proof unfold_locales
  fix w :: world assume "convs_sane (w_db w)"
  then show "distinct (map recent_key (recent_rows agentID originType (w_db w)))"
    by (simp add: recent_rows_def convs_sane_def conv_keys_distinct distinct_map_filter)
next
  fix w n assume "quiet w" "convs_sane (w_db w)"
  moreover have "before_cursor 0 0 = (\<lambda>_. True)" by (simp add: before_cursor_def fun_eq_iff)
  ultimately show "run_state (case (0, 0) of (u, k) \<Rightarrow> ListConversationsFiltered agentID u k (int n) originType) w =
      (Inr (take n (sort_key recent_key (recent_rows agentID originType (w_db w)))), w)"
    by (simp add: recent_page_run)
next
  fix w n and x :: Conversation assume "quiet w" "convs_sane (w_db w)" and pos: "0 < cUpdatedAt x \<and> 0 < cConvID x"
  moreover have "before_cursor (cUpdatedAt x) (cConvID x) = (\<lambda>y. recent_key x < recent_key y)"
    using pos by (auto simp: before_cursor_def recent_key_def fun_eq_iff less_prod_def)
  ultimately show "run_state (case (cUpdatedAt x, cConvID x) of (u, k) \<Rightarrow> ListConversationsFiltered agentID u k (int n) originType) w =
      (Inr (take n (sort_key recent_key (filter (\<lambda>y. recent_key x < recent_key y) (recent_rows agentID originType (w_db w))))), w)"
    by (simp add: recent_page_run)
qed

interpretation topics: keyset "\<lambda>w. topic_rows agentID originType (w_db w)" topic_key "\<lambda>w. convs_sane (w_db w)" "\<lambda>c. True"
  "\<lambda>n tc. ListConversationsByTopicStatus agentID tc (int n) originType"
  "\<lambda>c. Some \<lparr>tcTopicStatus = cTopicStatus c, tcUpdatedAt = cUpdatedAt c, tcConvID = cConvID c\<rparr>" None
  "\<lambda>_. True" for agentID originType
proof unfold_locales
  fix w :: world assume "convs_sane (w_db w)"
  then show "distinct (map topic_key (topic_rows agentID originType (w_db w)))"
    by (simp add: topic_rows_def convs_sane_def conv_keys_distinct distinct_map_filter)
next
  fix w n assume q: "quiet w" "convs_sane (w_db w)"
  then show "run_state (ListConversationsByTopicStatus agentID None (int n) originType) w =
      (Inr (take n (sort_key topic_key (topic_rows agentID originType (w_db w)))), w)"
    by (simp add: ListConversationsByTopicStatus_def quiet_query two_sided_one_page conv_keys_distinct convs_sane_def
        topic_rows_def one_page_def of_agent_def)
next
  fix w n and x :: Conversation assume q: "quiet w" "convs_sane (w_db w)"
  have key: "(cTopicStatus x, cUpdatedAt x, cConvID x) = topic_key x" by (simp add: topic_key_def)
  show "run_state (ListConversationsByTopicStatus agentID
        (Some \<lparr>tcTopicStatus = cTopicStatus x, tcUpdatedAt = cUpdatedAt x, tcConvID = cConvID x\<rparr>) (int n) originType) w =
      (Inr (take n (sort_key topic_key (filter (\<lambda>y. topic_key x < topic_key y) (topic_rows agentID originType (w_db w))))), w)"
    using q by (simp add: ListConversationsByTopicStatus_def quiet_query two_sided_one_page conv_keys_distinct convs_sane_def
        topic_rows_def one_page_filter key)
qed

text \<open>Sorting and cutting the two sides of the \<open>UNION ALL\<close> before merging them gives the same page
  as one query over all conversations of the agent: sort, then cut once. It holds for the list by recency and
  for the list by topic status, for every filter, cursor and limit.\<close>

theorem conversation_page_merge:
  assumes "quiet w" "convs_sane (w_db w)"
  shows "run_state (ListConversationsFiltered agentID u k (int n) originType) w =
      (Inr (one_page recent_key (\<lambda>c. listed agentID originType c \<and> before_cursor u k c) agentID n (conversations (w_db w))), w) \<and>
    run_state (ListConversationsByTopicStatus agentID tc (int n) originType) w =
      (Inr (one_page topic_key (\<lambda>c. topic_filter agentID originType c \<and>
          (case tc of None \<Rightarrow> True | Some q \<Rightarrow> topic_key c > (tcTopicStatus q, tcUpdatedAt q, tcConvID q)))
        agentID n (conversations (w_db w))), w)"
proof
  show "run_state (ListConversationsFiltered agentID u k (int n) originType) w =
      (Inr (one_page recent_key (\<lambda>c. listed agentID originType c \<and> before_cursor u k c) agentID n (conversations (w_db w))), w)"
    using assms by (simp add: recent_page_run one_page_filter recent_rows_def)
  show "run_state (ListConversationsByTopicStatus agentID tc (int n) originType) w =
      (Inr (one_page topic_key (\<lambda>c. topic_filter agentID originType c \<and>
          (case tc of None \<Rightarrow> True | Some q \<Rightarrow> topic_key c > (tcTopicStatus q, tcUpdatedAt q, tcConvID q)))
        agentID n (conversations (w_db w))), w)"
    using assms by (simp add: ListConversationsByTopicStatus_def quiet_query two_sided_one_page conv_keys_distinct convs_sane_def)
qed

text \<open>Agent 5 has three conversations, on both sides of the pair.\<close>

definition convs_world :: world where
  "convs_world = empty_world\<lparr>w_db := empty_db\<lparr>conversations :=
     [(new_conversation 11 1 5 1 ''broadcast'' 7 [] [])\<lparr>cUpdatedAt := 30, cTopicStatus := 1\<rparr>,
      (new_conversation 12 2 5 2 ''broadcast'' 7 [] [])\<lparr>cUpdatedAt := 10, cTopicStatus := 0\<rparr>,
      (new_conversation 13 5 9 5 ''broadcast'' 8 [] [])\<lparr>cUpdatedAt := 20, cTopicStatus := 2\<rparr>,
      (new_conversation 14 1 9 1 ''broadcast'' 8 [] [])\<lparr>cUpdatedAt := 25, cTopicStatus := 1\<rparr>]\<rparr>\<rparr>"

lemmas eval_convs = convs_world_def empty_world_def empty_db_def quiet_def convs_sane_def new_conversation_def
  recent_rows_def topic_rows_def of_agent_def listed_def recent_filter_def topic_filter_def recent_key_def topic_key_def

theorem conversation_page_merge_witness:
  "quiet convs_world \<and> convs_sane (w_db convs_world) \<and>
   map_sum id (map cConvID) (fst (run_state (ListConversationsFiltered 5 0 0 (int 2) []) convs_world)) = Inr [11, 13] \<and>
   map_sum id (map cConvID) (fst (run_state (ListConversationsByTopicStatus 5 None (int 2) []) convs_world)) = Inr [12, 11]"
  using conversation_page_merge [of convs_world 5 0 0 2 "[]" None]
  by (simp add: eval_convs one_page_def before_cursor_def)

text \<open>C13: walking the conversation list, by recency with the cursor (updated_at, conv_id) and by topic
  status with the cursor (topic_status, updated_at, conv_id), returns every listed conversation
  of the agent exactly once, in order.\<close>

theorem conversation_walk_complete:
  assumes "quiet w" "convs_sane (w_db w)" "0 < n"
    and "length (conversations (w_db w)) < k"
    and "\<forall>c \<in> set (conversations (w_db w)). 0 < cUpdatedAt c \<and> 0 < cConvID c"
  shows "run_state (walk_pages k (\<lambda>(u, i). ListConversationsFiltered agentID u i (int n) originType)
        (\<lambda>c. (cUpdatedAt c, cConvID c)) (0, 0)) w =
      (Inr (sort_key recent_key (recent_rows agentID originType (w_db w))), w) \<and>
    run_state (walk_pages k (\<lambda>tc. ListConversationsByTopicStatus agentID tc (int n) originType)
        (\<lambda>c. Some \<lparr>tcTopicStatus = cTopicStatus c, tcUpdatedAt = cUpdatedAt c, tcConvID = cConvID c\<rparr>) None) w =
      (Inr (sort_key topic_key (topic_rows agentID originType (w_db w))), w)"
proof -
  have len: "length (recent_rows agentID originType (w_db w)) < k" "length (topic_rows agentID originType (w_db w)) < k"
    using assms(4) by (auto simp: recent_rows_def topic_rows_def intro: le_less_trans [OF length_filter_le])
  have ok: "\<forall>c \<in> set (recent_rows agentID originType (w_db w)). 0 < cUpdatedAt c \<and> 0 < cConvID c"
    using assms(5) by (auto simp: recent_rows_def)
  show ?thesis
    using recent.walk_complete [OF assms(1,2) ok TrueI assms(3) len(1)] topics.walk_complete [OF assms(1,2) _ TrueI assms(3) len(2)]
    by simp
qed

theorem conversation_walk_complete_witness:
  "map_sum id (map cConvID) (fst (run_state (walk_pages 5 (\<lambda>(u, i). ListConversationsFiltered 5 u i (int 1) [])
      (\<lambda>c. (cUpdatedAt c, cConvID c)) (0, 0)) convs_world)) = Inr [11, 13, 12] \<and>
   map_sum id (map cConvID) (fst (run_state (walk_pages 5 (\<lambda>tc. ListConversationsByTopicStatus 5 tc (int 1) [])
      (\<lambda>c. Some \<lparr>tcTopicStatus = cTopicStatus c, tcUpdatedAt = cUpdatedAt c, tcConvID = cConvID c\<rparr>) None) convs_world)) = Inr [12, 11, 13]"
  using conversation_walk_complete [of convs_world 1 5 5 "[]"] by (simp add: eval_convs)

end
