(* ===== verification/Notifications.thy ===== *)
theory Notifications
  imports Inbox
begin

text \<open>
  The notification service, \<open>rpc/notification/handler.go\<close>: one list of what an agent has not acknowledged,
  gathered from four sources, and the acknowledgement. The variables of the request context, which
  audiences are evaluated on, are an argument. A cursor is the text of a JSON document in base64; its
  type says what a text decodes to. Metrics and log lines are left out.
\<close>

section \<open>Audiences\<close>

text \<open>\<open>buildEnv\<close> of \<open>pkg/audience\<close>: numbers are read from text, and what is no number is 0.\<close>

definition known_vars :: "(string \<times> bool) list" where
  "known_vars = [(''skill_ver'', False), (''skill_ver_num'', True), (''cli_ver'', False), (''cli_ver_num'', True),
     (''agent_id'', True), (''email'', False)]"

definition buildEnv :: "(string \<Rightarrow> string) \<Rightarrow> (string \<times> expr_value) list" where
  "buildEnv vars = map (\<lambda>(k, number).
     (k, if number then ExprInt (case ParseInt64 (vars k) of Some n \<Rightarrow> n | None \<Rightarrow> 0) else ExprString (vars k))) known_vars"

definition Evaluate :: "NotificationServiceImpl \<Rightarrow> string \<Rightarrow> (string \<Rightarrow> string) \<Rightarrow> bool res" where
  "Evaluate s expression vars = (if expression = [] then Inr True else expr_run s expression (buildEnv vars))"

section \<open>Requests and responses\<close>

record pendingCursor =
  pcCreatedAt :: int
  pcNotificationID :: int
  pcSourceType :: string

datatype cursor_text = NoCursor | CursorText pendingCursor | CursorGarbage

record PendingNotification =
  pnNotificationId :: int
  pnSourceType :: string
  pnType :: string
  pnContent :: string
  pnCreatedAt :: int
  pnPayloadJson :: "string option"
  pnPeerShortId :: "string option"
  pnPeerDisplayName :: "string option"
  pnFriendUid :: "int option"

record ListPendingReq =
  lpAgentId :: int
  lpLimit :: "int option"
  lpCursor :: cursor_text

record ListPendingResp =
  lrNotifications :: "PendingNotification list"
  lrHasMore :: "bool option"
  lrNextCursor :: "cursor_text option"
  lrBaseResp :: BaseResp

record AckItem =
  akNotificationId :: int
  akSourceType :: string

record AckNotificationsReq =
  aqAgentId :: int
  aqItems :: "AckItem option list"

definition listPendingError :: "int \<Rightarrow> string \<Rightarrow> ListPendingResp" where
  "listPendingError code message =
     \<lparr>lrNotifications = [], lrHasMore = None, lrNextCursor = None, lrBaseResp = base_resp code message\<rparr>"

definition decodePendingCursor :: "cursor_text \<Rightarrow> pendingCursor option res" where
  "decodePendingCursor v =
     (case v of
        NoCursor \<Rightarrow> Inr None
      | CursorGarbage \<Rightarrow> Inl (ErrText ''invalid pending cursor'')
      | CursorText c \<Rightarrow>
          if pcCreatedAt c \<le> 0 \<or> pcNotificationID c \<le> 0 \<or> pcSourceType c = []
          then Inl (ErrText ''invalid pending cursor'') else Inr (Some c))"

definition encodePendingCursor :: "PendingNotification \<Rightarrow> cursor_text" where
  "encodePendingCursor n =
     CursorText \<lparr>pcCreatedAt = pnCreatedAt n, pcNotificationID = pnNotificationId n, pcSourceType = pnSourceType n\<rparr>"

definition pendingAfterCursor :: "pendingCursor \<Rightarrow> PendingNotification \<Rightarrow> bool" where
  "pendingAfterCursor c n =
     (if pnCreatedAt n \<noteq> pcCreatedAt c then pnCreatedAt n > pcCreatedAt c
      else if pnNotificationId n \<noteq> pcNotificationID c then pnNotificationId n > pcNotificationID c
      else pnSourceType n > pcSourceType c)"

definition optionalString :: "string \<Rightarrow> string option" where
  "optionalString v = (if v = [] then None else Some v)"

definition optionalInt64 :: "int \<Rightarrow> int option" where
  "optionalInt64 v = (if v \<le> 0 then None else Some v)"

section \<open>What is pending\<close>

definition plain_pending :: "int \<Rightarrow> string \<Rightarrow> string \<Rightarrow> string \<Rightarrow> int \<Rightarrow> PendingNotification" where
  "plain_pending i source kind content createdAt =
     \<lparr>pnNotificationId = i, pnSourceType = source, pnType = kind, pnContent = content, pnCreatedAt = createdAt,
      pnPayloadJson = None, pnPeerShortId = None, pnPeerDisplayName = None, pnFriendUid = None\<rparr>"

definition milestone_pending :: "MilestoneNotification \<Rightarrow> PendingNotification option" where
  "milestone_pending n = map_option
     (\<lambda>eventID. plain_pending eventID SourceTypeMilestone (mnType n) (mnContent n) (mnCreatedAt n))
     (ParseInt64 (mnNotificationID n))"

definition system_pending :: "SystemNotification \<Rightarrow> PendingNotification" where
  "system_pending n =
     plain_pending (snNotificationID n) SourceTypeSystem (snType n) (snContent n) (snCreatedAt n)"

definition friend_pending :: "PMNotification \<Rightarrow> PendingNotification option" where
  "friend_pending n = map_option
     (\<lambda>requestID. (plain_pending requestID SourceTypeFriendRequest (nType n) (nContent n) (nCreatedAt n))
        \<lparr>pnPeerShortId := optionalString (nPeerShortID n), pnPeerDisplayName := optionalString (nPeerDisplayName n),
         pnFriendUid := optionalInt64 (nFriendUID n)\<rparr>)
     (ParseInt64 (nNotificationID n))"

definition inbox_row_pending :: "NotificationServiceImpl \<Rightarrow> int \<Rightarrow> InboxNotification \<Rightarrow> PendingNotification option" where
  "inbox_row_pending s agentID row =
     (let entry = (\<lambda>content. (plain_pending (ibNotificationID row) (ibSourceType row) (ibEventKind row) content (ibOccurredAt row))
            \<lparr>pnPayloadJson := Some (ibPayloadJSON row)\<rparr>)
      in if ibSourceType row = SourceCommissionModeration
         then map_option (\<lambda>payload. entry (Moderation_Content payload)) (ModerationForAgent s (ibPayloadJSON row) agentID)
         else Some (entry []))"

text \<open>The notification is shown now and its audience, if it has one, includes the caller.\<close>

definition addressed :: "NotificationServiceImpl \<Rightarrow> (string \<Rightarrow> string) \<Rightarrow> int \<Rightarrow> SystemNotification \<Rightarrow> bool" where
  "addressed s vars nowMS n =
     (if \<not> IsActive n nowMS then False
      else if snAudienceType n = AudienceTypeExpression \<and> snAudienceExpression n \<noteq> []
      then Evaluate s (snAudienceExpression n) vars = Inr True
      else True)"

definition listPendingSystemNotifications ::
  "NotificationServiceImpl \<Rightarrow> int \<Rightarrow> (string \<Rightarrow> string) \<Rightarrow> SystemNotification list res io" where
  "listPendingSystemNotifications s agentID vars =
     and_then ActiveStore_List (\<lambda>active.
       if active = [] then ret (Inr [])
       else do {
         nowMS \<leftarrow> now_ms;
         (let shown = filter (addressed s vars nowMS) active;
              persistent = filter (\<lambda>n. snType n = TypeSystem) shown;
              oneTime = filter (\<lambda>n. snType n \<noteq> TypeSystem) shown
          in and_then (AreDelivered SourceTypeSystem (map snNotificationID oneTime) agentID) (\<lambda>delivered.
               ret (Inr (sort_key (\<lambda>n. (snCreatedAt n, snNotificationID n))
                 (persistent @ filter (\<lambda>n. snNotificationID n \<notin> set delivered) oneTime))))) })"

definition pending_key :: "PendingNotification \<Rightarrow> int \<times> int \<times> string" where
  "pending_key n = (pnCreatedAt n, pnNotificationId n, pnSourceType n)"

text \<open>The sources are read in turn; only a failure of the durable inbox fails the request.\<close>

definition gather_pending :: "NotificationServiceImpl \<Rightarrow> int \<Rightarrow> (string \<Rightarrow> string) \<Rightarrow> PendingNotification list res io" where
  "gather_pending s agentID vars = do {
     milestones \<leftarrow> ListMilestoneNotifications agentID;
     system \<leftarrow> listPendingSystemNotifications s agentID vars;
     friends \<leftarrow> ListPMNotifications agentID;
     now \<leftarrow> now_ms;
     inbox \<leftarrow> ListInboxNotifications agentID now;
     ret (case inbox of
        Inl e \<Rightarrow> Inl e
      | Inr rows \<Rightarrow> Inr (List.map_filter milestone_pending (value_or [] milestones)
          @ map system_pending (value_or [] system)
          @ List.map_filter friend_pending (value_or [] friends)
          @ List.map_filter (inbox_row_pending s agentID) rows)) }"

definition ListPending :: "NotificationServiceImpl \<Rightarrow> (string \<Rightarrow> string) \<Rightarrow> ListPendingReq \<Rightarrow> ListPendingResp io" where
  "ListPending s vars req =
     (if lpAgentId req \<le> 0 then ret (listPendingError 400 ''invalid request'')
      else if \<exists>l. lpLimit req = Some l \<and> (l \<le> 0 \<or> l > 100)
      then ret (listPendingError 400 ''limit must be between 1 and 100'')
      else (case decodePendingCursor (lpCursor req) of
          Inl _ \<Rightarrow> ret (listPendingError 400 ''invalid cursor'')
        | Inr cursor \<Rightarrow> do {
            gathered \<leftarrow> gather_pending s (lpAgentId req) vars;
            (case gathered of
               Inl _ \<Rightarrow> ret (listPendingError 500 ''failed to list durable notifications'')
             | Inr found \<Rightarrow>
                 (let sorted_all = sort_key pending_key found;
                      after = (case cursor of None \<Rightarrow> sorted_all | Some c \<Rightarrow> filter (pendingAfterCursor c) sorted_all);
                      page = (case lpLimit req of None \<Rightarrow> after | Some l \<Rightarrow> take (nat l) after)
                  in ret \<lparr>lrNotifications = page,
                       lrHasMore = map_option (\<lambda>l. int (length after) > l) (lpLimit req),
                       lrNextCursor = (if lpLimit req \<noteq> None \<and> page \<noteq> [] then Some (encodePendingCursor (last page)) else None),
                       lrBaseResp = success\<rparr>)) }))"

section \<open>Acknowledging\<close>

definition ids_of :: "string \<Rightarrow> AckItem option list \<Rightarrow> int list" where
  "ids_of source items = map akNotificationId (filter (\<lambda>i. akSourceType i = source) (List.map_filter id items))"

definition ack_durable_tx :: "int \<Rightarrow> AckItem option list \<Rightarrow> int \<Rightarrow> unit res io" where
  "ack_durable_tx agentID items now =
     and_then (if ids_of SourceTypeCommissionOrder items = [] then ret (Inr ())
               else AckInboxNotificationsBySource agentID SourceTypeCommissionOrder (ids_of SourceTypeCommissionOrder items) now)
       (\<lambda>_. if ids_of SourceCommissionModeration items = [] then ret (Inr ())
            else AckInboxNotificationsBySource agentID SourceCommissionModeration (ids_of SourceCommissionModeration items) now)"

definition ack_durable :: "int \<Rightarrow> AckItem option list \<Rightarrow> int \<Rightarrow> unit res io" where
  "ack_durable agentID items now =
     (if ids_of SourceTypeCommissionOrder items = [] \<and> ids_of SourceCommissionModeration items = [] then ret (Inr ())
      else transaction (ack_durable_tx agentID items now))"

definition delivery_of :: "int \<Rightarrow> int \<Rightarrow> int \<Rightarrow> NotificationDelivery" where
  "delivery_of agentID now i =
     \<lparr>ndDeliveryID = 0, ndSourceType = SourceTypeSystem, ndSourceID = i, ndAgentID = agentID, ndDeliveredAt = now\<rparr>"

text \<open>The acknowledgements that are tried once and whose errors are only logged.\<close>

definition ack_best_effort :: "int \<Rightarrow> AckItem option list \<Rightarrow> int \<Rightarrow> unit io" where
  "ack_best_effort agentID items now = do {
     _ \<leftarrow> DeleteMilestoneNotifications agentID (ids_of SourceTypeMilestone items);
     _ \<leftarrow> MarkMilestoneEventsNotified agentID (ids_of SourceTypeMilestone items) now;
     _ \<leftarrow> RecordDeliveries (map (delivery_of agentID now) (ids_of SourceTypeSystem items));
     _ \<leftarrow> DeletePMNotifications_dal agentID (ids_of SourceTypeFriendRequest items);
     ret () }"

definition AckNotifications :: "AckNotificationsReq \<Rightarrow> BaseResp io" where
  "AckNotifications req =
     (if aqItems req = [] then ret success
      else do {
        now \<leftarrow> now_ms;
        durable \<leftarrow> ack_durable (aqAgentId req) (aqItems req) now;
        (case durable of
           Inl _ \<Rightarrow> ret (base_resp 500 ''failed to acknowledge durable notifications'')
         | Inr _ \<Rightarrow> do { _ \<leftarrow> ack_best_effort (aqAgentId req) (aqItems req) now; ret success }) })"

text \<open>At start the active system notifications are copied from the table to Redis.\<close>

definition RecoverActiveNotifications :: "unit res io" where
  "RecoverActiveNotifications =
     and_then (db_query (\<lambda>d. filter (\<lambda>n. snStatus n = NotifyStatusActive \<and> snOfflineAt n = 0) (system_notifications d)))
       ActiveStore_ReplaceAll"

end
