(* ===== verification/Pending.thy ===== *)
theory Pending
  imports Pages Notifications
begin

text \<open>
  What the notification service promises: the pages of \<open>ListPending\<close> deliver every pending notification once
  and in order; a notification stays until it is acknowledged and no longer; and durable
  notifications are acknowledged together or not at all.
\<close>

section \<open>What an agent is shown\<close>

text \<open>The list that \<open>ListPending\<close> sorts and cuts, read off the tables and the keyspace.\<close>

definition hash_values :: "rkey \<Rightarrow> world \<Rightarrow> payload list" where
  "hash_values k w = value_or [] (fst (HVALS k (w_now w) (w_redis w)))"

definition shown_system :: "NotificationServiceImpl \<Rightarrow> int \<Rightarrow> (string \<Rightarrow> string) \<Rightarrow> world \<Rightarrow> SystemNotification list" where
  "shown_system s agentID vars w =
     (let shown = filter (addressed s vars (w_now w)) (map notification_of_payload
            (List.map_filter json_activePayload (hash_values SystemActive w)));
          delivered = (\<lambda>n. \<exists>r \<in> set (notification_deliveries (w_db w)). ndSourceType r = SourceTypeSystem \<and>
            ndSourceID r = snNotificationID n \<and> ndAgentID r = agentID)
      in filter (\<lambda>n. snType n = TypeSystem) shown @ filter (\<lambda>n. snType n \<noteq> TypeSystem \<and> \<not> delivered n) shown)"

definition shown_friends :: "int \<Rightarrow> world \<Rightarrow> PendingNotification list" where
  "shown_friends agentID w =
     List.map_filter friend_pending (List.map_filter json_PMNotification (hash_values (PMNotify agentID) w))"

definition shown_milestones :: "int \<Rightarrow> world \<Rightarrow> PendingNotification list" where
  "shown_milestones agentID w =
     List.map_filter milestone_pending (List.map_filter json_MilestoneNotification (hash_values (MilestoneNotify agentID) w))"

definition shown_inbox :: "NotificationServiceImpl \<Rightarrow> int \<Rightarrow> world \<Rightarrow> PendingNotification list" where
  "shown_inbox s agentID w =
     List.map_filter (inbox_row_pending s agentID) (filter (inbox_pending agentID (w_now w)) (notification_inbox (w_db w)))"

definition shown :: "NotificationServiceImpl \<Rightarrow> int \<Rightarrow> (string \<Rightarrow> string) \<Rightarrow> world \<Rightarrow> PendingNotification list" where
  "shown s agentID vars w =
     shown_milestones agentID w @ map system_pending (shown_system s agentID vars w)
       @ shown_friends agentID w @ shown_inbox s agentID w"

section \<open>Sorting\<close>

lemma mset_insert_by [simp]: "mset (insert_by lt x xs) = add_mset x (mset xs)"
  by (induction xs) auto

lemma mset_sort_slice [simp]: "mset (sort_slice lt xs) = mset xs"
  by (induction xs) (simp_all add: sort_slice_def)

lemma mset_map_filter [simp]:
  "mset (List.map_filter f (sort_slice lt xs)) = mset (List.map_filter f xs)"
  "mset (List.map_filter f (sort_key k xs)) = mset (List.map_filter f xs)"
  by (simp_all add: map_filter_def)

section \<open>Reading the sources\<close>

lemma HVALS_state: "snd (HVALS k t rs) = rs"
  by (simp add: HVALS_def split: option.splits rval.splits)

lemma quiet_hvals: "quiet w \<Longrightarrow> run_state (redis_cmd (HVALS k)) w = (fst (HVALS k (w_now w) (w_redis w)), w)"
  using quiet_cmd [of w "HVALS k"] HVALS_state [of k "w_now w" "w_redis w"] by (cases "HVALS k (w_now w) (w_redis w)") simp

lemma quiet_hash_list:
  assumes "quiet w" "g [] = []"
  shows "\<exists>r. run_state (and_then (redis_cmd (HVALS k)) (\<lambda>values. ret (Inr (g values)))) w = (r, w) \<and>
    value_or [] r = g (hash_values k w)"
  using assms by (cases "fst (HVALS k (w_now w) (w_redis w))")
    (auto simp: and_then_def quiet_hvals hash_values_def value_or_def)

lemma quiet_delivered:
  assumes "quiet w"
  shows "\<exists>ds. run_state (AreDelivered source ids agentID) w = (Inr ds, w) \<and>
    (\<forall>i \<in> set ids. i \<in> set ds \<longleftrightarrow> (\<exists>r \<in> set (notification_deliveries (w_db w)).
      ndSourceType r = source \<and> ndSourceID r = i \<and> ndAgentID r = agentID))"
  using assms by (cases "ids = []") (auto simp: AreDelivered_def quiet_query)

lemma quiet_system:
  assumes q: "quiet w"
  shows "\<exists>r. run_state (listPendingSystemNotifications s agentID vars) w = (r, w) \<and>
    mset (value_or [] r) = mset (shown_system s agentID vars w)"
proof (cases "fst (HVALS SystemActive (w_now w) (w_redis w))")
  case (Inl e)
  then show ?thesis
    using q by (simp add: listPendingSystemNotifications_def ActiveStore_List_def and_then_def quiet_hvals shown_system_def
        hash_values_def value_or_def)
next
  case (Inr vals)
  define active where "active = map notification_of_payload (List.map_filter json_activePayload vals)"
  define seen where "seen = filter (addressed s vars (w_now w)) active"
  define one where "one = filter (\<lambda>n. snType n \<noteq> TypeSystem) seen"
  obtain ds where ds: "run_state (AreDelivered SourceTypeSystem (map snNotificationID one) agentID) w = (Inr ds, w)"
    "\<forall>i \<in> set (map snNotificationID one). i \<in> set ds \<longleftrightarrow> (\<exists>r \<in> set (notification_deliveries (w_db w)).
      ndSourceType r = SourceTypeSystem \<and> ndSourceID r = i \<and> ndAgentID r = agentID)"
    using quiet_delivered [OF q] by blast
  have fresh: "filter (\<lambda>n. snNotificationID n \<notin> set ds) one = filter (\<lambda>n. snType n \<noteq> TypeSystem \<and>
      \<not> (\<exists>r \<in> set (notification_deliveries (w_db w)). ndSourceType r = SourceTypeSystem \<and>
        ndSourceID r = snNotificationID n \<and> ndAgentID r = agentID)) seen"
    using ds(2) unfolding one_def filter_filter by (intro filter_cong) auto
  have sys: "shown_system s agentID vars w =
      filter (\<lambda>n. snType n = TypeSystem) seen @ filter (\<lambda>n. snNotificationID n \<notin> set ds) one"
    using Inr by (simp add: shown_system_def hash_values_def value_or_def fresh seen_def active_def Let_def)
  show ?thesis
  proof (cases "active = []")
    case True
    then show ?thesis
      using q Inr sys by (simp add: listPendingSystemNotifications_def ActiveStore_List_def and_then_def quiet_hvals
          active_def seen_def one_def value_or_def)
  next
    case False
    then show ?thesis
      using q Inr ds(1) sys by (simp add: listPendingSystemNotifications_def ActiveStore_List_def and_then_def quiet_hvals
          quiet_now active_def [symmetric] seen_def [symmetric] one_def [symmetric] Let_def value_or_def del: filter_filter)
  qed
qed

lemma quiet_gather:
  assumes q: "quiet w" and pos: "0 < agentID" "0 < w_now w"
  shows "\<exists>found. run_state (gather_pending s agentID vars) w = (Inr found, w) \<and>
    mset found = mset (shown s agentID vars w)"
proof -
  let ?ms = "\<lambda>vs. sort_slice (\<lambda>x y. notification_less (mnCreatedAt x, mnNotificationID x) (mnCreatedAt y, mnNotificationID y))
      (List.map_filter json_MilestoneNotification vs)"
  let ?fs = "\<lambda>vs. sort_slice (\<lambda>x y. notification_less (nCreatedAt x, nNotificationID x) (nCreatedAt y, nNotificationID y))
      (List.map_filter json_PMNotification vs)"
  have none: "?ms [] = []" "?fs [] = []" by (simp_all add: map_filter_def sort_slice_def)
  obtain rm where rm: "run_state (ListMilestoneNotifications agentID) w = (rm, w)"
    "value_or [] rm = ?ms (hash_values (MilestoneNotify agentID) w)"
    using quiet_hash_list [of w ?ms, OF q none(1)] unfolding ListMilestoneNotifications_def by blast
  obtain rf where rf: "run_state (ListPMNotifications agentID) w = (rf, w)"
    "value_or [] rf = ?fs (hash_values (PMNotify agentID) w)"
    using quiet_hash_list [of w ?fs, OF q none(2)] unfolding ListPMNotifications_def by blast
  obtain rs where rs: "run_state (listPendingSystemNotifications s agentID vars) w = (rs, w)"
    "mset (value_or [] rs) = mset (shown_system s agentID vars w)"
    using quiet_system [OF q] by blast
  have inbox: "run_state (ListInboxNotifications agentID (w_now w)) w =
      (Inr (sort_key inbox_key (filter (inbox_pending agentID (w_now w)) (notification_inbox (w_db w)))), w)"
    using q pos by (simp add: ListInboxNotifications_def quiet_query)
  show ?thesis
    using rs(2) by (simp add: gather_pending_def rm(1) rs(1) rf(1) quiet_now inbox shown_def shown_milestones_def
        shown_friends_def shown_inbox_def rm(2) rf(2))
qed

section \<open>Pages\<close>

definition cursor_key :: "pendingCursor \<Rightarrow> int \<times> int \<times> string" where
  "cursor_key c = (pcCreatedAt c, pcNotificationID c, pcSourceType c)"

lemma after_cursor: "pendingAfterCursor c = (\<lambda>n. cursor_key c < pending_key n)"
  by (auto simp: fun_eq_iff pendingAfterCursor_def cursor_key_def pending_key_def)

lemma encode_key: "encodePendingCursor n = CursorText c \<Longrightarrow> cursor_key c = pending_key n"
  by (auto simp: encodePendingCursor_def cursor_key_def pending_key_def)

text \<open>Entries whose cursor the service accepts again.\<close>

definition pageable :: "PendingNotification \<Rightarrow> bool" where
  "pageable n \<longleftrightarrow> 0 < pnCreatedAt n \<and> 0 < pnNotificationId n \<and> pnSourceType n \<noteq> []"

lemma decode_encode:
  "decodePendingCursor (encodePendingCursor n) =
    (if pageable n then Inr (Some \<lparr>pcCreatedAt = pnCreatedAt n, pcNotificationID = pnNotificationId n, pcSourceType = pnSourceType n\<rparr>)
     else Inl (ErrText ''invalid pending cursor''))"
  by (auto simp: decodePendingCursor_def encodePendingCursor_def pageable_def)

lemma list_pending_run:
  assumes q: "quiet w" and pos: "0 < lpAgentId req" "0 < w_now w" and lim: "\<forall>l. lpLimit req = Some l \<longrightarrow> 0 < l \<and> l \<le> 100"
    and cur: "decodePendingCursor (lpCursor req) = Inr c"
    and dist: "distinct (map pending_key (shown s (lpAgentId req) vars w))"
  shows "\<exists>resp. run_state (ListPending s vars req) w = (resp, w) \<and> lrBaseResp resp = success \<and>
    (let rows = sort_key pending_key (filter (\<lambda>n. \<forall>k. c = Some k \<longrightarrow> cursor_key k < pending_key n) (shown s (lpAgentId req) vars w));
         page = (case lpLimit req of None \<Rightarrow> rows | Some l \<Rightarrow> take (nat l) rows)
     in lrNotifications resp = page \<and> lrHasMore resp = map_option (\<lambda>l. l < int (length rows)) (lpLimit req) \<and>
       lrNextCursor resp = (if lpLimit req \<noteq> None \<and> page \<noteq> [] then Some (encodePendingCursor (last page)) else None))"
proof -
  obtain found where found: "run_state (gather_pending s (lpAgentId req) vars) w = (Inr found, w)"
    "mset found = mset (shown s (lpAgentId req) vars w)"
    using quiet_gather [OF q pos] by blast
  have srt: "sort_key pending_key found = sort_key pending_key (shown s (lpAgentId req) vars w)"
    by (rule sort_key_perm [OF dist found(2)])
  have aft: "(case c of None \<Rightarrow> sort_key pending_key found | Some k \<Rightarrow> filter (pendingAfterCursor k) (sort_key pending_key found)) =
      sort_key pending_key (filter (\<lambda>n. \<forall>k. c = Some k \<longrightarrow> cursor_key k < pending_key n) (shown s (lpAgentId req) vars w))"
    unfolding srt by (cases c) (simp_all add: after_cursor filter_sort)
  have ok: "\<not> lpAgentId req \<le> 0" "\<not> (\<exists>l. lpLimit req = Some l \<and> (l \<le> 0 \<or> l > 100))" using pos lim by auto
  show ?thesis
    by (cases "lpLimit req") (use ok in \<open>simp_all add: ListPending_def cur found(1) aft Let_def\<close>)
qed

definition pending_page :: "NotificationServiceImpl \<Rightarrow> int \<Rightarrow> (string \<Rightarrow> string) \<Rightarrow> nat \<Rightarrow> cursor_text \<Rightarrow> PendingNotification list res io" where
  "pending_page s agentID vars n c = do {
     resp \<leftarrow> ListPending s vars \<lparr>lpAgentId = agentID, lpLimit = Some (int n), lpCursor = c\<rparr>;
     ret (if Code (lrBaseResp resp) = 0 then Inr (lrNotifications resp) else Inl (ErrText (Msg (lrBaseResp resp)))) }"

lemma pending_page_run:
  assumes "quiet w" "0 < agentID" "0 < w_now w" "0 < n" "n \<le> 100" "decodePendingCursor t = Inr c"
    and "distinct (map pending_key (shown s agentID vars w))"
  shows "run_state (pending_page s agentID vars n t) w =
    (Inr (take n (sort_key pending_key (filter (\<lambda>y. \<forall>k. c = Some k \<longrightarrow> cursor_key k < pending_key y) (shown s agentID vars w)))), w)"
proof -
  let ?req = "\<lparr>lpAgentId = agentID, lpLimit = Some (int n), lpCursor = t\<rparr>"
  obtain resp where "run_state (ListPending s vars ?req) w = (resp, w)" "lrBaseResp resp = success"
    "lrNotifications resp =
      take n (sort_key pending_key (filter (\<lambda>y. \<forall>k. c = Some k \<longrightarrow> cursor_key k < pending_key y) (shown s agentID vars w)))"
    using list_pending_run [of w ?req c s vars] assms by (auto simp: Let_def)
  then show ?thesis by (simp add: pending_page_def)
qed

interpretation pending: keyset "shown s agentID vars" pending_key
  "\<lambda>w. 0 < agentID \<and> 0 < w_now w \<and> distinct (map pending_key (shown s agentID vars w))" pageable
  "pending_page s agentID vars" encodePendingCursor NoCursor "\<lambda>n. 0 < n \<and> n \<le> 100" for s agentID vars
proof unfold_locales
  fix w :: world and n :: nat assume "quiet w" "0 < agentID \<and> 0 < w_now w \<and> distinct (map pending_key (shown s agentID vars w))" "0 < n \<and> n \<le> 100"
  then show "run_state (pending_page s agentID vars n NoCursor) w =
      (Inr (take n (sort_key pending_key (shown s agentID vars w))), w)"
    using pending_page_run [of w agentID n NoCursor None s vars] by (simp add: decodePendingCursor_def)
next
  fix w :: world and n :: nat and x
  assume "quiet w" "0 < agentID \<and> 0 < w_now w \<and> distinct (map pending_key (shown s agentID vars w))" "0 < n \<and> n \<le> 100"
    "pageable x"
  then show "run_state (pending_page s agentID vars n (encodePendingCursor x)) w =
      (Inr (take n (sort_key pending_key (filter (\<lambda>y. pending_key x < pending_key y) (shown s agentID vars w)))), w)"
    using pending_page_run [of w agentID n "encodePendingCursor x"
      "Some \<lparr>pcCreatedAt = pnCreatedAt x, pcNotificationID = pnNotificationId x, pcSourceType = pnSourceType x\<rparr>" s vars]
    by (simp add: decode_encode cursor_key_def pending_key_def)
qed simp


text \<open>C39: the answer to a friend request is stored under the negated number of the request, and the
  decoder of cursors accepts positive identifiers only: when a page ends with such an entry, the cursor
  that \<open>ListPending\<close> hands out is refused as invalid, in every world.\<close>

theorem response_cursor_rejected:
  assumes "run_state (ListPending s vars req) w = (resp, w')" "lrNextCursor resp = Some c"
    and "pnNotificationId (last (lrNotifications resp)) \<le> 0" "0 < l" "l \<le> 100"
  shows "run_state (ListPending s vars \<lparr>lpAgentId = lpAgentId req, lpLimit = Some l, lpCursor = c\<rparr>) w'' =
    (listPendingError 400 ''invalid cursor'', w'')"
proof -
  have c: "c = encodePendingCursor (last (lrNotifications resp)) \<and> 0 < lpAgentId req"
    using assms(1,2) by (auto simp: ListPending_def listPendingError_def Let_def split: if_splits sum.splits prod.splits)
  have "\<not> pageable (last (lrNotifications resp))" using assms(3) by (simp add: pageable_def)
  then have "decodePendingCursor c = Inl (ErrText ''invalid pending cursor'')" using c by (simp add: decode_encode)
  then show ?thesis using c assms(4,5) by (simp add: ListPending_def)
qed

section \<open>A notification stays until it is acknowledged\<close>

text \<open>The fields of a notification hash, and that they hold what \<open>notifyutil\<close> writes.\<close>

definition fields_of :: "int \<Rightarrow> redis \<Rightarrow> rkey \<Rightarrow> (string \<times> payload) list" where
  "fields_of t rs k = (case live t rs k of Some (RHash h) \<Rightarrow> h | _ \<Rightarrow> [])"

definition notify_hash :: "(string \<times> payload) list \<Rightarrow> bool" where
  "notify_hash h \<longleftrightarrow> distinct (map fst h) \<and>
     (\<forall>(f, p) \<in> set h. \<exists>i n. int64_range i \<and> f = itoa i \<and> p = JNotif n \<and> nNotificationID n = f)"

definition notify_ok :: "int \<Rightarrow> redis \<Rightarrow> int \<Rightarrow> bool" where
  "notify_ok t rs agentID \<longleftrightarrow> notify_hash (fields_of t rs (PMNotify agentID)) \<and>
     (\<forall>v. live t rs (PMNotify agentID) = Some v \<longrightarrow> (\<exists>h. v = RHash h))"

lemma hash_values_fields: "hash_values k w = map snd (fields_of (w_now w) (w_redis w) k)"
  by (simp add: hash_values_def fields_of_def HVALS_def value_or_def split: option.splits rval.splits)

lemma hset_expire_result:
  assumes "\<forall>v. live t rs k = Some v \<longrightarrow> (\<exists>h. v = RHash h)"
  shows "hset_expire k f p t rs = (Inr (), rs(k \<mapsto> (RHash (AList.update f p (fields_of t rs k)), Some (t + pmNotifyTTL))))"
  using assms by (auto simp: hset_expire_def HSET_def EXPIRE_def fields_of_def expiry_def live_def fun_upd_def
      split: option.splits if_splits rval.splits prod.splits)

lemma notify_hash_update:
  assumes "notify_hash h" "int64_range i" "nNotificationID n = itoa i"
  shows "notify_hash (AList.update (itoa i) (JNotif n) h)"
proof -
  have "(f, p) = (itoa i, JNotif n) \<or> (f, p) \<in> set h" if "(f, p) \<in> set (AList.update (itoa i) (JNotif n) h)" for f p
    using that by (induction h) (auto split: if_splits)
  then show ?thesis
    using assms distinct_update [of h "itoa i" "JNotif n"] by (fastforce simp: notify_hash_def)
qed

lemma notify_hash_filter: "notify_hash h \<Longrightarrow> notify_hash (filter P h)"
  by (auto simp: notify_hash_def distinct_map_filter)

lemma friend_entries:
  assumes "notify_hash h"
  shows "set (List.map_filter friend_pending (List.map_filter json_PMNotification (map snd h))) =
    {the (friend_pending n) | n i. (itoa i, JNotif n) \<in> set h \<and> int64_range i}"
proof -
  have one: "(f, p) \<in> set h \<Longrightarrow> \<exists>i n. f = itoa i \<and> int64_range i \<and> p = JNotif n \<and> friend_pending n \<noteq> None" for f p
    using assms by (fastforce simp: notify_hash_def friend_pending_def ParseInt64_itoa)
  show ?thesis
  proof (intro set_eqI iffI; clarify)
    fix x assume "x \<in> set (List.map_filter friend_pending (List.map_filter json_PMNotification (map snd h)))"
    then obtain f p n where fp: "(f, p) \<in> set h" "json_PMNotification p = Some n" "friend_pending n = Some x"
      by (fastforce simp: map_filter_def)
    with one [OF fp(1)] show "\<exists>n i. x = the (friend_pending n) \<and> (itoa i, JNotif n) \<in> set h \<and> int64_range i" by force
  next
    fix n i assume n: "(itoa i, JNotif n) \<in> set h"
    then have "n \<in> set (List.map_filter json_PMNotification (map snd h))" by (force simp: map_filter_def)
    then show "the (friend_pending n) \<in> set (List.map_filter friend_pending (List.map_filter json_PMNotification (map snd h)))"
      using one [OF n] by (force simp: map_filter_def)
  qed
qed

lemma friend_entry_id:
  assumes "notify_hash h" "(itoa i, JNotif n) \<in> set h" "int64_range i"
  shows "pnNotificationId (the (friend_pending n)) = i" "pnSourceType (the (friend_pending n)) = SourceTypeFriendRequest"
proof -
  have "nNotificationID n = itoa i" using assms(1,2) by (fastforce simp: notify_hash_def)
  then show "pnNotificationId (the (friend_pending n)) = i" "pnSourceType (the (friend_pending n)) = SourceTypeFriendRequest"
    using assms(3) by (simp_all add: friend_pending_def ParseInt64_itoa plain_pending_def)
qed

lemma friend_entries_without:
  assumes "notify_hash h" "int64_range i"
  shows "set (List.map_filter friend_pending (List.map_filter json_PMNotification (map snd (filter (\<lambda>e. fst e \<notin> {itoa i}) h)))) =
    {x \<in> set (List.map_filter friend_pending (List.map_filter json_PMNotification (map snd h))). pnNotificationId x \<noteq> i}"
  unfolding friend_entries [OF assms(1)] friend_entries [OF notify_hash_filter [OF assms(1)]]
  using friend_entry_id(1) [OF assms(1)] by (auto simp: itoa_inject)

text \<open>The other sources do not name friend requests.\<close>

lemma other_sources:
  "x \<in> set (shown_milestones a w) \<Longrightarrow> pnSourceType x = SourceTypeMilestone"
  "x \<in> set (map system_pending (shown_system s a vars w)) \<Longrightarrow> pnSourceType x = SourceTypeSystem"
  "x \<in> set (shown_inbox s a w) \<Longrightarrow> pnSourceType x = SourceTypeCommissionOrder \<or> pnSourceType x = SourceCommissionModeration"
  by (auto simp: shown_milestones_def milestone_pending_def plain_pending_def map_filter_def system_pending_def
      shown_inbox_def inbox_row_pending_def inbox_pending_def validInboxSource_def Let_def split: if_splits)

lemma shown_without_friends:
  assumes "w_db w' = w_db w" "w_now w' = w_now w" "\<And>k. k \<noteq> PMNotify a \<Longrightarrow> w_redis w' k = w_redis w k"
  shows "shown_milestones a w' = shown_milestones a w" "shown_system s a vars w' = shown_system s a vars w"
    "shown_inbox s a w' = shown_inbox s a w"
  using assms by (simp_all add: shown_milestones_def shown_system_def shown_inbox_def hash_values_fields fields_of_def live_def)

definition list_all_pending :: "NotificationServiceImpl \<Rightarrow> (string \<Rightarrow> string) \<Rightarrow> int \<Rightarrow> world \<Rightarrow> PendingNotification set" where
  "list_all_pending s vars agentID w =
     set (lrNotifications (fst (run_state (ListPending s vars \<lparr>lpAgentId = agentID, lpLimit = None, lpCursor = NoCursor\<rparr>) w)))"

lemma list_all_shown:
  assumes "quiet w" "0 < agentID" "0 < w_now w"
  shows "list_all_pending s vars agentID w = set (shown s agentID vars w)"
proof -
  obtain found where "run_state (gather_pending s agentID vars) w = (Inr found, w)" "mset found = mset (shown s agentID vars w)"
    using quiet_gather [OF assms] by blast
  then show ?thesis
    using assms(2) by (auto simp: list_all_pending_def ListPending_def decodePendingCursor_def Let_def dest: mset_eq_setD)
qed

lemma live_later: "w_redis w k = Some (v, Some e) \<Longrightarrow> w_now w < e \<Longrightarrow> fields_of (w_now w) (w_redis w) k = (case v of RHash h \<Rightarrow> h | _ \<Rightarrow> [])"
  by (simp add: fields_of_def live_def split: rval.splits)

lemma written_notification:
  assumes q: "quiet w" and ok: "notify_ok (w_now w) (w_redis w) agentID"
    and m: "m = WriteFriendRequestNotification r agentID f sid name greeting \<and> i = r \<or>
      m = WriteFriendResponseNotification r agentID f sid name kind reason \<and> i = - r"
  shows "\<exists>n. nNotificationID n = itoa i \<and> run_state m w = (Inr (), w\<lparr>w_redis := (w_redis w)(PMNotify agentID \<mapsto>
    (RHash (AList.update (itoa i) (JNotif n) (fields_of (w_now w) (w_redis w) (PMNotify agentID))), Some (w_now w + pmNotifyTTL)))\<rparr>)"
proof -
  have typed: "\<forall>v. live (w_now w) (w_redis w) (PMNotify agentID) = Some v \<longrightarrow> (\<exists>h. v = RHash h)"
    using ok by (simp add: notify_ok_def)
  have run: "run_state (redis_cmd (hset_expire (PMNotify agentID) fld p)) w = (Inr (), w\<lparr>w_redis := (w_redis w)(PMNotify agentID \<mapsto>
      (RHash (AList.update fld p (fields_of (w_now w) (w_redis w) (PMNotify agentID))), Some (w_now w + pmNotifyTTL)))\<rparr>)" for fld p
    using q by (intro quiet_cmd hset_expire_result [OF typed])
  show ?thesis
    using m
  proof (elim disjE conjE)
    assume a: "m = WriteFriendRequestNotification r agentID f sid name greeting" "i = r"
    show ?thesis
      by (rule exI [of _ "\<lparr>nNotificationID = itoa r, nType = ''friend_request'',
          nContent = request_content (singleLine name) greeting, nCreatedAt = w_now w, nFriendUID = f, nPeerShortID = sid,
          nPeerDisplayName = singleLine name\<rparr>"]) (simp add: a WriteFriendRequestNotification_def quiet_now run)
  next
    assume a: "m = WriteFriendResponseNotification r agentID f sid name kind reason" "i = - r"
    show ?thesis
      by (rule exI [of _ "\<lparr>nNotificationID = itoa (- r), nType = kind,
          nContent = response_content kind (singleLine name) reason, nCreatedAt = w_now w, nFriendUID = f, nPeerShortID = sid,
          nPeerDisplayName = singleLine name\<rparr>"]) (simp add: a WriteFriendResponseNotification_def quiet_now run)
  qed
qed

lemma ack_friend_run:
  assumes q: "quiet w"
  shows "\<exists>rs. run_state (AckNotifications \<lparr>aqAgentId = agentID,
      aqItems = [Some \<lparr>akNotificationId = i, akSourceType = SourceTypeFriendRequest\<rparr>]\<rparr>) w = (success, w\<lparr>w_redis := rs\<rparr>) \<and>
    (\<forall>k. k \<noteq> PMNotify agentID \<longrightarrow> rs k = w_redis w k) \<and>
    fields_of (w_now w) rs (PMNotify agentID) =
      filter (\<lambda>e. fst e \<notin> {itoa i}) (fields_of (w_now w) (w_redis w) (PMNotify agentID))"
proof -
  obtain r rs where cmd: "HDEL (PMNotify agentID) [itoa i] (w_now w) (w_redis w) = (r, rs)" by force
  have "\<forall>k. k \<noteq> PMNotify agentID \<longrightarrow> rs k = w_redis w k"
    using cmd by (auto simp: HDEL_def Let_def split: option.splits rval.splits if_splits)
  moreover have "fields_of (w_now w) rs (PMNotify agentID) =
      filter (\<lambda>e. fst e \<notin> {itoa i}) (fields_of (w_now w) (w_redis w) (PMNotify agentID))"
    using cmd by (auto simp: HDEL_def Let_def fields_of_def live_def expiry_def split: option.splits rval.splits if_splits prod.splits)
  ultimately show ?thesis
    using quiet_cmd [of w "HDEL (PMNotify agentID) [itoa i]" r rs, OF q cmd] by (auto simp: AckNotifications_def ack_durable_def ids_of_def map_filter_def quiet_now ack_best_effort_def
        DeleteMilestoneNotifications_def MarkMilestoneEventsNotified_def RecordDeliveries_def DeletePMNotifications_dal_def)
qed


section \<open>Durable notifications\<close>

text \<open>A transaction leaves the tables as they were or as its body left them.\<close>

lemma transaction_either:
  assumes body: "tx_valid P m Q" and pre: "P (w_db w)" and run: "run_state (transaction m) w = (r, w')"
  shows "(\<exists>e d. r = Inl e \<and> w_db w' = rollback_db (w_db w) d) \<or> (\<exists>x. Q x (w_db w'))"
proof -
  obtain oc e n where st: "run_state io_step w = (oc, w\<lparr>w_env := e, w_now := n\<rparr>)"
    using run_io_step by blast
  let ?w1 = "w\<lparr>w_env := e, w_now := n, w_in_tx := True, w_tx_failed := False\<rparr>"
  obtain r1 w2 where r1: "run_state m ?w1 = (r1, w2)" by force
  have "tx_state P ?w1" using pre by (simp add: tx_state_def)
  from validD [OF body [unfolded tx_valid_def] this r1]
  have post: "\<And>x. r1 = Inr x \<Longrightarrow> w_tx_failed w2 \<or> Q x (w_db w2)" by (simp add: tx_state_def)
  have same: "\<exists>d. w_db w = rollback_db (w_db w) d" by (rule exI [of _ "w_db w"]) (simp add: rollback_db_def)
  obtain oc' e' n' where st': "run_state io_step (w2\<lparr>w_in_tx := False, w_tx_failed := False, w_locks := []\<rparr>) =
      (oc', w2\<lparr>w_in_tx := False, w_tx_failed := False, w_locks := [], w_env := e', w_now := n'\<rparr>)"
    using run_io_step by blast
  show ?thesis
    using run st r1 st' post
    by (cases oc; cases r1; cases "w_tx_failed w2"; cases oc') (auto simp: transaction_def intro: same)
qed

definition ack_source :: "int \<Rightarrow> string \<Rightarrow> int list \<Rightarrow> int \<Rightarrow> database \<Rightarrow> database" where
  "ack_source agentID source ids now d = d\<lparr>notification_inbox := update_where
     (\<lambda>r. named_rows agentID source ids r \<and> ibAcknowledgedAt r = None) (\<lambda>r. r\<lparr>ibAcknowledgedAt := Some now\<rparr>) (notification_inbox d)\<rparr>"

definition owns_all :: "int \<Rightarrow> string \<Rightarrow> int list \<Rightarrow> database \<Rightarrow> bool" where
  "owns_all agentID source ids d \<longleftrightarrow>
     (\<forall>i \<in> set ids. \<exists>r \<in> set (notification_inbox d). ibAgentID r = agentID \<and> ibSourceType r = source \<and> ibNotificationID r = i)"

lemma unique_ids_Cons:
  "unique_ids (i # is) seen = Inr u \<longleftrightarrow>
    0 < i \<and> (if i \<in> set seen then unique_ids is seen = Inr u else (\<exists>v. unique_ids is (i # seen) = Inr v \<and> u = i # v))"
  by (cases "unique_ids is (i # seen)") auto

lemma unique_ids_ok: "unique_ids ids seen = Inr u \<Longrightarrow> set u = set ids - set seen \<and> distinct u"
proof (induction ids arbitrary: seen u)
  case (Cons i "is")
  then show ?case
  proof (cases "i \<in> set seen")
    case True
    then have "unique_ids is seen = Inr u" using Cons.prems by (simp only: unique_ids_Cons if_True)
    with Cons.IH have "set u = set is - set seen \<and> distinct u" .
    then show ?thesis using True by auto
  next
    case False
    then obtain v where v: "unique_ids is (i # seen) = Inr v" "u = i # v"
      using Cons.prems by (simp only: unique_ids_Cons if_False) blast
    from Cons.IH [OF v(1)] have "set v = set is - set (i # seen) \<and> distinct v" .
    then show ?thesis using False v(2) by auto
  qed
qed simp

lemma owned_covers:
  assumes "distinct (map ibNotificationID rows)" "distinct u" "length (filter (named_rows a src u) rows) = length u" "i \<in> set u"
  shows "\<exists>r \<in> set rows. ibAgentID r = a \<and> ibSourceType r = src \<and> ibNotificationID r = i"
proof -
  let ?owned = "map ibNotificationID (filter (named_rows a src u) rows)"
  have "distinct ?owned" using assms(1) by (simp add: distinct_map_filter)
  moreover have "set ?owned \<subseteq> set u" by (auto simp: named_rows_def)
  ultimately have "set ?owned = set u"
    using assms(2,3) by (intro card_subset_eq) (simp_all add: distinct_card del: set_map set_filter)
  with assms(4) have "i \<in> set ?owned" by blast
  then show ?thesis by (auto simp: named_rows_def)
qed

lemma tx_ack_source:
  assumes "\<And>d. P d \<Longrightarrow> distinct (map ibNotificationID (notification_inbox d))"
  shows "tx_valid P (AckInboxNotificationsBySource a src ids now)
    (\<lambda>_ d. \<exists>d0. P d0 \<and> d = ack_source a src ids now d0 \<and> owns_all a src ids d0)"
proof -
  have "tx_valid P (ack_inbox_tx a src u now) (\<lambda>_ d. \<exists>d0. P d0 \<and> d = ack_source a src ids now d0 \<and> owns_all a src ids d0)"
    if u: "unique_ids ids [] = Inr u" for u
  proof -
    have u': "set u = set ids" "distinct u" using unique_ids_ok [OF u] by simp_all
    then have named: "named_rows a src u = named_rows a src ids" by (simp add: named_rows_def fun_eq_iff)
    show ?thesis
      unfolding ack_inbox_tx_def
    proof (rule tx_and_then [OF tx_db_query], rule tx_if)
      fix owned :: "InboxNotification list" assume len: "\<not> length owned \<noteq> length u"
      have all: "owns_all a src ids d" if "P d" "owned = filter (named_rows a src u) (notification_inbox d)" for d
        using owned_covers [OF assms [OF that(1)] u'(2), of a src] len that(2) u'(1) by (simp add: owns_all_def)
      show "tx_valid (\<lambda>d. P d \<and> owned = filter (named_rows a src u) (notification_inbox d))
          (db_stmt (update_inbox (\<lambda>r. named_rows a src u r \<and> ibAcknowledgedAt r = None) (\<lambda>r. r\<lparr>ibAcknowledgedAt := Some now\<rparr>)))
          (\<lambda>_ d. \<exists>d0. P d0 \<and> d = ack_source a src ids now d0 \<and> owns_all a src ids d0)"
        by (rule tx_weaken [OF tx_db_stmt]) (use all in \<open>auto simp: update_inbox_def ack_source_def named\<close>)
    qed (rule tx_error)
  qed
  then show ?thesis
    unfolding AckInboxNotificationsBySource_def by (auto intro!: tx_intros split: sum.splits)
qed

text \<open>Both sources at once.\<close>

definition ack_rows :: "int \<Rightarrow> AckItem option list \<Rightarrow> int \<Rightarrow> InboxNotification list \<Rightarrow> InboxNotification list" where
  "ack_rows agentID items now = update_where
     (\<lambda>r. ibAgentID r = agentID \<and> validInboxSource (ibSourceType r) \<and>
        ibNotificationID r \<in> set (ids_of (ibSourceType r) items) \<and> ibAcknowledgedAt r = None)
     (\<lambda>r. r\<lparr>ibAcknowledgedAt := Some now\<rparr>)"

lemma update_where_two:
  "(\<And>x. P x \<Longrightarrow> \<not> Q (f x)) \<Longrightarrow> update_where Q f (update_where P f xs) = update_where (\<lambda>x. P x \<or> Q x) f xs"
  by (induction xs) auto

lemma ack_both: "notification_inbox (ack_source a SourceCommissionModeration (ids_of SourceCommissionModeration items) now
    (ack_source a SourceTypeCommissionOrder (ids_of SourceTypeCommissionOrder items) now d)) = ack_rows a items now (notification_inbox d)"
proof -
  have pick: "(named_rows a SourceTypeCommissionOrder (ids_of SourceTypeCommissionOrder items) r \<and> ibAcknowledgedAt r = None \<or>
      named_rows a SourceCommissionModeration (ids_of SourceCommissionModeration items) r \<and> ibAcknowledgedAt r = None) =
    (ibAgentID r = a \<and> validInboxSource (ibSourceType r) \<and> ibNotificationID r \<in> set (ids_of (ibSourceType r) items) \<and>
      ibAcknowledgedAt r = None)" for r
    by (auto simp: named_rows_def validInboxSource_def)
  show ?thesis
    unfolding ack_source_def ack_rows_def by (simp add: update_where_two pick)
qed

lemma ack_source_none: "ack_source a src [] now d = d"
  by (simp add: ack_source_def update_where_none named_rows_def)

lemma owns_all_ack: "owns_all a src ids (ack_source a src' ids' now d) \<longleftrightarrow> owns_all a src ids d"
proof -
  have "(\<exists>r \<in> set (update_where P (\<lambda>r. r\<lparr>ibAcknowledgedAt := v\<rparr>) rows). ibAgentID r = a \<and> ibSourceType r = src \<and> ibNotificationID r = i) \<longleftrightarrow>
      (\<exists>r \<in> set rows. ibAgentID r = a \<and> ibSourceType r = src \<and> ibNotificationID r = i)" for P v i and rows :: "InboxNotification list"
    by (induction rows) auto
  then show ?thesis by (simp add: owns_all_def ack_source_def)
qed

lemma ack_source_distinct: "distinct (map ibNotificationID (notification_inbox (ack_source a src ids now d))) \<longleftrightarrow>
    distinct (map ibNotificationID (notification_inbox d))"
  by (simp add: ack_source_def update_where_def o_def if_distrib cong: map_cong if_cong)

lemma ack_source_others:
  "milestone_events (ack_source a src ids now d) = milestone_events d"
  "notification_deliveries (ack_source a src ids now d) = notification_deliveries d"
  by (simp_all add: ack_source_def)

lemma tx_ack_durable:
  assumes "distinct (map ibNotificationID (notification_inbox d0))"
  shows "tx_valid (\<lambda>d. d = d0) (ack_durable_tx a items now) (\<lambda>_ d.
    notification_inbox d = ack_rows a items now (notification_inbox d0) \<and> milestone_events d = milestone_events d0 \<and>
    notification_deliveries d = notification_deliveries d0 \<and>
    owns_all a SourceTypeCommissionOrder (ids_of SourceTypeCommissionOrder items) d \<and>
    owns_all a SourceCommissionModeration (ids_of SourceCommissionModeration items) d)"
proof -
  let ?os = "ids_of SourceTypeCommissionOrder items" and ?ms = "ids_of SourceCommissionModeration items"
  have none: "owns_all a src [] d" for src d by (simp add: owns_all_def)
  have ones: "tx_valid P (if ids = [] then ret (Inr ()) else AckInboxNotificationsBySource a src ids now)
      (\<lambda>_ d. \<exists>d0. P d0 \<and> d = ack_source a src ids now d0 \<and> owns_all a src ids d0)"
    if "\<And>d. P d \<Longrightarrow> distinct (map ibNotificationID (notification_inbox d))" for P src ids
    using tx_ack_source [OF that] by (auto intro!: tx_return simp: ack_source_none none)
  show ?thesis
    unfolding ack_durable_tx_def
  proof (rule tx_and_then [OF ones], goal_cases)
    case 1
    then show ?case using assms by simp
  next
    case (2 x)
    show ?case
      by (rule tx_weaken [OF ones]) (use assms in \<open>auto simp: ack_source_distinct ack_both owns_all_ack ack_source_others\<close>)
  qed
qed

lemma insert_deliveries_inbox: "insert_deliveries rs d = (r, d') \<Longrightarrow> notification_inbox d' = notification_inbox d"
  by (induction rs d rule: insert_deliveries.induct) (auto split: if_splits)

lemma best_effort_inbox: "preserves (on_stores (\<lambda>d rs. notification_inbox d = X)) (ack_best_effort a items now)"
  unfolding ack_best_effort_def DeleteMilestoneNotifications_def MarkMilestoneEventsNotified_def RecordDeliveries_def
    DeletePMNotifications_dal_def
  by (intro io_intros preserves_db_stmt preserves_redis_cmd) (auto simp: mark_milestones_def dest: insert_deliveries_inbox)

lemma keeps_redis_durable: "keeps w_redis (transaction (ack_durable_tx a items now))"
  unfolding ack_durable_tx_def AckInboxNotificationsBySource_def ack_inbox_tx_def by (intro io_intros)

lemma acked_after: "r \<in> set rows \<Longrightarrow> validInboxSource (ibSourceType r) \<Longrightarrow> ibNotificationID r \<in> set (ids_of (ibSourceType r) items) \<Longrightarrow>
    \<exists>r' \<in> set (ack_rows (ibAgentID r) items now rows). ibNotificationID r' = ibNotificationID r \<and> ibAgentID r' = ibAgentID r \<and>
      ibSourceType r' = ibSourceType r \<and> ibAcknowledgedAt r' \<noteq> None"
proof -
  let ?P = "\<lambda>x. ibAgentID x = ibAgentID r \<and> validInboxSource (ibSourceType x) \<and>
      ibNotificationID x \<in> set (ids_of (ibSourceType x) items) \<and> ibAcknowledgedAt x = None"
  let ?x = "if ?P r then r\<lparr>ibAcknowledgedAt := Some now\<rparr> else r"
  assume r: "r \<in> set rows" "validInboxSource (ibSourceType r)" "ibNotificationID r \<in> set (ids_of (ibSourceType r) items)"
  have "?x \<in> set (ack_rows (ibAgentID r) items now rows)"
    unfolding ack_rows_def set_update_where using r(1) by (rule rev_image_eqI) (rule refl)
  moreover have "ibNotificationID ?x = ibNotificationID r \<and> ibAgentID ?x = ibAgentID r \<and> ibSourceType ?x = ibSourceType r \<and>
      ibAcknowledgedAt ?x \<noteq> None" using r(2,3) by simp
  ultimately show ?thesis by (rule rev_bexI)
qed

lemma ack_rows_again: "ack_rows a items now (ack_rows a items now rows) = ack_rows a items now rows"
  unfolding ack_rows_def by (subst update_where_two) simp_all

text \<open>C16: whatever fails on the way, an acknowledgement marks all durable notifications it names or none of
  them, and touches no other row of the inbox. When it reports success, each of them belongs to the
  caller and is acknowledged; when it reports an error, nothing outside the inbox has changed either.\<close>

theorem ack_all_or_nothing:
  assumes "run_state (AckNotifications req) w = (resp, w')" "distinct (map ibNotificationID (notification_inbox (w_db w)))"
  shows "(notification_inbox (w_db w') = notification_inbox (w_db w) \<or>
      notification_inbox (w_db w') = ack_rows (aqAgentId req) (aqItems req) (w_now w) (notification_inbox (w_db w))) \<and>
    (resp = success \<longrightarrow> (\<forall>source \<in> {SourceTypeCommissionOrder, SourceCommissionModeration}. \<forall>i \<in> set (ids_of source (aqItems req)).
      \<exists>r \<in> set (notification_inbox (w_db w')). ibNotificationID r = i \<and> ibAgentID r = aqAgentId req \<and> ibSourceType r = source \<and>
        ibAcknowledgedAt r \<noteq> None)) \<and>
    (resp \<noteq> success \<longrightarrow> w_redis w' = w_redis w \<and> milestone_events (w_db w') = milestone_events (w_db w) \<and>
      notification_deliveries (w_db w') = notification_deliveries (w_db w))"
proof -
  let ?a = "aqAgentId req" and ?items = "aqItems req" and ?now = "w_now w" and ?rows = "notification_inbox (w_db w)"
  let ?os = "ids_of SourceTypeCommissionOrder ?items" and ?ms = "ids_of SourceCommissionModeration ?items"
  obtain r w1 where r: "run_state (ack_durable ?a ?items ?now) w = (r, w1)" by force
  show ?thesis
  proof (cases "?items = []")
    case True
    then show ?thesis using assms(1) by (auto simp: AckNotifications_def ids_of_def map_filter_def)
  next
    case False
    have run: "run_state (AckNotifications req) w = (case r of
        Inl _ \<Rightarrow> (base_resp 500 ''failed to acknowledge durable notifications'', w1)
      | Inr _ \<Rightarrow> (success, snd (run_state (ack_best_effort ?a ?items ?now) w1)))"
      using False r by (simp add: AckNotifications_def quiet_now split_beta split: sum.splits)
    let ?Q = "\<lambda>d. notification_inbox d = ack_rows ?a ?items ?now ?rows \<and> milestone_events d = milestone_events (w_db w) \<and>
      notification_deliveries d = notification_deliveries (w_db w) \<and>
      owns_all ?a SourceTypeCommissionOrder ?os d \<and> owns_all ?a SourceCommissionModeration ?ms d"
    have noop: "ack_rows ?a ?items ?now ?rows = ?rows" if "?os = []" "?ms = []"
      unfolding ack_rows_def by (rule update_where_none) (use that in \<open>auto simp: validInboxSource_def\<close>)
    have res: "(\<exists>e d. r = Inl e \<and> w_db w1 = rollback_db (w_db w) d) \<or> ?Q (w_db w1)"
    proof (cases "?os = [] \<and> ?ms = []")
      case True
      then show ?thesis using r noop by (auto simp: ack_durable_def owns_all_def)
    next
      case False
      then have "run_state (transaction (ack_durable_tx ?a ?items ?now)) w = (r, w1)"
        using r unfolding ack_durable_def by (simp only: if_False)
      from transaction_either [OF tx_ack_durable [OF assms(2)] refl this] show ?thesis by blast
    qed
    have redis: "w_redis w1 = w_redis w"
      using keepsD [OF keeps_redis_durable] r by (auto simp: ack_durable_def split: if_splits)
    show ?thesis
    proof (cases r)
      case (Inl e)
      then show ?thesis using res redis run assms(1) by (auto simp: rollback_db_def)
    next
      case (Inr u)
      then have resp: "resp = success" and w': "w' = snd (run_state (ack_best_effort ?a ?items ?now) w1)"
        using run assms(1) by auto
      have q: "?Q (w_db w1)" using res Inr by auto
      have inbox: "notification_inbox (w_db w') = ack_rows ?a ?items ?now ?rows"
        using preserves_run [OF best_effort_inbox [of "ack_rows ?a ?items ?now ?rows" ?a ?items ?now], of w1] q w' by simp
      have "\<exists>r \<in> set (notification_inbox (w_db w')). ibNotificationID r = i \<and> ibAgentID r = ?a \<and> ibSourceType r = source \<and>
          ibAcknowledgedAt r \<noteq> None"
        if s: "source \<in> {SourceTypeCommissionOrder, SourceCommissionModeration}" "i \<in> set (ids_of source ?items)" for source i
      proof -
        obtain r where r: "r \<in> set (notification_inbox (w_db w1))" "ibAgentID r = ?a" "ibSourceType r = source" "ibNotificationID r = i"
          using q s by (auto simp: owns_all_def)
        from acked_after [OF r(1), of ?items ?now] s r show ?thesis
          using q inbox ack_rows_again [of ?a ?items ?now ?rows] by (auto simp: validInboxSource_def)
      qed
      then show ?thesis using resp inbox by simp
    qed
  qed
qed

section \<open>Concrete worlds\<close>

text \<open>
  Agent 1 has answers to two friend requests, an acknowledged and an open order, and a milestone; nobody has been
  told of the announcement 5.
\<close>

definition plain_service :: NotificationServiceImpl where
  "plain_service = \<lparr>json_decode = (\<lambda>_. Some JsonNull), jsonb_text = id, unmarshal_moderation = (\<lambda>_. None),
     raw_fields = (\<lambda>_. None), expr_run = (\<lambda>_ _. Inr False)\<rparr>"

definition demo_order :: "int \<Rightarrow> InboxNotification" where
  "demo_order i = \<lparr>ibNotificationID = i, ibAgentID = 1, ibSourceType = ''commission_order'', ibSourceID = i,
     ibDedupeKey = itoa i, ibEventKind = ''paid'', ibOrderID = 9, ibOrderVersion = 1, ibPayloadJSON = ''{}'', ibOccurredAt = 40,
     ibReceivedAt = 41, ibExpiresAt = 500, ibAcknowledgedAt = None, ibLastDeliveryError = []\<rparr>"

definition inbox_world :: world where
  "inbox_world = empty_world\<lparr>w_now := 100, w_db := empty_db\<lparr>notification_inbox :=
       [demo_order 30, (demo_order 31)\<lparr>ibAcknowledgedAt := Some 60\<rparr>, demo_order 32]\<rparr>,
     w_redis := [MilestoneNotify 1 \<mapsto> (RHash [(''12'', JMilestone
         \<lparr>mnNotificationID = ''12'', mnType = ''milestone'', mnContent = [], mnCreatedAt = 70\<rparr>)], None),
       SystemActive \<mapsto> (RHash [(''5'', JActive \<lparr>acNotificationID = 5, acType = ''announcement'', acContent = [], acStatus = 1,
         acAudienceType = ''broadcast'', acStartAt = 0, acEndAt = 0, acOfflineAt = 0, acCreatedAt = 10, acAudienceExpression = []\<rparr>)], None)]\<rparr>"

lemmas eval_inbox = inbox_world_def empty_world_def empty_db_def demo_order_def plain_service_def

lemma demo_numbers: "ParseInt64 ''12'' = Some 12" "ParseInt64 ''-71'' = Some (- 71)" "itoa (- 71) = ''-71''" "itoa 71 = ''71''"
  "itoa (- 70) = ''-70''" "ParseInt64 ''-70'' = Some (- 70)" "itoa 30 = ''30''" "itoa 31 = ''31''" "itoa 32 = ''32''"
  by code_simp+

lemma demo_shown:
  "map (\<lambda>n. (pnSourceType n, pnNotificationId n)) (shown plain_service 1 vars inbox_world) =
    [(''milestone'', 12), (''system'', 5), (''commission_order'', 30), (''commission_order'', 32)]"
  "map pending_key (shown plain_service 1 vars inbox_world) =
    [(70, 12, ''milestone''), (10, 5, ''system''), (40, 30, ''commission_order''), (40, 32, ''commission_order'')]"
  by (simp_all add: eval_inbox shown_def shown_milestones_def shown_system_def shown_friends_def shown_inbox_def hash_values_def
      value_or_def HVALS_def live_def map_filter_def milestone_pending_def system_pending_def plain_pending_def demo_numbers
      notification_of_payload_def addressed_def IsActive_def inbox_pending_def validInboxSource_def inbox_row_pending_def
      pending_key_def Let_def)

lemma map_insort: "map f (insort_key f x xs) = insort (f x) (map f xs)"
  by (induction xs) auto

lemma map_sort_key: "map f (sort_key f xs) = sort (map f xs)"
  by (induction xs) (simp_all add: map_insort)

lemma pageable_key: "pageable n \<longleftrightarrow> 0 < fst (pending_key n) \<and> 0 < fst (snd (pending_key n)) \<and> snd (snd (pending_key n)) \<noteq> []"
  by (simp add: pageable_def pending_key_def)


text \<open>The answers to the requests 70 and 71 of agent 1.\<close>

definition answers_world :: world where
  "answers_world = exec_st (do {
     _ \<leftarrow> WriteFriendResponseNotification 70 1 2 [] [] ''friend_rejected'' [];
     WriteFriendResponseNotification 71 1 3 [] [] ''friend_accepted'' [] }) (empty_world\<lparr>w_now := 100\<rparr>)"

lemma demo_single: "singleLine [] = []"
  by code_simp

lemma answers_shown:
  "quiet answers_world" "w_now answers_world = 100"
  "map pending_key (shown plain_service 1 vars answers_world) = [(100, - 70, ''friend_request''), (100, - 71, ''friend_request'')]"
  by (simp_all add: answers_world_def exec_st_def WriteFriendResponseNotification_def demo_single quiet_def run_rules now_ms_def
      hset_expire_def eval_cmds eval_inbox shown_def shown_milestones_def shown_system_def shown_friends_def shown_inbox_def
      hash_values_def value_or_def HVALS_def map_filter_def friend_pending_def plain_pending_def demo_numbers pending_key_def)

theorem response_cursor_rejected_witness:
  "\<exists>resp c. run_state (ListPending plain_service (\<lambda>_. []) \<lparr>lpAgentId = 1, lpLimit = Some 1, lpCursor = NoCursor\<rparr>) answers_world =
      (resp, answers_world) \<and> lrHasMore resp = Some True \<and> lrNextCursor resp = Some c \<and>
    run_state (ListPending plain_service (\<lambda>_. []) \<lparr>lpAgentId = 1, lpLimit = Some 1, lpCursor = c\<rparr>) answers_world =
      (listPendingError 400 ''invalid cursor'', answers_world)"
proof -
  let ?req = "\<lparr>lpAgentId = 1, lpLimit = Some 1, lpCursor = NoCursor\<rparr>" and ?xs = "shown plain_service 1 (\<lambda>_. []) answers_world"
  have keys: "map pending_key (sort_key pending_key ?xs) = [(100, - 71, ''friend_request''), (100, - 70, ''friend_request'')]"
    by (simp add: map_sort_key answers_shown)
  have len: "length ?xs = 2" using arg_cong [OF keys, of length] by simp
  then have ne: "sort_key pending_key ?xs \<noteq> []" by (metis length_sort list.size(3) zero_neq_numeral)
  from list_pending_run [of answers_world ?req None plain_service "\<lambda>_. []"]
  have "\<exists>resp. run_state (ListPending plain_service (\<lambda>_. []) ?req) answers_world = (resp, answers_world) \<and>
    lrBaseResp resp = success \<and> lrNotifications resp = take 1 (sort_key pending_key ?xs) \<and> lrHasMore resp = Some True \<and>
    lrNextCursor resp = Some (encodePendingCursor (last (take 1 (sort_key pending_key ?xs))))"
    using ne by (simp add: answers_shown len Let_def decodePendingCursor_def)
  then obtain resp where resp: "run_state (ListPending plain_service (\<lambda>_. []) ?req) answers_world = (resp, answers_world)"
    "lrNotifications resp = take 1 (sort_key pending_key ?xs)" "lrHasMore resp = Some True"
    "lrNextCursor resp = Some (encodePendingCursor (last (take 1 (sort_key pending_key ?xs))))" by blast
  have "pending_key (last (lrNotifications resp)) = (100, - 71, ''friend_request'')"
    using keys resp(2) by (cases "sort_key pending_key ?xs") auto
  then have "pnNotificationId (last (lrNotifications resp)) \<le> 0" by (simp add: pending_key_def)
  from response_cursor_rejected [OF resp(1,4) this zero_less_one, of answers_world]
  have "run_state (ListPending plain_service (\<lambda>_. []) \<lparr>lpAgentId = 1, lpLimit = Some 1,
      lpCursor = encodePendingCursor (last (take 1 (sort_key pending_key ?xs)))\<rparr>) answers_world =
    (listPendingError 400 ''invalid cursor'', answers_world)" by simp
  with resp(1,3,4) show ?thesis by blast
qed


theorem ack_all_or_nothing_witness:
  "\<exists>w'. run_state (AckNotifications \<lparr>aqAgentId = 1, aqItems = [Some \<lparr>akNotificationId = 30, akSourceType = ''commission_order''\<rparr>,
      None, Some \<lparr>akNotificationId = 32, akSourceType = ''commission_order''\<rparr>]\<rparr>) inbox_world = (success, w') \<and>
    (\<forall>i \<in> {30, 32}. \<exists>r \<in> set (notification_inbox (w_db w')). ibNotificationID r = i \<and> ibAcknowledgedAt r \<noteq> None)"
proof -
  let ?req = "\<lparr>aqAgentId = 1, aqItems = [Some \<lparr>akNotificationId = 30, akSourceType = ''commission_order''\<rparr>,
      None, Some \<lparr>akNotificationId = 32, akSourceType = ''commission_order''\<rparr>]\<rparr>"
  obtain w' where run: "run_state (AckNotifications ?req) inbox_world = (success, w')"
    by (simp add: AckNotifications_def ack_durable_def ack_durable_tx_def AckInboxNotificationsBySource_def ack_inbox_tx_def
        ids_of_def map_filter_def run_rules now_ms_def eval_inbox transaction_def and_then_def validInboxSource_def named_rows_def
        update_inbox_def ack_best_effort_def DeleteMilestoneNotifications_def MarkMilestoneEventsNotified_def RecordDeliveries_def
        DeletePMNotifications_dal_def)
  have "distinct (map ibNotificationID (notification_inbox (w_db inbox_world)))" by (simp add: eval_inbox)
  from ack_all_or_nothing [OF run this] run show ?thesis by (auto simp: ids_of_def map_filter_def)
qed

end
