(* ===== verification/Orders.thy ===== *)
theory Orders
  imports Consumers Delivery Pending
begin

text \<open>
  The way of a notification from the stream to the agent: the two handlers that fill the inbox meet the interface of
  the runtime, so no event is lost between stream and inbox, and a message that a crashed instance left behind
  reaches its recipient.
\<close>

section \<open>What the handlers leave in the inbox\<close>

definition same_row :: "InboxNotification \<Rightarrow> InboxNotification \<Rightarrow> bool" where
  "same_row r v \<longleftrightarrow> ibNotificationID r = ibNotificationID v \<and> ibAgentID r = ibAgentID v \<and> ibSourceType r = ibSourceType v \<and>
     ibSourceID r = ibSourceID v \<and> ibDedupeKey r = ibDedupeKey v \<and> ibEventKind r = ibEventKind v \<and> ibOrderID r = ibOrderID v \<and>
     ibOrderVersion r = ibOrderVersion v \<and> ibOccurredAt r = ibOccurredAt v"

definition in_inbox :: "InboxNotification \<Rightarrow> database \<Rightarrow> bool" where
  "in_inbox v d \<longleftrightarrow> (\<exists>r \<in> set (notification_inbox d). same_row r v)"

definition order_recorded :: "CommissionOrderNotificationConsumer \<Rightarrow> (string \<times> string) list \<Rightarrow> database \<Rightarrow> bool" where
  "order_recorded oc vs d =
     (case parseCommissionOrderNotification oc vs of Inl _ \<Rightarrow> False | Inr (event, payload) \<Rightarrow> in_inbox (order_row event 0) d)"

definition moderation_recorded :: "NotificationServiceImpl \<Rightarrow> (string \<times> string) list \<Rightarrow> database \<Rightarrow> bool" where
  "moderation_recorded s vs d \<longleftrightarrow> streamText (map_of vs ''topic'') \<noteq> CommissionModerationTopic \<or>
     (case parseCommissionModerationNotification s vs 0 of None \<Rightarrow> False | Some row \<Rightarrow> in_inbox row d)"

lemma in_inbox_seqs [simp]: "in_inbox v (d\<lparr>rel_seq := a, event_seq := b\<rparr>) = in_inbox v d"
  by (simp add: in_inbox_def)

lemma in_inbox_append: "in_inbox v d \<Longrightarrow> notification_inbox d' = notification_inbox d @ rs \<Longrightarrow> in_inbox v d'"
  by (auto simp: in_inbox_def)

lemma in_inbox_update:
  assumes "in_inbox v d" "\<And>r. same_row (f r) v = same_row r v"
  shows "in_inbox v (snd (update_inbox P f d))"
proof -
  obtain r where r: "r \<in> set (notification_inbox d)" "same_row r v" using assms(1) by (auto simp: in_inbox_def)
  let ?x = "if P r then f r else r"
  have "?x \<in> set (update_where P f (notification_inbox d))" unfolding set_update_where using r(1) by (rule rev_image_eqI) (rule refl)
  moreover have "same_row ?x v" using r(2) assms(2) by simp
  ultimately show ?thesis unfolding in_inbox_def update_inbox_def by auto
qed

lemma insert_inbox_effect:
  assumes "insert_inbox s row d = (Inr x, d')"
  shows "in_inbox v d \<Longrightarrow> in_inbox v d'" "x \<Longrightarrow> in_inbox row d'" "\<not> x \<Longrightarrow> d' = d"
  using assms by (auto simp: insert_inbox_def in_inbox_def same_row_def split: if_splits)

text \<open>Nothing that the handlers or the acknowledgement do takes a row away.\<close>

lemma update_keeps: "(\<And>r. same_row (f r) v = same_row r v) \<Longrightarrow> stmt_keeps (in_inbox v) (update_inbox P f)"
  unfolding stmt_keeps_def using in_inbox_update by (metis snd_conv)

lemma set_error_keeps: "preserves (on_stores (\<lambda>d rs. in_inbox v d)) (SetInboxDeliveryError i a e)"
proof -
  have keep: "stmt_keeps (in_inbox v) (update_inbox P (\<lambda>r. r\<lparr>ibLastDeliveryError := m\<rparr>))" for P m
    by (rule update_keeps) (simp add: same_row_def)
  show ?thesis
    unfolding SetInboxDeliveryError_def Let_def by (intro io_intros preserves_db_stmt) (use keep in \<open>auto simp: stmt_keeps_def\<close>)
qed

lemma insert_keeps: "preserves (on_stores (\<lambda>d rs. in_inbox v d)) (InsertInboxNotification s row)"
  unfolding InsertInboxNotification_def
  by (intro io_intros preserves_db_stmt) (auto intro: insert_inbox_effect(1))

lemma wake_keeps: "preserves (on_stores (\<lambda>d rs. in_inbox v d)) (wake_recipient row f)"
  unfolding wake_recipient_def by (intro io_intros set_error_keeps)

lemma store_keeps: "preserves (on_stores (\<lambda>d rs. in_inbox v d)) (store_and_wake s row f)"
  unfolding store_and_wake_def by (intro io_intros insert_keeps wake_keeps)

lemma ack_keeps: "preserves (on_stores (\<lambda>d rs. in_inbox v d)) (AckNotifications req)"
proof -
  have upd: "stmt_keeps (in_inbox v) (update_inbox P (\<lambda>r. r\<lparr>ibAcknowledgedAt := t\<rparr>))" for P t
    by (rule update_keeps) (simp add: same_row_def)
  have "tx_keeps (in_inbox v) (AckInboxNotificationsBySource a src ids t)" for a src ids t
    unfolding AckInboxNotificationsBySource_def ack_inbox_tx_def
    by (cases "unique_ids ids []") (simp_all, (intro txk_intros txk_stmt upd conjI impI)+)
  then have "preserves (on_stores (\<lambda>d rs. in_inbox v d)) (transaction (ack_durable_tx a items t))" for a items t
    unfolding ack_durable_tx_def by (intro preserves_transaction_keeps txk_intros) simp_all
  then have "preserves (on_stores (\<lambda>d rs. in_inbox v d)) (ack_durable a items t)" for a items t
    unfolding ack_durable_def by (intro io_intros)
  moreover have "preserves (on_stores (\<lambda>d rs. in_inbox v d)) (ack_best_effort a items t)" for a items t
    unfolding ack_best_effort_def DeleteMilestoneNotifications_def MarkMilestoneEventsNotified_def RecordDeliveries_def
      DeletePMNotifications_dal_def
    by (intro io_intros preserves_db_stmt preserves_redis_cmd) (auto simp: mark_milestones_def in_inbox_def dest!: insert_deliveries_inbox)
  ultimately show ?thesis unfolding AckNotifications_def by (intro io_intros)
qed

text \<open>The stream is left alone.\<close>

lemma store_mq: "keeps w_mq (store_and_wake s row f)"
  unfolding store_and_wake_def wake_recipient_def InsertInboxNotification_def SetInboxDeliveryError_def Let_def
  by (intro io_intros keeps_mq_prims)

lemma ack_mq: "keeps w_mq (AckNotifications req)"
  unfolding AckNotifications_def ack_durable_def ack_durable_tx_def AckInboxNotificationsBySource_def ack_inbox_tx_def ack_best_effort_def
    DeleteMilestoneNotifications_def MarkMilestoneEventsNotified_def RecordDeliveries_def DeletePMNotifications_dal_def
  by (intro io_intros keeps_mq_prims)

text \<open>Success means that the row is there.\<close>

lemma stmt_result: "run_state (db_stmt f) w = (Inr x, w') \<Longrightarrow> f (w_db w) = (Inr x, w_db w')"
  by (cases rule: run_db_stmt [of f w]) auto

lemma query_result: "run_state (db_query q) w = (Inr x, w') \<Longrightarrow> x = q (w_db w) \<and> w_db w' = w_db w"
  using stmt_result [of "\<lambda>d. (Inr (q d), d)" w x w'] by (auto simp: db_query_def)

lemma insert_success:
  assumes "run_state (InsertInboxNotification s row) w = (Inr b, w')"
  shows "in_inbox row (w_db w')"
proof -
  obtain x w1 where ins: "run_state (db_stmt (insert_inbox s row)) w = (Inr x, w1)"
    using assms by (auto simp: InsertInboxNotification_def and_then_def split: if_splits prod.splits sum.splits)
  note eff = insert_inbox_effect(2,3) [OF stmt_result [OF ins]]
  show ?thesis
  proof (cases x)
    case True
    then have "w' = w1" using assms ins by (auto simp: InsertInboxNotification_def and_then_def split: if_splits)
    then show ?thesis using eff(1) True by simp
  next
    case False
    let ?q = "\<lambda>d. find (\<lambda>r. ibNotificationID r = ibNotificationID row \<or> ibDedupeKey r = ibDedupeKey row) (notification_inbox d)"
    obtain found w2 where q: "run_state (db_query ?q) w1 = (Inr found, w2)"
      and rest: "w' = w2" "\<exists>r. found = Some r \<and> same_fact s r row"
      using assms ins False by (auto simp: InsertInboxNotification_def and_then_def split: if_splits prod.splits sum.splits option.splits)
    obtain r where r: "found = Some r" "same_fact s r row" using rest by blast
    then have "find (\<lambda>r. ibNotificationID r = ibNotificationID row \<or> ibDedupeKey r = ibDedupeKey row) (notification_inbox (w_db w')) = Some r"
      using query_result [OF q] rest(1) by simp
    then have "r \<in> set (notification_inbox (w_db w'))" by (metis find_Some_iff nth_mem)
    then show ?thesis using r(2) by (auto simp: in_inbox_def same_row_def same_fact_def)
  qed
qed

lemma store_success:
  assumes "run_state (store_and_wake s row f) w = (HandleSuccess, w')"
  shows "in_inbox row (w_db w')"
proof -
  obtain b w1 where ins: "run_state (InsertInboxNotification s row) w = (Inr b, w1)"
    and rest: "w' = (if b then snd (run_state (wake_recipient row f) w1) else w1)"
    using assms by (auto simp: store_and_wake_def split: prod.splits sum.splits if_splits)
  show ?thesis using rest insert_success [OF ins] preserves_run [OF wake_keeps, of row w1 row f] by auto
qed

lemma in_inbox_later: "same_row v v' \<Longrightarrow> in_inbox v d = in_inbox v' d"
  by (auto simp: in_inbox_def same_row_def)

lemma same_order_row: "same_row (order_row e t) (order_row e t')"
  by (simp add: same_row_def order_row_def)

definition acks :: "world \<Rightarrow> world \<Rightarrow> bool" where
  "acks w w' \<longleftrightarrow> (\<exists>req resp. run_state (AckNotifications req) w = (resp, w'))"

lemma acks_keep: "acks w w' \<Longrightarrow> w_mq w' = w_mq w" "acks w w' \<Longrightarrow> in_inbox v (w_db w) \<Longrightarrow> in_inbox v (w_db w')"
  using preserves_run [OF ack_keeps, of v w] keepsD [OF ack_mq] by (auto simp: acks_def) (metis snd_conv)

text \<open>The interface of the runtime, met by both handlers.\<close>

interpretation orders: stream_handler "Handle_order oc" "order_recorded oc" acks
  for oc :: CommissionOrderNotificationConsumer
proof unfold_locales
  fix i vs w w' r us
  show "order_recorded oc vs (w_db w')" if "run_state (Handle_order oc i vs) w = (HandleSuccess, w')"
    using that store_success in_inbox_later [OF same_order_row]
    by (auto simp: Handle_order_def order_recorded_def now_ms_def split: sum.splits) blast
  show "order_recorded oc us (w_db w')" if "run_state (Handle_order oc i vs) w = (r, w')" "order_recorded oc us (w_db w)"
  proof -
    have "preserves (on_stores (\<lambda>d rs. in_inbox v d)) (Handle_order oc i vs)" for v
      unfolding Handle_order_def by (cases "parseCommissionOrderNotification oc vs") (auto intro!: io_intros store_keeps)
    then show ?thesis using that preserves_run by (fastforce simp: order_recorded_def split: sum.splits)
  qed
  show "w_mq w' = w_mq w" if "run_state (Handle_order oc i vs) w = (r, w')"
  proof -
    have "keeps w_mq (Handle_order oc i vs)"
      unfolding Handle_order_def by (cases "parseCommissionOrderNotification oc vs") (auto intro!: io_intros store_mq keeps_mq_prims)
    then show ?thesis using that by (rule keepsD)
  qed
  show "w_mq w' = w_mq w \<and> (order_recorded oc us (w_db w) \<longrightarrow> order_recorded oc us (w_db w'))" if "acks w w'"
    using acks_keep [OF that] by (auto simp: order_recorded_def split: sum.splits)
qed


interpretation moderation: stream_handler "Handle_moderation s" "moderation_recorded s" acks
  for s :: NotificationServiceImpl
proof unfold_locales
  have same: "rel_option same_row (parseCommissionModerationNotification s vs t) (parseCommissionModerationNotification s vs t')" for vs t t'
    by (auto simp: parseCommissionModerationNotification_def Let_def moderation_row_def same_row_def split: option.splits)
  fix i vs w w' r us
  show "moderation_recorded s vs (w_db w')" if "run_state (Handle_moderation s i vs) w = (HandleSuccess, w')"
    using that same [of vs "w_now w" 0] store_success in_inbox_later
    by (auto simp: Handle_moderation_def moderation_recorded_def now_ms_def rel_option_iff split: option.splits if_splits) blast
  have "preserves (on_stores (\<lambda>d rs. in_inbox v d)) (Handle_moderation s i vs)" for v
    unfolding Handle_moderation_def by (intro io_intros store_keeps)
  then show "moderation_recorded s us (w_db w')" if "run_state (Handle_moderation s i vs) w = (r, w')" "moderation_recorded s us (w_db w)"
    using that preserves_run by (fastforce simp: moderation_recorded_def split: option.splits)
  show "w_mq w' = w_mq w" if "run_state (Handle_moderation s i vs) w = (r, w')"
  proof -
    have "keeps w_mq (Handle_moderation s i vs)" unfolding Handle_moderation_def by (intro io_intros store_mq keeps_mq_prims)
    then show ?thesis using that by (rule keepsD)
  qed
  show "w_mq w' = w_mq w \<and> (moderation_recorded s us (w_db w) \<longrightarrow> moderation_recorded s us (w_db w'))" if "acks w w'"
    using acks_keep [OF that] by (auto simp: moderation_recorded_def split: option.splits)
qed


section \<open>No event is lost\<close>

text \<open>C4: any number of instances of the order consumer may run, in any interleaving, with crashes,
  lost commands and lost replies, while agents acknowledge: every message of the stream that has been delivered and that
  the stream has not evicted is still pending, or in the dead-letter stream, or in the inbox of its recipient.\<close>

theorem order_events_never_lost:
  assumes "reachable enc c acks w0 (w, xs)" "scHandle c = Handle_order oc" "scDeadLetterStream c \<noteq> []"
    and "b_entries (w_mq w0) = []" "b_last (w_mq w0) = 0" "b_seen (w_mq w0) = []"
    and "e \<in> set (b_entries (w_mq w))" "xID e \<le> b_last (w_mq w)" "b_trimmed (w_mq w) < xID e"
  shows "(\<exists>p \<in> set (b_pel (w_mq w)). xpID p = xID e) \<or> (\<exists>l \<in> set (b_dead (w_mq w)). dlOriginalID l = xID e) \<or>
    (\<exists>event payload. parseCommissionOrderNotification oc (xValues e) = Inr (event, payload) \<and>
      (\<exists>r \<in> set (notification_inbox (w_db w)). same_row r (order_row event (w_now w))))"
proof -
  have "orders.accounted oc w0" using assms(4-6) by (simp add: orders.accounted_def broker_ok_def)
  then have "orders.accounted oc w" using orders.reachable_invariant [OF assms(1-3)] orders.invariant_accounted by blast
  then consider "xID e \<in> pending_ids (w_mq w)" | "xID e \<in> dead_ids (w_mq w)" | "order_recorded oc (xValues e) (w_db w)"
    using assms(7-9) unfolding orders.accounted_def by fastforce
  then show ?thesis
  proof cases
    case 1
    then show ?thesis by (auto simp: pending_ids_def)
  next
    case 2
    then show ?thesis by (auto simp: dead_ids_def)
  next
    case 3
    then show ?thesis using in_inbox_later [OF same_order_row] by (fastforce simp: order_recorded_def in_inbox_def split: sum.splits)
  qed
qed

section \<open>A message left behind\<close>

lemma parsed_valid:
  assumes "parseCommissionOrderNotification oc vs = Inr (event, payload)" "0 < now"
  shows "valid_inbox (order_row event now)"
proof -
  have id: "parseID vs k = Inr n \<Longrightarrow> 0 < n" for k n by (auto simp: parseID_def res_then_def split: sum.splits option.splits if_splits)
  have field: "read_field vs k n = Inr t \<Longrightarrow> t \<noteq> []" for k n t by (auto simp: read_field_def split: option.splits if_splits)
  have "parse_envelope vs = Inr event"
    using assms(1) by (auto simp: parseCommissionOrderNotification_def res_then_def split: sum.splits option.splits if_splits)
  then show ?thesis
    using assms(2) by (auto simp: parse_envelope_def res_then_def valid_inbox_def order_row_def validInboxSource_def validInboxOrderFields_def
        PendingRetention_def dest!: id field split: sum.splits if_splits)
qed

lemma handle_order_run:
  assumes "quiet w" "0 < w_now w" "parseCommissionOrderNotification oc vs = Inr (event, payload)"
    and "json_decode (ocService oc) (oePayloadJSON event) \<noteq> None" "oeRecipientAgentID event \<in> aAgentID ` set (agents (w_db w))"
    and "\<forall>r \<in> set (notification_inbox (w_db w)). \<not> inbox_conflict (order_row event (w_now w)) r"
  shows "\<exists>ps. run_state (Handle_order oc i vs) w = (HandleSuccess, w\<lparr>w_db := (w_db w)\<lparr>notification_inbox := notification_inbox (w_db w) @
    [(order_row event (w_now w))\<lparr>ibPayloadJSON := jsonb_text (ocService oc) (oePayloadJSON event)\<rparr>]\<rparr>, w_pushes := ps\<rparr>)"
proof -
  let ?row = "order_row event (w_now w)"
  let ?w1 = "w\<lparr>w_db := (w_db w)\<lparr>notification_inbox := notification_inbox (w_db w) @
    [?row\<lparr>ibPayloadJSON := jsonb_text (ocService oc) (oePayloadJSON event)\<rparr>]\<rparr>\<rparr>"
  have "run_state (db_stmt (insert_inbox (ocService oc) ?row)) w = (Inr True, ?w1)"
    using assms by (intro quiet_stmt) (auto simp: insert_inbox_def order_row_def)
  then have ins: "run_state (InsertInboxNotification (ocService oc) ?row) w = (Inr True, ?w1)"
    using parsed_valid [OF assms(3,2)] by (simp add: InsertInboxNotification_def and_then_def)
  have "\<exists>ps. run_state (wake_recipient ?row err_text) ?w1 = ((), ?w1\<lparr>w_pushes := ps\<rparr>)"
    using assms(1) by (simp add: wake_recipient_def publish_push_def io_step_def quiet_def) (rule exI, rule refl)
  then obtain ps where "run_state (wake_recipient ?row err_text) ?w1 = ((), ?w1\<lparr>w_pushes := ps\<rparr>)" by blast
  then show ?thesis using assms(3) ins by (intro exI [of _ ps]) (simp add: Handle_order_def store_and_wake_def now_ms_def)
qed


lemma find_key: "inj_on f (set xs) \<Longrightarrow> x \<in> set xs \<Longrightarrow> find (\<lambda>y. f y = f x) xs = Some x"
  by (induction xs) (auto simp: inj_on_def)

lemma find_entry: "broker_ok b \<Longrightarrow> e \<in> set (b_entries b) \<Longrightarrow> b_trimmed b < xID e \<Longrightarrow>
    find (\<lambda>x. xID x = xID e \<and> b_trimmed b < xID e) (b_entries b) = Some e"
  by (simp add: find_key entries_inj)

text \<open>Reclaiming the only pending message, which another instance has left idle.\<close>

lemma reclaim_run:
  assumes "quiet w" "broker_ok (w_mq w)" "b_pel (w_mq w) = [p]" "xpID p = xID e" "e \<in> set (b_entries (w_mq w))" "b_trimmed (w_mq w) < xID e"
    and "idle_for (min_idle_of c) (w_now w) p" "xpRetryCount p < scMaxRetries c"
    and "p' = \<lparr>xpID = xID e, xpConsumer = scConsumerName c, xpDelivered = w_now w, xpRetryCount = xpRetryCount p + 1\<rparr>"
  shows "run_state (nextBatchWithRetry enc c [] False) w =
      ((Inr [\<lparr>pmMessage = e, pmRetryCount = xpRetryCount p, pmConsumer = xpConsumer p\<rparr>], True), w\<lparr>w_mq := (w_mq w)\<lparr>b_pel := [p']\<rparr>\<rparr>)"
    "run_state (lease_all c [] [\<lparr>pmMessage = e, pmRetryCount = n, pmConsumer = k\<rparr>]) (w\<lparr>w_mq := (w_mq w)\<lparr>b_pel := [p']\<rparr>\<rparr>) =
      ([e], w\<lparr>w_mq := (w_mq w)\<lparr>b_pel := [p']\<rparr>\<rparr>)"
proof -
  let ?w1 = "w\<lparr>w_mq := (w_mq w)\<lparr>b_pel := [p']\<rparr>\<rparr>"
  have "0 < batch_of c" by (simp add: batch_of_def)
  then have "XPENDING_EXT (batch_of c) (min_idle_of c) (w_now w) (w_mq w) = (Inr [p], w_mq w)"
    using assms(3,7) by (simp add: XPENDING_EXT_def)
  then have scan: "run_state (pending_scan (batch_of c) (min_idle_of c) []) w = (Inr [p], w)"
    using quiet_mq [OF assms(1), of "XPENDING_EXT (batch_of c) (min_idle_of c)"] by (simp add: pending_scan_def and_then_def)
  have "XCLAIM (scConsumerName c) (min_idle_of c) [xID e] (w_now w) (w_mq w) = (Inr [e], (w_mq w)\<lparr>b_pel := [p']\<rparr>)"
    using assms(3,4,6,7,9) find_entry [OF assms(2,5,6)] by (simp add: XCLAIM_def Let_def map_filter_def)
  then have "run_state (pending_claim (scConsumerName c) (min_idle_of c) [p]) w =
      (Inr [\<lparr>pmMessage = e, pmRetryCount = xpRetryCount p, pmConsumer = xpConsumer p\<rparr>], ?w1)"
    using quiet_mq [OF assms(1), of "XCLAIM (scConsumerName c) (min_idle_of c) [xID e]"] assms(4)
    by (simp add: pending_claim_def and_then_def pending_message_def map_filter_def)
  then show "run_state (nextBatchWithRetry enc c [] False) w =
      ((Inr [\<lparr>pmMessage = e, pmRetryCount = xpRetryCount p, pmConsumer = xpConsumer p\<rparr>], True), ?w1)"
    using scan assms(8) by (simp add: nextBatchWithRetry_def ConsumePendingExcept_def and_then_def exhausted_def)
  have "refresh_script (scConsumerName c) (xID e) (w_now w) ((w_mq w)\<lparr>b_pel := [p']\<rparr>) = (Inr True, (w_mq w)\<lparr>b_pel := [p']\<rparr>)"
    using assms(6,9) by (simp add: refresh_script_def owner_of_def)
  then show "run_state (lease_all c [] [\<lparr>pmMessage = e, pmRetryCount = n, pmConsumer = k\<rparr>]) ?w1 = ([e], ?w1)"
    using quiet_mq [of ?w1 "refresh_script (scConsumerName c) (xID e)"] assms(1) by (simp add: startLease_def RefreshOwnedPending_def)
qed



section \<open>An order\<close>

text \<open>Order 4 of agent 1 has been paid; the event is the first message of the stream.\<close>

definition demo_values :: "(string \<times> string) list" where
  "demo_values = [(''schema_version'', ''1''), (''event_id'', ''3''), (''outbox_id'', ''9''), (''order_id'', ''4''), (''order_version'', ''1''),
     (''recipient_agent_id'', ''1''), (''occurred_at'', ''50''), (''event_kind'', ''order.paid.v1''),
     (''dedupe_key'', ''order:4:recipient:1''), (''payload_json'', ''{}'')]"

definition demo_payload :: commissionOrderNotificationPayload where
  "demo_payload = \<lparr>opEventID = 3, opEventKind = ''order.paid.v1'', opOrderID = 4, opOrderVersion = 1, opRecipientAgentID = 1,
     opRecipientRole = ''buyer'', opState = ''paid'', opFromState = ''created'', opToState = ''paid'', opCommandKind = ''pay'',
     opActorKind = ''agent'', opActorAgentID = 2, opSnapshotID = 6, opOccurredAt = 50, opPaymentDueAt = 0, opSellerConfirmDueAt = 0,
     opDeliveryDueAt = 0, opBuyerConfirmDueAt = 0\<rparr>"

definition demo_envelope :: commissionOrderNotificationEvent where
  "demo_envelope = \<lparr>oeOutboxID = 9, oeEventID = 3, oeOrderID = 4, oeOrderVersion = 1, oeRecipientAgentID = 1, oeOccurredAt = 50,
     oeEventKind = ''order.paid.v1'', oeDedupeKey = ''order:4:recipient:1'', oePayloadJSON = ''{}''\<rparr>"

definition demo_orders :: CommissionOrderNotificationConsumer where
  "demo_orders = \<lparr>ocService = plain_service, ocUnmarshal = (\<lambda>_. Some demo_payload)\<rparr>"

definition demo_consumer :: StreamConsumer where
  "demo_consumer = \<lparr>scConsumerName = ''orders'', scBatchSize = 10, scMaxRetries = 5, scRetryMinIdle = 1000, scDeadLetterStream = ''dlq'',
     scHandle = Handle_order demo_orders\<rparr>"

definition demo_encoding :: Encoding where
  "demo_encoding = \<lparr>enSha256 = id, enMarshal = (\<lambda>fs. concat (map snd fs))\<rparr>"

definition buyer_row :: AgentRow where
  "buyer_row = \<lparr>aAgentID = 1, aShortID = [], aEmail = [], aEmailKind = [], aAgentName = [], aAgentNameEn = [], aBio = [],
     aEmailVerifiedAt = None, aProfileCompletedAt = None, aIsOfficial = False, aActive = True\<rparr>"

definition orders_world :: world where
  "orders_world = empty_world\<lparr>w_now := 5000, w_db := empty_db\<lparr>agents := [buyer_row]\<rparr>\<rparr>"

definition demo_message :: XMessage where
  "demo_message = \<lparr>xID = 1, xValues = demo_values\<rparr>"

definition demo_broker :: "XPendingExt list \<Rightarrow> broker" where
  "demo_broker ps = \<lparr>b_entries = [demo_message], b_trimmed = 0, b_group = True, b_last = 1, b_pel = ps, b_dead = [], b_seen = [], b_seen_until = 0\<rparr>"

definition demo_pending :: "string \<Rightarrow> int \<Rightarrow> XPendingExt" where
  "demo_pending name t = \<lparr>xpID = 1, xpConsumer = name, xpDelivered = t, xpRetryCount = 1\<rparr>"

lemma demo_parse: "parseCommissionOrderNotification demo_orders demo_values = Inr (demo_envelope, demo_payload)"
  by code_simp

lemma orders_quiet: "quiet orders_world" "w_now orders_world = 5000" "w_db orders_world = empty_db\<lparr>agents := [buyer_row]\<rparr>"
  by (simp_all add: orders_world_def empty_world_def quiet_def)

lemma demo_handled:
  assumes "w = orders_world\<lparr>w_mq := b\<rparr>"
  shows "\<exists>ps. run_state (Handle_order demo_orders 1 demo_values) w = (HandleSuccess,
    w\<lparr>w_db := (w_db w)\<lparr>notification_inbox := [order_row demo_envelope 5000]\<rparr>, w_pushes := ps\<rparr>)"
proof -
  have "(order_row demo_envelope 5000)\<lparr>ibPayloadJSON := ''{}''\<rparr> = order_row demo_envelope 5000"
    by (simp add: order_row_def demo_envelope_def)
  then show ?thesis
    using handle_order_run [of w demo_orders demo_values demo_envelope demo_payload 1] orders_quiet demo_parse
    by (simp add: assms demo_orders_def plain_service_def demo_envelope_def empty_db_def buyer_row_def)
qed



text \<open>One instance reads the event, leases, handles and acknowledges it.\<close>

lemma demo_broker_first: "demo_broker ps = first_broker demo_values ps"
  by (simp add: demo_broker_def first_broker_def fresh_broker_def demo_message_def)

lemma demo_run:
  "\<exists>w. reachable demo_encoding demo_consumer acks orders_world (w, [new_instance ''a'']) \<and> w_mq w = demo_broker [] \<and>
    notification_inbox (w_db w) = [order_row demo_envelope 5000]"
proof -
  let ?c = demo_consumer and ?x = "new_instance ''a''" and ?pm = "first_message demo_values"
  let ?w = "orders_world\<lparr>w_mq := demo_broker [demo_pending ''a'' 5000]\<rparr>"
  obtain ps where handled: "run_state (Handle_order demo_orders 1 demo_values) ?w = (HandleSuccess,
      ?w\<lparr>w_db := (w_db ?w)\<lparr>notification_inbox := [order_row demo_envelope 5000]\<rparr>, w_pushes := ps\<rparr>)"
    using demo_handled by blast
  let ?w5 = "?w\<lparr>w_db := (w_db ?w)\<lparr>notification_inbox := [order_row demo_envelope 5000]\<rparr>, w_pushes := ps\<rparr>"
  have mq: "w_mq orders_world = fresh_broker" by (simp add: orders_world_def empty_world_def fresh_broker_def)
  have r5: "reachable demo_encoding ?c acks orders_world (?w5, [] @ ?x\<lparr>in_tasks := [(?pm, Some HandleSuccess)]\<rparr> # [])"
    using first_handled [OF orders_quiet(1) mq, of ?c demo_values "''a''" HandleSuccess ?w5 demo_encoding acks] handled orders_quiet(2)
    by (simp add: demo_consumer_def demo_broker_first demo_pending_def)
  have "run_state (settle demo_encoding (named ?c ?x) True (pmMessage ?pm) HandleSuccess) ?w5 = ((), ?w5\<lparr>w_mq := demo_broker []\<rparr>)"
    using quiet_mq [of ?w5 "ack_owned_script ''a'' 1"] orders_quiet
    by (simp add: settle_def AckOwned_def ack_owned_script_def owner_of_def XACK_def demo_broker_def demo_pending_def first_message_def new_instance_def)
  then have "reachable demo_encoding ?c acks orders_world (?w5\<lparr>w_mq := demo_broker []\<rparr>, [] @ ?x # [])"
    using reachable.more [OF r5 step.finish [where us = "[]" and vs = "[]" and p = ?pm and r = HandleSuccess
      and x = "?x\<lparr>in_tasks := [(?pm, Some HandleSuccess)]\<rparr>" and xs = "[]" and ys = "[]"]] by (simp add: new_instance_def)
  then show ?thesis by (intro exI [of _ "?w5\<lparr>w_mq := demo_broker []\<rparr>"]) simp
qed

theorem order_events_never_lost_witness:
  "\<exists>w xs. reachable demo_encoding demo_consumer acks orders_world (w, xs) \<and> b_pel (w_mq w) = [] \<and> b_dead (w_mq w) = [] \<and>
    (\<exists>r \<in> set (notification_inbox (w_db w)). same_row r (order_row demo_envelope (w_now w)))"
proof -
  obtain w where w: "reachable demo_encoding demo_consumer acks orders_world (w, [new_instance ''a''])" "w_mq w = demo_broker []"
    using demo_run by blast
  have "demo_message \<in> set (b_entries (w_mq w))" "xID demo_message \<le> b_last (w_mq w)" "b_trimmed (w_mq w) < xID demo_message"
    by (simp_all add: w(2) demo_broker_def demo_message_def)
  then have "\<exists>r \<in> set (notification_inbox (w_db w)). same_row r (order_row demo_envelope (w_now w))"
    using order_events_never_lost [OF w(1), of demo_orders demo_message] demo_parse
    by (simp add: demo_consumer_def orders_world_def empty_world_def w(2) demo_broker_def demo_message_def)
  then show ?thesis using w by (intro exI [of _ w] exI [of _ "[new_instance ''a'']"]) (simp add: demo_broker_def)
qed

end
