(* ===== verification/AuthDal.thy ===== *)
theory AuthDal
  imports PMRead
begin

text \<open>
  The tables of the login service: the statements of \<open>rpc/auth/dal/db.go\<close> over the rows of
  \<open>auth_email_challenges\<close>, \<open>agent_sessions\<close> and \<open>agents\<close>, with the constraints of the
  migrations (\<open>challenge_id\<close> is the primary key, \<open>token_hash\<close> is unique).
\<close>

section \<open>Challenges\<close>

definition insert_challenge :: "AuthEmailChallenge \<Rightarrow> database \<Rightarrow> unit res \<times> database" where
  "insert_challenge c d =
     (if chChallengeID c \<in> chChallengeID ` set (auth_email_challenges d)
      then (Inl (UniqueViolation ''auth_email_challenges_pkey''), d)
      else (Inr (), d\<lparr>auth_email_challenges := auth_email_challenges d @ [c]\<rparr>))"

definition CreateChallenge :: "AuthEmailChallenge \<Rightarrow> unit res io" where
  "CreateChallenge c = db_stmt (insert_challenge c)"

definition GetChallenge :: "string \<Rightarrow> AuthEmailChallenge res io" where
  "GetChallenge challengeID =
     first_or_err (db_query (\<lambda>d. find (\<lambda>c. chChallengeID c = challengeID) (auth_email_challenges d)))"

definition update_challenges ::
  "(AuthEmailChallenge \<Rightarrow> bool) \<Rightarrow> (AuthEmailChallenge \<Rightarrow> AuthEmailChallenge) \<Rightarrow> database \<Rightarrow> nat res \<times> database" where
  "update_challenges P f d =
     (Inr (length (filter P (auth_email_challenges d))),
      d\<lparr>auth_email_challenges := update_where P f (auth_email_challenges d)\<rparr>)"

definition IncrementChallengeAttempts :: "string \<Rightarrow> unit res io" where
  "IncrementChallengeAttempts challengeID =
     and_then (db_stmt (update_challenges (\<lambda>c. chChallengeID c = challengeID)
       (\<lambda>c. c\<lparr>chAttemptCount := chAttemptCount c + 1\<rparr>))) (\<lambda>_. ret (Inr ()))"

text \<open>The \<open>WHERE\<close> clause of \<open>ConsumeChallenge\<close>.\<close>

definition consumable :: "string \<Rightarrow> int \<Rightarrow> AuthEmailChallenge \<Rightarrow> bool" where
  "consumable challengeID now c \<longleftrightarrow> chChallengeID c = challengeID \<and> chStatus c = 0 \<and> chExpireAt c \<ge> now
     \<and> chAttemptCount c < chMaxAttempts c"

definition ConsumeChallenge :: "string \<Rightarrow> int \<Rightarrow> bool res io" where
  "ConsumeChallenge challengeID now =
     and_then (db_stmt (update_challenges (consumable challengeID now)
       (\<lambda>c. c\<lparr>chStatus := 1, chConsumedAt := Some now\<rparr>))) (\<lambda>rows. ret (Inr (rows = 1)))"

definition RevokeChallenge :: "string \<Rightarrow> unit res io" where
  "RevokeChallenge challengeID =
     and_then (db_stmt (update_challenges (\<lambda>c. chChallengeID c = challengeID) (\<lambda>c. c\<lparr>chStatus := 3\<rparr>)))
       (\<lambda>_. ret (Inr ()))"

section \<open>Sessions\<close>

text \<open>The number of a session comes from the sequence of the table.\<close>

definition insert_session :: "AgentSession \<Rightarrow> database \<Rightarrow> unit res \<times> database" where
  "insert_session s d =
     (if ssTokenHash s \<in> ssTokenHash ` set (agent_sessions d)
      then (Inl (UniqueViolation ''agent_sessions_token_hash_key''), d)
      else (Inr (), d\<lparr>agent_sessions := agent_sessions d @ [s\<lparr>ssSessionID := session_seq d\<rparr>],
                      session_seq := session_seq d + 1\<rparr>))"

definition CreateSession :: "AgentSession \<Rightarrow> unit res io" where
  "CreateSession s = do {
     now \<leftarrow> now_ms;
     db_stmt (insert_session (s\<lparr>ssCreatedAt := now, ssLastSeenAt := now\<rparr>)) }"

definition GetSessionByTokenHash :: "string \<Rightarrow> AgentSession res io" where
  "GetSessionByTokenHash tokenHash = do {
     now \<leftarrow> now_ms;
     first_or_err (db_query (\<lambda>d. first_by ssSessionID
       (\<lambda>s. ssTokenHash s = tokenHash \<and> ssStatus s = 0 \<and> ssExpireAt s > now) (agent_sessions d))) }"

definition update_sessions :: "(AgentSession \<Rightarrow> bool) \<Rightarrow> (AgentSession \<Rightarrow> AgentSession) \<Rightarrow> database \<Rightarrow> unit res \<times> database" where
  "update_sessions P f d = (Inr (), d\<lparr>agent_sessions := update_where P f (agent_sessions d)\<rparr>)"

definition RevokeSession :: "string \<Rightarrow> unit res io" where
  "RevokeSession tokenHash =
     db_stmt (update_sessions (\<lambda>s. ssTokenHash s = tokenHash \<and> ssStatus s = 0) (\<lambda>s. s\<lparr>ssStatus := 2\<rparr>))"

definition UpdateSessionActivity :: "int \<Rightarrow> int \<Rightarrow> int \<Rightarrow> unit res io" where
  "UpdateSessionActivity sessionID now expireAt =
     db_stmt (update_sessions (\<lambda>s. ssSessionID s = sessionID) (\<lambda>s. s\<lparr>ssLastSeenAt := now, ssExpireAt := expireAt\<rparr>))"

section \<open>Agents\<close>

text \<open>\<open>None\<close> for an address without an agent.\<close>

definition GetAgentByEmail :: "string \<Rightarrow> AgentRow option res io" where
  "GetAgentByEmail email = db_query (\<lambda>d. first_by aAgentID (\<lambda>a. aEmail a = email) (agents d))"

definition SetEmailVerifiedAt :: "int \<Rightarrow> int \<Rightarrow> unit res io" where
  "SetEmailVerifiedAt agentID now =
     db_stmt (\<lambda>d. (Inr (), d\<lparr>agents := update_where (\<lambda>a. aAgentID a = agentID \<and> aEmailVerifiedAt a = None)
       (\<lambda>a. a\<lparr>aEmailVerifiedAt := Some now\<rparr>) (agents d)\<rparr>))"

end
