(* ===== verification/Auth.thy ===== *)
theory Auth
  imports AuthDal
begin

text \<open>
  The login service, \<open>rpc/auth/handler.go\<close>: a login starts with a challenge whose one-time code is
  mailed, is completed with the code, and gives a session token; sessions are validated through a
  cache and revoked at logout. SHA-256, the Unicode case table and \<open>path.Match\<close> are fields of the
  service record; log lines are left out.
\<close>

section \<open>Configuration and matching of addresses\<close>

record AuthServiceImpl =
  emailVerificationEnabled :: bool
  mockUniversalOTP :: string
  mockOTPEmailSuffix :: "string list"
  mockOTPIPWhitelist :: "string list"
  testEmailSuffixes :: "string list"
  testOTP :: string
  auth_sha256 :: "string \<Rightarrow> string"
  unicode_lower :: "nat \<Rightarrow> nat"
  path_Match :: "string \<Rightarrow> string \<Rightarrow> bool"

text \<open>\<open>strings.ToLower\<close>: byte by byte on ASCII, rune by rune otherwise.\<close>

definition ToLower :: "(nat \<Rightarrow> nat) \<Rightarrow> string \<Rightarrow> string" where
  "ToLower lower s =
     (if \<forall>c \<in> set s. byte c < 128 then map ascii_lower s
      else concat (map (\<lambda>(r, _). EncodeRune (if r < 128 then byte (ascii_lower (char_of r)) else lower r)) (runes s)))"

definition HasSuffix :: "string \<Rightarrow> string \<Rightarrow> bool" where
  "HasSuffix s t \<longleftrightarrow> length t \<le> length s \<and> drop (length s - length t) s = t"

definition normalizeEmail :: "AuthServiceImpl \<Rightarrow> string \<Rightarrow> string" where
  "normalizeEmail s raw = ToLower (unicode_lower s) (TrimSpace raw)"

definition isMockOTPEmail :: "AuthServiceImpl \<Rightarrow> string \<Rightarrow> bool" where
  "isMockOTPEmail s emailAddr =
     (if mockOTPEmailSuffix s = [] \<or> mockUniversalOTP s = [] then False
      else list_ex (HasSuffix (ToLower (unicode_lower s) emailAddr)) (mockOTPEmailSuffix s))"

definition isMockOTPIPAllowed :: "AuthServiceImpl \<Rightarrow> string \<Rightarrow> bool" where
  "isMockOTPIPAllowed s clientIP = list_ex (\<lambda>ip. clientIP = ip) (mockOTPIPWhitelist s)"

definition isMockOTPBypass :: "AuthServiceImpl \<Rightarrow> string \<Rightarrow> string \<Rightarrow> bool" where
  "isMockOTPBypass s emailAddr clientIP \<longleftrightarrow> isMockOTPEmail s emailAddr \<and> isMockOTPIPAllowed s clientIP"

text \<open>\<open>config.EmailMatchesAnyPattern\<close>; a pattern that \<open>path.Match\<close> rejects does not match.\<close>

definition EmailMatchesAnyPattern :: "AuthServiceImpl \<Rightarrow> string \<Rightarrow> string list \<Rightarrow> bool" where
  "EmailMatchesAnyPattern s email patterns =
     (let e = normalizeEmail s email in
      if e = [] then False
      else list_ex (\<lambda>p. let pattern = normalizeEmail s p in
        if pattern = [] then False
        else if HasPrefix pattern ''@'' then HasSuffix e pattern
        else path_Match s pattern e) patterns)"

definition isTestAccountEmail :: "AuthServiceImpl \<Rightarrow> string \<Rightarrow> bool" where
  "isTestAccountEmail s emailAddr =
     (if testOTP s = [] \<or> testEmailSuffixes s = [] then False
      else EmailMatchesAnyPattern s emailAddr (testEmailSuffixes s))"

definition sha256Hex :: "AuthServiceImpl \<Rightarrow> string \<Rightarrow> string" where
  "sha256Hex s t = EncodeToString (auth_sha256 s t)"

definition isOTPMatched :: "AuthServiceImpl \<Rightarrow> string \<Rightarrow> AuthEmailChallenge \<Rightarrow> bool" where
  "isOTPMatched s code challenge =
     (let challengeEmail = opt_get [] (chEmail challenge); challengeIP = opt_get [] (chClientIP challenge) in
      if isTestAccountEmail s challengeEmail then code = testOTP s
      else if isMockOTPEmail s challengeEmail then
        (if \<not> isMockOTPIPAllowed s challengeIP then False else code = mockUniversalOTP s)
      else sha256Hex s code = chCodeHash challenge)"

text \<open>
  \<open>emailRegexp\<close>: a local part, one \<open>@\<close>, a domain, a dot and at least two letters. The classes of
  local part and domain do not contain \<open>@\<close> and a letter is not a dot, so the last dot decides.
\<close>

definition email_letter :: "char \<Rightarrow> bool" where
  "email_letter c \<longleftrightarrow> 65 \<le> byte c \<and> byte c \<le> 90 \<or> 97 \<le> byte c \<and> byte c \<le> 122"

definition email_domain_char :: "char \<Rightarrow> bool" where
  "email_domain_char c \<longleftrightarrow> email_letter c \<or> 48 \<le> byte c \<and> byte c \<le> 57 \<or> c \<in> {CHR ''.'', CHR ''-''}"

definition email_local_char :: "char \<Rightarrow> bool" where
  "email_local_char c \<longleftrightarrow> email_domain_char c \<or> c \<in> {CHR ''_'', CHR ''%'', CHR ''+''}"

definition emailRegexp :: "string \<Rightarrow> bool" where
  "emailRegexp e =
     (case split_at (CHR ''@'') e of
        (_, None) \<Rightarrow> False
      | (local, Some domain) \<Rightarrow>
          (case split_at (CHR ''.'') (rev domain) of
             (_, None) \<Rightarrow> False
           | (tld, Some rest) \<Rightarrow> local \<noteq> [] \<and> list_all email_local_char local \<and> rest \<noteq> []
               \<and> list_all email_domain_char rest \<and> list_all email_letter tld \<and> 2 \<le> length tld))"

text \<open>\<open>generateOTP\<close>: \<open>rand.Int\<close> below a million, with leading zeros.\<close>

definition pad6 :: "int \<Rightarrow> string" where
  "pad6 n = replicate (6 - length (itoa n)) (CHR ''0'') @ itoa n"

definition generateOTP :: "string res io" where
  "generateOTP = and_then next_otp (\<lambda>n. ret (Inr (pad6 n)))"

section \<open>Limits and the cached result\<close>

definition checkIPRateLimit :: "rkey \<Rightarrow> int \<Rightarrow> int \<Rightarrow> string \<Rightarrow> BaseResp option io" where
  "checkIPRateLimit key limit window msg = do {
     r \<leftarrow> redis_cmd (INCR key);
     (let count = value_or 0 r in do {
        _ \<leftarrow> (if count = 1 then redis_cmd (EXPIRE key window) else ret (Inr False));
        ret (if count > limit then Some (base_resp 429 msg) else None) }) }"

definition getCachedVerifyResult :: "string \<Rightarrow> VerifyLoginResp option io" where
  "getCachedVerifyResult challengeID = do {
     r \<leftarrow> cache_Read (AuthVerify challengeID);
     ret (case r of Inl _ \<Rightarrow> None | Inr p \<Rightarrow> json_VerifyLoginResp p) }"

section \<open>Completing a login\<close>

definition sessionDurationMs :: int where
  "sessionDurationMs = 30 * 24 * 3600 * 1000"

definition verify_error :: "int \<Rightarrow> string \<Rightarrow> VerifyLoginResp" where
  "verify_error code msg = \<lparr>vrAgentId = 0, vrAccessToken = [], vrExpiresAt = 0, vrIsNewAgent = False,
     vrNeedsProfileCompletion = False, vrProfileCompletedAt = None, vrBaseResp = base_resp code msg\<rparr>"

definition legacyRegistrationRetired :: string where
  "legacyRegistrationRetired = ''LEGACY_REGISTRATION_RETIRED: legacy email login cannot create an Agent; follow https://www.eigenflux.ai/install for a new connection''"

text \<open>What is cached for a session: \<open>Sprintf("%d:%s", agentID, email)\<close>.\<close>

definition session_value :: "int \<Rightarrow> string \<Rightarrow> payload" where
  "session_value agentID email = Bytes (itoa agentID @ '':'' @ email)"

definition login_resp :: "AgentRow \<Rightarrow> string \<Rightarrow> int \<Rightarrow> VerifyLoginResp" where
  "login_resp agent accessToken expireAt =
     \<lparr>vrAgentId = aAgentID agent, vrAccessToken = accessToken, vrExpiresAt = expireAt, vrIsNewAgent = False,
      vrNeedsProfileCompletion = (if aProfileCompletedAt agent \<noteq> None \<and> aAgentName agent \<noteq> [] \<and> aBio agent \<noteq> []
        then False else aAgentName agent = [] \<or> aBio agent = []),
      vrProfileCompletedAt = aProfileCompletedAt agent, vrBaseResp = success\<rparr>"

definition completeEmailLogin ::
  "AuthServiceImpl \<Rightarrow> string \<Rightarrow> string option \<Rightarrow> string option \<Rightarrow> VerifyLoginResp io" where
  "completeEmailLogin s normalizedEmail clientIP userAgent = do {
     found \<leftarrow> GetAgentByEmail normalizedEmail;
     (case found of
        Inl e \<Rightarrow> ret (verify_error 500 (''db error: '' @ err_text e))
      | Inr None \<Rightarrow> ret (verify_error 410 legacyRegistrationRetired)
      | Inr (Some agent) \<Rightarrow>
          if aEmailKind agent \<noteq> [] \<and> aEmailKind agent \<noteq> ''legacy_real''
          then ret (verify_error 403 ''this identity must use Console V2 authentication'')
          else do {
            now \<leftarrow> now_ms;
            _ \<leftarrow> SetEmailVerifiedAt (aAgentID agent) now;
            uuid \<leftarrow> next_uuid;
            (let accessToken = ''at_'' @ uuid; tokenHash = sha256Hex s accessToken; expireAt = now + sessionDurationMs in do {
               created \<leftarrow> CreateSession \<lparr>ssSessionID = 0, ssAgentID = aAgentID agent, ssTokenHash = tokenHash,
                 ssStatus = 0, ssExpireAt = expireAt, ssCreatedAt = 0, ssLastSeenAt = 0, ssClientIP = clientIP,
                 ssUserAgent = userAgent\<rparr>;
               (case created of
                  Inl e \<Rightarrow> ret (verify_error 500 (''failed to create session: '' @ err_text e))
                | Inr _ \<Rightarrow> do {
                    _ \<leftarrow> cache_Write (AuthSession tokenHash) (session_value (aAgentID agent) normalizedEmail) 600000;
                    latest \<leftarrow> GetAgentByEmail (aEmail agent);
                    ret (login_resp (opt_get agent (value_or None latest)) accessToken expireAt) }) }) }) }"

section \<open>Starting a login\<close>

record StartLoginReq =
  slLoginMethod :: string
  slEmail :: string
  slClientIp :: "string option"
  slUserAgent :: "string option"

record StartLoginResp =
  stChallengeId :: "string option"
  stExpiresInSec :: "int option"
  stResendAfterSec :: "int option"
  stAgentId :: "int option"
  stAccessToken :: "string option"
  stExpiresAt :: "int option"
  stIsNewAgent :: "bool option"
  stNeedsProfileCompletion :: "bool option"
  stVerificationRequired :: "bool option"
  stProfileCompletedAt :: "int option"
  stBaseResp :: BaseResp

definition start_resp :: "BaseResp \<Rightarrow> StartLoginResp" where
  "start_resp b = \<lparr>stChallengeId = None, stExpiresInSec = None, stResendAfterSec = None, stAgentId = None,
     stAccessToken = None, stExpiresAt = None, stIsNewAgent = None, stNeedsProfileCompletion = None,
     stVerificationRequired = None, stProfileCompletedAt = None, stBaseResp = b\<rparr>"

abbreviation start_error :: "int \<Rightarrow> string \<Rightarrow> StartLoginResp" where
  "start_error code msg \<equiv> start_resp (base_resp code msg)"

definition buildStartLoginDirectResp :: "VerifyLoginResp \<Rightarrow> StartLoginResp" where
  "buildStartLoginDirectResp r = (start_resp (vrBaseResp r))\<lparr>stAgentId := Some (vrAgentId r),
     stAccessToken := Some (vrAccessToken r), stExpiresAt := Some (vrExpiresAt r), stIsNewAgent := Some (vrIsNewAgent r),
     stNeedsProfileCompletion := Some (vrNeedsProfileCompletion r), stVerificationRequired := Some False,
     stProfileCompletedAt := vrProfileCompletedAt r\<rparr>"

text \<open>
  Step 1 of the loop: the challenge and code that the active key names, if that challenge is still
  pending with more than a minute to go; a stale entry is deleted.
\<close>

definition reuse_challenge :: "rkey \<Rightarrow> (string \<times> string \<times> int) option io" where
  "reuse_challenge activeKey = do {
     r \<leftarrow> redis_cmd (GET activeKey);
     (case (case r of Inl _ \<Rightarrow> None | Inr p \<Rightarrow> payload_text p) of
        None \<Rightarrow> ret None
      | Some val \<Rightarrow>
          if val = [] then ret None
          else do {
            existing \<leftarrow> (case split_at (CHR '':'') val of
                (cachedID, Some cachedOTP) \<Rightarrow>
                  if cachedID = [] then ret None
                  else do {
                    r \<leftarrow> GetChallenge cachedID;
                    now \<leftarrow> now_ms;
                    (case r of
                       Inr c \<Rightarrow> if chStatus c = 0 \<and> chExpireAt c > now + 60000
                               then ret (Some (cachedID, cachedOTP, chExpireAt c)) else ret None
                     | Inl _ \<Rightarrow> ret None) }
              | (_, None) \<Rightarrow> ret None);
            (case existing of
               Some x \<Rightarrow> ret (Some x)
             | None \<Rightarrow> do { _ \<leftarrow> redis_cmd (DEL [activeKey]); ret None }) }) }"

definition new_challenge :: "AuthServiceImpl \<Rightarrow> StartLoginReq \<Rightarrow> string \<Rightarrow> string \<Rightarrow> string \<Rightarrow> int \<Rightarrow> AuthEmailChallenge" where
  "new_challenge s req email newID newOTP now =
     \<lparr>chChallengeID = newID, chLoginMethod = slLoginMethod req, chEmail = Some email, chCodeHash = sha256Hex s newOTP,
      chStatus = 0, chAttemptCount = 0, chMaxAttempts = 5, chExpireAt = now + 600000, chCreatedAt = now,
      chConsumedAt = None, chClientIP = slClientIp req, chUserAgent = slUserAgent req\<rparr>"

text \<open>
  The loop. \<open>Inl\<close> is an early return; \<open>Inr None\<close> is the end of the loop without a challenge.
\<close>

fun establish_challenge ::
  "nat \<Rightarrow> AuthServiceImpl \<Rightarrow> StartLoginReq \<Rightarrow> string \<Rightarrow> rkey \<Rightarrow> (StartLoginResp + (string \<times> string \<times> int) option) io" where
  "establish_challenge 0 s req email activeKey = ret (Inr None)"
| "establish_challenge (Suc attempts) s req email activeKey = do {
     reused \<leftarrow> reuse_challenge activeKey;
     (case reused of
        Some x \<Rightarrow> ret (Inr (Some x))
      | None \<Rightarrow> do {
          uuid \<leftarrow> next_uuid;
          otp \<leftarrow> generateOTP;
          (case otp of
             Inl _ \<Rightarrow> ret (Inl (start_error 500 ''failed to generate OTP''))
           | Inr newOTP \<Rightarrow> do {
               now \<leftarrow> now_ms;
               (let newID = ''ch_'' @ uuid in do {
                  created \<leftarrow> CreateChallenge (new_challenge s req email newID newOTP now);
                  (case created of
                     Inl e \<Rightarrow> ret (Inl (start_error 500 (''failed to create challenge: '' @ err_text e)))
                   | Inr _ \<Rightarrow> do {
                       claimed \<leftarrow> redis_cmd (SETNX activeKey (Bytes (newID @ '':'' @ newOTP)) 600000);
                       (case claimed of
                          Inl _ \<Rightarrow> ret (Inr (Some (newID, newOTP, now + 600000)))
                        | Inr True \<Rightarrow> ret (Inr (Some (newID, newOTP, now + 600000)))
                        | Inr False \<Rightarrow> do {
                            _ \<leftarrow> RevokeChallenge newID;
                            establish_challenge attempts s req email activeKey }) }) }) }) }) }"

text \<open>The mail, except for the fixed codes, and the answer.\<close>

definition mail_and_answer :: "AuthServiceImpl \<Rightarrow> string \<Rightarrow> bool \<Rightarrow> string \<times> string \<times> int \<Rightarrow> StartLoginResp io" where
  "mail_and_answer s email mockBypass x =
     (case x of (challengeID, otpCode, expireAt) \<Rightarrow> do {
        refused \<leftarrow> (if isTestAccountEmail s email then ret None
          else if isMockOTPEmail s email then
            ret (if mockBypass then None else Some (start_error 400 ''invalid email format''))
          else do {
            sent \<leftarrow> send_mail email otpCode;
            ret (case sent of Inl e \<Rightarrow> Some (start_error 500 (''failed to send email: '' @ err_text e)) | Inr _ \<Rightarrow> None) });
        (case refused of
           Some resp \<Rightarrow> ret resp
         | None \<Rightarrow> do {
             now \<leftarrow> now_ms;
             (let expiresInSec = go_div (expireAt - now) 1000 in
              ret ((start_resp success)\<lparr>stChallengeId := Some challengeID,
                stExpiresInSec := Some (if expiresInSec < 0 then 0 else expiresInSec), stResendAfterSec := Some 0,
                stVerificationRequired := Some True\<rparr>)) }) })"

text \<open>From the moment the address is known to belong to an agent that may log in this way.\<close>

definition start_challenge :: "AuthServiceImpl \<Rightarrow> StartLoginReq \<Rightarrow> string \<Rightarrow> StartLoginResp io" where
  "start_challenge s req email =
     (let clientIP = opt_get [] (slClientIp req);
          mockBypass = (isMockOTPBypass s email clientIP \<or> isTestAccountEmail s email) in
      if \<not> emailVerificationEnabled s then do {
        loginResp \<leftarrow> completeEmailLogin s email (slClientIp req) (slUserAgent req);
        ret (buildStartLoginDirectResp loginResp) }
      else do {
        limited \<leftarrow> (if clientIP \<noteq> [] \<and> \<not> mockBypass
          then checkIPRateLimit (LoginStartIP clientIP) 30 600000 ''too many requests from this IP'' else ret None);
        (case limited of
           Some b \<Rightarrow> ret (start_resp b)
         | None \<Rightarrow> do {
             r \<leftarrow> establish_challenge 2 s req email (LoginActive (sha256Hex s email));
             (case r of
                Inl resp \<Rightarrow> ret resp
              | Inr None \<Rightarrow> ret (start_error 500 ''failed to establish login challenge'')
              | Inr (Some x) \<Rightarrow> mail_and_answer s email mockBypass x) }) })"

definition StartLogin :: "AuthServiceImpl \<Rightarrow> StartLoginReq \<Rightarrow> StartLoginResp io" where
  "StartLogin s req =
     (if slLoginMethod req \<noteq> ''email'' then ret (start_error 400 ''unsupported login_method'')
      else (let email = normalizeEmail s (slEmail req) in
        if \<not> emailRegexp email then ret (start_error 400 ''invalid email format'')
        else if HasSuffix email ''@identity.invalid'' then
          ret (start_error 400 ''email is unavailable for this login method'')
        else do {
          existing \<leftarrow> GetAgentByEmail email;
          (case existing of
             Inl _ \<Rightarrow> ret (start_error 500 ''failed to validate login policy'')
           | Inr None \<Rightarrow> ret (start_error 410 legacyRegistrationRetired)
           | Inr (Some a) \<Rightarrow>
               if aEmailKind a \<noteq> [] \<and> aEmailKind a \<noteq> ''legacy_real''
               then ret (start_error 400 ''email is unavailable for this login method'')
               else start_challenge s req email) }))"

section \<open>Verifying the code\<close>

record VerifyLoginReq =
  vqLoginMethod :: string
  vqChallengeId :: string
  vqCode :: "string option"
  vqClientIp :: "string option"
  vqUserAgent :: "string option"

text \<open>A wrong code: one more attempt, and the challenge is revoked when there are none left.\<close>

definition reject_code :: "string \<Rightarrow> VerifyLoginResp io" where
  "reject_code challengeID = do {
     _ \<leftarrow> IncrementChallengeAttempts challengeID;
     updated \<leftarrow> GetChallenge challengeID;
     _ \<leftarrow> (case updated of
           Inr c \<Rightarrow> if chAttemptCount c \<ge> chMaxAttempts c then RevokeChallenge challengeID else ret (Inr ())
         | Inl _ \<Rightarrow> ret (Inr ()));
     ret (verify_error 401 ''invalid code'') }"

text \<open>After a successful login: the answer is cached, and the active key is removed if it names this challenge.\<close>

definition record_login :: "string \<Rightarrow> rkey \<Rightarrow> VerifyLoginResp \<Rightarrow> unit res io" where
  "record_login challengeID activeKey loginResp = do {
     _ \<leftarrow> cache_Write (AuthVerify challengeID) (JVerifyLogin loginResp) 120000;
     cached \<leftarrow> redis_cmd (GET activeKey);
     (case (case cached of Inl _ \<Rightarrow> None | Inr p \<Rightarrow> payload_text p) of
        Some v \<Rightarrow> if HasPrefix v (challengeID @ '':'') then redis_cmd (DEL [activeKey]) else ret (Inr ())
      | None \<Rightarrow> ret (Inr ())) }"

text \<open>After the challenge has been consumed.\<close>

definition finish_login :: "AuthServiceImpl \<Rightarrow> VerifyLoginReq \<Rightarrow> AuthEmailChallenge \<Rightarrow> VerifyLoginResp io" where
  "finish_login s req challenge =
     (if opt_get [] (chEmail challenge) = [] then ret (verify_error 400 ''no email associated with challenge'')
      else (let email = normalizeEmail s (opt_get [] (chEmail challenge)) in do {
        loginResp \<leftarrow> completeEmailLogin s email (vqClientIp req) (vqUserAgent req);
        _ \<leftarrow> (if Code (vrBaseResp loginResp) = 0
             then record_login (vqChallengeId req) (LoginActive (sha256Hex s email)) loginResp
             else ret (Inr ()));
        ret loginResp }))"

definition no_longer_valid :: VerifyLoginResp where
  "no_longer_valid = verify_error 400 ''challenge is no longer valid''"

text \<open>With the challenge as it was read; \<open>now\<close> is the time of the reading.\<close>

definition verify_challenge :: "AuthServiceImpl \<Rightarrow> VerifyLoginReq \<Rightarrow> AuthEmailChallenge \<Rightarrow> int \<Rightarrow> VerifyLoginResp io" where
  "verify_challenge s req challenge now =
     (let code = opt_get [] (vqCode req); challengeID = vqChallengeId req in
      if chStatus challenge = 1 then do {
        cached \<leftarrow> getCachedVerifyResult challengeID;
        (case cached of
           Some resp \<Rightarrow> if isOTPMatched s code challenge then ret resp else ret no_longer_valid
         | None \<Rightarrow> ret no_longer_valid) }
      else if chStatus challenge \<noteq> 0 then ret no_longer_valid
      else if chExpireAt challenge < now then ret (verify_error 400 ''challenge has expired'')
      else if chAttemptCount challenge \<ge> chMaxAttempts challenge then ret (verify_error 400 ''max attempts exceeded'')
      else if \<not> isOTPMatched s code challenge then reject_code challengeID
      else do {
        consumed \<leftarrow> ConsumeChallenge challengeID now;
        (case consumed of
           Inl _ \<Rightarrow> ret (verify_error 500 ''failed to consume challenge'')
         | Inr False \<Rightarrow> do {
             cached \<leftarrow> getCachedVerifyResult challengeID;
             ret (opt_get no_longer_valid cached) }
         | Inr True \<Rightarrow> finish_login s req challenge) })"

definition verify_limit :: "AuthServiceImpl \<Rightarrow> string \<Rightarrow> BaseResp option io" where
  "verify_limit s clientIP = checkIPRateLimit (LoginVerifyIP clientIP) 100 600000 ''too many verify attempts from this IP''"

definition VerifyLogin :: "AuthServiceImpl \<Rightarrow> VerifyLoginReq \<Rightarrow> VerifyLoginResp io" where
  "VerifyLogin s req =
     (if \<not> emailVerificationEnabled s then
        ret (verify_error 400 ''email verification is disabled; call /api/v1/auth/login directly'')
      else if vqLoginMethod req \<noteq> ''email'' then ret (verify_error 400 ''unsupported login_method'')
      else if opt_get [] (vqCode req) = [] then ret (verify_error 400 ''code is required'')
      else do {
        found \<leftarrow> GetChallenge (vqChallengeId req);
        (let clientIP = opt_get [] (vqClientIp req) in
         case found of
           Inl _ \<Rightarrow> do {
             limited \<leftarrow> (if clientIP \<noteq> [] then verify_limit s clientIP else ret None);
             ret (case limited of
                Some b \<Rightarrow> (verify_error 0 [])\<lparr>vrBaseResp := b\<rparr>
              | None \<Rightarrow> verify_error 404 ''challenge not found'') }
         | Inr challenge \<Rightarrow> do {
             limited \<leftarrow> (if clientIP \<noteq> [] \<and> \<not> isMockOTPBypass s (opt_get [] (chEmail challenge)) clientIP
               then verify_limit s clientIP else ret None);
             (case limited of
                Some b \<Rightarrow> ret ((verify_error 0 [])\<lparr>vrBaseResp := b\<rparr>)
              | None \<Rightarrow> do {
                  now \<leftarrow> now_ms;
                  verify_challenge s req challenge now }) }) })"

section \<open>Sessions\<close>

record ValidateSessionResp =
  vsAgentId :: int
  vsEmail :: "string option"
  vsBaseResp :: BaseResp

abbreviation session_error :: "int \<Rightarrow> string \<Rightarrow> ValidateSessionResp" where
  "session_error code msg \<equiv> \<lparr>vsAgentId = 0, vsEmail = None, vsBaseResp = base_resp code msg\<rparr>"

abbreviation session_ok :: "int \<Rightarrow> string option \<Rightarrow> ValidateSessionResp" where
  "session_ok agentID email \<equiv> \<lparr>vsAgentId = agentID, vsEmail = email, vsBaseResp = success\<rparr>"

text \<open>
  \<open>agentV2SessionValidationSQL\<close>: the rows of the join, of which \<open>Scan\<close> takes the first: the agent, whether the
  principal is active, whether onboarding is complete, whether the scope is there.
\<close>

definition agentV2Sessions :: "string \<Rightarrow> int \<Rightarrow> database \<Rightarrow> (int \<times> bool \<times> bool \<times> bool) list" where
  "agentV2Sessions tokenHash now d =
     [(prAgentID owner, prStatus owner = ''active'',
       (\<exists>o' \<in> set (agent_onboarding_v2 d). obAgentID o' = prAgentID owner \<and> obState o' = ''completed''),
       ''communication:read'' \<in> set (csScopes session)).
      session \<leftarrow> agent_credential_sessions d, owner \<leftarrow> agent_principals d, agent \<leftarrow> agents d,
      prPrincipalID owner = csPrincipalID session \<and> aAgentID agent = prAgentID owner
      \<and> csAccessTokenHash session = tokenHash \<and> csAudience session = ''agent_v2''
      \<and> csRevokedAt session = None \<and> csExpiresAt session > now \<and> \<not> csAccessRefreshRequired session
      \<and> prRevokedAt owner = None \<and> prStatus owner \<in> {''limited'', ''active''} \<and> aActive agent]"

definition validate_v2 :: "string \<Rightarrow> ValidateSessionResp io" where
  "validate_v2 tokenHash = do {
     now \<leftarrow> now_ms;
     r \<leftarrow> db_query (agentV2Sessions tokenHash now);
     ret (case r of
        Inl _ \<Rightarrow> session_error 503 ''Agent V2 authentication is temporarily unavailable''
      | Inr rows \<Rightarrow>
          (case (case rows of [] \<Rightarrow> (0, False, False, False) | x # _ \<Rightarrow> x) of (agentID, active, onboarded, allowed) \<Rightarrow>
             if agentID \<le> 0 then session_error 401 ''invalid or expired Agent V2 session''
             else if \<not> onboarded then session_error 409 ''ONBOARDING_REQUIRED''
             else if \<not> active \<or> \<not> allowed then session_error 403 ''AGENT_SCOPE_REQUIRED''
             else session_ok agentID None)) }"

text \<open>
  \<open>Sscanf(s, "%d", &n)\<close>: blanks, a sign, digits; the rest is left alone and a failure leaves \<open>n\<close> at 0.
\<close>

definition is_digit :: "char \<Rightarrow> bool" where
  "is_digit c \<longleftrightarrow> 48 \<le> byte c \<and> byte c \<le> 57"

definition Sscanf_d :: "string \<Rightarrow> int" where
  "Sscanf_d s =
     (let t = dropWhile (\<lambda>c. c \<in> {CHR '' '', CHR 0x09, CHR 0x0D}) s;
          (sign, u) = (case t of c # cs \<Rightarrow> if c \<in> {CHR ''-'', CHR ''+''} then ([c], cs) else ([], t) | [] \<Rightarrow> ([], []))
      in opt_get 0 (ParseInt64 (sign @ takeWhile is_digit u)))"

text \<open>What a cached value says: \<open>SplitN(val, ":", 2)\<close>, a positive number first.\<close>

definition cached_session :: "payload res \<Rightarrow> (int \<times> string) option" where
  "cached_session r =
     (case (case r of Inl _ \<Rightarrow> None | Inr p \<Rightarrow> payload_text p) of
        None \<Rightarrow> None
      | Some val \<Rightarrow>
          if val = [] then None
          else (case split_at (CHR '':'') val of (first, rest) \<Rightarrow>
            if Sscanf_d first > 0 then Some (Sscanf_d first, opt_get [] rest) else None))"

text \<open>After the session has been found in the table.\<close>

definition refresh_session :: "string \<Rightarrow> AgentSession \<Rightarrow> ValidateSessionResp io" where
  "refresh_session tokenHash session = do {
     found \<leftarrow> db_query (\<lambda>d. first_by aAgentID (\<lambda>a. aAgentID a = ssAgentID session) (agents d));
     (let agentEmail = (case value_or None found of Some a \<Rightarrow> aEmail a | None \<Rightarrow> []) in do {
        _ \<leftarrow> cache_Write (AuthSession tokenHash) (session_value (ssAgentID session) agentEmail) 600000;
        now \<leftarrow> now_ms;
        _ \<leftarrow> UpdateSessionActivity (ssSessionID session) now (now + sessionDurationMs);
        ret (session_ok (ssAgentID session) (Some agentEmail)) }) }"

definition ValidateSession :: "AuthServiceImpl \<Rightarrow> string \<Rightarrow> ValidateSessionResp io" where
  "ValidateSession s accessToken =
     (let tokenHash = sha256Hex s accessToken in
      if HasPrefix accessToken ''efv2a_'' then validate_v2 tokenHash
      else do {
        val \<leftarrow> cache_Read (AuthSession tokenHash);
        (case cached_session val of
           Some (agentID, email) \<Rightarrow> ret (session_ok agentID (Some email))
         | None \<Rightarrow> do {
             found \<leftarrow> GetSessionByTokenHash tokenHash;
             (case found of
                Inl _ \<Rightarrow> ret (session_error 401 ''invalid or expired session'')
              | Inr session \<Rightarrow> refresh_session tokenHash session) }) })"

definition Logout :: "AuthServiceImpl \<Rightarrow> string \<Rightarrow> BaseResp io" where
  "Logout s accessToken =
     (let tokenHash = sha256Hex s accessToken in do {
        _ \<leftarrow> RevokeSession tokenHash;
        _ \<leftarrow> cache_Remove [AuthSession tokenHash];
        ret (base_resp 0 ''logged out'') })"

section \<open>What the primitives leave alone\<close>

lemma keeps_login_prims [io_intros]:
  "keeps w_db next_uuid" "keeps w_redis next_uuid" "keeps w_db next_otp" "keeps w_redis next_otp"
  "keeps w_db (send_mail a b)" "keeps w_redis (send_mail a b)"
  by (auto simp: keeps_def next_uuid_def next_otp_def send_mail_def io_step_def split: list.splits outcome.splits)

lemma keeps_login_reads [io_intros]:
  "keeps w_db generateOTP" "keeps w_redis generateOTP" "keeps w_db (GetChallenge k)" "keeps w_redis (GetChallenge k)"
  "keeps w_db (GetAgentByEmail e)" "keeps w_redis (GetAgentByEmail e)" "keeps w_db (GetSessionByTokenHash h)"
  "keeps w_redis (GetSessionByTokenHash h)" "keeps w_db (checkIPRateLimit key l win m)" "keeps w_db (getCachedVerifyResult k)"
  "keeps w_db (reuse_challenge key)" "keeps w_db (verify_limit s ip)" "keeps w_db (validate_v2 h)" "keeps w_redis (validate_v2 h)"
  "keeps w_db (mail_and_answer s e b x)" "keeps w_redis (mail_and_answer s e b x)"
proof -
  show "keeps w_db generateOTP" "keeps w_redis generateOTP" unfolding generateOTP_def by (intro io_intros)+
  show ch: "keeps w_db (GetChallenge k)" "keeps w_redis (GetChallenge k)"
    unfolding GetChallenge_def first_or_err_def by (intro io_intros)+
  show "keeps w_db (GetAgentByEmail e)" "keeps w_redis (GetAgentByEmail e)" unfolding GetAgentByEmail_def by (intro io_intros)+
  show "keeps w_db (GetSessionByTokenHash h)" "keeps w_redis (GetSessionByTokenHash h)"
    unfolding GetSessionByTokenHash_def first_or_err_def by (intro io_intros)+
  show lim: "keeps w_db (checkIPRateLimit key l win m)" for key l win m
    unfolding checkIPRateLimit_def Let_def by (intro io_intros)
  show "keeps w_db (getCachedVerifyResult k)" unfolding getCachedVerifyResult_def by (intro io_intros)
  show "keeps w_db (reuse_challenge key)"
    unfolding reuse_challenge_def GetChallenge_def first_or_err_def by (intro io_intros)
  show "keeps w_db (verify_limit s ip)" unfolding verify_limit_def by (rule lim)
  show "keeps w_db (validate_v2 h)" "keeps w_redis (validate_v2 h)" unfolding validate_v2_def by (intro io_intros)+
  show "keeps w_db (mail_and_answer s e b x)" "keeps w_redis (mail_and_answer s e b x)"
    unfolding mail_and_answer_def Let_def by (intro io_intros keeps_login_prims)+
qed

end
