(* ===== verification/Challenges.thy ===== *)
theory Challenges
  imports Auth
begin

text \<open>
  The life of a login challenge. Every change of the table of challenges is one of four statements,
  each atomic in Postgres; whatever the handlers that run concurrently, the table goes through some
  sequence of these statements. The sequences are the traces below: what holds of all traces holds of all
  interleavings, and a run of a single handler is a trace.
\<close>

section \<open>Traces\<close>

datatype event = Create AuthEmailChallenge | Attempt string | Consume string int | Revoke string

text \<open>A challenge as \<open>StartLogin\<close> creates it.\<close>

definition pristine :: "AuthEmailChallenge \<Rightarrow> bool" where
  "pristine c \<longleftrightarrow> chStatus c = 0 \<and> chAttemptCount c = 0 \<and> chMaxAttempts c = 5"

text \<open>The effect of a statement, and whether it changed a row.\<close>

fun stmt_of :: "event \<Rightarrow> database \<Rightarrow> bool \<times> database" where
  "stmt_of (Create c) d = (case insert_challenge c d of (r, d') \<Rightarrow> (r = Inr (), d'))"
| "stmt_of (Attempt k) d =
     (case update_challenges (\<lambda>c. chChallengeID c = k) (\<lambda>c. c\<lparr>chAttemptCount := chAttemptCount c + 1\<rparr>) d of
        (r, d') \<Rightarrow> (r \<noteq> Inr 0, d'))"
| "stmt_of (Consume k now) d =
     (case update_challenges (consumable k now) (\<lambda>c. c\<lparr>chStatus := 1, chConsumedAt := Some now\<rparr>) d of
        (r, d') \<Rightarrow> (r = Inr 1, d'))"
| "stmt_of (Revoke k) d =
     (case update_challenges (\<lambda>c. chChallengeID c = k) (\<lambda>c. c\<lparr>chStatus := 3\<rparr>) d of (r, d') \<Rightarrow> (r \<noteq> Inr 0, d'))"

inductive trace :: "database \<Rightarrow> (event \<times> bool) list \<Rightarrow> database \<Rightarrow> bool" where
  start: "trace d [] d"
| stmt: "trace d es d1 \<Longrightarrow> (\<forall>c. e = Create c \<longrightarrow> pristine c) \<Longrightarrow> stmt_of e d1 = (ok, d2) \<Longrightarrow> trace d (es @ [(e, ok)]) d2"
| other: "trace d es d1 \<Longrightarrow> auth_email_challenges d2 = auth_email_challenges d1 \<Longrightarrow> trace d es d2"

text \<open>What a trace says about one challenge.\<close>

definition attempts_of :: "string \<Rightarrow> (event \<times> bool) list \<Rightarrow> nat" where
  "attempts_of k es = length (filter (\<lambda>x. x = (Attempt k, True)) es)"

definition consumptions_of :: "string \<Rightarrow> (event \<times> bool) list \<Rightarrow> nat" where
  "consumptions_of k es = length (filter (\<lambda>(e, ok). ok \<and> (\<exists>now. e = Consume k now)) es)"

definition revoked_in :: "string \<Rightarrow> (event \<times> bool) list \<Rightarrow> bool" where
  "revoked_in k es \<longleftrightarrow> (Revoke k, True) \<in> set es"

lemma counts_simps [simp]:
  "attempts_of k [] = 0" "consumptions_of k [] = 0" "\<not> revoked_in k []"
  "attempts_of k (es @ [x]) = attempts_of k es + (if x = (Attempt k, True) then 1 else 0)"
  "consumptions_of k (es @ [(e, ok)]) = consumptions_of k es + (if ok \<and> (\<exists>now. e = Consume k now) then 1 else 0)"
  "revoked_in k (es @ [x]) \<longleftrightarrow> revoked_in k es \<or> x = (Revoke k, True)"
  by (auto simp: attempts_of_def consumptions_of_def revoked_in_def)

section \<open>The invariant of a challenge\<close>

text \<open>
  The row of a challenge remembers its trace: the counter is the number of attempts, and it is pending only
  while it was neither consumed nor revoked.
\<close>

definition remembers :: "(event \<times> bool) list \<Rightarrow> AuthEmailChallenge \<Rightarrow> bool" where
  "remembers es c \<longleftrightarrow> chMaxAttempts c = 5 \<and> chAttemptCount c = int (attempts_of (chChallengeID c) es) \<and>
     (chStatus c = 0 \<longrightarrow> consumptions_of (chChallengeID c) es = 0 \<and> \<not> revoked_in (chChallengeID c) es) \<and>
     consumptions_of (chChallengeID c) es \<le> 1"

definition untouched :: "string \<Rightarrow> (event \<times> bool) list \<Rightarrow> bool" where
  "untouched k es \<longleftrightarrow> attempts_of k es = 0 \<and> consumptions_of k es = 0 \<and> \<not> revoked_in k es"

definition history_ok :: "(event \<times> bool) list \<Rightarrow> database \<Rightarrow> bool" where
  "history_ok es d \<longleftrightarrow> distinct (map chChallengeID (auth_email_challenges d)) \<and>
     (\<forall>c \<in> set (auth_email_challenges d). remembers es c) \<and>
     (\<forall>k. k \<notin> chChallengeID ` set (auth_email_challenges d) \<longrightarrow> untouched k es)"

lemma ids_update:
  "(\<And>c. chChallengeID (f c) = chChallengeID c) \<Longrightarrow> map chChallengeID (update_where P f cs) = map chChallengeID cs"
  by (rule map_update_where)

lemma mem_ids: "(\<And>c. chChallengeID (f c) = chChallengeID c) \<Longrightarrow>
    k \<in> chChallengeID ` set (update_where P f cs) \<longleftrightarrow> k \<in> chChallengeID ` set cs"
  using ids_update [of f P cs] by (metis list.set_map)

text \<open>An update of the rows of one ID: it suffices to look at one row.\<close>

lemma history_update:
  assumes ok: "history_ok es d" and upd: "update_challenges P f d = (Inr n, d2)"
    and id: "\<And>c. chChallengeID (f c) = chChallengeID c" "\<And>c. P c \<Longrightarrow> chChallengeID c = k"
    and hit: "\<And>c. c \<in> set (auth_email_challenges d) \<Longrightarrow> P c \<Longrightarrow> remembers es c \<Longrightarrow> remembers es' (f c)"
    and miss: "\<And>c. c \<in> set (auth_email_challenges d) \<Longrightarrow> \<not> P c \<Longrightarrow> remembers es c \<Longrightarrow> remembers es' c"
    and gone: "\<And>j. j \<notin> chChallengeID ` set (auth_email_challenges d) \<Longrightarrow> untouched j es \<Longrightarrow> untouched j es'"
  shows "history_ok es' d2"
proof -
  have d2: "auth_email_challenges d2 = update_where P f (auth_email_challenges d)"
    using upd by (auto simp: update_challenges_def)
  show ?thesis
    unfolding history_ok_def d2 ids_update [OF id(1)] mem_ids [OF id(1)]
    using ok hit miss gone by (auto simp: history_ok_def set_update_where)
qed

lemma remembers_append:
  "remembers (es @ [x]) c \<longleftrightarrow> remembers es c" if "x \<noteq> (Attempt (chChallengeID c), True)"
    "\<And>now. x \<noteq> (Consume (chChallengeID c) now, True)" "x \<noteq> (Revoke (chChallengeID c), True)"
  using that by (cases x) (auto simp: remembers_def)

lemma untouched_append:
  "untouched k (es @ [x]) \<longleftrightarrow> untouched k es" if "x \<noteq> (Attempt k, True)" "\<And>now. x \<noteq> (Consume k now, True)" "x \<noteq> (Revoke k, True)"
  using that by (cases x) (auto simp: untouched_def)

lemma history_create:
  assumes "history_ok es d" "pristine c" "stmt_of (Create c) d = (ok, d2)"
  shows "history_ok (es @ [(Create c, ok)]) d2"
proof -
  have app: "remembers (es @ [(Create c, b)]) = remembers es" "untouched k (es @ [(Create c, b)]) = untouched k es" for b k
    by (auto simp: fun_eq_iff remembers_append untouched_append)
  show ?thesis
  proof (cases "chChallengeID c \<in> chChallengeID ` set (auth_email_challenges d)")
    case True
    then show ?thesis using assms by (simp add: insert_challenge_def history_ok_def app)
  next
    case False
    then have "untouched (chChallengeID c) es" using assms(1) by (simp add: history_ok_def)
    then have "remembers es c" using assms(2) by (simp add: remembers_def pristine_def untouched_def)
    then show ?thesis using False assms by (auto simp: insert_challenge_def history_ok_def app)
  qed
qed

lemma history_attempt:
  assumes "history_ok es d" "stmt_of (Attempt k) d = (ok, d2)"
  shows "history_ok (es @ [(Attempt k, ok)]) d2"
proof -
  let ?f = "\<lambda>c :: AuthEmailChallenge. c\<lparr>chAttemptCount := chAttemptCount c + 1\<rparr>"
  have upd: "update_challenges (\<lambda>c. chChallengeID c = k) ?f d = (Inr (length (filter (\<lambda>c. chChallengeID c = k) (auth_email_challenges d))), d2)"
    and ok: "ok \<longleftrightarrow> k \<in> chChallengeID ` set (auth_email_challenges d)"
    using assms(2) by (auto simp: update_challenges_def filter_empty_conv)
  show ?thesis
    by (rule history_update [OF assms(1) upd, where k = k])
      (use ok in \<open>auto simp: remembers_append untouched_append remembers_def\<close>)
qed

lemma history_revoke:
  assumes "history_ok es d" "stmt_of (Revoke k) d = (ok, d2)"
  shows "history_ok (es @ [(Revoke k, ok)]) d2"
proof -
  let ?f = "\<lambda>c :: AuthEmailChallenge. c\<lparr>chStatus := 3\<rparr>"
  have upd: "update_challenges (\<lambda>c. chChallengeID c = k) ?f d = (Inr (length (filter (\<lambda>c. chChallengeID c = k) (auth_email_challenges d))), d2)"
    and ok: "ok \<longleftrightarrow> k \<in> chChallengeID ` set (auth_email_challenges d)"
    using assms(2) by (auto simp: update_challenges_def filter_empty_conv)
  show ?thesis
    by (rule history_update [OF assms(1) upd, where k = k])
      (use ok in \<open>auto simp: remembers_append untouched_append remembers_def\<close>)
qed

text \<open>Several rows of one ID cannot be, so the update of \<open>ConsumeChallenge\<close> changes at most one.\<close>

lemma unique_match:
  assumes "distinct (map f xs)" "\<And>x. P x \<Longrightarrow> f x = k"
  shows "length (filter P xs) \<le> 1"
  using assms(1)
proof (induction xs)
  case (Cons a xs)
  have "filter P xs = []" if "P a"
    using Cons.prems assms(2) that by (auto simp: filter_empty_conv)
  then show ?case using Cons by auto
qed simp

lemma history_consume:
  assumes "history_ok es d" "stmt_of (Consume k now) d = (ok, d2)"
  shows "history_ok (es @ [(Consume k now, ok)]) d2"
proof -
  let ?f = "\<lambda>c :: AuthEmailChallenge. c\<lparr>chStatus := 1, chConsumedAt := Some now\<rparr>"
  let ?n = "length (filter (consumable k now) (auth_email_challenges d))"
  have upd: "update_challenges (consumable k now) ?f d = (Inr ?n, d2)" and ok: "ok \<longleftrightarrow> ?n = 1"
    using assms(2) by (auto simp: update_challenges_def)
  have le: "?n \<le> 1"
    using assms(1) by (intro unique_match [where f = chChallengeID and k = k]) (auto simp: history_ok_def consumable_def)
  have one: "ok" if "c \<in> set (auth_email_challenges d)" "consumable k now c" for c
  proof -
    have "filter (consumable k now) (auth_email_challenges d) \<noteq> []" using that by (auto simp: filter_empty_conv)
    then show ?thesis using le ok by (simp add: le_Suc_eq)
  qed
  show ?thesis
  proof (rule history_update [OF assms(1) upd, where k = k])
    fix c assume c: "c \<in> set (auth_email_challenges d)" "\<not> consumable k now c" "remembers es c"
    show "remembers (es @ [(Consume k now, ok)]) c"
    proof (cases "ok \<and> chChallengeID c = k")
      case True
      then obtain c' where c': "c' \<in> set (auth_email_challenges d)" "consumable k now c'"
        using ok by (metis One_nat_def length_0_conv nat.distinct(1) filter_False)
      then have "c' = c" using True c(1) assms(1) by (auto simp: history_ok_def consumable_def distinct_map inj_on_def)
      then show ?thesis using c c' by simp
    next
      case False
      then show ?thesis using c by (subst remembers_append) auto
    qed
  next
    fix j assume j: "j \<notin> chChallengeID ` set (auth_email_challenges d)" "untouched j es"
    have "\<not> (ok \<and> j = k)"
    proof
      assume "ok \<and> j = k"
      then have "filter (consumable k now) (auth_email_challenges d) \<noteq> []" using ok by auto
      then show False using j \<open>ok \<and> j = k\<close> by (auto simp: filter_empty_conv consumable_def)
    qed
    then show "untouched j (es @ [(Consume k now, ok)])" using j by (subst untouched_append) auto
  qed (use one in \<open>auto simp: consumable_def remembers_def\<close>)
qed

lemma history_trace: "trace d es d' \<Longrightarrow> auth_email_challenges d = [] \<Longrightarrow> history_ok es d'"
proof (induction rule: trace.induct)
  case (start d)
  then show ?case by (simp add: history_ok_def untouched_def)
next
  case (stmt d es d1 e ok d2)
  then show ?case
    using history_attempt [of es d1] history_revoke [of es d1] history_consume [of es d1] history_create [of es d1]
    by (cases e) (simp_all del: stmt_of.simps)
next
  case (other d es d1 d2)
  then show ?case by (simp add: history_ok_def)
qed

section \<open>What every trace satisfies\<close>

lemma trace_append: "trace d1 es' d2 \<Longrightarrow> trace d es d1 \<Longrightarrow> trace d (es @ es') d2"
proof (induction rule: trace.induct)
  case (stmt d1 es' d2 e ok d3)
  then have "trace d ((es @ es') @ [(e, ok)]) d3" by (intro trace.stmt) auto
  then show ?case by simp
qed (auto intro: trace.other)

lemma trace_split: "trace d es d' \<Longrightarrow> es = es1 @ es2 \<Longrightarrow> \<exists>d1. trace d es1 d1 \<and> trace d1 es2 d'"
proof (induction arbitrary: es2 rule: trace.induct)
  case (start d)
  then show ?case by (auto intro: trace.start)
next
  case (stmt d es d1 e ok d2)
  show ?case
  proof (cases es2 rule: rev_cases)
    case Nil
    then show ?thesis using stmt.prems stmt.hyps by (auto intro: trace.intros)
  next
    case (snoc es3 x)
    then have "es = es1 @ es3" "x = (e, ok)" using stmt.prems by auto
    then show ?thesis using stmt.IH [of es3] stmt.hyps snoc by (auto intro: trace.stmt)
  qed
next
  case (other d es d1 d2)
  then show ?case by (blast intro: trace.other)
qed

text \<open>A trace that begins with an event begins with that statement, changes elsewhere aside.\<close>

lemma trace_first:
  assumes "trace d es d'" "es = (e, ok) # es2"
  shows "\<exists>d1 d2. auth_email_challenges d1 = auth_email_challenges d \<and> stmt_of e d1 = (ok, d2)"
  using assms
proof (induction arbitrary: es2 rule: trace.induct)
  case (stmt d es d1 e' ok' d2)
  have idle: "trace d es d1 \<Longrightarrow> es = [] \<Longrightarrow> auth_email_challenges d1 = auth_email_challenges d" for d es d1
    by (induction rule: trace.induct) auto
  show ?case
  proof (cases es)
    case Nil
    then show ?thesis using stmt idle [OF stmt.hyps(1)] by auto
  next
    case (Cons x xs)
    then show ?thesis using stmt by auto
  qed
qed auto

lemma consumable_row:
  assumes "history_ok es d" "stmt_of (Consume k now) d = (True, d2)"
  obtains c where "c \<in> set (auth_email_challenges d)" "consumable k now c" "remembers es c"
proof -
  have "filter (consumable k now) (auth_email_challenges d) \<noteq> []"
    using assms(2) by (auto simp: update_challenges_def)
  then show thesis using assms(1) that by (auto simp: filter_empty_conv history_ok_def)
qed

lemma consumptions_append: "consumptions_of k (es1 @ es2) = consumptions_of k es1 + consumptions_of k es2"
  by (simp add: consumptions_of_def)

text \<open>C8: whatever the interleaving of the statements of concurrent logins, a challenge is consumed at most once:
  when a consumption succeeds, the same challenge was not consumed before and is not consumed later,
  it had not been revoked, fewer than five wrong codes had been recorded for it, and it had not expired.\<close>

theorem challenge_consumed_once:
  assumes "trace d (es1 @ (Consume k now, True) # es2) d'" "auth_email_challenges d = []"
  shows "consumptions_of k es1 = 0 \<and> consumptions_of k es2 = 0 \<and> \<not> revoked_in k es1 \<and> attempts_of k es1 < 5 \<and>
    (\<exists>d1. trace d es1 d1 \<and> (\<exists>c \<in> set (auth_email_challenges d1). chChallengeID c = k \<and> now \<le> chExpireAt c))"
proof -
  obtain d1 where d1: "trace d es1 d1" "trace d1 ((Consume k now, True) # es2) d'"
    using trace_split [OF assms(1) refl] by blast
  obtain d2 d3 where d2: "auth_email_challenges d2 = auth_email_challenges d1" "stmt_of (Consume k now) d2 = (True, d3)"
    using trace_first [OF d1(2) refl] by blast
  have h: "history_ok es1 d2" using history_trace [OF trace.other [OF d1(1) d2(1)] assms(2)] .
  obtain c where c: "c \<in> set (auth_email_challenges d2)" "consumable k now c" "remembers es1 c"
    using consumable_row [OF h d2(2)] .
  have "consumptions_of k (es1 @ (Consume k now, True) # es2) \<le> 1"
  proof (cases "k \<in> chChallengeID ` set (auth_email_challenges d')")
    case True
    then show ?thesis using history_trace [OF assms] by (auto simp: history_ok_def remembers_def)
  next
    case False
    then show ?thesis using history_trace [OF assms] by (simp add: history_ok_def untouched_def)
  qed
  moreover have "consumptions_of k ((Consume k now, True) # es2) = Suc (consumptions_of k es2)"
    by (simp add: consumptions_of_def)
  ultimately have "consumptions_of k es1 = 0 \<and> consumptions_of k es2 = 0" by (simp add: consumptions_append)
  then show ?thesis using c d1(1) d2(1) by (auto simp: consumable_def remembers_def intro!: exI [of _ d1])
qed

text \<open>A trace of one challenge: created, one wrong code, consumed, and a second consumption that fails.\<close>

definition demo_challenge :: AuthEmailChallenge where
  "demo_challenge = \<lparr>chChallengeID = ''ch_1'', chLoginMethod = ''email'', chEmail = Some ''a@b.co'', chCodeHash = ''h'',
     chStatus = 0, chAttemptCount = 0, chMaxAttempts = 5, chExpireAt = 600, chCreatedAt = 0, chConsumedAt = None,
     chClientIP = None, chUserAgent = None\<rparr>"

abbreviation with_challenge :: "AuthEmailChallenge \<Rightarrow> database" where
  "with_challenge c \<equiv> empty_db\<lparr>auth_email_challenges := [c]\<rparr>"

lemma demo_trace:
  "trace empty_db ([(Create demo_challenge, True), (Attempt ''ch_1'', True)] @ (Consume ''ch_1'' 7, True) # [(Consume ''ch_1'' 8, False)])
     (with_challenge (demo_challenge\<lparr>chAttemptCount := 1, chStatus := 1, chConsumedAt := Some 7\<rparr>))"
proof -
  have 1: "trace empty_db ([] @ [(Create demo_challenge, True)]) (with_challenge demo_challenge)"
    by (rule trace.stmt [OF trace.start]) (simp_all add: pristine_def demo_challenge_def insert_challenge_def empty_db_def)
  have 2: "trace empty_db (([] @ [(Create demo_challenge, True)]) @ [(Attempt ''ch_1'', True)])
      (with_challenge (demo_challenge\<lparr>chAttemptCount := 1\<rparr>))"
    by (rule trace.stmt [OF 1]) (simp_all add: demo_challenge_def update_challenges_def empty_db_def)
  have 3: "trace empty_db ((([] @ [(Create demo_challenge, True)]) @ [(Attempt ''ch_1'', True)]) @ [(Consume ''ch_1'' 7, True)])
      (with_challenge (demo_challenge\<lparr>chAttemptCount := 1, chStatus := 1, chConsumedAt := Some 7\<rparr>))"
    by (rule trace.stmt [OF 2]) (simp_all add: demo_challenge_def update_challenges_def empty_db_def consumable_def)
  have "trace empty_db (((([] @ [(Create demo_challenge, True)]) @ [(Attempt ''ch_1'', True)]) @ [(Consume ''ch_1'' 7, True)])
      @ [(Consume ''ch_1'' 8, False)])
      (with_challenge (demo_challenge\<lparr>chAttemptCount := 1, chStatus := 1, chConsumedAt := Some 7\<rparr>))"
    by (rule trace.stmt [OF 3]) (simp_all add: demo_challenge_def update_challenges_def empty_db_def consumable_def)
  then show ?thesis by simp
qed

theorem challenge_consumed_once_witness:
  "let es1 = [(Create demo_challenge, True), (Attempt ''ch_1'', True)]; es2 = [(Consume ''ch_1'' 8, False)] in
   trace empty_db (es1 @ (Consume ''ch_1'' 7, True) # es2)
     (with_challenge (demo_challenge\<lparr>chAttemptCount := 1, chStatus := 1, chConsumedAt := Some 7\<rparr>)) \<and>
   consumptions_of ''ch_1'' es1 = 0 \<and> consumptions_of ''ch_1'' es2 = 0 \<and> \<not> revoked_in ''ch_1'' es1 \<and> attempts_of ''ch_1'' es1 < 5"
  using challenge_consumed_once [OF demo_trace] demo_trace by (simp add: Let_def empty_db_def)

section \<open>Handlers are traces\<close>

definition traced :: "'a io \<Rightarrow> bool" where
  "traced m \<longleftrightarrow> (\<forall>w. \<exists>es. trace (w_db w) es (w_db (snd (run_state m w))))"

named_theorems traced_intros "introduction rules for traced"

lemma traced_keeps: "keeps w_db m \<Longrightarrow> traced m"
  unfolding traced_def keeps_def by (metis trace.start)

lemma traced_bind [traced_intros]: "traced m \<Longrightarrow> (\<And>a. traced (f a)) \<Longrightarrow> traced (State_Monad.bind m f)"
proof -
  assume m: "traced m" and f: "\<And>a. traced (f a)"
  show ?thesis
    unfolding traced_def
  proof
    fix w
    obtain a w1 where 1: "run_state m w = (a, w1)" by force
    obtain es where "trace (w_db w) es (w_db w1)" using m 1 unfolding traced_def by (metis snd_conv)
    moreover obtain es' where "trace (w_db w1) es' (w_db (snd (run_state (f a) w1)))" using f unfolding traced_def by blast
    ultimately show "\<exists>es. trace (w_db w) es (w_db (snd (run_state (State_Monad.bind m f) w)))"
      using trace_append 1 by fastforce
  qed
qed

lemma traced_branches [traced_intros]:
  "traced (ret x)"
  "(b \<Longrightarrow> traced m1) \<Longrightarrow> (\<not> b \<Longrightarrow> traced m2) \<Longrightarrow> traced (if b then m1 else m2)"
  "(\<And>e. r = Inl e \<Longrightarrow> traced (g e)) \<Longrightarrow> (\<And>y. r = Inr y \<Longrightarrow> traced (h y)) \<Longrightarrow> traced (case r of Inl e \<Rightarrow> g e | Inr y \<Rightarrow> h y)"
  "(z = None \<Longrightarrow> traced m3) \<Longrightarrow> (\<And>y. z = Some y \<Longrightarrow> traced (k y)) \<Longrightarrow> traced (case z of None \<Rightarrow> m3 | Some y \<Rightarrow> k y)"
  by (auto intro: traced_keeps keeps_return split: sum.splits option.splits)

lemma traced_bool [traced_intros]: "traced m1 \<Longrightarrow> traced m2 \<Longrightarrow> traced (case b of True \<Rightarrow> m1 | False \<Rightarrow> m2)"
  by (cases b) auto

lemma traced_and_then [traced_intros]: "traced m \<Longrightarrow> (\<And>a. traced (f a)) \<Longrightarrow> traced (and_then m f)"
  unfolding and_then_def by (intro traced_intros)

lemma traced_stmt:
  assumes "\<And>d. \<exists>es. trace d es (snd (f d))"
  shows "traced (db_stmt f)"
  unfolding traced_def
proof
  fix w
  show "\<exists>es. trace (w_db w) es (w_db (snd (run_state (db_stmt f) w)))"
  proof (cases rule: run_db_stmt [of f w])
    case (1 x d e n)
    then show ?thesis using assms [of "w_db w"] by simp
  next
    case (2 e n er b)
    then show ?thesis using trace.start by auto
  next
    case (3 x d e n er)
    then show ?thesis using assms [of "w_db w"] by simp
  qed
qed

lemma traced_event:
  assumes "\<And>d. snd (f d) = snd (stmt_of e d)" "\<And>c. e = Create c \<Longrightarrow> pristine c"
  shows "traced (db_stmt f)"
proof (rule traced_stmt)
  fix d
  obtain ok d2 where "stmt_of e d = (ok, d2)" by force
  with trace.stmt [OF trace.start, of e d ok d2] assms show "\<exists>es. trace d es (snd (f d))" by (auto intro!: exI)
qed

lemma traced_other: "(\<And>d. auth_email_challenges (snd (f d)) = auth_email_challenges d) \<Longrightarrow> traced (db_stmt f)"
  by (rule traced_stmt) (blast intro: trace.other [OF trace.start])

lemma traced_challenge_stmts [traced_intros]:
  "pristine c \<Longrightarrow> traced (CreateChallenge c)" "traced (IncrementChallengeAttempts k)" "traced (ConsumeChallenge k now)"
  "traced (RevokeChallenge k)"
proof -
  show "pristine c \<Longrightarrow> traced (CreateChallenge c)"
    unfolding CreateChallenge_def by (rule traced_event [where e = "Create c"]) (auto split: prod.splits)
  show "traced (IncrementChallengeAttempts k)"
    unfolding IncrementChallengeAttempts_def
    by (intro traced_intros traced_event [where e = "Attempt k"]) (auto split: prod.splits)
  show "traced (ConsumeChallenge k now)"
    unfolding ConsumeChallenge_def
    by (intro traced_intros traced_event [where e = "Consume k now"]) (auto split: prod.splits)
  show "traced (RevokeChallenge k)"
    unfolding RevokeChallenge_def
    by (intro traced_intros traced_event [where e = "Revoke k"]) (auto split: prod.splits)
qed

lemma traced_session_stmts [traced_intros]:
  "traced (CreateSession s)" "traced (RevokeSession h)" "traced (UpdateSessionActivity i a b)" "traced (SetEmailVerifiedAt a t)"
  unfolding CreateSession_def RevokeSession_def UpdateSessionActivity_def SetEmailVerifiedAt_def
  by (intro traced_intros traced_other traced_keeps io_intros; simp add: insert_session_def update_sessions_def)+

lemmas traced_prims [traced_intros] = keeps_db_prims [THEN traced_keeps] keeps_db_cache [THEN traced_keeps]
  keeps_login_prims(1,3,5) [THEN traced_keeps] keeps_login_reads(1,3,5,7,9-13,15) [THEN traced_keeps] keeps_db_query(1) [THEN traced_keeps]

lemma new_challenge_pristine: "pristine (new_challenge s req e i o' t)"
  by (simp add: pristine_def new_challenge_def)

lemma traced_parts [traced_intros]:
  "traced (completeEmailLogin s e ip ua)" "traced (establish_challenge n s req e key)" "traced (reject_code k)"
  "traced (refresh_session h ss)"
proof -
  show "traced (completeEmailLogin s e ip ua)" unfolding completeEmailLogin_def Let_def by (intro traced_intros)
  show "traced (establish_challenge n s req e key)"
    by (induction n) (simp_all add: Let_def, (intro traced_intros new_challenge_pristine; simp)+)
  show "traced (reject_code k)" unfolding reject_code_def by (intro traced_intros)
  show "traced (refresh_session h ss)" unfolding refresh_session_def Let_def by (intro traced_intros)
qed

text \<open>For every failure of every command, a run of each handler of the login service changes the table of
  challenges by a sequence of the four statements, with challenges created as pending, without
  attempts and with five allowed; so what holds of all traces holds of every interleaving of handlers.\<close>

theorem login_handlers_trace:
  "traced (StartLogin s sreq) \<and> traced (VerifyLogin s vreq) \<and> traced (ValidateSession s tok) \<and> traced (Logout s tok)"
proof -
  have finish: "traced (finish_login s req c)" for req c
    unfolding finish_login_def record_login_def Let_def by (intro traced_intros)
  have verify: "traced (verify_challenge s req c now)" for req c now
    unfolding verify_challenge_def Let_def by (intro traced_intros finish)
  have "traced (StartLogin s sreq)"
    unfolding StartLogin_def start_challenge_def Let_def by (intro traced_intros)
  moreover have "traced (VerifyLogin s vreq)"
    unfolding VerifyLogin_def Let_def by (intro traced_intros verify)
  moreover have "traced (ValidateSession s tok)"
    unfolding ValidateSession_def Let_def by (intro traced_intros) (auto intro!: traced_intros split: prod.splits)
  moreover have "traced (Logout s tok)"
    unfolding Logout_def Let_def by (intro traced_intros)
  ultimately show ?thesis by blast
qed

end
