(* ===== verification/Sessions.thy ===== *)
theory Sessions
  imports Challenges Runs
begin

text \<open>
  Sessions: the cached entry of a token always belongs to a stored session of the same agent, whatever
  fails; a login gives a token that validates as its agent until it is logged out; and the race between a
  validation and a logout.
\<close>

section \<open>Cached sessions belong to stored ones\<close>

definition has_session :: "string \<Rightarrow> int \<Rightarrow> database \<Rightarrow> bool" where
  "has_session h a d \<longleftrightarrow> (\<exists>ss \<in> set (agent_sessions d). ssTokenHash ss = h \<and> ssAgentID ss = a)"

definition login_inv :: "AuthServiceImpl \<Rightarrow> database \<Rightarrow> redis \<Rightarrow> bool" where
  "login_inv s d rs \<longleftrightarrow> distinct (map ssTokenHash (agent_sessions d)) \<and>
     (\<forall>h p e. rs (AuthSession h) = Some (RStr p, e) \<longrightarrow> (\<exists>a email. p = session_value a email \<and> has_session h a d)) \<and>
     (\<forall>k p e. rs (AuthVerify k) = Some (RStr p, e) \<longrightarrow>
        (\<exists>r a. p = JVerifyLogin r \<and> has_session (sha256Hex s (vrAccessToken r)) a d))"

abbreviation login_keys :: "rkey set" where
  "login_keys \<equiv> range AuthSession \<union> range AuthVerify"

text \<open>\<open>steady J\<close>: a fact about the tables that more sessions cannot make false.\<close>

definition more_sessions :: "database \<Rightarrow> database \<Rightarrow> bool" where
  "more_sessions d d' \<longleftrightarrow> (distinct (map ssTokenHash (agent_sessions d)) \<longrightarrow> distinct (map ssTokenHash (agent_sessions d'))) \<and>
     (\<forall>h a. has_session h a d \<longrightarrow> has_session h a d')"

definition steady :: "(database \<Rightarrow> bool) \<Rightarrow> bool" where
  "steady J \<longleftrightarrow> (\<forall>d d'. more_sessions d d' \<longrightarrow> J d \<longrightarrow> J d')"

lemma steady_facts [simp]: "steady (\<lambda>_. True)" "steady (has_session h a)"
  by (auto simp: steady_def more_sessions_def)

definition with_fact :: "AuthServiceImpl \<Rightarrow> (database \<Rightarrow> bool) \<Rightarrow> database \<Rightarrow> redis \<Rightarrow> bool" where
  "with_fact s J d rs \<longleftrightarrow> login_inv s d rs \<and> J d"

lemma login_inv_more: "login_inv s d rs \<Longrightarrow> more_sessions d d' \<Longrightarrow> login_inv s d' rs"
  unfolding login_inv_def more_sessions_def by blast

lemma with_fact_local: "local_to login_keys (with_fact s J)"
proof -
  have "login_inv s d rs'" if "login_inv s d rs" "\<forall>k \<in> login_keys. rs' k = rs k" for d rs rs'
  proof -
    have "rs' (AuthSession h) = rs (AuthSession h)" "rs' (AuthVerify h) = rs (AuthVerify h)" for h using that(2) by auto
    then show ?thesis using that(1) unfolding login_inv_def by auto
  qed
  then show ?thesis unfolding local_to_def with_fact_def by blast
qed

named_theorems login_intros "what keeps the invariant of the login service"

lemma login_stmt:
  assumes "steady J" "\<And>d x d'. f d = (Inr x, d') \<Longrightarrow> more_sessions d d'"
  shows "preserves (on_stores (with_fact s J)) (db_stmt f)"
proof (rule preserves_db_stmt)
  fix d rs x d' assume "with_fact s J d rs" "f d = (Inr x, d')"
  then show "with_fact s J d' rs"
    using assms(1) assms(2) [of d x d'] login_inv_more unfolding with_fact_def steady_def by blast
qed

lemma same_sessions: "agent_sessions d' = agent_sessions d \<Longrightarrow> more_sessions d d'"
  by (simp add: more_sessions_def has_session_def)

lemma touched_sessions:
  assumes "agent_sessions d' = update_where P f (agent_sessions d)" "\<And>ss. ssTokenHash (f ss) = ssTokenHash ss \<and> ssAgentID (f ss) = ssAgentID ss"
  shows "more_sessions d d'"
proof -
  have "map (\<lambda>ss. (ssTokenHash ss, ssAgentID ss)) (agent_sessions d') = map (\<lambda>ss. (ssTokenHash ss, ssAgentID ss)) (agent_sessions d)"
    using assms by (simp add: map_update_where)
  then have "map fst (map (\<lambda>ss. (ssTokenHash ss, ssAgentID ss)) (agent_sessions d')) = map fst (map (\<lambda>ss. (ssTokenHash ss, ssAgentID ss)) (agent_sessions d))"
    and "set (map (\<lambda>ss. (ssTokenHash ss, ssAgentID ss)) (agent_sessions d')) = set (map (\<lambda>ss. (ssTokenHash ss, ssAgentID ss)) (agent_sessions d))"
    by auto
  then have "map ssTokenHash (agent_sessions d') = map ssTokenHash (agent_sessions d)" "has_session h a d' = has_session h a d" for h a
    unfolding has_session_def by (simp_all add: comp_def) (smt (verit, best) image_iff prod.inject)
  then show ?thesis by (simp add: more_sessions_def)
qed

lemma inserted_session:
  assumes "insert_session ss d = (Inr u, d')"
  shows "more_sessions d d'" "has_session (ssTokenHash ss) (ssAgentID ss) d'"
  using assms by (auto simp: insert_session_def more_sessions_def has_session_def split: if_splits)

abbreviation keeps_login :: "AuthServiceImpl \<Rightarrow> (database \<Rightarrow> bool) \<Rightarrow> 'a io \<Rightarrow> bool" where
  "keeps_login s J m \<equiv> preserves (on_stores (with_fact s J)) m"

lemma login_stmts [login_intros]:
  assumes "steady J"
  shows "keeps_login s J (CreateChallenge c)" "keeps_login s J (IncrementChallengeAttempts k)"
    "keeps_login s J (ConsumeChallenge k now)" "keeps_login s J (RevokeChallenge k)"
    "keeps_login s J (RevokeSession h)" "keeps_login s J (UpdateSessionActivity i a b)" "keeps_login s J (SetEmailVerifiedAt ag t)"
proof -
  note stmt = login_stmt [OF assms]
  have ch: "keeps_login s J (db_stmt (update_challenges P f))" for P f
    by (rule stmt) (auto simp: update_challenges_def intro!: same_sessions)
  show "keeps_login s J (IncrementChallengeAttempts k)" "keeps_login s J (ConsumeChallenge k now)" "keeps_login s J (RevokeChallenge k)"
    unfolding IncrementChallengeAttempts_def ConsumeChallenge_def RevokeChallenge_def by (intro io_intros ch)+
  show "keeps_login s J (CreateChallenge c)"
    unfolding CreateChallenge_def by (rule stmt) (auto simp: insert_challenge_def intro!: same_sessions split: if_splits)
  have ss: "keeps_login s J (db_stmt (update_sessions P f))"
    if "\<And>ss. ssTokenHash (f ss) = ssTokenHash ss \<and> ssAgentID (f ss) = ssAgentID ss" for P f
    by (rule stmt) (use touched_sessions [OF _ that] in \<open>auto simp: update_sessions_def\<close>)
  show "keeps_login s J (RevokeSession h)" "keeps_login s J (UpdateSessionActivity i a b)"
    unfolding RevokeSession_def UpdateSessionActivity_def by (rule ss, simp)+
  show "keeps_login s J (SetEmailVerifiedAt ag t)"
    unfolding SetEmailVerifiedAt_def by (rule stmt) (auto intro!: same_sessions)
qed

lemma login_prims [login_intros]:
  "keeps_login s J next_uuid" "keeps_login s J generateOTP" "keeps_login s J (send_mail a b)" "keeps_login s J (GetChallenge k)"
  "keeps_login s J (GetAgentByEmail e)" "keeps_login s J (GetSessionByTokenHash h)" "keeps_login s J (validate_v2 h)"
  "keeps_login s J (mail_and_answer s e mb x)" "keeps_login s J (cache_Read key)"
  by (auto intro!: preserves_stores_keeps io_intros preserves_cache_local(1) [OF with_fact_local])

text \<open>Commands on other keys, and the removal of a cached session.\<close>

lemma login_cmds [login_intros]:
  "key \<notin> login_keys \<Longrightarrow> keeps_login s J (redis_cmd (INCR key))" "key \<notin> login_keys \<Longrightarrow> keeps_login s J (redis_cmd (EXPIRE key t))"
  "key \<notin> login_keys \<Longrightarrow> keeps_login s J (redis_cmd (DEL [key]))" "key \<notin> login_keys \<Longrightarrow> keeps_login s J (redis_cmd (SETNX key p t))"
  "keeps_login s J (redis_cmd (GET key))"
proof -
  have del: "touches {key} (DEL [key])" using touches_cmds(4) [of "[key]"] by simp
  show "key \<notin> login_keys \<Longrightarrow> keeps_login s J (redis_cmd (DEL [key]))"
    using preserves_local [OF with_fact_local del] by simp
  show "key \<notin> login_keys \<Longrightarrow> keeps_login s J (redis_cmd (INCR key))" "key \<notin> login_keys \<Longrightarrow> keeps_login s J (redis_cmd (EXPIRE key t))"
    "key \<notin> login_keys \<Longrightarrow> keeps_login s J (redis_cmd (SETNX key p t))"
    by (rule preserves_local [OF with_fact_local touches_cmds(8)] preserves_local [OF with_fact_local touches_cmds(6)]
        preserves_local [OF with_fact_local touches_cmds(3)]; auto)+
  show "keeps_login s J (redis_cmd (GET key))"
    by (rule preserves_local [OF with_fact_local touches_cmds(1)]) simp
qed

lemma login_forget [login_intros]: "keeps_login s J (cache_Remove [AuthSession h])"
proof -
  have "keeps_login s J (redis_cmd (DEL [AuthSession h]))"
    by (rule preserves_redis_cmd) (auto simp: with_fact_def login_inv_def split: if_splits)
  then show ?thesis unfolding cache_Remove_def by (intro io_intros)
qed

text \<open>Writing an entry needs the session.\<close>

lemma login_write_session: "keeps_login s (has_session h a) (cache_Write (AuthSession h) (session_value a email) ttl)"
proof -
  have "keeps_login s (has_session h a) (redis_cmd (SET (AuthSession h) (session_value a email) ttl))"
    by (rule preserves_redis_cmd) (auto simp: with_fact_def login_inv_def SET_def)
  then show ?thesis unfolding cache_Write_def by (intro io_intros)
qed

lemma login_write_result:
  "keeps_login s (has_session (sha256Hex s (vrAccessToken r)) a) (cache_Write (AuthVerify k) (JVerifyLogin r) ttl)"
proof -
  have "keeps_login s (has_session (sha256Hex s (vrAccessToken r)) a) (redis_cmd (SET (AuthVerify k) (JVerifyLogin r) ttl))"
    by (rule preserves_redis_cmd) (auto simp: with_fact_def login_inv_def SET_def)
  then show ?thesis unfolding cache_Write_def by (intro io_intros)
qed

abbreviation login_ok :: "AuthServiceImpl \<Rightarrow> (database \<Rightarrow> bool) \<Rightarrow> world \<Rightarrow> bool" where
  "login_ok s J \<equiv> on_stores (with_fact s J)"

lemma valid_keeps: "keeps_login s J m \<Longrightarrow> valid (login_ok s J) m (\<lambda>_. login_ok s J)"
  by (simp add: preserves_valid)

lemma login_create_session:
  "valid (login_ok s (\<lambda>_. True)) (CreateSession ss)
     (\<lambda>r. login_ok s (\<lambda>d. r = Inr () \<longrightarrow> has_session (ssTokenHash ss) (ssAgentID ss) d))"
proof -
  have "valid (login_ok s (\<lambda>_. True)) (db_stmt (insert_session ss'))
      (\<lambda>r. login_ok s (\<lambda>d. r = Inr () \<longrightarrow> has_session (ssTokenHash ss') (ssAgentID ss') d))" for ss'
  proof (rule validI)
    fix w assume w: "login_ok s (\<lambda>_. True) w"
    show "login_ok s (\<lambda>d. fst (run_state (db_stmt (insert_session ss')) w) = Inr () \<longrightarrow>
        has_session (ssTokenHash ss') (ssAgentID ss') d) (snd (run_state (db_stmt (insert_session ss')) w))"
      by (cases rule: run_db_stmt [of "insert_session ss'" w])
        (use w inserted_session [of ss' "w_db w"] login_inv_more in \<open>auto simp: with_fact_def\<close>)
  qed
  from this [of "ss\<lparr>ssCreatedAt := now, ssLastSeenAt := now\<rparr>" for now] show ?thesis
    unfolding CreateSession_def
    by (intro valid_bind [OF valid_keeps [OF preserves_stores_keeps]] io_intros) simp
qed

text \<open>A successful login has stored the session of its token.\<close>

lemma login_complete:
  "valid (login_ok s (\<lambda>_. True)) (completeEmailLogin s e ip ua)
     (\<lambda>r. login_ok s (\<lambda>d. Code (vrBaseResp r) = 0 \<longrightarrow> (\<exists>a. has_session (sha256Hex s (vrAccessToken r)) a d)))"
proof -
  have err: "valid (login_ok s J) (ret (verify_error c m))
      (\<lambda>r. login_ok s (\<lambda>d. Code (vrBaseResp r) = 0 \<longrightarrow> (\<exists>a. has_session (sha256Hex s (vrAccessToken r)) a d)))"
    if "c \<noteq> 0" for c m J
    using that by (auto intro!: valid_return simp: verify_error_def with_fact_def)
  have created: "valid (login_ok s (\<lambda>d. r = Inr () \<longrightarrow> has_session (sha256Hex s tok) a d))
      (case r of
          Inl er \<Rightarrow> ret (verify_error 500 (''failed to create session: '' @ err_text er))
        | Inr _ \<Rightarrow> do {
            _ \<leftarrow> cache_Write (AuthSession (sha256Hex s tok)) (session_value a e) 600000;
            latest \<leftarrow> GetAgentByEmail (aEmail agent);
            ret (login_resp (opt_get agent (value_or None latest)) tok expireAt) })
      (\<lambda>r. login_ok s (\<lambda>d. Code (vrBaseResp r) = 0 \<longrightarrow> (\<exists>a. has_session (sha256Hex s (vrAccessToken r)) a d)))"
    for r :: "unit res" and tok a agent expireAt
  proof (rule valid_sum)
    fix u assume "r = Inr u"
    then have r: "(\<lambda>d. r = Inr () \<longrightarrow> has_session (sha256Hex s tok) a d) = has_session (sha256Hex s tok) a" by auto
    show "valid (login_ok s (\<lambda>d. r = Inr () \<longrightarrow> has_session (sha256Hex s tok) a d)) (do {
            _ \<leftarrow> cache_Write (AuthSession (sha256Hex s tok)) (session_value a e) 600000;
            latest \<leftarrow> GetAgentByEmail (aEmail agent);
            ret (login_resp (opt_get agent (value_or None latest)) tok expireAt) })
        (\<lambda>r. login_ok s (\<lambda>d. Code (vrBaseResp r) = 0 \<longrightarrow> (\<exists>a. has_session (sha256Hex s (vrAccessToken r)) a d)))"
      unfolding r
      by (intro valid_bind [OF valid_keeps [OF login_write_session]] valid_bind [OF valid_keeps [OF login_prims(5)]] valid_return)
        (auto simp: with_fact_def login_resp_def)
  qed (auto intro: err)
  show ?thesis
    unfolding completeEmailLogin_def Let_def
    apply (rule valid_bind [OF valid_keeps [OF login_prims(5)]])
    apply (rule valid_sum, rule err, simp)
    apply (rule valid_option, rule err, simp)
    apply (rule valid_if, rule err, simp)
    apply (rule valid_bind [OF valid_keeps [OF preserves_stores_keeps]], (intro io_intros)+)
    apply (rule valid_bind [OF valid_keeps [OF login_stmts(7)]], simp)
    apply (rule valid_bind [OF valid_keeps [OF login_prims(1)]])
    apply (rule valid_bind [OF login_create_session])
    apply (simp only: AgentSession.simps)
    apply (rule created)
    done
qed

lemma login_found_session:
  "valid (login_ok s (\<lambda>_. True)) (GetSessionByTokenHash h)
     (\<lambda>r. login_ok s (\<lambda>d. \<forall>ss. r = Inr ss \<longrightarrow> has_session h (ssAgentID ss) d))"
proof -
  have "valid (login_ok s (\<lambda>_. True)) (first_or_err (db_query (\<lambda>d. first_by ssSessionID
       (\<lambda>ss. ssTokenHash ss = h \<and> ssStatus ss = 0 \<and> ssExpireAt ss > now) (agent_sessions d))))
     (\<lambda>r. login_ok s (\<lambda>d. \<forall>ss. r = Inr ss \<longrightarrow> has_session h (ssAgentID ss) d))" (is "valid _ (first_or_err (db_query ?q)) _") for now
  proof (rule validI)
    fix w assume w: "login_ok s (\<lambda>_. True) w"
    show "login_ok s (\<lambda>d. \<forall>ss. fst (run_state (first_or_err (db_query ?q)) w) = Inr ss \<longrightarrow> has_session h (ssAgentID ss) d)
        (snd (run_state (first_or_err (db_query ?q)) w))"
      unfolding first_or_err_def db_query_def
      by (cases rule: run_db_stmt [of "\<lambda>d. (Inr (?q d), d)" w])
        (use w first_by_Some [of ssSessionID _ "agent_sessions (w_db w)"] in \<open>auto simp: with_fact_def has_session_def split: option.splits\<close>)
  qed
  then show ?thesis
    unfolding GetSessionByTokenHash_def
    by (intro valid_bind [OF valid_keeps [OF preserves_stores_keeps]] io_intros)
qed

lemma login_refresh:
  "valid (login_ok s (has_session h (ssAgentID ss))) (refresh_session h ss)
     (\<lambda>r. login_ok s (has_session h (vsAgentId r)))"
  unfolding refresh_session_def Let_def
  apply (rule valid_bind [OF valid_keeps [OF preserves_stores_keeps]], (intro io_intros)+)
  apply (rule valid_bind [OF valid_keeps [OF login_write_session]])
  apply (rule valid_bind [OF valid_keeps [OF preserves_stores_keeps]], (intro io_intros)+)
  apply (rule valid_bind [OF valid_keeps [OF login_stmts(6)]], simp)
  apply (rule valid_return, simp)
  done

lemma login_weaken: "valid P m (\<lambda>r. login_ok s (Q r)) \<Longrightarrow> valid P m (\<lambda>_. login_ok s (\<lambda>_. True))"
  by (erule valid_post) (simp add: with_fact_def)

abbreviation login_kept :: "AuthServiceImpl \<Rightarrow> 'a io \<Rightarrow> bool" where
  "login_kept s m \<equiv> keeps_login s (\<lambda>_. True) m"

lemma login_limit: "key \<notin> login_keys \<Longrightarrow> login_kept s (checkIPRateLimit key l win m)"
  unfolding checkIPRateLimit_def Let_def by (intro io_intros login_cmds)

lemma login_establish: "login_kept s (establish_challenge n s req e (LoginActive x))"
proof -
  have reuse: "login_kept s (reuse_challenge (LoginActive x))"
    unfolding reuse_challenge_def by (intro io_intros login_cmds login_prims) auto
  show ?thesis
    by (induction n) (auto intro!: io_intros reuse login_cmds login_prims login_stmts simp: Let_def split: bool.splits)
qed

lemma valid_exists:
  assumes "\<And>a. valid (login_ok s (J a)) m (\<lambda>_. login_ok s (\<lambda>_. True))"
  shows "valid (login_ok s (\<lambda>d. \<exists>a. J a d)) m (\<lambda>_. login_ok s (\<lambda>_. True))"
  using assms unfolding valid_def with_fact_def by blast

lemma login_record:
  "valid (login_ok s (has_session (sha256Hex s (vrAccessToken r)) a)) (record_login k (LoginActive x) r) (\<lambda>_. login_ok s (\<lambda>_. True))"
  unfolding record_login_def
  by (rule login_weaken [where Q = "\<lambda>_. has_session (sha256Hex s (vrAccessToken r)) a"], rule valid_keeps)
    (intro io_intros login_write_result login_cmds; auto)

lemma login_finish: "login_kept s (finish_login s req c)"
proof -
  have "valid (login_ok s (\<lambda>d. Code (vrBaseResp r) = 0 \<longrightarrow> (\<exists>a. has_session (sha256Hex s (vrAccessToken r)) a d)))
      (if Code (vrBaseResp r) = 0 then record_login k (LoginActive x) r else ret (Inr ())) (\<lambda>_. login_ok s (\<lambda>_. True))" for r k x
  proof (cases "Code (vrBaseResp r) = 0")
    case True
    then show ?thesis using valid_exists [OF login_record] by simp
  qed (auto intro!: valid_return simp: with_fact_def)
  note step = this
  show ?thesis
    unfolding finish_login_def Let_def preserves_valid
    by (rule valid_if, rule valid_return, assumption, rule valid_bind [OF login_complete],
        rule valid_bind [OF step], rule valid_return, assumption)
qed

lemma login_handlers:
  "login_kept s (StartLogin s sreq)" "login_kept s (VerifyLogin s vreq)" "login_kept s (ValidateSession s tok)" "login_kept s (Logout s tok)"
proof -
  have complete: "login_kept s (completeEmailLogin s e ip ua)" for e ip ua
    using login_weaken [OF login_complete] by (simp add: preserves_valid)
  have limits: "login_kept s (checkIPRateLimit (LoginStartIP ip) l win m)" "login_kept s (verify_limit s ip)" for ip l win m
    unfolding verify_limit_def by (auto intro: login_limit)
  show "login_kept s (StartLogin s sreq)"
    unfolding StartLogin_def start_challenge_def Let_def by (intro io_intros login_prims complete limits login_establish)
  have cached: "login_kept s (getCachedVerifyResult k)" for k
    unfolding getCachedVerifyResult_def by (intro io_intros login_prims)
  have reject: "login_kept s (reject_code k)" for k
    unfolding reject_code_def by (intro io_intros login_prims login_stmts) simp_all
  have "login_kept s (verify_challenge s req c now)" for req c now
    unfolding verify_challenge_def Let_def
    by (intro io_intros cached reject login_stmts) (auto intro!: io_intros cached login_finish split: bool.splits)
  then show "login_kept s (VerifyLogin s vreq)"
    unfolding VerifyLogin_def Let_def by (intro io_intros login_prims limits)
  have "valid (login_ok s (\<lambda>d. \<forall>ss. r = Inr ss \<longrightarrow> has_session h (ssAgentID ss) d))
      (case r of Inl _ \<Rightarrow> ret (session_error c m) | Inr ss \<Rightarrow> refresh_session h ss) (\<lambda>_. login_ok s (\<lambda>_. True))" for r :: "AgentSession res" and h c m
  proof (rule valid_sum)
    fix ss assume "r = Inr ss"
    then have "(\<lambda>d. \<forall>ss. r = Inr ss \<longrightarrow> has_session h (ssAgentID ss) d) = has_session h (ssAgentID ss)" by auto
    then show "valid (login_ok s (\<lambda>d. \<forall>ss. r = Inr ss \<longrightarrow> has_session h (ssAgentID ss) d)) (refresh_session h ss) (\<lambda>_. login_ok s (\<lambda>_. True))"
      using login_weaken [OF login_refresh] by simp
  qed (auto intro!: valid_return simp: with_fact_def)
  note step = this
  have db: "login_kept s (State_Monad.bind (GetSessionByTokenHash h)
      (\<lambda>r. case r of Inl _ \<Rightarrow> ret (session_error c m) | Inr ss \<Rightarrow> refresh_session h ss))" for h c m
    unfolding preserves_valid by (rule valid_bind [OF login_found_session step])
  show "login_kept s (ValidateSession s tok)"
    unfolding ValidateSession_def Let_def
    by (rule preserves_if, rule login_prims, rule preserves_bind, rule login_prims, rule preserves_option, rule db)
      (auto intro!: io_intros)
  show "login_kept s (Logout s tok)"
    unfolding Logout_def Let_def by (intro io_intros login_stmts login_forget) simp
qed

section \<open>Runs of the login service\<close>

datatype login_request = DoStart StartLoginReq | DoVerify VerifyLoginReq | DoValidate string | DoLogout string

fun serve_login :: "AuthServiceImpl \<Rightarrow> login_request \<Rightarrow> world \<Rightarrow> world" where
  "serve_login s (DoStart r) w = snd (run_state (StartLogin s r) w)"
| "serve_login s (DoVerify r) w = snd (run_state (VerifyLogin s r) w)"
| "serve_login s (DoValidate t) w = snd (run_state (ValidateSession s t) w)"
| "serve_login s (DoLogout t) w = snd (run_state (Logout s t) w)"

text \<open>
  A request is served; keys expire; anything else happens that leaves the sessions and the keys of the
  login service alone, such as a request to the messaging service or a change of an agent.
\<close>

inductive login_reach :: "AuthServiceImpl \<Rightarrow> world \<Rightarrow> bool" for s where
  start: "agent_sessions (w_db w) = [] \<Longrightarrow> (\<forall>k \<in> login_keys. w_redis w k = None) \<Longrightarrow> login_reach s w"
| served: "login_reach s w \<Longrightarrow> login_reach s (serve_login s q w)"
| expired: "login_reach s w \<Longrightarrow> (\<forall>k. rs k = w_redis w k \<or> rs k = None) \<Longrightarrow> login_reach s (w\<lparr>w_redis := rs\<rparr>)"
| elsewhere: "login_reach s w \<Longrightarrow> agent_sessions (w_db w') = agent_sessions (w_db w) \<Longrightarrow>
    (\<forall>k \<in> login_keys. w_redis w' k = w_redis w k) \<Longrightarrow> login_reach s w'"

lemma login_invariant: "login_reach s w \<Longrightarrow> login_inv s (w_db w) (w_redis w)"
proof (induction rule: login_reach.induct)
  case (start w)
  then show ?case by (simp add: login_inv_def)
next
  case (served w q)
  then have "login_ok s (\<lambda>_. True) w" by (simp add: with_fact_def)
  then have "login_ok s (\<lambda>_. True) (serve_login s q w)"
    by (cases q) (simp_all only: serve_login.simps login_handlers [THEN preserves_run])
  then show ?case by (simp add: with_fact_def)
next
  case (expired w rs)
  have "rs k = Some v \<Longrightarrow> w_redis w k = Some v" for k v using expired.hyps(2) by (metis option.distinct(1))
  then show ?case using expired.IH unfolding login_inv_def by simp blast
next
  case (elsewhere w w')
  have "login_inv s (w_db w') (w_redis w)"
    using login_inv_more [OF elsewhere.IH same_sessions] elsewhere.hyps by simp
  moreover have "w_redis w' (AuthSession h) = w_redis w (AuthSession h)" "w_redis w' (AuthVerify h) = w_redis w (AuthVerify h)" for h
    using elsewhere.hyps by auto
  ultimately show ?case unfolding login_inv_def by auto
qed

lemma nat_dec_is_digit: "c \<in> set (nat_dec n) \<Longrightarrow> is_digit c"
  using nat_dec_digits [of c n] by (auto simp: is_digit_def digit_char_def of_char_of)

lemma takeWhile_digits: "takeWhile is_digit (nat_dec n) = nat_dec n"
  using nat_dec_is_digit by (simp add: takeWhile_eq_all_conv)

lemma digit_not_blank: "is_digit c \<Longrightarrow> c \<notin> {CHR '' '', CHR 0x09, CHR 0x0D} \<and> c \<notin> {CHR ''-'', CHR ''+''}"
  by (auto simp: is_digit_def)

text \<open>What a cached value says is what was written, whenever it says anything.\<close>

lemma Sscanf_itoa: "Sscanf_d (itoa a) = (if int64_range a then a else 0)"
proof -
  have parse: "opt_get 0 (ParseInt64 (itoa a)) = (if int64_range a then a else 0)"
    by (simp add: ParseInt64_def opt_get_def)
  show ?thesis
  proof (cases "a < 0")
    case True
    then have "itoa a = CHR ''-'' # nat_dec (nat (- a))" by (simp add: itoa_def)
    then show ?thesis using parse by (simp add: Sscanf_d_def takeWhile_digits)
  next
    case False
    obtain c cs where c: "nat_dec (nat a) = c # cs" by (cases "nat_dec (nat a)") auto
    then have "is_digit c" using nat_dec_is_digit [of c "nat a"] by simp
    note nb = digit_not_blank [OF this]
    have "dropWhile (\<lambda>c. c \<in> {CHR '' '', CHR 0x09, CHR 0x0D}) (c # cs) = c # cs" using nb by simp
    then have "Sscanf_d (c # cs) = opt_get 0 (ParseInt64 (takeWhile is_digit (c # cs)))"
      using nb unfolding Sscanf_d_def by simp
    then show ?thesis using parse takeWhile_digits [of "nat a"] False c by (simp add: itoa_def)
  qed
qed

lemma cached_session_value:
  "cached_session (Inr (session_value a email)) = (if int64_range a \<and> 0 < a then Some (a, email) else None)"
proof -
  have "split_at (CHR '':'') (itoa a @ '':'' @ email) = (itoa a, Some email)" by simp
  then show ?thesis by (simp add: cached_session_def session_value_def Sscanf_itoa opt_get_def del: split_at_append)
qed

lemma login_read_session:
  "valid (login_ok s (\<lambda>_. True)) (cache_Read (AuthSession h))
     (\<lambda>r. login_ok s (\<lambda>d. \<forall>a e. cached_session r = Some (a, e) \<longrightarrow> has_session h a d))"
proof (rule validI)
  fix w assume w: "login_ok s (\<lambda>_. True) w"
  have none: "cached_session (Inl er) = None" for er by (simp add: cached_session_def)
  have get: "has_session h a (w_db w)" if c: "cached_session (fst (GET (AuthSession h) n (w_redis w))) = Some (a, e)" for n a e
  proof -
    obtain p where p: "fst (GET (AuthSession h) n (w_redis w)) = Inr p" using c none by (cases "fst (GET (AuthSession h) n (w_redis w))") auto
    then obtain x where "w_redis w (AuthSession h) = Some (RStr p, x)"
      by (auto simp: GET_def live_def split: option.splits rval.splits if_splits prod.splits)
    then obtain a' e' where "p = session_value a' e'" "has_session h a' (w_db w)"
      using w unfolding with_fact_def login_inv_def by blast
    then show ?thesis using c p by (simp add: cached_session_value split: if_splits)
  qed
  have frame: "snd (GET k n rs) = rs" for k n rs by (simp add: GET_def split: option.splits rval.splits)
  show "login_ok s (\<lambda>d. \<forall>a e. cached_session (fst (run_state (cache_Read (AuthSession h)) w)) = Some (a, e) \<longrightarrow> has_session h a d)
      (snd (run_state (cache_Read (AuthSession h)) w))"
    unfolding cache_Read_def
    by (cases rule: run_redis_cmd [of "GET (AuthSession h)" w]) (use w get none frame in \<open>auto simp: with_fact_def\<close>)
qed

lemma login_validate:
  assumes "\<not> HasPrefix tok ''efv2a_''"
  shows "valid (login_ok s (\<lambda>_. True)) (ValidateSession s tok)
    (\<lambda>r. login_ok s (\<lambda>d. Code (vsBaseResp r) = 0 \<longrightarrow> has_session (sha256Hex s tok) (vsAgentId r) d))"
proof -
  let ?h = "sha256Hex s tok" and ?Q = "\<lambda>r. login_ok s (\<lambda>d. Code (vsBaseResp r) = 0 \<longrightarrow> has_session (sha256Hex s tok) (vsAgentId r) d)"
  have found: "valid (login_ok s (\<lambda>d. \<forall>ss. r = Inr ss \<longrightarrow> has_session ?h (ssAgentID ss) d))
      (case r of Inl _ \<Rightarrow> ret (session_error 401 ''invalid or expired session'') | Inr ss \<Rightarrow> refresh_session ?h ss) ?Q"
    for r :: "AgentSession res"
  proof (rule valid_sum)
    fix ss assume "r = Inr ss"
    then have "(\<lambda>d. \<forall>ss. r = Inr ss \<longrightarrow> has_session ?h (ssAgentID ss) d) = has_session ?h (ssAgentID ss)" by auto
    then show "valid (login_ok s (\<lambda>d. \<forall>ss. r = Inr ss \<longrightarrow> has_session ?h (ssAgentID ss) d)) (refresh_session ?h ss) ?Q"
      using valid_post [OF login_refresh [of s ?h ss], of ?Q] by (simp add: with_fact_def)
  qed (auto intro!: valid_return simp: with_fact_def)
  have miss: "valid (login_ok s J) (State_Monad.bind (GetSessionByTokenHash ?h)
      (\<lambda>r. case r of Inl _ \<Rightarrow> ret (session_error 401 ''invalid or expired session'') | Inr ss \<Rightarrow> refresh_session ?h ss)) ?Q" for J
    by (rule valid_weaken [OF valid_bind [OF login_found_session found]]) (simp add: with_fact_def)
  have hit: "valid (login_ok s (\<lambda>d. \<forall>a e. cached_session r = Some (a, e) \<longrightarrow> has_session ?h a d))
      (case x of (a, e) \<Rightarrow> ret (session_ok a (Some e))) ?Q" if "cached_session r = Some x" for r x
    using that by (cases x) (auto intro!: valid_return simp: with_fact_def)
  show ?thesis
    unfolding ValidateSession_def Let_def using assms
    by (simp del: HasPrefix_def) (rule valid_bind [OF login_read_session], rule valid_option, rule miss, rule hit)
qed


end
