(* ===== verification/Logins.thy ===== *)
theory Logins
  imports Sessions Pages
begin

text \<open>
  Whole logins when nothing fails: a login gives a token that validates as its agent, with its address, until
  it is logged out; five wrong codes end a challenge and fewer do not; and the race of a logout with a
  validation, after which the revoked session is accepted from the cache.
\<close>

section \<open>A token validates until it is logged out\<close>

lemma insort_map: "(\<And>x. k (f x) = k x) \<Longrightarrow> insort_key k (f x) (map f xs) = map f (insort_key k x xs)"
  by (induction xs) auto

lemma sort_map: "(\<And>x. k (f x) = k x) \<Longrightarrow> sort_key k (map f xs) = map f (sort_key k xs)"
  by (induction xs) (simp_all add: insort_map)

lemma first_by_update:
  assumes "\<And>x. k (f x) = k x" "\<And>x. P (f x) = P x"
  shows "first_by k P (update_where Q f xs) = map_option (\<lambda>x. if Q x then f x else x) (first_by k P xs)"
proof -
  let ?g = "\<lambda>x. if Q x then f x else x"
  have "filter P (map ?g xs) = map ?g (filter P xs)" using assms(2) by (induction xs) auto
  then have "sort_key k (filter P (map ?g xs)) = map ?g (sort_key k (filter P xs))"
    using sort_map [of k ?g] assms(1) by simp
  then show ?thesis by (simp add: first_by_def update_where_def split: list.splits)
qed

text \<open>What a successful login leaves: the session of the token, and its entry in the cache.\<close>

lemma completed_login:
  assumes q: "quiet w" and run: "run_state (completeEmailLogin s email ip ua) w = (resp, w1)" and ok: "Code (vrBaseResp resp) = 0"
  obtains uuid where "vrAccessToken resp = ''at_'' @ uuid" "quiet w1" "w_now w1 = w_now w"
    "w_redis w1 (AuthSession (sha256Hex s (vrAccessToken resp))) = Some (RStr (session_value (vrAgentId resp) email), Some (w_now w + 600000))"
proof -
  obtain a where a: "first_by aAgentID (\<lambda>a. aEmail a = email) (agents (w_db w)) = Some a"
    "aEmailKind a = [] \<or> aEmailKind a = ''legacy_real''"
    using q run ok
    by (cases "first_by aAgentID (\<lambda>a. aEmail a = email) (agents (w_db w))")
      (auto simp: completeEmailLogin_def GetAgentByEmail_def quiet_query verify_error_def split: if_splits)
  have kind: "(aEmailKind a \<noteq> [] \<and> aEmailKind a \<noteq> ''legacy_real'') = False" using a(2) by auto
  have email: "aEmail a = email" using first_by_Some [OF a(1)] by simp
  let ?verified = "\<lambda>d. d\<lparr>agents := update_where (\<lambda>x. aAgentID x = aAgentID a \<and> aEmailVerifiedAt x = None)
       (\<lambda>x. x\<lparr>aEmailVerifiedAt := Some (w_now w)\<rparr>) (agents d)\<rparr>"
  let ?w1 = "w\<lparr>w_db := ?verified (w_db w)\<rparr>"
  let ?w2 = "?w1\<lparr>w_uuid_next := Suc (w_uuid_next w)\<rparr>"
  let ?tok = "''at_'' @ w_uuids w (w_uuid_next w)"
  have set: "run_state (SetEmailVerifiedAt (aAgentID a) (w_now w)) w = (Inr (), ?w1)"
    using q by (simp add: SetEmailVerifiedAt_def quiet_stmt)
  have uuid: "run_state next_uuid ?w1 = (w_uuids w (w_uuid_next w), ?w2)" by (simp add: next_uuid_def)
  let ?row = "\<lparr>ssSessionID = 0, ssAgentID = aAgentID a, ssTokenHash = sha256Hex s ?tok, ssStatus = 0, ssExpireAt = w_now w + sessionDurationMs,
     ssCreatedAt = w_now w, ssLastSeenAt = w_now w, ssClientIP = ip, ssUserAgent = ua\<rparr>"
  obtain r d3 where ins: "insert_session ?row (?verified (w_db w)) = (r, d3)" by force
  have start: "run_state (GetAgentByEmail email) w = (Inr (Some a), w)"
    using q a(1) by (simp add: GetAgentByEmail_def quiet_query)
  have create: "run_state (CreateSession \<lparr>ssSessionID = 0, ssAgentID = aAgentID a, ssTokenHash = sha256Hex s ?tok,
      ssStatus = 0, ssExpireAt = w_now w + sessionDurationMs, ssCreatedAt = 0, ssLastSeenAt = 0, ssClientIP = ip, ssUserAgent = ua\<rparr>) ?w2 =
      run_state (db_stmt (insert_session ?row)) ?w2"
    by (simp add: CreateSession_def quiet_now)
  show thesis
  proof (cases r)
    case (Inl e)
    then have "fst (run_state (db_stmt (insert_session ?row)) ?w2) = Inl e"
      using q ins by (intro quiet_stmt_error) auto
    then obtain w3 where "run_state (db_stmt (insert_session ?row)) ?w2 = (Inl e, w3)"
      by (cases "run_state (db_stmt (insert_session ?row)) ?w2") (simp only: fst_conv)
    then have "fst (run_state (completeEmailLogin s email ip ua) w) = verify_error 500 (''failed to create session: '' @ err_text e)"
      using start set uuid create
      by (simp add: completeEmailLogin_def quiet_now Let_def kind)
    then show thesis using run ok by (simp add: verify_error_def)
  next
    case (Inr u)
    let ?w3 = "?w2\<lparr>w_db := d3\<rparr>"
    have stored: "run_state (db_stmt (insert_session ?row)) ?w2 = (Inr u, ?w3)"
      using q ins Inr by (intro quiet_stmt) auto
    have d3: "agents d3 = agents (?verified (w_db w))"
      using ins Inr by (auto simp: insert_session_def split: if_splits)
    let ?w4 = "?w3\<lparr>w_redis := snd (SET (AuthSession (sha256Hex s ?tok)) (session_value (aAgentID a) email) 600000 (w_now w) (w_redis w))\<rparr>"
    have latest: "run_state (GetAgentByEmail (aEmail a)) ?w4 =
        (Inr (Some (if aEmailVerifiedAt a = None then a\<lparr>aEmailVerifiedAt := Some (w_now w)\<rparr> else a)), ?w4)"
      using q a(1) by (simp add: GetAgentByEmail_def quiet_query d3 email first_by_update)
    have "run_state (completeEmailLogin s email ip ua) w =
        (login_resp (if aEmailVerifiedAt a = None then a\<lparr>aEmailVerifiedAt := Some (w_now w)\<rparr> else a) ?tok (w_now w + sessionDurationMs), ?w4)"
      using start set uuid create stored latest q
      by (simp add: kind completeEmailLogin_def quiet_now Let_def quiet_write opt_get_def value_or_def)
    then have "resp = login_resp (if aEmailVerifiedAt a = None then a\<lparr>aEmailVerifiedAt := Some (w_now w)\<rparr> else a) ?tok (w_now w + sessionDurationMs)"
      "w1 = ?w4" using run by auto
    then show thesis using q by (intro that) (auto simp: login_resp_def SET_def)
  qed
qed


section \<open>Wrong codes\<close>

text \<open>The table with the row of one challenge replaced.\<close>

definition put_challenge :: "AuthEmailChallenge \<Rightarrow> AuthEmailChallenge list \<Rightarrow> AuthEmailChallenge list" where
  "put_challenge r cs = map (\<lambda>x. if chChallengeID x = chChallengeID r then r else x) cs"

lemma find_put:
  "c \<in> set cs \<Longrightarrow> chChallengeID c = chChallengeID r \<Longrightarrow> find (\<lambda>x. chChallengeID x = chChallengeID r) (put_challenge r cs) = Some r"
  by (induction cs) (auto simp: put_challenge_def)

lemma update_put:
  assumes "chChallengeID (f r) = chChallengeID r" "\<And>x. P x \<Longrightarrow> chChallengeID x = chChallengeID r" "P r"
  shows "update_where P f (put_challenge r cs) = put_challenge (f r) cs"
  by (auto simp: update_where_def put_challenge_def assms(1,3) dest: assms(2))

lemma put_self:
  "distinct (map chChallengeID cs) \<Longrightarrow> c \<in> set cs \<Longrightarrow> put_challenge c cs = cs"
  by (auto simp: put_challenge_def distinct_map inj_on_def intro!: map_idI)

abbreviation holding :: "AuthEmailChallenge \<Rightarrow> world \<Rightarrow> world" where
  "holding r w \<equiv> w\<lparr>w_db := (w_db w)\<lparr>auth_email_challenges := put_challenge r (auth_email_challenges (w_db w))\<rparr>\<rparr>"

text \<open>The row after \<open>k\<close> wrong codes.\<close>

definition after_attempts :: "nat \<Rightarrow> AuthEmailChallenge \<Rightarrow> AuthEmailChallenge" where
  "after_attempts k c = c\<lparr>chAttemptCount := int k, chStatus := (if k < 5 then 0 else 3)\<rparr>"

definition code_req :: "string \<Rightarrow> string \<Rightarrow> VerifyLoginReq" where
  "code_req challengeID code = \<lparr>vqLoginMethod = ''email'', vqChallengeId = challengeID, vqCode = Some code, vqClientIp = None,
     vqUserAgent = None\<rparr>"

lemma after_attempts_simps [simp]:
  "chChallengeID (after_attempts k c) = chChallengeID c" "isOTPMatched s code (after_attempts k c) = isOTPMatched s code c"
  "chExpireAt (after_attempts k c) = chExpireAt c" "chAttemptCount (after_attempts k c) = int k"
  "chStatus (after_attempts k c) = (if k < 5 then 0 else 3)" "chMaxAttempts (after_attempts k c) = chMaxAttempts c"
  by (simp_all add: after_attempts_def isOTPMatched_def)

lemma quiet_get_challenge:
  assumes "quiet w" "c \<in> set (auth_email_challenges (w_db w))" "chChallengeID r = chChallengeID c"
  shows "run_state (GetChallenge (chChallengeID c)) (holding r w) = (Inr r, holding r w)"
  using assms find_put [of c "auth_email_challenges (w_db w)" r] by (simp add: GetChallenge_def first_or_err_def quiet_query)

lemma quiet_update_challenge:
  assumes "quiet w" "chChallengeID (f r) = chChallengeID r" "\<And>x. P x \<Longrightarrow> chChallengeID x = chChallengeID r" "P r"
  shows "run_state (db_stmt (update_challenges P f)) (holding r w) =
    (Inr (length (filter P (put_challenge r (auth_email_challenges (w_db w))))), holding (f r) w)"
proof -
  let ?cs = "auth_email_challenges (w_db w)"
  have upd: "update_where P f (put_challenge r ?cs) = put_challenge (f r) ?cs" 
    by (rule update_put [where f = f and P = P and r = r, OF assms(2) _ assms(4)]) (rule assms(3))
  have "update_challenges P f (w_db (holding r w)) = (Inr (length (filter P (put_challenge r ?cs))), w_db (holding (f r) w))"
    by (simp add: update_challenges_def upd)
  then show ?thesis using quiet_stmt [of "holding r w" "update_challenges P f"] assms(1) by simp
qed

lemma wrong_code:
  assumes q: "quiet w" and on: "emailVerificationEnabled s" and c: "c \<in> set (auth_email_challenges (w_db w))"
    and fresh: "chMaxAttempts c = 5" "w_now w \<le> chExpireAt c" and code: "code \<noteq> []" "\<not> isOTPMatched s code c"
  shows "run_state (VerifyLogin s (code_req (chChallengeID c) code)) (holding (after_attempts k c) w) =
    (if k < 5 then verify_error 401 ''invalid code'' else no_longer_valid, holding (after_attempts (if k < 5 then Suc k else k) c) w)"
proof -
  let ?row = "after_attempts k c"
  have get: "run_state (GetChallenge (chChallengeID c)) (holding ?row w) = (Inr ?row, holding ?row w)"
    by (rule quiet_get_challenge [OF q c]) simp
  show ?thesis
  proof (cases "k < 5")
    case False
    then show ?thesis using on get code
      by (simp add: VerifyLogin_def code_req_def opt_get_def Let_def quiet_now verify_challenge_def)
  next
    case True
    define up where "up = ?row\<lparr>chAttemptCount := chAttemptCount ?row + 1\<rparr>"
    have up: "chChallengeID up = chChallengeID c" "chAttemptCount up = int k + 1" "chMaxAttempts up = 5"
      using fresh(1) by (simp_all add: up_def after_attempts_def)
    have inc: "run_state (IncrementChallengeAttempts (chChallengeID c)) (holding ?row w) = (Inr (), holding up w)"
      using quiet_update_challenge [OF q, of "\<lambda>x. x\<lparr>chAttemptCount := chAttemptCount x + 1\<rparr>" ?row "\<lambda>x. chChallengeID x = chChallengeID c"]
      by (simp add: IncrementChallengeAttempts_def and_then_def up_def)
    have re: "run_state (GetChallenge (chChallengeID c)) (holding up w) = (Inr up, holding up w)"
      by (rule quiet_get_challenge [OF q c up(1)])
    have rev: "run_state (RevokeChallenge (chChallengeID c)) (holding up w) = (Inr (), holding (up\<lparr>chStatus := 3\<rparr>) w)"
      using quiet_update_challenge [OF q, of "\<lambda>x. x\<lparr>chStatus := 3\<rparr>" up "\<lambda>x. chChallengeID x = chChallengeID c"] up(1)
      by (simp add: RevokeChallenge_def and_then_def)
    have row: "(if k + 1 \<ge> 5 then up\<lparr>chStatus := 3\<rparr> else up) = after_attempts (Suc k) c"
      using True by (intro AuthEmailChallenge.equality) (auto simp: after_attempts_def up_def)
    have "run_state (reject_code (chChallengeID c)) (holding ?row w) =
        (verify_error 401 ''invalid code'', holding (if k + 1 \<ge> 5 then up\<lparr>chStatus := 3\<rparr> else up) w)"
      using inc re rev up by (cases "k + 1 \<ge> 5") (simp_all add: reject_code_def)
    note this [unfolded row]
    then show ?thesis using on get code True fresh
      by (simp add: VerifyLogin_def code_req_def opt_get_def Let_def quiet_now verify_challenge_def)
  qed
qed

definition try_code :: "AuthServiceImpl \<Rightarrow> string \<Rightarrow> string \<Rightarrow> world \<Rightarrow> world" where
  "try_code s challengeID code w = snd (run_state (VerifyLogin s (code_req challengeID code)) w)"

lemma wrong_codes:
  assumes "quiet w" "emailVerificationEnabled s" "c \<in> set (auth_email_challenges (w_db w))" "chMaxAttempts c = 5" "w_now w \<le> chExpireAt c"
    "\<forall>code \<in> set codes. code \<noteq> [] \<and> \<not> isOTPMatched s code c" "k \<le> 5"
  shows "fold (try_code s (chChallengeID c)) codes (holding (after_attempts k c) w) = holding (after_attempts (min 5 (k + length codes)) c) w"
  using assms(6,7)
proof (induction codes arbitrary: k)
  case (Cons code codes)
  have "try_code s (chChallengeID c) code (holding (after_attempts k c) w) = holding (after_attempts (if k < 5 then Suc k else k) c) w"
    using wrong_code [OF assms(1-5), of code k] Cons.prems by (simp add: try_code_def)
  then show ?case using Cons.IH [of "if k < 5 then Suc k else k"] Cons.prems by simp
qed simp

text \<open>C29: when nothing fails and time stands still, after any number of wrong codes for a fresh challenge every further
  code, the right one included, is refused without any effect exactly from the fifth on; before that
  the right code consumes the challenge and completes the login.\<close>

theorem wrong_codes_exhaust:
  assumes "quiet w" "emailVerificationEnabled s" "distinct (map chChallengeID (auth_email_challenges (w_db w)))"
    "c \<in> set (auth_email_challenges (w_db w))" "pristine c" "w_now w \<le> chExpireAt c"
    "\<forall>code \<in> set codes. code \<noteq> [] \<and> \<not> isOTPMatched s code c" "right \<noteq> []" "isOTPMatched s right c"
  shows "let w' = fold (try_code s (chChallengeID c)) codes w; req = code_req (chChallengeID c) right in
    if 5 \<le> length codes then run_state (VerifyLogin s req) w' = (no_longer_valid, w')
    else run_state (VerifyLogin s req) w' =
      run_state (finish_login s req (after_attempts (length codes) c))
        (holding ((after_attempts (length codes) c)\<lparr>chStatus := 1, chConsumedAt := Some (w_now w)\<rparr>) w)"
proof -
  have max: "chMaxAttempts c = 5" using assms(5) by (simp add: pristine_def)
  have "after_attempts 0 c = c"
    using assms(5) by (intro AuthEmailChallenge.equality) (auto simp: after_attempts_def pristine_def)
  then have "holding (after_attempts 0 c) w = w" using put_self [OF assms(3,4)] by simp
  then have w': "fold (try_code s (chChallengeID c)) codes w = holding (after_attempts (min 5 (length codes)) c) w"
    using wrong_codes [OF assms(1,2,4) max assms(6,7), of 0] by simp
  define r where "r = after_attempts (min 5 (length codes)) c"
  note w' = w' [folded r_def]
  have r: "chChallengeID r = chChallengeID c" "chStatus r = (if 5 \<le> length codes then 3 else 0)" "chExpireAt r = chExpireAt c"
    "isOTPMatched s right r" "chAttemptCount r = int (min 5 (length codes))" "chMaxAttempts r = 5"
    using assms(9) max by (auto simp: r_def)
  have get: "run_state (GetChallenge (chChallengeID c)) (holding r w) = (Inr r, holding r w)"
    by (rule quiet_get_challenge [OF assms(1,4) r(1)])
  show ?thesis
  proof (cases "5 \<le> length codes")
    case True
    then show ?thesis using w' get r assms(2,8)
      by (simp add: VerifyLogin_def code_req_def opt_get_def Let_def quiet_now verify_challenge_def)
  next
    case False
    have P: "consumable (chChallengeID c) (w_now w) r" using r assms(6) False by (simp add: consumable_def)
    let ?cs = "put_challenge r (auth_email_challenges (w_db w))"
    have "map chChallengeID ?cs = map chChallengeID (auth_email_challenges (w_db w))" by (simp add: put_challenge_def)
    then have "length (filter (consumable (chChallengeID c) (w_now w)) ?cs) \<le> 1"
      using assms(3) by (intro unique_match [where f = chChallengeID and k = "chChallengeID c"]) (auto simp: consumable_def)
    moreover have "r \<in> set ?cs" using assms(4) r(1) by (force simp: put_challenge_def)
    then have "filter (consumable (chChallengeID c) (w_now w)) ?cs \<noteq> []" using P by (auto simp: filter_empty_conv)
    ultimately have one: "length (filter (consumable (chChallengeID c) (w_now w)) ?cs) = 1" by (simp add: le_Suc_eq)
    have last: "after_attempts (length codes) c = r" using False by (simp add: r_def)
    let ?f = "\<lambda>x :: AuthEmailChallenge. x\<lparr>chStatus := 1, chConsumedAt := Some (w_now w)\<rparr>"
    have "run_state (db_stmt (update_challenges (consumable (chChallengeID c) (w_now w)) ?f)) (holding r w) = (Inr 1, holding (?f r) w)"
      unfolding one [symmetric]
      by (rule quiet_update_challenge [OF assms(1)]) (simp_all add: P, simp add: consumable_def r(1))
    then have "run_state (ConsumeChallenge (chChallengeID c) (w_now w)) (holding r w) = (Inr True, holding (?f r) w)"
      by (simp add: ConsumeChallenge_def and_then_def)
    then show ?thesis using w' get r assms(2,6,8) False
      by (simp add: last VerifyLogin_def code_req_def opt_get_def Let_def quiet_now verify_challenge_def)
  qed
qed

section \<open>Concrete logins\<close>

text \<open>Agent 7 with the address \<open>a@b.co\<close>; the next one-time code is 42. The hash is the identity.\<close>

definition demo_auth :: AuthServiceImpl where
  "demo_auth = \<lparr>emailVerificationEnabled = True, mockUniversalOTP = [], mockOTPEmailSuffix = [], mockOTPIPWhitelist = [],
     testEmailSuffixes = [], testOTP = [], auth_sha256 = (\<lambda>x. x), unicode_lower = (\<lambda>x. x), path_Match = (\<lambda>_ _. False)\<rparr>"

definition demo_agent :: AgentRow where
  "demo_agent = \<lparr>aAgentID = 7, aShortID = [], aEmail = ''a@b.co'', aEmailKind = ''legacy_real'', aAgentName = ''x'', aAgentNameEn = [],
     aBio = ''y'', aEmailVerifiedAt = None, aProfileCompletedAt = None, aIsOfficial = False, aActive = True\<rparr>"

definition login_world :: world where
  "login_world = empty_world\<lparr>w_db := empty_db\<lparr>agents := [demo_agent]\<rparr>, w_otps := [Inr 42]\<rparr>"

definition demo_start :: StartLoginReq where
  "demo_start = \<lparr>slLoginMethod = ''email'', slEmail = ''a@b.co'', slClientIp = None, slUserAgent = None\<rparr>"

lemma demo_email: "normalizeEmail demo_auth ''a@b.co'' = ''a@b.co''" "emailRegexp ''a@b.co''" "\<not> HasSuffix ''a@b.co'' ''@identity.invalid''"
  "pad6 42 = ''000042''" "nat_dec 0 = ''0''" "nat_dec (Suc 0) = ''1''" "itoa 7 = ''7''"
  by code_simp+

definition started_world :: world where
  "started_world = snd (run_state (StartLogin demo_auth demo_start) login_world)"

lemma demo_flags:
  "\<not> isMockOTPBypass demo_auth e ip" "\<not> isMockOTPEmail demo_auth e" "\<not> isTestAccountEmail demo_auth e" "emailVerificationEnabled demo_auth"
  "isOTPMatched demo_auth code c \<longleftrightarrow> EncodeToString code = chCodeHash c" "sha256Hex demo_auth x = EncodeToString x"
  by (simp_all add: demo_auth_def isMockOTPBypass_def isMockOTPEmail_def isTestAccountEmail_def isOTPMatched_def sha256Hex_def Let_def)

lemmas eval_start = StartLogin_def start_challenge_def GetAgentByEmail_def reuse_challenge_def generateOTP_def CreateChallenge_def insert_challenge_def
  new_challenge_def mail_and_answer_def send_mail_def start_resp_def next_uuid_def next_otp_def first_by_def numeral_2_eq_2

lemmas eval_verify = VerifyLogin_def verify_challenge_def code_req_def GetChallenge_def first_or_err_def ConsumeChallenge_def update_challenges_def
  consumable_def finish_login_def record_login_def completeEmailLogin_def SetEmailVerifiedAt_def CreateSession_def insert_session_def
  login_resp_def no_longer_valid_def

lemmas eval_world = login_world_def demo_agent_def demo_start_def eval_demo demo_email demo_flags

lemma demo_started:
  "stChallengeId (fst (run_state (StartLogin demo_auth demo_start) login_world)) = Some ''ch_0''"
  "w_mails started_world = [(''a@b.co'', ''000042'')]" "quiet started_world"
  by (simp_all add: started_world_def quiet_def eval_start eval_world eval_prims eval_cmds run_rules Let_def)

definition entered_world :: world where
  "entered_world = snd (run_state (VerifyLogin demo_auth (code_req ''ch_0'' ''000042'')) started_world)"

lemma demo_entered:
  "vrAccessToken (fst (run_state (VerifyLogin demo_auth (code_req ''ch_0'' ''000042'')) started_world)) = ''at_1''"
  "map (\<lambda>ss. (ssAgentID ss, ssStatus ss)) (agent_sessions (w_db entered_world)) = [(7, 0)]" "quiet entered_world"
  by (simp_all add: entered_world_def started_world_def quiet_def eval_start eval_verify eval_world eval_prims eval_cmds run_rules Let_def)

lemma demo_validated:
  "fst (run_state (ValidateSession demo_auth ''at_1'') entered_world) = session_ok 7 (Some ''a@b.co'')"
  by (simp add: ValidateSession_def HasPrefix_def cached_session_value int64_range_def entered_world_def started_world_def eval_start eval_verify
      eval_world eval_prims eval_cmds run_rules Let_def)

lemma demo_login_reach: "login_reach demo_auth entered_world"
proof -
  have "login_reach demo_auth login_world"
    by (rule login_reach.start) (simp_all add: login_world_def eval_demo)
  from login_reach.served [OF this, of "DoStart demo_start"] have "login_reach demo_auth started_world" by (simp add: started_world_def)
  from login_reach.served [OF this, of "DoVerify (code_req ''ch_0'' ''000042'')"] show ?thesis
    by (simp add: entered_world_def)
qed



theorem wrong_codes_exhaust_witness:
  "\<exists>c \<in> set (auth_email_challenges (w_db started_world)). chChallengeID c = ''ch_0'' \<and>
     (let w5 = fold (try_code demo_auth ''ch_0'') (replicate 5 ''1'') started_world in
      run_state (VerifyLogin demo_auth (code_req ''ch_0'' ''000042'')) w5 = (no_longer_valid, w5)) \<and>
     (let w4 = fold (try_code demo_auth ''ch_0'') (replicate 4 ''1'') started_world; req = code_req ''ch_0'' ''000042'' in
      run_state (VerifyLogin demo_auth req) w4 = run_state (finish_login demo_auth req (after_attempts 4 c))
        (holding ((after_attempts 4 c)\<lparr>chStatus := 1, chConsumedAt := Some 0\<rparr>) started_world))"
proof -
  obtain c where c: "auth_email_challenges (w_db started_world) = [c]" "chChallengeID c = ''ch_0''" "pristine c" "0 \<le> chExpireAt c"
      "chCodeHash c = EncodeToString ''000042''"
    by (simp add: pristine_def started_world_def eval_start eval_world eval_prims eval_cmds run_rules Let_def)
  have now: "w_now started_world = 0"
    by (simp add: started_world_def eval_start eval_world eval_prims eval_cmds run_rules Let_def)
  have wrong: "EncodeToString ''1'' \<noteq> EncodeToString ''000042''" by code_simp
  have "let w' = fold (try_code demo_auth (chChallengeID c)) (replicate n ''1'') started_world; req = code_req (chChallengeID c) ''000042'' in
    if 5 \<le> length (replicate n ''1'') then run_state (VerifyLogin demo_auth req) w' = (no_longer_valid, w')
    else run_state (VerifyLogin demo_auth req) w' =
      run_state (finish_login demo_auth req (after_attempts (length (replicate n ''1'')) c))
        (holding ((after_attempts (length (replicate n ''1'')) c)\<lparr>chStatus := 1, chConsumedAt := Some (w_now started_world)\<rparr>) started_world)" for n
    by (rule wrong_codes_exhaust) (use c now wrong demo_started(3) in \<open>simp_all add: demo_flags\<close>)
  from this [of 5] this [of 4] show ?thesis using c now by (simp add: Let_def)
qed

section \<open>Logout and validation at the same time\<close>

text \<open>
  The two halves of \<open>ValidateSession\<close> for a token that is not cached: the query of the session, and what follows
  it. A logout may run between them.
\<close>

text \<open>C37: a logout does not end a session for good. There is a world the login service reaches in which a validation has found
  the session in the table, the logout then revokes it and deletes the cached entry, and the rest of the validation caches it again:
  nothing failed, the stored session is revoked, and the token is accepted.\<close>

theorem logout_race:
  "let w0 = entered_world\<lparr>w_redis := Map.empty\<rparr>; h = sha256Hex demo_auth ''at_1'' in
   login_reach demo_auth w0 \<and>
   (case run_state (GetSessionByTokenHash h) w0 of
      (Inr session, w1) \<Rightarrow>
        run_state (ValidateSession demo_auth ''at_1'') w0 = run_state (refresh_session h session) w1 \<and>
        (let w3 = exec_st (refresh_session h session) (exec_st (Logout demo_auth ''at_1'') w1) in
         map ssStatus (agent_sessions (w_db w3)) = [2] \<and>
         fst (run_state (ValidateSession demo_auth ''at_1'') w3) = session_ok 7 (Some ''a@b.co''))
    | _ \<Rightarrow> False)"
proof -
  have "login_reach demo_auth (entered_world\<lparr>w_redis := Map.empty\<rparr>)"
    by (rule login_reach.expired [OF demo_login_reach]) simp
  moreover have "cached_session (Inl er) = None" for er by (simp add: cached_session_def)
  ultimately show ?thesis
    by (simp add: exec_st_def GetSessionByTokenHash_def refresh_session_def Logout_def RevokeSession_def UpdateSessionActivity_def update_sessions_def
        ValidateSession_def HasPrefix_def cached_session_value int64_range_def sessionDurationMs_def
        entered_world_def started_world_def eval_start eval_verify eval_world eval_prims eval_cmds run_rules Let_def)
qed

end
