(* ===== verification/RateWindow.thy ===== *)
theory RateWindow
  imports Logins
begin

text \<open>
  The counters that limit friend requests (\<open>rpc/pm/handler.go\<close>) and logins (\<open>rpc/auth/handler.go\<close>): \<open>INCR\<close>, and
  \<open>EXPIRE\<close> after the first increment. Both are instances of one contract, a counter with a fixed window, and agree with
  an abstract limiter for every sequence of call times as long as no command fails. When the
  \<open>EXPIRE\<close> is lost the window never ends.
\<close>

section \<open>The abstract limiter\<close>

text \<open>The open window: when it began and the calls in it.\<close>

fun window_step :: "int \<Rightarrow> int \<Rightarrow> (int \<times> int) option \<Rightarrow> int \<Rightarrow> (int \<times> int) option \<times> bool" where
  "window_step limit window None t = (Some (t, 1), 1 > limit)"
| "window_step limit window (Some (t0, n)) t =
     (if t < t0 + window then (Some (t0, n + 1), n + 1 > limit) else (Some (t, 1), 1 > limit))"

fun window_answers :: "int \<Rightarrow> int \<Rightarrow> (int \<times> int) option \<Rightarrow> int list \<Rightarrow> bool list" where
  "window_answers limit window st [] = []"
| "window_answers limit window st (t # ts) =
     (case window_step limit window st t of (st', b) \<Rightarrow> b # window_answers limit window st' ts)"

text \<open>Calls at given times: the answers of the code.\<close>

fun answers_at :: "bool io \<Rightarrow> int list \<Rightarrow> world \<Rightarrow> bool list" where
  "answers_at call [] w = []"
| "answers_at call (t # ts) w =
     (case run_state call (w\<lparr>w_now := t\<rparr>) of (b, w') \<Rightarrow> b # answers_at call ts w')"

section \<open>The contract\<close>

locale fixed_window =
  fixes call :: "bool io" and key :: rkey and limit window :: int
  assumes opens: "quiet w \<Longrightarrow> live (w_now w) (w_redis w) key = None \<Longrightarrow>
      run_state call w = (1 > limit, w\<lparr>w_redis := (w_redis w)(key \<mapsto> (RStr (Num 1), Some (w_now w + window)))\<rparr>)"
    and counts: "quiet w \<Longrightarrow> w_redis w key = Some (RStr (Num n), e) \<Longrightarrow> (\<forall>x. e = Some x \<longrightarrow> w_now w < x) \<Longrightarrow> 1 \<le> n \<Longrightarrow>
      run_state call w = (n + 1 > limit, w\<lparr>w_redis := (w_redis w)(key \<mapsto> (RStr (Num (n + 1)), e))\<rparr>)"
begin

definition shows_window :: "(int \<times> int) option \<Rightarrow> redis \<Rightarrow> bool" where
  "shows_window st rs \<longleftrightarrow> (case st of None \<Rightarrow> rs key = None
     | Some (t0, n) \<Rightarrow> 1 \<le> n \<and> rs key = Some (RStr (Num n), Some (t0 + window)))"

lemma step_agrees:
  assumes q: "quiet w" and s: "shows_window st (w_redis w)" and step: "window_step limit window st t = (st', b)"
  shows "\<exists>w'. run_state call (w\<lparr>w_now := t\<rparr>) = (b, w') \<and> quiet w' \<and> shows_window st' (w_redis w')"
proof -
  have q': "quiet (w\<lparr>w_now := t\<rparr>)" using q by (simp add: quiet_def)
  show ?thesis
  proof (cases "\<exists>t0 n. st = Some (t0, n) \<and> t < t0 + window")
    case True
    then obtain t0 n where st: "st = Some (t0, n)" "t < t0 + window" by blast
    then show ?thesis
      using counts [OF q', of n "Some (t0 + window)"] q s step by (auto simp: shows_window_def quiet_def)
  next
    case False
    then have st': "st' = Some (t, 1)" "b \<longleftrightarrow> 1 > limit" using step by (cases st; auto split: if_splits)+
    have "live t (w_redis w) key = None"
      using False s by (cases st) (auto simp: shows_window_def live_def)
    then show ?thesis using opens [OF q'] q st' by (auto simp: shows_window_def quiet_def)
  qed
qed

lemma answers_agree:
  "quiet w \<Longrightarrow> shows_window st (w_redis w) \<Longrightarrow> answers_at call ts w = window_answers limit window st ts"
proof (induction ts arbitrary: st w)
  case (Cons t ts)
  obtain st' b where step: "window_step limit window st t = (st', b)" by force
  then obtain w' where "run_state call (w\<lparr>w_now := t\<rparr>) = (b, w')" "quiet w'" "shows_window st' (w_redis w')"
    using step_agrees [OF Cons.prems] by blast
  then show ?case using step Cons.IH by simp
qed simp

lemma fresh_answers: "quiet w \<Longrightarrow> w_redis w key = None \<Longrightarrow> answers_at call ts w = window_answers limit window None ts"
  by (rule answers_agree) (simp_all add: shows_window_def)

text \<open>Without an expiry the count never starts again.\<close>

lemma stuck_answers:
  "quiet w \<Longrightarrow> w_redis w key = Some (RStr (Num n), None) \<Longrightarrow> 1 \<le> n \<Longrightarrow>
   answers_at call ts w = map (\<lambda>i. n + int i + 1 > limit) [0..<length ts]"
proof (induction ts arbitrary: n w)
  case (Cons t ts)
  let ?w' = "w\<lparr>w_now := t, w_redis := (w_redis w)(key \<mapsto> (RStr (Num (n + 1)), None))\<rparr>"
  have q: "quiet (w\<lparr>w_now := t\<rparr>)" "quiet ?w'" using Cons.prems(1) by (simp_all add: quiet_def)
  have "run_state call (w\<lparr>w_now := t\<rparr>) = (n + 1 > limit, ?w')"
    using counts [OF q(1), of n None] Cons.prems by simp
  then have "answers_at call (t # ts) w = (n + 1 > limit) # map (\<lambda>i. n + 1 + int i + 1 > limit) [0..<length ts]"
    using Cons.IH [OF q(2), of "n + 1"] Cons.prems by simp
  also have "\<dots> = map (\<lambda>i. n + int i + 1 > limit) [0..<length (t # ts)]"
    by (simp add: map_upt_Suc add.commute add.left_commute del: upt_Suc)
  finally show ?case .
qed simp

end

section \<open>The counters of the code\<close>

interpretation friend_requests_limit: fixed_window "over_rate_limit s uid" "FriendRequestRate uid"
  "HourlyLimit (friendRequestLimits s) uid" 3600000 for s uid
proof unfold_locales
  fix w assume "quiet w" "live (w_now w) (w_redis w) (FriendRequestRate uid) = None"
  then show "run_state (over_rate_limit s uid) w = (1 > HourlyLimit (friendRequestLimits s) uid,
      w\<lparr>w_redis := (w_redis w)(FriendRequestRate uid \<mapsto> (RStr (Num 1), Some (w_now w + 3600000)))\<rparr>)"
    by (simp add: over_rate_limit_def quiet_def quiet_redis_cmd INCR_def EXPIRE_def)
next
  fix w n e
  assume a: "quiet w" "w_redis w (FriendRequestRate uid) = Some (RStr (Num n), e)" "\<forall>x. e = Some x \<longrightarrow> w_now w < x" "1 \<le> n"
  then have "live (w_now w) (w_redis w) (FriendRequestRate uid) = Some (RStr (Num n))" by (cases e) (auto simp: live_def)
  then show "run_state (over_rate_limit s uid) w = (n + 1 > HourlyLimit (friendRequestLimits s) uid,
      w\<lparr>w_redis := (w_redis w)(FriendRequestRate uid \<mapsto> (RStr (Num (n + 1)), e))\<rparr>)"
    using a by (simp add: over_rate_limit_def quiet_def quiet_redis_cmd INCR_def expiry_def)
qed

text \<open>The two login counters differ in key and limit only.\<close>

definition ip_limited :: "rkey \<Rightarrow> int \<Rightarrow> int \<Rightarrow> string \<Rightarrow> bool io" where
  "ip_limited key limit window msg = do { r \<leftarrow> checkIPRateLimit key limit window msg; ret (r \<noteq> None) }"

lemma ip_window: "fixed_window (ip_limited key limit window msg) key limit window"
proof
  fix w assume "quiet w" "live (w_now w) (w_redis w) key = None"
  then show "run_state (ip_limited key limit window msg) w = (1 > limit,
      w\<lparr>w_redis := (w_redis w)(key \<mapsto> (RStr (Num 1), Some (w_now w + window)))\<rparr>)"
    by (simp add: ip_limited_def checkIPRateLimit_def value_or_def quiet_def quiet_redis_cmd INCR_def EXPIRE_def)
next
  fix w n e
  assume a: "quiet w" "w_redis w key = Some (RStr (Num n), e)" "\<forall>x. e = Some x \<longrightarrow> w_now w < x" "1 \<le> n"
  then have "live (w_now w) (w_redis w) key = Some (RStr (Num n))" by (cases e) (auto simp: live_def)
  then show "run_state (ip_limited key limit window msg) w = (n + 1 > limit,
      w\<lparr>w_redis := (w_redis w)(key \<mapsto> (RStr (Num (n + 1)), e))\<rparr>)"
    using a by (simp add: ip_limited_def checkIPRateLimit_def value_or_def quiet_def quiet_redis_cmd INCR_def expiry_def)
qed

interpretation login_starts: fixed_window "ip_limited (LoginStartIP ip) 30 600000 msg" "LoginStartIP ip" 30 600000 for ip msg
  by (rule ip_window)

interpretation login_verifies: fixed_window "ip_limited (LoginVerifyIP ip) 100 600000 msg" "LoginVerifyIP ip" 100 600000 for ip msg
  by (rule ip_window)

text \<open>C30: as long as no command fails, the counters of friend requests and of logins answer every sequence of
  calls, at whatever times, exactly as a limiter with a fixed window does: within an hour of the first request the agent's hourly limit
  passes, within ten minutes of the first call 30 starts and 100 verifications per address pass, and the next call opens a new window.\<close>

theorem rate_limits_windows:
  assumes "quiet w" "\<forall>k \<in> {FriendRequestRate uid, LoginStartIP ip, LoginVerifyIP ip}. w_redis w k = None"
  shows "answers_at (over_rate_limit s uid) ts w = window_answers (HourlyLimit (friendRequestLimits s) uid) 3600000 None ts \<and>
    answers_at (ip_limited (LoginStartIP ip) 30 600000 msg) ts w = window_answers 30 600000 None ts \<and>
    answers_at (ip_limited (LoginVerifyIP ip) 100 600000 msg) ts w = window_answers 100 600000 None ts"
  using assms friend_requests_limit.fresh_answers [of w uid s ts] login_starts.fresh_answers [of w ip msg ts]
    login_verifies.fresh_answers [of w ip msg ts] by simp

theorem rate_limits_windows_witness:
  "quiet empty_world \<and> answers_at (over_rate_limit demo 1) (replicate 11 5 @ [3600005]) empty_world =
     window_answers (HourlyLimit (friendRequestLimits demo) 1) 3600000 None (replicate 11 5 @ [3600005]) \<and>
   answers_at (ip_limited (LoginStartIP ''1'') 30 600000 ''m'') [0, 1] empty_world = [False, False]"
proof -
  have q: "quiet empty_world" by (simp add: quiet_def empty_world_def)
  show ?thesis
    using rate_limits_windows [OF q, of 1 "''1''" demo "replicate 11 5 @ [3600005]"] rate_limits_windows [OF q, of 1 "''1''" demo "[0, 1]" "''m''"] q
    by (simp add: empty_world_def)
qed

text \<open>When the \<open>EXPIRE\<close> after the first request is lost, the count never starts again: after any
  number of later requests, at whatever times, every request beyond the hourly limit counted from that first one is refused, for ever.\<close>

theorem rate_limit_stuck:
  assumes "quiet w" "live (w_now w) (w_redis w) (FriendRequestRate uid) = None"
  shows "answers_at (over_rate_limit s uid) ts (exec_st (over_rate_limit s uid) (w\<lparr>w_env := [(0, Fine), (0, Lost e)]\<rparr>)) =
    map (\<lambda>i. int i + 2 > HourlyLimit (friendRequestLimits s) uid) [0..<length ts]"
proof -
  let ?w' = "w\<lparr>w_redis := (w_redis w)(FriendRequestRate uid \<mapsto> (RStr (Num 1), None))\<rparr>"
  have "exec_st (over_rate_limit s uid) (w\<lparr>w_env := [(0, Fine), (0, Lost e)]\<rparr>) = ?w'"
    using assms by (cases w) (simp add: exec_st_def over_rate_limit_def redis_cmd_def io_step_def quiet_def INCR_def split: prod.splits)
  moreover have "quiet ?w'" using assms(1) by simp
  ultimately show ?thesis
    using friend_requests_limit.stuck_answers [of ?w' uid 1 s ts] by (simp add: add.commute)
qed

theorem rate_limit_stuck_witness:
  "last (answers_at (over_rate_limit demo 1) (replicate (nat (HourlyLimit (friendRequestLimits demo) 1)) 99999999999)
     (exec_st (over_rate_limit demo 1) (empty_world\<lparr>w_env := [(0, Fine), (0, Lost ''timeout'')]\<rparr>)))"
proof -
  have lim: "HourlyLimit (friendRequestLimits demo) 1 > 0" by (simp add: demo_def HourlyLimit_def DefaultConfig_def)
  have "quiet empty_world" "live (w_now empty_world) (w_redis empty_world) (FriendRequestRate 1) = None"
    by (simp_all add: quiet_def empty_world_def live_def)
  from rate_limit_stuck [OF this, of demo "replicate (nat (HourlyLimit (friendRequestLimits demo) 1)) 99999999999" "''timeout''"] lim
  show ?thesis by (simp add: last_map)
qed

end
