(* ===== verification/Reading.thy ===== *)
theory Reading
  imports Pages Service
begin

text \<open>
  What the reading handlers deliver: \<open>FetchPM\<close> as the dequeue of a queue of unread messages, and
  the unread counters as a partition of the unread messages.
\<close>

section \<open>Fetching\<close>

lemma filter_update_out:
  "(\<And>x. P x \<Longrightarrow> \<not> Q (f x)) \<Longrightarrow> filter Q (update_where P f xs) = filter (\<lambda>x. Q x \<and> \<not> P x) xs"
  by (induction xs) auto

lemma filter_not_taken:
  assumes "distinct (map f xs)"
  shows "filter (\<lambda>x. f x \<notin> f ` set (take n xs)) xs = drop n xs"
proof -
  have "distinct (map f (take n xs @ drop n xs))" using assms by simp
  then have "f ` set (take n xs) \<inter> f ` set (drop n xs) = {}" by (simp del: append_take_drop_id)
  then have "filter (\<lambda>x. f x \<notin> f ` set (take n xs)) (take n xs @ drop n xs) = drop n xs"
    by (auto simp: filter_empty_conv filter_id_conv simp del: append_take_drop_id)
  then show ?thesis by simp
qed

text \<open>The queue of an agent: the unread messages, oldest first.\<close>

definition unread_queue :: "int \<Rightarrow> database \<Rightarrow> PrivateMessage list" where
  "unread_queue agentID d = unread_rows agentID 0 (private_messages d)"

lemma unread_queue_def':
  "unread_queue agentID d = sort_key mMsgID (filter (\<lambda>m. mReceiverID m = agentID \<and> \<not> mIsRead m) (private_messages d))"
  by (simp add: unread_queue_def unread_rows_def)

definition mark_ids :: "int set \<Rightarrow> database \<Rightarrow> database" where
  "mark_ids ids d = snd (mark_read (\<lambda>m. mMsgID m \<in> ids) d)"

lemma mark_dequeues:
  assumes "distinct (map mMsgID (private_messages d))"
  shows "unread_queue a (mark_ids (mMsgID ` set (take n (unread_queue a d))) d) = drop n (unread_queue a d)"
proof -
  let ?q = "unread_queue a d" and ?ids = "mMsgID ` set (take n (unread_queue a d))"
  have d: "distinct (map mMsgID ?q)"
    using distinct_map_filter [OF assms] by (simp add: unread_queue_def' distinct_map)
  have "unread_queue a (mark_ids ?ids d) =
      sort_key mMsgID (filter (\<lambda>m. (mReceiverID m = a \<and> \<not> mIsRead m) \<and> mMsgID m \<notin> ?ids) (private_messages d))"
    by (simp add: unread_queue_def' mark_ids_def mark_read_def filter_update_out)
  also have "\<dots> = filter (\<lambda>m. mMsgID m \<notin> ?ids) ?q"
    by (simp add: unread_queue_def' filter_sort conj_commute)
  also have "\<dots> = drop n ?q" by (rule filter_not_taken [OF d])
  finally show ?thesis .
qed

lemma mark_keeps_others:
  assumes "distinct (map mMsgID (private_messages d))" "b \<noteq> a"
  shows "unread_queue b (mark_ids (mMsgID ` set (take n (unread_queue a d))) d) = unread_queue b d"
proof -
  let ?ids = "mMsgID ` set (take n (unread_queue a d))"
  have "mMsgID m \<notin> ?ids" if m: "m \<in> set (private_messages d)" "mReceiverID m = b" for m
  proof
    assume "mMsgID m \<in> ?ids"
    then obtain m' where m': "m' \<in> set (unread_queue a d)" "mMsgID m' = mMsgID m" by (auto dest: in_set_takeD)
    then have "m' \<in> set (private_messages d)" "mReceiverID m' = a" by (auto simp: unread_queue_def')
    then show False using m m' assms by (auto simp: distinct_map inj_on_def)
  qed
  then have "filter (\<lambda>m. (mReceiverID m = b \<and> \<not> mIsRead m) \<and> mMsgID m \<notin> ?ids) (private_messages d) =
      filter (\<lambda>m. mReceiverID m = b \<and> \<not> mIsRead m) (private_messages d)"
    by (auto intro: filter_cong)
  then show ?thesis by (simp add: unread_queue_def' mark_ids_def mark_read_def filter_update_out)
qed

lemma page_limit_bounds: "1 \<le> page_limit l" "page_limit l \<le> 100"
  by (simp_all add: page_limit_def Let_def)

lemma quiet_flags:
  "quiet w \<Longrightarrow> run_state (officialFlagsFor ids) w = (fst (run_state (officialFlagsFor ids) w), w)"
  by (simp add: officialFlagsFor_def BatchGetOfficialFlags_def quiet_query)

lemma fetch_run:
  fixes l :: "int option"
  assumes q: "quiet w" and cold: "w_redis w (PMFetch a) = None"
  defines "page \<equiv> take (nat (page_limit l)) (unread_queue a (w_db w))"
  shows "case run_state (FetchPM \<lparr>fqAgentId = a, fqCursor = None, fqLimit = l\<rparr>) w of (resp, w') \<Rightarrow>
    map pmMsgId (fpMessages resp) = map mMsgID page \<and> fpBaseResp resp = success \<and>
    w_db w' = mark_ids (mMsgID ` set page) (w_db w)"
proof -
  have e: "w_env w = []" "\<not> w_rdb_nil w" "\<not> w_tx_failed w" using q by (auto simp: quiet_def)
  have read: "run_state (cache_Read (PMFetch a)) w = (Inl RedisNil, w)"
    using cold e by (simp add: cache_Read_def quiet_redis_cmd GET_def live_def)
  have fetch: "run_state (FetchUnreadMessages a 0 (page_limit l)) w = (Inr page, w)"
    using q by (simp add: FetchUnreadMessages_def quiet_query page_def unread_queue_def)
  show ?thesis
  proof (cases "page = []")
    case True
    have none: "mark_ids {} d = d" for d by (simp add: mark_ids_def mark_read_def update_where_def)
    show ?thesis
      using read fetch e True
      by (simp add: FetchPM_def fetch_unread_def opt_get_def Let_def cache_Write_def quiet_redis_cmd SET_def none)
  next
    case False
    let ?w = "w\<lparr>w_db := mark_ids (mMsgID ` set page) (w_db w)\<rparr>"
    have mark: "run_state (MarkMessagesAsRead (map mMsgID page)) w = (Inr (), ?w)"
      using False e by (simp add: MarkMessagesAsRead_def quiet_db_stmt mark_ids_def mark_read_def)
    have "quiet ?w" using q by (simp add: quiet_def)
    note flags = quiet_flags [OF this, of "map mSenderID page"]
    show ?thesis
      using read fetch False mark flags
      by (simp add: FetchPM_def fetch_unread_def opt_get_def Let_def pm_message_def split: prod.splits)
        (auto simp: o_def)
  qed
qed


definition inbox_world :: world where
  "inbox_world = empty_world\<lparr>w_db := empty_db\<lparr>private_messages :=
     map (\<lambda>(i, r). new_message i 1 2 r ''x'' [] []) [(31, 1), (30, 1), (32, 3)]\<rparr>\<rparr>"


section \<open>Counting\<close>

abbreviation unread_by :: "int \<Rightarrow> PrivateMessage \<Rightarrow> bool" where
  "unread_by a m \<equiv> mReceiverID m = a \<and> \<not> mIsRead m \<and> mSenderID m \<noteq> mReceiverID m"

lemma length_filter_partition:
  assumes "\<And>x. x \<in> set xs \<Longrightarrow> g x \<in> {a, b, c}" "distinct [a, b, c]"
  shows "length (filter (\<lambda>x. g x = a) xs) + length (filter (\<lambda>x. g x = b) xs) + length (filter (\<lambda>x. g x = c) xs) = length xs"
  using assms by (induction xs) auto

lemma one_match:
  assumes "distinct (map f xs)" "x \<in> set xs"
  shows "length (filter (\<lambda>y. f y = f x) xs) = 1"
proof -
  have "filter (\<lambda>y. f y = f x) xs = [x]"
    using assms
  proof (induction xs)
    case (Cons y ys)
    then have "f z \<noteq> f y" if "z \<in> set ys" for z using that by (metis distinct.simps(2) image_eqI list.set_map list.simps(9))
    then show ?case using Cons by (auto simp: filter_empty_conv)
  qed simp
  then show ?thesis by simp
qed

lemma join_row: "[(m, c). c \<leftarrow> cs, P c] = map (Pair m) (filter P cs)"
  by (induction cs) auto

text \<open>With unique conversation IDs the join has one row per message.\<close>

lemma length_joined:
  assumes "tables_ok d"
  shows "length (filter (\<lambda>(m, c). P m) (joined d)) = length (filter P (private_messages d))"
proof -
  have one: "length [c \<leftarrow> conversations d. mConvID m = cConvID c] = 1" if "m \<in> set (private_messages d)" for m
  proof -
    have "\<exists>c \<in> set (conversations d). between c m" using assms that by (simp add: tables_ok_def)
    then obtain c where "c \<in> set (conversations d)" "mConvID m = cConvID c" unfolding between_def by blast
    then show ?thesis
      using one_match [of cConvID "conversations d" c] assms by (auto simp: tables_ok_def eq_commute)
  qed
  have "length (filter (\<lambda>(m, c). P m) [(m, c). m \<leftarrow> ms, c \<leftarrow> conversations d, mConvID m = cConvID c]) = length (filter P ms)"
    if "set ms \<subseteq> set (private_messages d)" for ms
    using that
  proof (induction ms)
    case (Cons m ms)
    have row: "[(m, c). c \<leftarrow> conversations d, mConvID m = cConvID c] = map (Pair m) [c \<leftarrow> conversations d. mConvID m = cConvID c]"
      using join_row [of "\<lambda>c. mConvID m = cConvID c"] .
    then show ?case using Cons one [of m] by (simp add: filter_map o_def)
  qed simp
  then show ?thesis by (simp add: joined_def)
qed

text \<open>In every world the service reaches, the total that \<open>GetUnreadCount\<close> reports is the
  number of the agent's unread messages, and the buckets it reports (comments on broadcasts by friends,
  by others, direct messages of friends) add up to it: each unread message is counted in exactly one.\<close>

theorem unread_counts_add_up:
  assumes "pm_reach s w" "quiet w"
  shows "\<exists>r. run_state (GetUnreadCount a) w = ((Some r, success), w) \<and>
    ucCount r = int (length (unread_queue a (w_db w))) \<and> ucCount r = ucBroadcast r + ucFriend r \<and>
    ucBroadcast r = ucBroadcastComment r + ucNonFriend r"
proof -
  have ok: "tables_ok (w_db w)"
    using messaging.reach_keeps [OF fresh_messages assms(1)] by (simp add: msg_inv_def)
  then have others: "mSenderID m \<noteq> mReceiverID m" if "m \<in> set (private_messages (w_db w))" for m
    using that by (fastforce simp: tables_ok_def between_def conv_ok_def)
  have queue: "length (unread_queue a (w_db w)) = length (filter (unread_by a) (private_messages (w_db w)))"
    using others by (auto simp: unread_queue_def' intro!: arg_cong [where f = length] filter_cong)
  let ?rows = "filter (\<lambda>(m, c). unread_by a m) (joined (w_db w))"
  have "length ?rows = length (filter (unread_by a) (private_messages (w_db w)))"
    by (rule length_joined [OF ok])
  moreover have "length (filter (\<lambda>r. unread_bucket (w_db w) a (snd r) = ''broadcast_comment'') ?rows) +
      length (filter (\<lambda>r. unread_bucket (w_db w) a (snd r) = ''non_friend'') ?rows) +
      length (filter (\<lambda>r. unread_bucket (w_db w) a (snd r) = ''friend'') ?rows) = length ?rows"
    by (rule length_filter_partition) (auto simp: unread_bucket_def)
  ultimately show ?thesis
    using queue assms(2)
    by (simp add: GetUnreadCount_def CountUnreadTotal_def CountUnreadByOrigin_def quiet_query value_or_def Let_def split_beta
        flip: of_nat_add)
qed

lemma demo_inbox: "quiet demo_sent" "map mMsgID (unread_queue 1 (w_db demo_sent)) = [900]"
  by (simp_all add: quiet_def unread_queue_def' demo_sent_def demo_send_def demo_strings eval_send eval_prims eval_demo eval_cmds
      run_rules eval_relations Let_def)

theorem unread_counts_add_up_witness:
  "\<exists>r. run_state (GetUnreadCount 1) demo_sent = ((Some r, success), demo_sent) \<and> ucCount r = 1 \<and>
    ucBroadcast r + ucFriend r = 1 \<and> ucBroadcast r = ucBroadcastComment r + ucNonFriend r"
proof -
  have "length (unread_queue 1 (w_db demo_sent)) = 1"
    using arg_cong [OF demo_inbox(2), of length] by simp
  then show ?thesis
    using unread_counts_add_up [OF demo_reachable(1) demo_inbox(1), of 1] by auto
qed

end
