(* ===== verification/Snowflake.thy ===== *)
theory Snowflake
  imports Prelude PMTypes "HOL-Library.Word"
begin

text \<open>
  The identifier generator of \<open>pkg/idgen\<close>: 64-bit words made of a time, a worker number and a
  sequence number. The clock is a list of readings, one per call of \<open>nowMillis\<close>; a call that
  still waits when the readings end has the value \<open>None\<close>. \<open>id_source\<close> states what a client
  relies on (identifiers grow), and the generator and its lease-guarded wrapper are
  instances of it.
\<close>

unbundle bit_operations_syntax

section \<open>The interface of an identifier source\<close>

type_synonym 's source = "'s \<Rightarrow> (int res \<times> 's) option"

text \<open>The identifiers of up to \<open>n\<close> calls, errors skipped, until a call blocks.\<close>

primrec drawn :: "'s source \<Rightarrow> nat \<Rightarrow> 's \<Rightarrow> int list" where
  "drawn gen 0 s = []"
| "drawn gen (Suc n) s = (case gen s of None \<Rightarrow> []
     | Some (Inl e, s') \<Rightarrow> drawn gen n s'
     | Some (Inr i, s') \<Rightarrow> i # drawn gen n s')"

locale id_source =
  fixes gen :: "'s source" and inv :: "'s \<Rightarrow> bool" and bound :: "'s \<Rightarrow> int"
  assumes bound_nonneg: "inv s \<Longrightarrow> 0 \<le> bound s"
    and gen_ok: "inv s \<Longrightarrow> gen s = Some (Inr i, s') \<Longrightarrow> inv s' \<and> bound s < i \<and> bound s' = i"
    and gen_err: "inv s \<Longrightarrow> gen s = Some (Inl e, s') \<Longrightarrow> inv s' \<and> bound s \<le> bound s'"
begin

lemma drawn_above: "inv s \<Longrightarrow> i \<in> set (drawn gen n s) \<Longrightarrow> bound s < i"
proof (induction n arbitrary: s)
  case 0
  then show ?case by simp
next
  case (Suc n)
  show ?case
  proof (cases "gen s")
    case None
    with Suc.prems show ?thesis by simp
  next
    case (Some rs)
    obtain r s' where rs: "rs = (r, s')" by force
    show ?thesis
    proof (cases r)
      case (Inl e)
      with Some rs gen_err [OF Suc.prems(1)] have "inv s'" "bound s \<le> bound s'" by auto
      with Suc.IH [of s'] Suc.prems(2) Some rs Inl show ?thesis by auto
    next
      case (Inr j)
      with Some rs gen_ok [OF Suc.prems(1)] have "inv s'" "bound s < j" "bound s' = j" by auto
      with Suc.IH [of s'] Suc.prems(2) Some rs Inr show ?thesis by auto
    qed
  qed
qed

lemma drawn_increasing: "inv s \<Longrightarrow> sorted (drawn gen n s) \<and> distinct (drawn gen n s)"
proof (induction n arbitrary: s)
  case 0
  then show ?case by simp
next
  case (Suc n)
  show ?case
  proof (cases "gen s")
    case None
    then show ?thesis by simp
  next
    case (Some rs)
    obtain r s' where rs: "rs = (r, s')" by force
    show ?thesis
    proof (cases r)
      case (Inl e)
      with Some rs gen_err [OF Suc.prems] Suc.IH show ?thesis by auto
    next
      case (Inr i)
      with Some rs gen_ok [OF Suc.prems] have s': "inv s'" "bound s' = i" by auto
      have above: "\<forall>j \<in> set (drawn gen n s'). i < j" using drawn_above [OF s'(1)] s'(2) by auto
      then have "i \<notin> set (drawn gen n s')" by auto
      then show ?thesis
        using Some rs Inr s' above Suc.IH [OF s'(1)] by (simp add: less_imp_le)
    qed
  qed
qed

lemma drawn_positive: "inv s \<Longrightarrow> i \<in> set (drawn gen n s) \<Longrightarrow> 0 < i"
  using drawn_above bound_nonneg by force

end

section \<open>The generator\<close>

abbreviation maxWorkerID :: int where "maxWorkerID \<equiv> 1023"
abbreviation sequenceMask :: "64 word" where "sequenceMask \<equiv> 4095"
abbreviation workerIDShift :: nat where "workerIDShift \<equiv> 12"
abbreviation timeShift :: nat where "timeShift \<equiv> 22"

record Snowflake =
  sf_epochMS :: "64 word"
  sf_workerID :: "64 word"
  sf_lastMS :: "64 word"
  sf_sequence :: "64 word"

type_synonym clock = "64 word list"

definition NewSnowflake :: "64 word \<Rightarrow> 64 word \<Rightarrow> Snowflake res" where
  "NewSnowflake workerID epochMS =
     (if sint workerID < 0 \<or> sint workerID > maxWorkerID
        then Inl (ErrText (''worker_id out of range: '' @ itoa (sint workerID)))
      else if sint epochMS \<le> 0 then Inl (ErrText ''invalid epoch'')
      else Inr \<lparr>sf_epochMS = epochMS, sf_workerID = workerID, sf_lastMS = 0, sf_sequence = 0\<rparr>)"

fun waitUntil :: "64 word \<Rightarrow> clock \<Rightarrow> (64 word \<times> clock) option" where
  "waitUntil targetMS [] = None"
| "waitUntil targetMS (now # clk) =
     (if sint now < sint targetMS then waitUntil targetMS clk else Some (now, clk))"

definition make_id :: "Snowflake \<Rightarrow> 64 word \<Rightarrow> 64 word" where
  "make_id s now =
     (push_bit timeShift (now - sf_epochMS s) OR push_bit workerIDShift (sf_workerID s)) OR sf_sequence s"

text \<open>From the moment the time and the sequence number are settled.\<close>

definition finish_id :: "Snowflake \<Rightarrow> 64 word \<Rightarrow> clock \<Rightarrow> int res \<times> Snowflake \<times> clock" where
  "finish_id s now clk =
     (if sint now < sint (sf_epochMS s) then (Inl (ErrText ''current time is before epoch''), s, clk)
      else (let s' = s\<lparr>sf_lastMS := now\<rparr>; i = make_id s' now
            in (if sint i \<le> 0 then Inl (ErrText ''generated invalid id'') else Inr (sint i), s', clk)))"

definition NextID_sf :: "Snowflake \<times> clock \<Rightarrow> (int res \<times> Snowflake \<times> clock) option" where
  "NextID_sf = (\<lambda>(s, clk). case clk of [] \<Rightarrow> None
     | t0 # clk0 \<Rightarrow>
       (case (if sint t0 < sint (sf_lastMS s) then waitUntil (sf_lastMS s) clk0 else Some (t0, clk0)) of
          None \<Rightarrow> None
        | Some (now, clk1) \<Rightarrow>
            if now = sf_lastMS s then
              (let s' = s\<lparr>sf_sequence := (sf_sequence s + 1) AND sequenceMask\<rparr> in
               if sf_sequence s' = 0 then
                 (case waitUntil (sf_lastMS s + 1) clk1 of None \<Rightarrow> None
                  | Some (now', clk2) \<Rightarrow> Some (finish_id s' now' clk2))
               else Some (finish_id s' now clk1))
            else Some (finish_id (s\<lparr>sf_sequence := 0\<rparr>) now clk1)))"

section \<open>The bits of an identifier\<close>

lemma or_push_bit:
  fixes a b :: int
  assumes "0 \<le> b" "b < 2 ^ n"
  shows "push_bit n a OR b = 2 ^ n * a + b"
proof -
  have "take_bit n b = b" using assms by (simp add: take_bit_int_eq_self)
  then have "push_bit n a AND b = 0"
    by (metis (no_types) bit_eq_iff bit_and_iff bit_push_bit_iff bit_take_bit_iff bit_0_eq bot_apply
        bot_bool_def linorder_not_le)
  then have "push_bit n a OR b = push_bit n a + b" by (simp add: disjunctive_add_eq_or)
  then show ?thesis by (simp add: push_bit_eq_mult mult.commute)
qed

text \<open>The value of an identifier while the time fits its 41 bits.\<close>

definition id_value :: "int \<Rightarrow> int \<Rightarrow> int \<Rightarrow> int" where
  "id_value t w q = 2 ^ 22 * t + 2 ^ 12 * w + q"

lemma id_value_word:
  assumes "0 \<le> t" "t < 2 ^ 41" "0 \<le> w" "w < 2 ^ 10" "0 \<le> q" "q < 2 ^ 12"
  shows "sint ((push_bit 22 (word_of_int t) OR push_bit 12 (word_of_int w)) OR (word_of_int q :: 64 word)) = id_value t w q"
proof -
  have inner: "0 \<le> 2 ^ 12 * w + q" "2 ^ 12 * w + q < (2 :: int) ^ 22" using assms by simp_all
  have eq: "(push_bit 22 t OR push_bit 12 w) OR q = id_value t w q"
    using or_push_bit [OF inner, of t] or_push_bit [OF assms(5,6), of w]
    by (simp add: or.assoc id_value_def)
  have "(push_bit 22 (word_of_int t) OR push_bit 12 (word_of_int w)) OR (word_of_int q :: 64 word) =
      word_of_int ((push_bit 22 t OR push_bit 12 w) OR q)"
    by (auto simp: bit_eq_iff bit_simps)
  moreover have "0 \<le> id_value t w q" "id_value t w q < 2 ^ 63"
    using assms inner by (simp_all add: id_value_def)
  moreover have "signed_take_bit 63 (id_value t w q) = id_value t w q"
    using calculation by (intro signed_take_bit_int_eq_self) linarith+
  ultimately show ?thesis
    using eq by (simp add: signed_of_int)
qed

section \<open>Identifiers grow\<close>

lemma sint_small: "uint (x :: 64 word) < 2 ^ 63 \<Longrightarrow> sint x = uint x"
proof -
  assume "uint x < 2 ^ 63"
  moreover have "- (2 ^ 63) \<le> uint x" by (rule order_trans [OF _ uint_ge_0]) simp
  ultimately have "signed_take_bit 63 (uint x) = uint x" by (intro signed_take_bit_int_eq_self)
  then show ?thesis by (simp add: sint_uint)
qed

text \<open>
  A generator whose fields are in range and whose clock never leaves the 41 bits of the
  time: until 69 years after the epoch.
\<close>

definition sf_ok :: "Snowflake \<times> clock \<Rightarrow> bool" where
  "sf_ok = (\<lambda>(s, clk). 0 < sint (sf_epochMS s) \<and> sint (sf_epochMS s) < 2 ^ 62
     \<and> 0 \<le> sint (sf_workerID s) \<and> sint (sf_workerID s) \<le> maxWorkerID
     \<and> uint (sf_sequence s) < 2 ^ 12
     \<and> (\<forall>t \<in> insert (sf_lastMS s) (set clk). 0 \<le> sint t \<and> sint t < sint (sf_epochMS s) + 2 ^ 41))"

definition sf_bound :: "Snowflake \<times> clock \<Rightarrow> int" where
  "sf_bound = (\<lambda>(s, clk). max 0 (id_value (sint (sf_lastMS s) - sint (sf_epochMS s)) (sint (sf_workerID s)) (sint (sf_sequence s))))"

lemma waitUntil_result:
  "waitUntil t clk = Some (now, clk') \<Longrightarrow>
   sint t \<le> sint now \<and> now \<in> set clk \<and> set clk' \<subseteq> set clk"
  by (induction clk) (auto split: if_splits)

lemma finish_id_value:
  assumes "sf_ok (s, now # clk)" "sint (sf_epochMS s) \<le> sint now"
  shows "sint (make_id (s\<lparr>sf_lastMS := now\<rparr>) now) =
    id_value (sint now - sint (sf_epochMS s)) (sint (sf_workerID s)) (sint (sf_sequence s))"
proof -
  have "sint (sf_sequence s) = uint (sf_sequence s)"
    using assms by (intro sint_small) (simp add: sf_ok_def)
  then have q: "0 \<le> sint (sf_sequence s)" "sint (sf_sequence s) < 2 ^ 12"
    using assms by (simp_all add: sf_ok_def)
  have "make_id (s\<lparr>sf_lastMS := now\<rparr>) now =
      (push_bit 22 (word_of_int (sint now - sint (sf_epochMS s))) OR push_bit 12 (word_of_int (sint (sf_workerID s))))
        OR word_of_int (sint (sf_sequence s))"
    by (simp add: make_id_def)
  then show ?thesis
    using assms q by (simp only:) (rule id_value_word; simp add: sf_ok_def)
qed

text \<open>
  The last part of a call, from a state whose time or sequence number is beyond the last
  identifier's.
\<close>

lemma finish_id_step:
  assumes ok: "sf_ok (s, now # clk)" and fin: "finish_id s now clk = (r, s', clk')"
    and above: "sint (sf_epochMS s) \<le> sint now \<Longrightarrow>
      b = 0 \<or> b < id_value (sint now - sint (sf_epochMS s)) (sint (sf_workerID s)) (sint (sf_sequence s))"
    and b: "0 \<le> b" "sint now < sint (sf_epochMS s) \<Longrightarrow> b = 0"
  shows "sf_ok (s', clk') \<and> (case r of Inl e \<Rightarrow> b \<le> sf_bound (s', clk')
     | Inr i \<Rightarrow> b < i \<and> sf_bound (s', clk') = i)"
proof (cases "sint now < sint (sf_epochMS s)")
  case True
  with fin ok b show ?thesis by (auto simp: finish_id_def sf_ok_def sf_bound_def)
next
  case False
  let ?i = "id_value (sint now - sint (sf_epochMS s)) (sint (sf_workerID s)) (sint (sf_sequence s))"
  have i: "sint (make_id (s\<lparr>sf_lastMS := now\<rparr>) now) = ?i"
    using finish_id_value [OF ok] False by simp
  have bound: "sf_bound (s\<lparr>sf_lastMS := now\<rparr>, clk) = max 0 ?i" by (simp add: sf_bound_def)
  have "sf_ok (s\<lparr>sf_lastMS := now\<rparr>, clk)" using ok by (simp add: sf_ok_def)
  moreover have "r = (if ?i \<le> 0 then Inl (ErrText ''generated invalid id'') else Inr ?i)"
    "s' = s\<lparr>sf_lastMS := now\<rparr>" "clk' = clk"
    using fin False i by (auto simp: finish_id_def Let_def)
  ultimately show ?thesis using above False b bound by auto
qed

lemma next_sequence:
  assumes "uint q < 2 ^ 12"
  shows "uint ((q + 1) AND sequenceMask) < 2 ^ 12"
    "(q + 1) AND sequenceMask \<noteq> 0 \<Longrightarrow> uint ((q + 1) AND sequenceMask) = uint q + 1"
proof -
  have m: "sequenceMask = mask 12" by (simp add: mask_eq_exp_minus_1)
  have sum: "uint (q + 1) = uint q + 1"
    using assms by (simp add: uint_word_ariths(1))
  have v: "uint ((q + 1) AND sequenceMask) = (uint q + 1) mod 2 ^ 12"
    unfolding m take_bit_eq_mask [symmetric] unsigned_take_bit_eq sum by (simp only: take_bit_eq_mod)
  show "uint ((q + 1) AND sequenceMask) < 2 ^ 12" unfolding v by simp
  assume "(q + 1) AND sequenceMask \<noteq> 0"
  then have "(uint q + 1) mod 2 ^ 12 \<noteq> 0" using v by (metis unsigned_eq_0_iff)
  then show "uint ((q + 1) AND sequenceMask) = uint q + 1"
    unfolding v using assms by (cases "uint q + 1 = 2 ^ 12") auto
qed

lemma later_above:
  assumes "sf_ok (s, clk)" "sint (sf_lastMS s) < sint now"
  shows "sf_bound (s, clk) = 0 \<or>
    sf_bound (s, clk) < id_value (sint now - sint (sf_epochMS s)) (sint (sf_workerID s)) 0"
  using assms sint_small [of "sf_sequence s"]
  by (auto simp: sf_ok_def sf_bound_def id_value_def max_def)

lemma before_epoch: "sf_ok (s, clk) \<Longrightarrow> sint (sf_lastMS s) < sint (sf_epochMS s) \<Longrightarrow> sf_bound (s, clk) = 0"
  using sint_small [of "sf_sequence s"] by (simp add: sf_ok_def sf_bound_def id_value_def)

lemma NextID_step:
  assumes ok: "sf_ok (s, clk)" and run: "NextID_sf (s, clk) = Some (r, s', clk')"
  shows "sf_ok (s', clk') \<and> (case r of Inl e \<Rightarrow> sf_bound (s, clk) \<le> sf_bound (s', clk')
     | Inr i \<Rightarrow> sf_bound (s, clk) < i \<and> sf_bound (s', clk') = i)"
proof -
  have b: "0 \<le> sf_bound (s, clk)" by (simp add: sf_bound_def)
  obtain t0 clk0 where clk: "clk = t0 # clk0"
    using run by (cases clk) (auto simp: NextID_sf_def)
  obtain now clk1 where settle:
    "(if sint t0 < sint (sf_lastMS s) then waitUntil (sf_lastMS s) clk0 else Some (t0, clk0)) = Some (now, clk1)"
    using run clk by (auto simp: NextID_sf_def split: option.splits)
  then have now: "sint (sf_lastMS s) \<le> sint now" "now \<in> set clk" "set clk1 \<subseteq> set clk"
    using clk waitUntil_result by (fastforce split: if_splits)+
  have rest: "Some (r, s', clk') = (if now = sf_lastMS s then
        (let s' = s\<lparr>sf_sequence := (sf_sequence s + 1) AND sequenceMask\<rparr> in
         if sf_sequence s' = 0 then
           (case waitUntil (sf_lastMS s + 1) clk1 of None \<Rightarrow> None
            | Some (now', clk2) \<Rightarrow> Some (finish_id s' now' clk2))
         else Some (finish_id s' now clk1))
      else Some (finish_id (s\<lparr>sf_sequence := 0\<rparr>) now clk1))"
    using run clk settle by (simp add: NextID_sf_def)
  define q where "q = (sf_sequence s + 1) AND sequenceMask"
  have q: "uint q < 2 ^ 12" "q \<noteq> 0 \<Longrightarrow> uint q = uint (sf_sequence s) + 1"
    using next_sequence [of "sf_sequence s"] ok by (simp_all add: q_def sf_ok_def)
  consider (later) "now \<noteq> sf_lastMS s" "finish_id (s\<lparr>sf_sequence := 0\<rparr>) now clk1 = (r, s', clk')"
    | (same) "now = sf_lastMS s" "q \<noteq> 0" "finish_id (s\<lparr>sf_sequence := q\<rparr>) now clk1 = (r, s', clk')"
    | (wrap) now' clk2 where "q = 0" "waitUntil (sf_lastMS s + 1) clk1 = Some (now', clk2)"
        "finish_id (s\<lparr>sf_sequence := 0\<rparr>) now' clk2 = (r, s', clk')"
    using rest by (auto simp: q_def [symmetric] Let_def split: if_splits option.splits)
  then show ?thesis
  proof cases
    case later
    then have gt: "sint (sf_lastMS s) < sint now"
      using now(1) by (metis order_le_less signed_word_eqI)
    show ?thesis
    proof (rule finish_id_step [OF _ later(2)])
      show "sf_ok (s\<lparr>sf_sequence := 0\<rparr>, now # clk1)" using ok now by (auto simp: sf_ok_def)
    qed (use later_above [OF ok gt] before_epoch [OF ok] gt b in auto)
  next
    case same
    have sq: "sint q = sint (sf_sequence s) + 1"
      using q same ok sint_small [of q] sint_small [of "sf_sequence s"] by (simp add: sf_ok_def)
    show ?thesis
    proof (rule finish_id_step [OF _ same(3)])
      show "sf_ok (s\<lparr>sf_sequence := q\<rparr>, now # clk1)" using ok now q by (auto simp: sf_ok_def)
    qed (use before_epoch [OF ok] same sq b in \<open>auto simp: sf_bound_def id_value_def\<close>)
  next
    case wrap
    note w = waitUntil_result [OF wrap(2)]
    have "signed_take_bit 63 (sint (sf_lastMS s) + 1) = sint (sf_lastMS s) + 1"
      by (rule signed_take_bit_int_eq_self) (use ok in \<open>auto simp: sf_ok_def\<close>)
    then have "sint (sf_lastMS s + 1) = sint (sf_lastMS s) + 1"
      by (simp add: sint_word_ariths)
    with w have gt: "sint (sf_lastMS s) < sint now'" by simp
    show ?thesis
    proof (rule finish_id_step [OF _ wrap(3)])
      show "sf_ok (s\<lparr>sf_sequence := 0\<rparr>, now' # clk2)" using ok now w by (auto simp: sf_ok_def)
    qed (use later_above [OF ok gt] before_epoch [OF ok] gt b in auto)
  qed
qed

interpretation snowflake: id_source NextID_sf sf_ok sf_bound
proof
  fix st i e st'
  show "0 \<le> sf_bound st" by (cases st) (simp add: sf_bound_def)
  assume ok: "sf_ok st"
  show "NextID_sf st = Some (Inr i, st') \<Longrightarrow> sf_ok st' \<and> sf_bound st < i \<and> sf_bound st' = i"
    using NextID_step ok by (cases st; cases st') fastforce
  show "NextID_sf st = Some (Inl e, st') \<Longrightarrow> sf_ok st' \<and> sf_bound st \<le> sf_bound st'"
    using NextID_step ok by (cases st; cases st') fastforce
qed

section \<open>The generator under a worker lease\<close>

record ManagedGenerator =
  mg_sf :: Snowflake
  mg_workerID :: "64 word"
  mg_key :: string
  mg_alive :: bool

definition NextID_managed :: "ManagedGenerator \<times> clock \<Rightarrow> (int res \<times> ManagedGenerator \<times> clock) option" where
  "NextID_managed = (\<lambda>(g, clk).
     if \<not> mg_alive g then
       Some (Inl (ErrText ''worker lease lost; id generation is disabled''), g, clk)
     else (case NextID_sf (mg_sf g, clk) of None \<Rightarrow> None
       | Some (r, s, clk') \<Rightarrow> Some (r, g\<lparr>mg_sf := s\<rparr>, clk')))"

interpretation managed: id_source NextID_managed
  "\<lambda>(g, clk). sf_ok (mg_sf g, clk)" "\<lambda>(g, clk). sf_bound (mg_sf g, clk)"
proof
  fix gc gc' :: "ManagedGenerator \<times> clock" and i e
  obtain g clk where gc: "gc = (g, clk)" by force
  obtain g' clk' where gc': "gc' = (g', clk')" by force
  show "0 \<le> (case gc of (g, clk) \<Rightarrow> sf_bound (mg_sf g, clk))" by (simp add: gc sf_bound_def)
  assume "case gc of (g, clk) \<Rightarrow> sf_ok (mg_sf g, clk)"
  then have ok: "sf_ok (mg_sf g, clk)" by (simp add: gc)
  show "(case gc' of (g, clk) \<Rightarrow> sf_ok (mg_sf g, clk)) \<and>
      (case gc of (g, clk) \<Rightarrow> sf_bound (mg_sf g, clk)) < i \<and> (case gc' of (g, clk) \<Rightarrow> sf_bound (mg_sf g, clk)) = i"
    if "NextID_managed gc = Some (Inr i, gc')"
    using that NextID_step [OF ok] unfolding gc gc'
    by (fastforce simp: NextID_managed_def split: if_splits option.splits)
  show "(case gc' of (g, clk) \<Rightarrow> sf_ok (mg_sf g, clk)) \<and>
      (case gc of (g, clk) \<Rightarrow> sf_bound (mg_sf g, clk)) \<le> (case gc' of (g, clk) \<Rightarrow> sf_bound (mg_sf g, clk))"
    if "NextID_managed gc = Some (Inl e, gc')"
    using that NextID_step [OF ok] ok unfolding gc gc'
    by (fastforce simp: NextID_managed_def split: if_splits option.splits)
qed

text \<open>
  Claiming a worker number. The etcd transaction "put the key if it was never created" is a
  parameter: from the server's state it gives whether it succeeded, or an error, and the new
  state.
\<close>

definition pad4 :: "nat \<Rightarrow> string" where
  "pad4 n = replicate (4 - length (nat_dec n)) (CHR ''0'') @ nat_dec n"

definition worker_key :: "string \<Rightarrow> nat \<Rightarrow> string" where
  "worker_key servicePrefix wid = servicePrefix @ ''/'' @ pad4 wid"

fun claim_from :: "('e \<Rightarrow> string \<Rightarrow> string \<Rightarrow> bool res \<times> 'e) \<Rightarrow> string \<Rightarrow> string \<Rightarrow> nat list \<Rightarrow> 'e
    \<Rightarrow> (nat \<times> string) res \<times> 'e" where
  "claim_from commit servicePrefix instanceID [] e =
     (Inl (ErrText (''no available worker_id under '' @ servicePrefix)), e)"
| "claim_from commit servicePrefix instanceID (wid # wids) e =
     (case commit e (worker_key servicePrefix wid) instanceID of
        (Inl er, e') \<Rightarrow> (Inl (ErrText (''claim worker_id='' @ nat_dec wid @ '': '' @ err_text er)), e')
      | (Inr True, e') \<Rightarrow> (Inr (wid, worker_key servicePrefix wid), e')
      | (Inr False, e') \<Rightarrow> claim_from commit servicePrefix instanceID wids e')"

definition claimWorkerID :: "('e \<Rightarrow> string \<Rightarrow> string \<Rightarrow> bool res \<times> 'e) \<Rightarrow> string \<Rightarrow> string \<Rightarrow> 'e
    \<Rightarrow> (nat \<times> string) res \<times> 'e" where
  "claimWorkerID commit servicePrefix instanceID e =
     claim_from commit servicePrefix instanceID [0..<Suc (nat maxWorkerID)] e"

lemma claim_from_result:
  assumes "claim_from commit p inst wids e = (Inr (wid, key), e')" "K e"
    and "\<And>e k v x e'. K e \<Longrightarrow> commit e k v = (x, e') \<Longrightarrow> K e'"
  shows "wid \<in> set wids \<and> key = worker_key p wid \<and> (\<exists>e0. K e0 \<and> commit e0 key inst = (Inr True, e'))"
  using assms(1,2)
proof (induction wids arbitrary: e)
  case Nil
  then show ?case by simp
next
  case (Cons w ws)
  obtain x e1 where c: "commit e (worker_key p w) inst = (x, e1)" by force
  with Cons.prems assms(3) have "K e1" by blast
  with Cons c show ?case
    by (cases x) (auto split: bool.splits)
qed

lemma parse_digits_zeros: "parse_digits 0 (replicate n (CHR ''0'') @ xs) = parse_digits 0 xs"
  by (induction n) (auto simp: digit_val_def)

lemma parse_pad4: "parse_digits 0 (pad4 n) = Some n"
  by (simp add: pad4_def parse_digits_zeros parse_digits_nat_dec)

lemma worker_key_inject: "worker_key p a = worker_key p b \<longleftrightarrow> a = b"
  by (auto simp: worker_key_def) (metis option.inject parse_pad4)

text \<open>The worker number can be read off an identifier.\<close>

definition worker_of :: "int \<Rightarrow> int" where
  "worker_of i = (i div 2 ^ 12) mod 2 ^ 10"

lemma worker_of_id_value:
  assumes "0 \<le> w" "w < 2 ^ 10" "0 \<le> q" "q < 2 ^ 12"
  shows "worker_of (id_value t w q) = w"
proof -
  have "id_value t w q = q + 2 ^ 12 * (2 ^ 10 * t + w)" by (simp add: id_value_def)
  then have "id_value t w q div 2 ^ 12 = 2 ^ 10 * t + w"
    using assms(3,4) by (simp add: div_mult_self2)
  with assms(1,2) show ?thesis by (simp add: worker_of_def)
qed

lemma NextID_worker:
  assumes ok: "sf_ok (s, clk)" and run: "NextID_sf (s, clk) = Some (r, s', clk')"
  shows "sf_workerID s' = sf_workerID s \<and> sf_epochMS s' = sf_epochMS s \<and>
    (\<forall>i. r = Inr i \<longrightarrow> worker_of i = sint (sf_workerID s))"
proof -
  have state: "sf_workerID s' = sf_workerID s \<and> sf_epochMS s' = sf_epochMS s"
    using run by (auto simp: NextID_sf_def finish_id_def Let_def split: list.splits if_splits option.splits)
  have "sf_ok (s', clk')" "\<And>i. r = Inr i \<Longrightarrow> 0 < i \<and> sf_bound (s', clk') = i"
    using NextID_step [OF ok run] by (auto simp: sf_bound_def)
  moreover have "worker_of (sf_bound (s', clk')) = sint (sf_workerID s')"
    if "sf_ok (s', clk')" "0 < sf_bound (s', clk')"
    using that sint_small [of "sf_sequence s'"]
    by (auto simp: sf_bound_def max_def sf_ok_def intro!: worker_of_id_value split: if_splits)
  ultimately show ?thesis using state by auto
qed

lemma drawn_worker: "sf_ok (s, clk) \<Longrightarrow> i \<in> set (drawn NextID_sf n (s, clk)) \<Longrightarrow> worker_of i = sint (sf_workerID s)"
proof (induction n arbitrary: s clk)
  case 0
  then show ?case by simp
next
  case (Suc n)
  obtain r s' clk' where run: "NextID_sf (s, clk) = Some (r, s', clk')"
    using Suc.prems(2) by (cases "NextID_sf (s, clk)") auto
  have "sf_ok (s', clk')" using NextID_step [OF Suc.prems(1) run] by blast
  with Suc run NextID_worker [OF Suc.prems(1) run] show ?case by (cases r) auto
qed

section \<open>Properties\<close>

text \<open>C31: a new generator hands out strictly increasing, pairwise distinct,
  positive identifiers, however its clock jumps (backwards too), as long as the clock stays
  within 41 bits of the epoch.\<close>

theorem snowflake_ids_increase:
  assumes "NewSnowflake w e = Inr s" "sint e < 2 ^ 62"
    and "\<forall>t \<in> set clk. 0 \<le> sint t \<and> sint t < sint e + 2 ^ 41"
  shows "sorted (drawn NextID_sf n (s, clk)) \<and> distinct (drawn NextID_sf n (s, clk)) \<and>
    (\<forall>i \<in> set (drawn NextID_sf n (s, clk)). 0 < i)"
proof -
  have "sf_ok (s, clk)"
    using assms by (auto simp: NewSnowflake_def sf_ok_def split: if_splits)
  then show ?thesis
    using snowflake.drawn_increasing snowflake.drawn_positive by blast
qed

theorem snowflake_ids_increase_witness:
  "\<exists>s. NewSnowflake 3 1000 = Inr s \<and> drawn NextID_sf 3 (s, [2000, 1500, 2000, 2001]) = [4194316288, 4194316289, 4198510592] \<and>
     distinct (drawn NextID_sf 3 (s, [2000, 1500, 2000, 2001]))"
proof -
  define s where "s = \<lparr>sf_epochMS = 1000, sf_workerID = 3, sf_lastMS = 0, sf_sequence = 0\<rparr>"
  have new: "NewSnowflake 3 1000 = Inr s" by (simp add: NewSnowflake_def s_def)
  have "drawn NextID_sf 3 (s, [2000, 1500, 2000, 2001]) = [4194316288, 4194316289, 4198510592]"
    by (simp add: s_def numeral_3_eq_3 NextID_sf_def finish_id_def make_id_def Let_def)
  moreover have "distinct (drawn NextID_sf 3 (s, [2000, 1500, 2000, 2001]))"
    using snowflake_ids_increase [OF new, of "[2000, 1500, 2000, 2001]" 3] by simp
  ultimately show ?thesis using new by blast
qed

text \<open>C32: a call returns as soon as its clock shows a time after the last
  identifier's, whatever it showed before: the waits for a clock that went back, and for the
  next millisecond after 4096 identifiers, end.\<close>

theorem next_id_returns:
  assumes "sf_ok (s, clk)" "t \<in> set clk" "sint (sf_lastMS s) < sint t"
  shows "\<exists>r s' clk'. NextID_sf (s, clk) = Some (r, s', clk')"
proof -
  have wait: "\<exists>now clk'. waitUntil target c = Some (now, clk') \<and> (now = t \<or> t \<in> set clk')"
    if "t \<in> set c" "sint target \<le> sint t" for target c
    using that by (induction c) auto
  obtain t0 clk0 where clk: "clk = t0 # clk0" using assms(2) by (cases clk) auto
  obtain now clk1 where settle:
    "(if sint t0 < sint (sf_lastMS s) then waitUntil (sf_lastMS s) clk0 else Some (t0, clk0)) = Some (now, clk1)"
    "now = t \<or> t \<in> set clk1"
  proof (cases "sint t0 < sint (sf_lastMS s)")
    case True
    then have "t \<in> set clk0" using assms(2,3) clk by auto
    with wait [of clk0 "sf_lastMS s"] assms(3) True that show ?thesis by auto
  next
    case False
    with assms(2) clk that show ?thesis by auto
  qed
  have "signed_take_bit 63 (sint (sf_lastMS s) + 1) = sint (sf_lastMS s) + 1"
    by (rule signed_take_bit_int_eq_self) (use assms(1) in \<open>auto simp: sf_ok_def\<close>)
  then have "sint (sf_lastMS s + 1) \<le> sint t"
    using assms(3) by (simp add: sint_word_ariths)
  then have "NextID_sf (s, clk) \<noteq> None"
    using settle wait [of clk1 "sf_lastMS s + 1"] assms(3) clk
    by (cases "now = sf_lastMS s") (auto simp: NextID_sf_def Let_def simp del: not_None_eq, (metis prod_cases3)+)
  then show ?thesis by (metis option.exhaust prod_cases3)
qed

theorem next_id_returns_witness:
  "\<exists>r s' clk'. NextID_sf (\<lparr>sf_epochMS = 1000, sf_workerID = 3, sf_lastMS = 2000, sf_sequence = 4095\<rparr>,
     [1990, 2000, 2000, 2001]) = Some (r, s', clk')"
  using next_id_returns [of "\<lparr>sf_epochMS = 1000, sf_workerID = 3, sf_lastMS = 2000, sf_sequence = 4095\<rparr>"
      "[1990, 2000, 2000, 2001]" 2001]
  by (simp add: sf_ok_def)

text \<open>Generators with different worker numbers never hand out the
  same identifier.\<close>

theorem snowflake_workers_disjoint:
  assumes "NewSnowflake w1 e = Inr s1" "NewSnowflake w2 e = Inr s2" "w1 \<noteq> w2" "sint e < 2 ^ 62"
    and "\<forall>t \<in> set clk1 \<union> set clk2. 0 \<le> sint t \<and> sint t < sint e + 2 ^ 41"
  shows "set (drawn NextID_sf m (s1, clk1)) \<inter> set (drawn NextID_sf n (s2, clk2)) = {}"
proof -
  have "sf_ok (s1, clk1)" "sf_ok (s2, clk2)" "sf_workerID s1 = w1" "sf_workerID s2 = w2"
    using assms by (auto simp: NewSnowflake_def sf_ok_def split: if_splits)
  then show ?thesis
    using drawn_worker assms(3) by (metis disjoint_iff signed_word_eqI)
qed

theorem snowflake_workers_disjoint_witness:
  "\<exists>s1 s2. NewSnowflake 3 1000 = Inr s1 \<and> NewSnowflake 4 1000 = Inr s2 \<and>
     set (drawn NextID_sf 2 (s1, [2000, 2000])) \<inter> set (drawn NextID_sf 2 (s2, [2000, 2001])) = {}"
proof -
  obtain s1 s2 where new: "NewSnowflake 3 1000 = Inr s1" "NewSnowflake 4 1000 = Inr s2"
    by (simp add: NewSnowflake_def)
  then show ?thesis
    using snowflake_workers_disjoint [OF new, of "[2000, 2000]" "[2000, 2001]"] by auto
qed

text \<open>If the etcd transaction creates a key only when it is absent and no
  created key disappears, two instances of a service never claim the same worker number, and
  a claimed number is in the generator's range.\<close>

theorem worker_ids_distinct:
  assumes put: "\<And>e k v e'. commit e k v = (Inr True, e') \<Longrightarrow> \<not> has e k \<and> has e' k"
    and stays: "\<And>e k v x e' k'. has e k' \<Longrightarrow> commit e k v = (x, e') \<Longrightarrow> has e' k'"
    and "claimWorkerID commit p i1 e0 = (Inr (w1, k1), e1)"
    and "\<And>k. has e1 k \<Longrightarrow> has e2 k"
    and "claimWorkerID commit p i2 e2 = (Inr (w2, k2), e3)"
  shows "w1 \<noteq> w2 \<and> k1 \<noteq> k2 \<and> int w1 \<le> maxWorkerID \<and> int w2 \<le> maxWorkerID"
proof -
  let ?ws = "[0..<Suc (nat maxWorkerID)]"
  have c1: "w1 \<in> set ?ws \<and> k1 = worker_key p w1 \<and> (\<exists>e. True \<and> commit e k1 i1 = (Inr True, e1))"
    by (rule claim_from_result [OF assms(3) [unfolded claimWorkerID_def]]) simp_all
  then have "has e1 k1" using put by blast
  then have "has e2 k1" by (rule assms(4))
  then have c2: "w2 \<in> set ?ws \<and> k2 = worker_key p w2 \<and> (\<exists>e. has e k1 \<and> commit e k2 i2 = (Inr True, e3))"
    by (rule claim_from_result [OF assms(5) [unfolded claimWorkerID_def]]) (rule stays)
  then have "k1 \<noteq> k2" using put by blast
  then show ?thesis using c1 c2 by auto
qed

theorem worker_ids_distinct_witness:
  "\<exists>e1 e3 k1 k2. claimWorkerID (\<lambda>m k v. if k \<in> dom m then (Inr False, m) else (Inr True, m(k \<mapsto> v)))
        ''/w/pm'' ''one'' Map.empty = (Inr (0, k1), e1) \<and>
     claimWorkerID (\<lambda>m k v. if k \<in> dom m then (Inr False, m) else (Inr True, m(k \<mapsto> v)))
        ''/w/pm'' ''two'' e1 = (Inr (1, k2), e3) \<and> k1 \<noteq> k2"
proof -
  let ?c = "\<lambda>(m :: string \<Rightarrow> string option) k v. if k \<in> dom m then (Inr False, m) else (Inr True :: bool res, m(k \<mapsto> v))"
  let ?e1 = "[worker_key ''/w/pm'' 0 \<mapsto> ''one'']"
  have "[0..<Suc (nat maxWorkerID)] = 0 # [Suc 0..<Suc (nat maxWorkerID)]"
    "[Suc 0..<Suc (nat maxWorkerID)] = Suc 0 # [Suc (Suc 0)..<Suc (nat maxWorkerID)]"
    by (rule upt_conv_Cons, simp)+
  then have "[0..<Suc (nat maxWorkerID)] = 0 # Suc 0 # [Suc (Suc 0)..<Suc (nat maxWorkerID)]"
    by (rule trans [OF _ arg_cong])
  then obtain ws where range: "[0..<Suc (nat maxWorkerID)] = 0 # Suc 0 # ws" by blast
  have 1: "claimWorkerID ?c ''/w/pm'' ''one'' Map.empty = (Inr (0, worker_key ''/w/pm'' 0), ?e1)"
    unfolding claimWorkerID_def range by simp
  have 2: "claimWorkerID ?c ''/w/pm'' ''two'' ?e1 =
      (Inr (1, worker_key ''/w/pm'' 1), ?e1(worker_key ''/w/pm'' 1 \<mapsto> ''two''))"
    unfolding claimWorkerID_def range by (simp add: worker_key_inject)
  have put: "\<not> k \<in> dom e \<and> k \<in> dom e'" if "?c e k v = (Inr True, e')" for e k v e'
    using that by (auto split: if_splits)
  have stays: "k' \<in> dom e'" if "k' \<in> dom e" "?c e k v = (x, e')" for e k v x e' k'
    using that by (auto split: if_splits)
  have "(0 :: nat) \<noteq> 1 \<and> worker_key ''/w/pm'' 0 \<noteq> worker_key ''/w/pm'' 1 \<and> int 0 \<le> maxWorkerID \<and> int 1 \<le> maxWorkerID"
    by (rule worker_ids_distinct [where commit = ?c and has = "\<lambda>m k. k \<in> dom m", OF _ _ 1 _ 2])
      (erule put, erule (1) stays, assumption)
  then have "worker_key ''/w/pm'' 0 \<noteq> worker_key ''/w/pm'' 1" by blast
  with 1 2 show ?thesis by blast
qed

end
