(* ===== verification/Milestones.thy ===== *)
theory Milestones
  imports Notify
begin

text \<open>
  Milestones, \<open>pkg/milestone\<close>: when a counter of an item reaches the threshold of a rule, its author gets one
  notification. The event is a row of Postgres, the notification a field of a hash in Redis that expires; pending
  events are copied to Redis again at the start of the pipeline. Templates (\<open>text/template\<close>) are a field
  of the service record. The rule cache of the process is part of the world; its keys are the three metrics, so
  its capacity of 256 entries is never reached and nothing is evicted.
\<close>

section \<open>Tables\<close>

definition ListEnabledRulesByMetric :: "string \<Rightarrow> MilestoneRule list res io" where
  "ListEnabledRulesByMetric metricKey =
     db_query (\<lambda>d. sort_key (\<lambda>r. (mrThreshold r, mrRuleID r))
       (filter (\<lambda>r. mrMetricKey r = metricKey \<and> mrRuleEnabled r) (milestone_rules d)))"

record ItemContext =
  icItemID :: int
  icAuthorAgentID :: int
  icItemSummary :: string

definition item_contexts :: "int \<Rightarrow> database \<Rightarrow> ItemContext option" where
  "item_contexts itemID d =
     map_option (\<lambda>st. \<lparr>icItemID = itemID, icAuthorAgentID = isAuthorAgentID st,
        icItemSummary = (case find (\<lambda>p. pItemID p = itemID) (processed_items d) of
            None \<Rightarrow> [] | Some p \<Rightarrow> (case pSummary p of None \<Rightarrow> [] | Some t \<Rightarrow> t))\<rparr>)
       (find (\<lambda>st. isItemID st = itemID) (item_stats d))"

definition GetItemContext :: "int \<Rightarrow> ItemContext res io" where
  "GetItemContext itemID = first_or_err (db_query (item_contexts itemID))"

definition event_pair :: "MilestoneEvent \<Rightarrow> int \<times> int" where
  "event_pair e = (meItemID e, meRuleID e)"

text \<open>\<open>ON CONFLICT (item_id, rule_id) DO NOTHING\<close>: any other constraint is an error.\<close>

definition insert_event :: "MilestoneEvent \<Rightarrow> database \<Rightarrow> bool res \<times> database" where
  "insert_event e d =
     (if meEventID e = 0 then (Inl (NotNullViolation ''event_id''), d)
      else if event_pair e \<in> event_pair ` set (milestone_events d) then (Inr False, d)
      else if meEventID e \<in> meEventID ` set (milestone_events d) then (Inl (UniqueViolation ''milestone_events_pkey''), d)
      else if meItemID e \<notin> iItemID ` set (raw_items d) then (Inl (ForeignKeyViolation ''fk_milestone_events_item''), d)
      else if meAuthorAgentID e \<notin> aAgentID ` set (agents d) then (Inl (ForeignKeyViolation ''fk_milestone_events_author''), d)
      else if meRuleID e \<notin> mrRuleID ` set (milestone_rules d) then (Inl (ForeignKeyViolation ''fk_milestone_events_rule''), d)
      else (Inr True, d\<lparr>milestone_events := milestone_events d @ [e]\<rparr>))"

definition InsertEventIfAbsent :: "MilestoneEvent \<Rightarrow> bool res io" where
  "InsertEventIfAbsent e = db_stmt (insert_event e)"

definition event_key :: "MilestoneEvent \<Rightarrow> int \<times> int" where
  "event_key e = (meQueuedAt e, meEventID e)"

definition event_after :: "int \<Rightarrow> int \<Rightarrow> MilestoneEvent \<Rightarrow> bool" where
  "event_after afterQueuedAt afterEventID e \<longleftrightarrow>
     (afterQueuedAt > 0 \<or> afterEventID > 0 \<longrightarrow>
        meQueuedAt e > afterQueuedAt \<or> meQueuedAt e = afterQueuedAt \<and> meEventID e > afterEventID)"

definition ListPendingEventsAfter :: "int \<Rightarrow> int \<Rightarrow> int \<Rightarrow> MilestoneEvent list res io" where
  "ListPendingEventsAfter afterQueuedAt afterEventID limit =
     db_query (\<lambda>d.
       (let rows = sort_key event_key (filter (\<lambda>e. meNotificationStatus e = 0 \<and> event_after afterQueuedAt afterEventID e)
              (milestone_events d))
        in if limit > 0 then take (nat limit) rows else rows))"

definition ListPendingEvents :: "int \<Rightarrow> MilestoneEvent list res io" where
  "ListPendingEvents limit = ListPendingEventsAfter 0 0 limit"

definition mark_notified :: "int list \<Rightarrow> int \<Rightarrow> database \<Rightarrow> unit res \<times> database" where
  "mark_notified eventIDs notifiedAt d =
     (Inr (), d\<lparr>milestone_events := update_where (\<lambda>e. meEventID e \<in> set eventIDs)
        (\<lambda>e. e\<lparr>meNotificationStatus := 1, meNotifiedAt := notifiedAt\<rparr>) (milestone_events d)\<rparr>)"

definition MarkEventsNotified :: "int list \<Rightarrow> int \<Rightarrow> unit res io" where
  "MarkEventsNotified eventIDs notifiedAt =
     (if eventIDs = [] then ret (Inr ()) else db_stmt (mark_notified eventIDs notifiedAt))"

section \<open>Notifications\<close>

definition NotificationFromEvent :: "MilestoneEvent \<Rightarrow> MilestoneNotification" where
  "NotificationFromEvent e =
     \<lparr>mnNotificationID = itoa (meEventID e), mnType = ''milestone'', mnContent = meNotificationContent e,
      mnCreatedAt = meQueuedAt e\<rparr>"

text \<open>The \<open>TxPipeline\<close> of \<open>Put\<close>.\<close>

definition put_cmd :: "rkey \<Rightarrow> int \<Rightarrow> MilestoneNotification \<Rightarrow> unit rcmd" where
  "put_cmd key ttl n t rs =
     (case HSET key (mnNotificationID n) (JMilestone n) t rs of (r, rs1) \<Rightarrow> (r, snd (EXPIRE key ttl t rs1)))"

definition NotificationStore_Put :: "int \<Rightarrow> int \<Rightarrow> MilestoneNotification \<Rightarrow> unit res io" where
  "NotificationStore_Put ttl agentID n = redis_cmd (put_cmd (MilestoneNotify agentID) ttl n)"

section \<open>The rule cache\<close>

text \<open>Templates see the item, the threshold, the counter and the summary.\<close>

record TemplateData =
  tdItemID :: int
  tdThreshold :: int
  tdCounterValue :: int
  tdItemSummary :: string

record MilestoneService =
  ruleCacheTTL :: int
  notificationTTL :: int
  summaryMaxRunes :: int
  renderContent :: "string \<Rightarrow> TemplateData \<Rightarrow> string res"

definition cached_rules :: "string \<Rightarrow> int \<Rightarrow> (string \<times> (MilestoneRule list \<times> int)) list \<Rightarrow> MilestoneRule list option" where
  "cached_rules metricKey now entries =
     (case map_of entries metricKey of
        None \<Rightarrow> None
      | Some (rules, until) \<Rightarrow> if now < until then Some rules else None)"

definition GetEnabledRules :: "MilestoneService \<Rightarrow> string \<Rightarrow> MilestoneRule list res io" where
  "GetEnabledRules s metricKey = do {
     now \<leftarrow> now_ms;
     entries \<leftarrow> gets w_rule_cache;
     (case cached_rules metricKey now entries of
        Some rules \<Rightarrow> ret (Inr rules)
      | None \<Rightarrow>
          and_then (ListEnabledRulesByMetric metricKey) (\<lambda>rules. do {
            _ \<leftarrow> modify (\<lambda>w. w\<lparr>w_rule_cache := AList.update metricKey (rules, now + ruleCacheTTL s) (w_rule_cache w)\<rparr>);
            ret (Inr rules) })) }"

definition InvalidateRules :: "string \<Rightarrow> unit io" where
  "InvalidateRules metricKey =
     (if metricKey = [] then ret ()
      else modify (\<lambda>w. w\<lparr>w_rule_cache := AList.delete metricKey (w_rule_cache w)\<rparr>))"

definition InvalidateAllRules :: "unit io" where
  "InvalidateAllRules = modify (\<lambda>w. w\<lparr>w_rule_cache := []\<rparr>)"

section \<open>Checking a counter\<close>

definition IsValidMetricKey :: "string \<Rightarrow> bool" where
  "IsValidMetricKey metricKey \<longleftrightarrow> metricKey \<in> {''consumed'', ''score_1'', ''score_2''}"

definition prepareItemSummary :: "string \<Rightarrow> int \<Rightarrow> string" where
  "prepareItemSummary summary maxRunes =
     (let joined = strings_Join (Fields summary) '' ''
      in if maxRunes \<le> 0 then joined
         else if int (length (runes joined)) \<le> maxRunes then joined
         else concat (map (EncodeRune \<circ> fst) (take (nat maxRunes) (runes joined))))"

definition new_event :: "int \<Rightarrow> int \<Rightarrow> int \<Rightarrow> string \<Rightarrow> int \<Rightarrow> string \<Rightarrow> int \<Rightarrow> MilestoneRule \<Rightarrow> MilestoneEvent" where
  "new_event eventID itemID author metricKey currentCount content now rule =
     \<lparr>meEventID = eventID, meItemID = itemID, meAuthorAgentID = author, meRuleID = mrRuleID rule,
      meMetricKey = metricKey, meThreshold = mrThreshold rule, meCounterValue = currentCount,
      meNotificationContent = content, meNotificationStatus = 0, meQueuedAt = now, meNotifiedAt = 0, meTriggeredAt = now\<rparr>"

definition fire_rule :: "MilestoneService \<Rightarrow> int \<Rightarrow> string \<Rightarrow> int \<Rightarrow> ItemContext \<Rightarrow> MilestoneRule \<Rightarrow> unit res io" where
  "fire_rule s itemID metricKey currentCount itemCtx rule = do {
     now \<leftarrow> now_ms;
     and_then next_event_id (\<lambda>eventID.
       case renderContent s (mrContentTemplate rule)
          \<lparr>tdItemID = itemID, tdThreshold = mrThreshold rule, tdCounterValue = currentCount,
           tdItemSummary = prepareItemSummary (icItemSummary itemCtx) (summaryMaxRunes s)\<rparr> of
         Inl e \<Rightarrow> ret (Inl e)
       | Inr content \<Rightarrow>
           (let event = new_event eventID itemID (icAuthorAgentID itemCtx) metricKey currentCount content now rule
            in and_then (InsertEventIfAbsent event) (\<lambda>inserted.
                 if \<not> inserted then ret (Inr ())
                 else NotificationStore_Put (notificationTTL s) (icAuthorAgentID itemCtx) (NotificationFromEvent event)))) }"

fun fire_rules :: "MilestoneService \<Rightarrow> int \<Rightarrow> string \<Rightarrow> int \<Rightarrow> ItemContext \<Rightarrow> MilestoneRule list \<Rightarrow> unit res io" where
  "fire_rules s itemID metricKey currentCount itemCtx [] = ret (Inr ())"
| "fire_rules s itemID metricKey currentCount itemCtx (rule # rules) =
     and_then (fire_rule s itemID metricKey currentCount itemCtx rule)
       (\<lambda>_. fire_rules s itemID metricKey currentCount itemCtx rules)"

definition Check :: "MilestoneService \<Rightarrow> int \<Rightarrow> string \<Rightarrow> int \<Rightarrow> unit res io" where
  "Check s itemID metricKey currentCount =
     (if \<not> IsValidMetricKey metricKey then ret (Inl (ErrText ''invalid milestone metric key''))
      else and_then (GetEnabledRules s metricKey) (\<lambda>rules.
        (let matchedRules = filter (\<lambda>r. currentCount \<ge> mrThreshold r) rules
         in if matchedRules = [] then ret (Inr ())
            else and_then (GetItemContext itemID) (\<lambda>itemCtx.
              fire_rules s itemID metricKey currentCount itemCtx matchedRules))))"

section \<open>Recovery\<close>

fun put_events :: "MilestoneService \<Rightarrow> int \<Rightarrow> MilestoneEvent list \<Rightarrow> (int \<times> err option) io" where
  "put_events s recovered [] = ret (recovered, None)"
| "put_events s recovered (e # es) = do {
     r \<leftarrow> NotificationStore_Put (notificationTTL s) (meAuthorAgentID e) (NotificationFromEvent e);
     (case r of
        Inl err \<Rightarrow> ret (recovered, Some err)
      | Inr _ \<Rightarrow> put_events s (recovered + 1) es) }"

text \<open>The loop over the pages; \<open>None\<close> when the fuel runs out before the last page.\<close>

fun recover_loop :: "MilestoneService \<Rightarrow> nat \<Rightarrow> int \<Rightarrow> int \<Rightarrow> int \<Rightarrow> int \<Rightarrow> (int \<times> err option) option io" where
  "recover_loop s 0 batchSize afterQueuedAt afterEventID recovered = ret None"
| "recover_loop s (Suc fuel) batchSize afterQueuedAt afterEventID recovered = do {
     r \<leftarrow> ListPendingEventsAfter afterQueuedAt afterEventID batchSize;
     (case r of
        Inl e \<Rightarrow> ret (Some (recovered, Some e))
      | Inr events \<Rightarrow>
          if events = [] then ret (Some (recovered, None))
          else do {
            p \<leftarrow> put_events s recovered events;
            (case p of
               (n, Some e) \<Rightarrow> ret (Some (n, Some e))
             | (n, None) \<Rightarrow>
                 if int (length events) < batchSize then ret (Some (n, None))
                 else recover_loop s fuel batchSize (meQueuedAt (last events)) (meEventID (last events)) n) }) }"

definition RecoverPendingNotifications :: "MilestoneService \<Rightarrow> nat \<Rightarrow> int \<Rightarrow> (int \<times> err option) option io" where
  "RecoverPendingNotifications s fuel limit = recover_loop s fuel (if limit \<le> 0 then 100 else limit) 0 0 0"

end
