(* ===== verification/Stats.thy ===== *)
theory Stats
  imports Milestones Streams
begin

text \<open>
  Statistics of items: the events of \<open>pkg/itemstats/events.go\<close>, the counters of \<open>rpc/item/dal/db.go\<close>, the log of feedback
  (\<open>pipeline/consumer/feedback_log_dal.go\<close>) and the handler of \<open>pipeline/consumer/item_stats_consumer.go\<close>. The values of a
  message are texts; optional ones are left out when they are empty.
\<close>

section \<open>Events\<close>

record Feedback =
  fbAgentID :: int
  fbItemID :: int
  fbScore :: int
  fbImpressionID :: string
  fbClientKey :: string
  fbImpressionSource :: string
  fbContractVersion :: string
  fbSurfaced :: "bool option"

record Event =
  evEventType :: string
  evAgentID :: int
  evItemID :: int
  evScore :: int
  evImpressionID :: string
  evClientKey :: string
  evImpressionSource :: string
  evContractVersion :: string
  evSurfaced :: "bool option"

abbreviation EventTypeConsumed :: string where "EventTypeConsumed \<equiv> ''consumed''"
abbreviation EventTypeFeedback :: string where "EventTypeFeedback \<equiv> ''feedback''"
abbreviation StatsStream :: string where "StatsStream \<equiv> ''stream:item:stats''"

definition consumed_values :: "int \<Rightarrow> int \<Rightarrow> (string \<times> string) list" where
  "consumed_values agentID itemID =
     [(''event_type'', EventTypeConsumed), (''agent_id'', itoa agentID), (''item_id'', itoa itemID)]"

definition FormatBool :: "bool \<Rightarrow> string" where
  "FormatBool b = (if b then ''true'' else ''false'')"

definition feedback_values :: "Feedback \<Rightarrow> (string \<times> string) list" where
  "feedback_values f =
     [(''event_type'', EventTypeFeedback), (''agent_id'', itoa (fbAgentID f)), (''item_id'', itoa (fbItemID f)),
      (''score'', itoa (fbScore f))] @
     filter (\<lambda>(_, v). v \<noteq> []) [(''impression_id'', fbImpressionID f), (''client_key'', fbClientKey f),
      (''impression_source'', fbImpressionSource f), (''contract_version'', fbContractVersion f)] @
     (case fbSurfaced f of None \<Rightarrow> [] | Some b \<Rightarrow> [(''surfaced'', FormatBool b)])"

definition ErrNilPublisher :: err where "ErrNilPublisher = ErrText ''item stats publisher is nil''"

definition PublishConsumed :: "nat \<Rightarrow> int \<Rightarrow> int \<Rightarrow> nat res io" where
  "PublishConsumed evict agentID itemID = do {
     n \<leftarrow> gets w_rdb_nil;
     if n then ret (Inl ErrNilPublisher) else Publish evict StatsStream (consumed_values agentID itemID) }"

definition PublishFeedback :: "nat \<Rightarrow> Feedback \<Rightarrow> nat res io" where
  "PublishFeedback evict f = do {
     n \<leftarrow> gets w_rdb_nil;
     if n then ret (Inl ErrNilPublisher) else Publish evict StatsStream (feedback_values f) }"

definition ParseBool :: "string \<Rightarrow> bool option" where
  "ParseBool t = (if t \<in> {''1'', ''t'', ''T'', ''true'', ''TRUE'', ''True''} then Some True
     else if t \<in> {''0'', ''f'', ''F'', ''false'', ''FALSE'', ''False''} then Some False else None)"

definition text_of :: "(string \<times> string) list \<Rightarrow> string \<Rightarrow> string" where
  "text_of vs key = (case map_of vs key of None \<Rightarrow> [] | Some t \<Rightarrow> t)"

definition parse_number :: "(string \<times> string) list \<Rightarrow> string \<Rightarrow> int res" where
  "parse_number vs key =
     (if text_of vs key = [] then Inl (ErrText (''missing '' @ key))
      else (case ParseInt64 (text_of vs key) of None \<Rightarrow> Inl (ErrText (''invalid '' @ key)) | Some n \<Rightarrow> Inr n))"

definition ParseEvent :: "(string \<times> string) list \<Rightarrow> Event res" where
  "ParseEvent vs =
     (if text_of vs ''event_type'' = [] then Inl (ErrText ''missing event_type'')
      else (case parse_number vs ''agent_id'' of
          Inl e \<Rightarrow> Inl e
        | Inr agentID \<Rightarrow> (case parse_number vs ''item_id'' of
            Inl e \<Rightarrow> Inl e
          | Inr itemID \<Rightarrow>
              (let event = \<lparr>evEventType = text_of vs ''event_type'', evAgentID = agentID, evItemID = itemID, evScore = 0,
                     evImpressionID = [], evClientKey = [], evImpressionSource = [], evContractVersion = [], evSurfaced = None\<rparr>
               in if evEventType event = EventTypeConsumed then Inr event
                  else if evEventType event = EventTypeFeedback then
                    (case parse_number vs ''score'' of
                       Inl e \<Rightarrow> Inl e
                     | Inr score \<Rightarrow>
                         if score < -1 \<or> score > 2 then Inl (ErrText ''invalid score'')
                         else Inr (event\<lparr>evScore := score, evImpressionID := text_of vs ''impression_id'',
                           evClientKey := text_of vs ''client_key'', evImpressionSource := text_of vs ''impression_source'',
                           evContractVersion := text_of vs ''contract_version'',
                           evSurfaced := Option.bind (map_of vs ''surfaced'') ParseBool\<rparr>))
                  else Inl (ErrText (''unsupported event_type''))))))"

section \<open>Counters\<close>

text \<open>The constraint \<open>chk_item_stats_agentcard_counters_sane\<close>; the roll-up of a trigger is left out.\<close>

definition counters_sane :: "ItemStats \<Rightarrow> bool" where
  "counters_sane st \<longleftrightarrow> isConsumedCount st \<in> {0..1000000000000} \<and> isScore1Count st \<in> {0..1000000000000} \<and>
     isScore2Count st \<in> {0..1000000000000}"

definition update_stats :: "int \<Rightarrow> (ItemStats \<Rightarrow> ItemStats) \<Rightarrow> database \<Rightarrow> unit res \<times> database" where
  "update_stats itemID f d =
     (let rows = update_where (\<lambda>st. isItemID st = itemID) f (item_stats d)
      in if \<exists>st \<in> set (item_stats d). isItemID st = itemID \<and> \<not> counters_sane (f st)
         then (Inl (CheckViolation ''chk_item_stats_agentcard_counters_sane''), d)
         else (Inr (), d\<lparr>item_stats := rows\<rparr>))"

definition insert_stats :: "int \<Rightarrow> int \<Rightarrow> int \<Rightarrow> database \<Rightarrow> unit res \<times> database" where
  "insert_stats itemID authorAgentID now d =
     (if itemID \<in> isItemID ` set (item_stats d) then (Inl (UniqueViolation ''item_stats_pkey''), d)
      else if itemID \<notin> iItemID ` set (raw_items d) then (Inl (ForeignKeyViolation ''item_stats_item_id_fkey''), d)
      else if authorAgentID \<notin> aAgentID ` set (agents d) then (Inl (ForeignKeyViolation ''item_stats_author_agent_id_fkey''), d)
      else (Inr (), d\<lparr>item_stats := item_stats d @ [\<lparr>isItemID = itemID, isAuthorAgentID = authorAgentID, isConsumedCount = 0,
        isScoreNeg1Count = 0, isScore0Count = 0, isScore1Count = 0, isScore2Count = 0, isTotalScore = 0,
        isCreatedAt = now, isUpdatedAt = now\<rparr>]\<rparr>))"

definition CreateItemStats :: "int \<Rightarrow> int \<Rightarrow> unit res io" where
  "CreateItemStats itemID authorAgentID = do {
     now \<leftarrow> now_ms;
     db_stmt (insert_stats itemID authorAgentID now) }"

definition IncrementConsumedCount :: "int \<Rightarrow> unit res io" where
  "IncrementConsumedCount itemID = do {
     now \<leftarrow> now_ms;
     db_stmt (update_stats itemID (\<lambda>st. st\<lparr>isConsumedCount := isConsumedCount st + 1, isUpdatedAt := now\<rparr>)) }"

definition add_score :: "int \<Rightarrow> int \<Rightarrow> ItemStats \<Rightarrow> ItemStats" where
  "add_score score now st =
     (if score = -1 then st\<lparr>isScoreNeg1Count := isScoreNeg1Count st + 1, isUpdatedAt := now\<rparr>
      else if score = 0 then st\<lparr>isScore0Count := isScore0Count st + 1, isUpdatedAt := now\<rparr>
      else if score = 1 then st\<lparr>isScore1Count := isScore1Count st + 1, isTotalScore := isTotalScore st + 1, isUpdatedAt := now\<rparr>
      else st\<lparr>isScore2Count := isScore2Count st + 1, isTotalScore := isTotalScore st + 2, isUpdatedAt := now\<rparr>)"

definition IncrementItemScore :: "int \<Rightarrow> int \<Rightarrow> unit res io" where
  "IncrementItemScore itemID score = do {
     now \<leftarrow> now_ms;
     (if score \<in> {-1, 0, 1, 2} then db_stmt (update_stats itemID (add_score score now)) else ret (Inr ())) }"

definition GetItemStatsByID :: "int \<Rightarrow> ItemStats res io" where
  "GetItemStatsByID itemID = first_or_err (db_query (\<lambda>d. find (\<lambda>st. isItemID st = itemID) (item_stats d)))"

section \<open>The log of feedback\<close>

definition newFeedbackLog :: "nat \<Rightarrow> Event \<Rightarrow> int \<Rightarrow> FeedbackLog" where
  "newFeedbackLog msgID event now =
     \<lparr>flStreamMessageID = msgID, flClientKey = evClientKey event, flSurfaced = evSurfaced event,
      flImpressionSource = evImpressionSource event, flContractVersion = evContractVersion event,
      flImpressionID = evImpressionID event, flAgentID = evAgentID event, flItemID = evItemID event,
      flScore = evScore event, flFeedbackAt = now, flCreatedAt = now\<rparr>"

text \<open>The widths of the columns; the two unique indexes, the second one for named keys only.\<close>

definition log_fits :: "FeedbackLog \<Rightarrow> bool" where
  "log_fits l \<longleftrightarrow> length (runes (flClientKey l)) \<le> 64 \<and> length (runes (flImpressionSource l)) \<le> 16 \<and>
     length (runes (flContractVersion l)) \<le> 32 \<and> length (runes (flImpressionID l)) \<le> 64"

definition log_conflict :: "FeedbackLog \<Rightarrow> FeedbackLog \<Rightarrow> bool" where
  "log_conflict l r \<longleftrightarrow> flStreamMessageID r = flStreamMessageID l \<or>
     flClientKey l \<noteq> [] \<and> flAgentID r = flAgentID l \<and> flClientKey r = flClientKey l"

definition insert_log :: "FeedbackLog \<Rightarrow> database \<Rightarrow> bool res \<times> database" where
  "insert_log l d =
     (if \<not> log_fits l then (Inl (DriverErr ''value too long for type character varying''), d)
      else if list_ex (log_conflict l) (feedback_logs d) then (Inr False, d)
      else (Inr True, d\<lparr>feedback_logs := feedback_logs d @ [l]\<rparr>))"

definition insertFeedbackLog :: "FeedbackLog \<Rightarrow> bool res io" where
  "insertFeedbackLog l = db_stmt (insert_log l)"

section \<open>The handler\<close>

record ItemStatsConsumer =
  milestoneSvc :: "MilestoneService option"

definition persist_tx :: "FeedbackLog \<Rightarrow> int \<Rightarrow> int \<Rightarrow> bool res io" where
  "persist_tx entry itemID score =
     and_then (insertFeedbackLog entry) (\<lambda>inserted.
       if \<not> inserted then ret (Inr False)
       else and_then (IncrementItemScore itemID score) (\<lambda>_. ret (Inr True)))"

definition persistFeedbackEvent :: "nat \<Rightarrow> Event \<Rightarrow> bool res io" where
  "persistFeedbackEvent msgID event = do {
     now \<leftarrow> now_ms;
     transaction (persist_tx (newFeedbackLog msgID event now) (evItemID event) (evScore event)) }"

definition checkMilestone :: "ItemStatsConsumer \<Rightarrow> int \<Rightarrow> string \<Rightarrow> (ItemStats \<Rightarrow> int) \<Rightarrow> unit res io" where
  "checkMilestone c itemID metricKey currentCount =
     (case milestoneSvc c of
        None \<Rightarrow> ret (Inr ())
      | Some s \<Rightarrow> and_then (GetItemStatsByID itemID) (\<lambda>stats. Check s itemID metricKey (currentCount stats)))"

definition handleEventDefault :: "ItemStatsConsumer \<Rightarrow> nat \<Rightarrow> Event \<Rightarrow> unit res io" where
  "handleEventDefault c msgID event =
     (if evEventType event = EventTypeConsumed then
        and_then (IncrementConsumedCount (evItemID event)) (\<lambda>_.
          checkMilestone c (evItemID event) ''consumed'' isConsumedCount)
      else if evEventType event = EventTypeFeedback then
        and_then (persistFeedbackEvent msgID event) (\<lambda>inserted.
          if \<not> inserted then ret (Inr ())
          else do {
            _ \<leftarrow> (if evScore event = 1 \<or> evScore event = 2 then spawn TIncrHighQuality else ret ());
            (if evScore event = 1 then checkMilestone c (evItemID event) ''score_1'' isScore1Count
             else if evScore event = 2 then checkMilestone c (evItemID event) ''score_2'' isScore2Count
             else ret (Inr ())) })
      else ret (Inl (ErrText ''unsupported event type'')))"

definition handle_stats :: "ItemStatsConsumer \<Rightarrow> nat \<Rightarrow> (string \<times> string) list \<Rightarrow> HandleResult io" where
  "handle_stats c msgID vs =
     (case ParseEvent vs of
        Inl _ \<Rightarrow> ret HandleFailure
      | Inr event \<Rightarrow> do {
          r \<leftarrow> handleEventDefault c msgID event;
          ret (case r of
              Inl e \<Rightarrow> if e = RecordNotFound then HandleSuccess else HandleRetry
            | Inr _ \<Rightarrow> HandleSuccess) })"

end
