(* ===== verification/Recovery.thy ===== *)
theory Recovery
  imports Pending Milestones
begin

text \<open>
  Milestones reach their authors: a counter that passes a threshold gives one event, and as long as an
  event has not been acknowledged, every round of the recovery brings its notification back to the list the author
  is shown.
\<close>

section \<open>Writing notifications\<close>

definition milestone_typed :: "int \<Rightarrow> redis \<Rightarrow> bool" where
  "milestone_typed t rs \<longleftrightarrow> (\<forall>a v. live t rs (MilestoneNotify a) = Some v \<longrightarrow> (\<exists>h. v = RHash h))"

definition announced :: "int \<Rightarrow> redis \<Rightarrow> MilestoneEvent \<Rightarrow> bool" where
  "announced t rs e \<longleftrightarrow> map_of (fields_of t rs (MilestoneNotify (meAuthorAgentID e))) (itoa (meEventID e)) =
     Some (JMilestone (NotificationFromEvent e))"

lemma put_cmd_result:
  assumes "milestone_typed t rs"
  shows "put_cmd (MilestoneNotify a) ttl n t rs = (Inr (), rs(MilestoneNotify a \<mapsto>
    (RHash (AList.update (mnNotificationID n) (JMilestone n) (fields_of t rs (MilestoneNotify a))), Some (t + ttl))))"
proof -
  have "\<forall>v. live t rs (MilestoneNotify a) = Some v \<longrightarrow> (\<exists>h. v = RHash h)" using assms by (simp add: milestone_typed_def)
  then show ?thesis
    by (auto simp: put_cmd_def HSET_def EXPIRE_def fields_of_def expiry_def live_def fun_upd_def
        split: option.splits if_splits rval.splits prod.splits)
qed

lemma fields_put:
  "0 < ttl \<Longrightarrow> fields_of t (rs(MilestoneNotify a \<mapsto> (RHash h, Some (t + ttl)))) (MilestoneNotify b) =
    (if b = a then h else fields_of t rs (MilestoneNotify b))"
  by (simp add: fields_of_def live_def)

lemma typed_put: "milestone_typed t rs \<Longrightarrow> milestone_typed t (rs(MilestoneNotify a \<mapsto> (RHash h, x)))"
  by (auto simp: milestone_typed_def live_def split: if_splits option.splits)

lemma announced_put:
  assumes "0 < ttl" and "rs' = rs(MilestoneNotify (meAuthorAgentID e) \<mapsto>
      (RHash (AList.update (itoa (meEventID e)) (JMilestone (NotificationFromEvent e)) (fields_of t rs (MilestoneNotify (meAuthorAgentID e)))),
       Some (t + ttl)))"
  shows "announced t rs' e" "meEventID e' \<noteq> meEventID e \<Longrightarrow> announced t rs e' \<Longrightarrow> announced t rs' e'"
  using assms(1) by (auto simp: assms(2) announced_def fields_put update_conv itoa_inject)

lemma store_put_run:
  assumes "quiet w" "milestone_typed (w_now w) (w_redis w)" "0 < ttl"
  shows "\<exists>rs. run_state (NotificationStore_Put ttl (meAuthorAgentID e) (NotificationFromEvent e)) w = (Inr (), w\<lparr>w_redis := rs\<rparr>) \<and>
    milestone_typed (w_now w) rs \<and> announced (w_now w) rs e \<and>
    (\<forall>e'. meEventID e' \<noteq> meEventID e \<longrightarrow> announced (w_now w) (w_redis w) e' \<longrightarrow> announced (w_now w) rs e')"
proof -
  define rs where "rs = (w_redis w)(MilestoneNotify (meAuthorAgentID e) \<mapsto>
      (RHash (AList.update (itoa (meEventID e)) (JMilestone (NotificationFromEvent e))
        (fields_of (w_now w) (w_redis w) (MilestoneNotify (meAuthorAgentID e)))), Some (w_now w + ttl)))"
  have "run_state (NotificationStore_Put ttl (meAuthorAgentID e) (NotificationFromEvent e)) w = (Inr (), w\<lparr>w_redis := rs\<rparr>)"
    unfolding NotificationStore_Put_def rs_def
    by (rule quiet_cmd [OF assms(1)]) (simp add: put_cmd_result [OF assms(2)] NotificationFromEvent_def)
  moreover have "milestone_typed (w_now w) rs" using assms(2) by (simp add: rs_def typed_put)
  ultimately show ?thesis using announced_put [OF assms(3) rs_def] by blast
qed

lemma put_events_run:
  assumes "quiet w" "milestone_typed (w_now w) (w_redis w)" "0 < notificationTTL s" "distinct (map meEventID es)"
  shows "\<exists>rs. run_state (put_events s n es) w = ((n + int (length es), None), w\<lparr>w_redis := rs\<rparr>) \<and> milestone_typed (w_now w) rs \<and>
    (\<forall>e \<in> set es. announced (w_now w) rs e) \<and>
    (\<forall>e. meEventID e \<notin> meEventID ` set es \<longrightarrow> announced (w_now w) (w_redis w) e \<longrightarrow> announced (w_now w) rs e)"
  using assms
proof (induction es arbitrary: w n)
  case Nil
  then show ?case by (intro exI [of _ "w_redis w"]) simp
next
  case (Cons e es)
  obtain rs1 where put: "run_state (NotificationStore_Put (notificationTTL s) (meAuthorAgentID e) (NotificationFromEvent e)) w =
      (Inr (), w\<lparr>w_redis := rs1\<rparr>)" "milestone_typed (w_now w) rs1" "announced (w_now w) rs1 e"
    "\<forall>e'. meEventID e' \<noteq> meEventID e \<longrightarrow> announced (w_now w) (w_redis w) e' \<longrightarrow> announced (w_now w) rs1 e'"
    using store_put_run [OF Cons.prems(1-3)] by blast
  let ?w1 = "w\<lparr>w_redis := rs1\<rparr>"
  have step: "run_state (put_events s n (e # es)) w = run_state (put_events s (n + 1) es) ?w1" using put(1) by simp
  obtain rs where rs: "run_state (put_events s (n + 1) es) ?w1 = ((n + 1 + int (length es), None), ?w1\<lparr>w_redis := rs\<rparr>)"
    "milestone_typed (w_now w) rs" "\<forall>e \<in> set es. announced (w_now w) rs e"
    "\<forall>e. meEventID e \<notin> meEventID ` set es \<longrightarrow> announced (w_now w) rs1 e \<longrightarrow> announced (w_now w) rs e"
    using Cons.IH [of ?w1 "n + 1"] Cons.prems put(2) by auto
  show ?case
  proof (intro exI [of _ rs] conjI ballI allI impI)
    show "run_state (put_events s n (e # es)) w = ((n + int (length (e # es)), None), w\<lparr>w_redis := rs\<rparr>)"
      unfolding step using rs(1) by (simp add: add.commute add.left_commute)
    show "announced (w_now w) rs x" if "x \<in> set (e # es)" for x
      using that rs(3,4) put(3) Cons.prems(4) by auto
    show "announced (w_now w) rs x" if "meEventID x \<notin> meEventID ` set (e # es)" "announced (w_now w) (w_redis w) x" for x
      using that rs(4) put(4) by auto
  qed (rule rs(2))
qed

section \<open>The pages of pending events\<close>

lemma distinct_map_inject_key:
  assumes "distinct (map f xs)" and "\<And>x y. g x = g y \<Longrightarrow> f x = f y"
  shows "distinct (map g xs)"
  using assms(1) unfolding distinct_map inj_on_def by (metis assms(2))

definition pending_events :: "database \<Rightarrow> MilestoneEvent list" where
  "pending_events d = filter (\<lambda>e. meNotificationStatus e = 0) (milestone_events d)"

interpretation events: keyset "\<lambda>w. pending_events (w_db w)" event_key
  "\<lambda>w. distinct (map meEventID (milestone_events (w_db w)))" "\<lambda>e. 0 < meQueuedAt e"
  "\<lambda>n (q, i). ListPendingEventsAfter q i (int n)" "\<lambda>e. (meQueuedAt e, meEventID e)" "(0, 0)" "\<lambda>n. 0 < n"
proof unfold_locales
  fix w :: world assume "distinct (map meEventID (milestone_events (w_db w)))"
  then have "distinct (map meEventID (pending_events (w_db w)))" by (simp add: pending_events_def distinct_map_filter)
  then show "distinct (map event_key (pending_events (w_db w)))"
    by (rule distinct_map_inject_key) (simp add: event_key_def)
next
  fix w :: world and n :: nat assume "quiet w" "0 < n"
  then show "run_state (case (0, 0) of (q, i) \<Rightarrow> ListPendingEventsAfter q i (int n)) w =
      (Inr (take n (sort_key event_key (pending_events (w_db w)))), w)"
    by (simp add: ListPendingEventsAfter_def quiet_query pending_events_def event_after_def Let_def)
next
  fix w :: world and n :: nat and x :: MilestoneEvent assume q: "quiet w" "0 < n" "0 < meQueuedAt x"
  have "event_after (meQueuedAt x) (meEventID x) y \<longleftrightarrow> event_key x < event_key y" for y
    using q(3) by (auto simp: event_after_def event_key_def)
  then show "run_state (case (meQueuedAt x, meEventID x) of (q, i) \<Rightarrow> ListPendingEventsAfter q i (int n)) w =
      (Inr (take n (sort_key event_key (filter (\<lambda>y. event_key x < event_key y) (pending_events (w_db w))))), w)"
    using q by (simp add: ListPendingEventsAfter_def quiet_query pending_events_def Let_def)
qed

section \<open>The recovery\<close>

text \<open>The loop from the page that starts at position \<open>i\<close>, when the events before it are announced.\<close>

lemma recover_from:
  assumes w: "quiet w" "0 < notificationTTL s" "0 < batch"
    and sane: "distinct (map meEventID (milestone_events (w_db w)))" "\<forall>e \<in> set (pending_events (w_db w)). 0 < meQueuedAt e"
    and S: "S = sort_key event_key (pending_events (w_db w))"
    and "length S - i < fuel" "i \<le> length S" "milestone_typed (w_now w) rs0"
    and "\<And>rs. run_state (ListPendingEventsAfter q j (int batch)) (w\<lparr>w_redis := rs\<rparr>) = (Inr (take batch (drop i S)), w\<lparr>w_redis := rs\<rparr>)"
    and "\<forall>e \<in> set (take i S). announced (w_now w) rs0 e"
  shows "\<exists>rs. run_state (recover_loop s fuel (int batch) q j n) (w\<lparr>w_redis := rs0\<rparr>) =
      (Some (n + int (length S - i), None), w\<lparr>w_redis := rs\<rparr>) \<and> (\<forall>e \<in> set S. announced (w_now w) rs e)"
  using assms(7-)
proof (induction fuel arbitrary: i q j n rs0)
  case (Suc fuel)
  let ?p = "take batch (drop i S)" and ?w0 = "w\<lparr>w_redis := rs0\<rparr>"
  show ?case
  proof (cases "drop i S = []")
    case True
    then show ?thesis using Suc.prems(2,4,5) by (intro exI [of _ rs0]) simp
  next
    case False
    have ids: "distinct (map meEventID S)"
      using sane(1) by (auto simp: S pending_events_def distinct_map inj_on_def)
    have ids_p: "distinct (map meEventID ?p)"
      using ids by (metis distinct_drop distinct_take drop_map take_map)
    obtain rs where rs: "run_state (put_events s n ?p) ?w0 = ((n + int (length ?p), None), w\<lparr>w_redis := rs\<rparr>)"
      "milestone_typed (w_now w) rs" "\<forall>e \<in> set ?p. announced (w_now w) rs e"
      "\<forall>e. meEventID e \<notin> meEventID ` set ?p \<longrightarrow> announced (w_now w) rs0 e \<longrightarrow> announced (w_now w) rs e"
      using put_events_run [of ?w0 s ?p n] w(1,2) Suc.prems(3) ids_p by auto
    let ?j = "i + length ?p"
    have j: "i < ?j" "?j \<le> length S" using False w(3) by (auto simp: min_def)
    have split: "take ?j S = take i S @ ?p"
      by (simp add: take_add min_def)
    have "meEventID e \<notin> meEventID ` set ?p" if "e \<in> set (take i S)" for e
    proof -
      have "distinct (map meEventID (take i S @ ?p))" using ids split by (metis distinct_take take_map)
      then show ?thesis using that by auto
    qed
    then have ann: "\<forall>e \<in> set (take ?j S). announced (w_now w) rs e" using split rs(3,4) Suc.prems(5) by auto
    have ne: "?p \<noteq> []" using j by auto
    have run: "run_state (recover_loop s (Suc fuel) (int batch) q j n) ?w0 =
        (if length ?p < batch then (Some (n + int (length ?p), None), w\<lparr>w_redis := rs\<rparr>)
         else run_state (recover_loop s fuel (int batch) (meQueuedAt (last ?p)) (meEventID (last ?p)) (n + int (length ?p))) (w\<lparr>w_redis := rs\<rparr>))"
      using ne by (simp only: recover_loop.simps run_state_bind Suc.prems(4) rs(1) prod.case sum.case if_False option.case of_nat_less_iff) simp
    show ?thesis
    proof (cases "length ?p < batch")
      case True
      then have "?j = length S" using Suc.prems(2) by (auto simp: min_def split: if_splits)
      then show ?thesis using run True ann by (intro exI [of _ rs]) auto
    next
      case full: False
      have fewer: "length S - ?j < fuel" using Suc.prems(1) j by linarith
      have "last ?p = S ! (?j - 1)" using ne j by (simp add: last_conv_nth)
      moreover have "run_state (ListPendingEventsAfter (meQueuedAt (S ! (?j - 1))) (meEventID (S ! (?j - 1))) (int batch)) (w\<lparr>w_redis := rs\<rparr>) =
          (Inr (take batch (drop ?j S)), w\<lparr>w_redis := rs\<rparr>)" for rs
        using events.page_after [of "w\<lparr>w_redis := rs\<rparr>" batch S "?j - 1"] w sane S j by simp
      ultimately obtain rs' where "run_state (recover_loop s fuel (int batch) (meQueuedAt (last ?p)) (meEventID (last ?p)) (n + int (length ?p)))
          (w\<lparr>w_redis := rs\<rparr>) = (Some (n + int (length ?p) + int (length S - ?j), None), w\<lparr>w_redis := rs'\<rparr>)"
        "\<forall>e \<in> set S. announced (w_now w) rs' e"
        using Suc.IH [of ?j rs "meQueuedAt (last ?p)" "meEventID (last ?p)" "n + int (length ?p)"] fewer j rs(2) ann by auto
      moreover have "int (length ?p) + int (length S - ?j) = int (length S - i)" using j by simp
      ultimately show ?thesis using run full by (intro exI [of _ rs']) auto
    qed
  qed
qed simp

lemma announced_shown:
  assumes "announced (w_now w) (w_redis w) e" "int64_range (meEventID e)"
  shows "plain_pending (meEventID e) SourceTypeMilestone ''milestone'' (meNotificationContent e) (meQueuedAt e)
    \<in> set (shown_milestones (meAuthorAgentID e) w)"
proof -
  have "JMilestone (NotificationFromEvent e) \<in> set (hash_values (MilestoneNotify (meAuthorAgentID e)) w)"
    using map_of_SomeD [OF assms(1) [unfolded announced_def]] by (force simp: hash_values_fields)
  then have "NotificationFromEvent e \<in> set (List.map_filter json_MilestoneNotification (hash_values (MilestoneNotify (meAuthorAgentID e)) w))"
    by (force simp: map_filter_def)
  moreover have "milestone_pending (NotificationFromEvent e) =
      Some (plain_pending (meEventID e) SourceTypeMilestone ''milestone'' (meNotificationContent e) (meQueuedAt e))"
    using assms(2) by (simp add: milestone_pending_def NotificationFromEvent_def ParseInt64_itoa)
  ultimately show ?thesis unfolding shown_milestones_def by (force simp: map_filter_def)
qed

text \<open>C18: one round of the recovery ends, puts back every milestone event that has not been
  acknowledged, however many pages it takes, and leaves the tables alone; afterwards the author of each such event
  is shown its notification.\<close>

theorem recovery_reaches_authors:
  assumes "quiet w" "0 < w_now w" "milestone_typed (w_now w) (w_redis w)" "0 < notificationTTL s"
    and "distinct (map meEventID (milestone_events (w_db w)))"
    and "\<forall>e \<in> set (pending_events (w_db w)). 0 < meQueuedAt e \<and> 0 < meAuthorAgentID e \<and> int64_range (meEventID e)"
    and "length (pending_events (w_db w)) < fuel"
  shows "\<exists>w'. run_state (RecoverPendingNotifications s fuel limit) w = (Some (int (length (pending_events (w_db w))), None), w') \<and>
    w_db w' = w_db w \<and> (\<forall>e \<in> set (pending_events (w_db w)).
      plain_pending (meEventID e) SourceTypeMilestone ''milestone'' (meNotificationContent e) (meQueuedAt e)
        \<in> list_all_pending sv vars (meAuthorAgentID e) w')"
proof -
  let ?S = "sort_key event_key (pending_events (w_db w))" and ?b = "nat (if limit \<le> 0 then 100 else limit)"
  have b: "0 < ?b" "int ?b = (if limit \<le> 0 then 100 else limit)" by simp_all
  have pos: "\<forall>e \<in> set (pending_events (w_db w)). 0 < meQueuedAt e" using assms(6) by blast
  have first: "run_state (ListPendingEventsAfter 0 0 (int ?b)) (w\<lparr>w_redis := rs\<rparr>) = (Inr (take ?b (drop 0 ?S)), w\<lparr>w_redis := rs\<rparr>)" for rs
    using events.first_page [of "w\<lparr>w_redis := rs\<rparr>" ?b] assms(1,5) b(1) by simp
  obtain rs where rs: "run_state (recover_loop s fuel (int ?b) 0 0 0) (w\<lparr>w_redis := w_redis w\<rparr>) =
      (Some (0 + int (length ?S - 0), None), w\<lparr>w_redis := rs\<rparr>)" "\<forall>e \<in> set ?S. announced (w_now w) rs e"
    using recover_from [OF assms(1,4) b(1) assms(5) pos refl, of 0 fuel "w_redis w" 0 0 0] first assms(3,7) by auto
  let ?w' = "w\<lparr>w_redis := rs\<rparr>"
  have "run_state (RecoverPendingNotifications s fuel limit) w = (Some (int (length (pending_events (w_db w))), None), ?w')"
    using rs(1) b(2) by (simp add: RecoverPendingNotifications_def)
  moreover have "plain_pending (meEventID e) SourceTypeMilestone ''milestone'' (meNotificationContent e) (meQueuedAt e)
      \<in> list_all_pending sv vars (meAuthorAgentID e) ?w'" if e: "e \<in> set (pending_events (w_db w))" for e
    using announced_shown [of ?w' e] rs(2) e assms(6) list_all_shown [of ?w' "meAuthorAgentID e" sv vars] assms(1,2)
    by (simp add: shown_def)
  ultimately show ?thesis by (intro exI [of _ ?w']) simp
qed

definition demo_event :: "int \<Rightarrow> int \<Rightarrow> int \<Rightarrow> MilestoneEvent" where
  "demo_event i rule status = \<lparr>meEventID = i, meItemID = 7, meAuthorAgentID = 1, meRuleID = rule, meMetricKey = ''consumed'',
     meThreshold = 50 * rule, meCounterValue = 120, meNotificationContent = ''reached'', meNotificationStatus = status, meQueuedAt = 20,
     meNotifiedAt = 0, meTriggeredAt = 20\<rparr>"

definition events_world :: world where
  "events_world = inbox_world\<lparr>w_db := empty_db\<lparr>milestone_events := [demo_event 41 1 0, demo_event 42 2 1, demo_event 43 3 0]\<rparr>\<rparr>"

definition plain_milestones :: MilestoneService where
  "plain_milestones = \<lparr>ruleCacheTTL = 60000, notificationTTL = 604800000, summaryMaxRunes = 20, renderContent = (\<lambda>t _. Inr t)\<rparr>"

theorem recovery_reaches_authors_witness:
  "\<exists>w'. run_state (RecoverPendingNotifications plain_milestones 3 1) events_world = (Some (2, None), w') \<and>
    (\<forall>i \<in> {41, 43}. plain_pending i ''milestone'' ''milestone'' ''reached'' 20 \<in> list_all_pending plain_service (\<lambda>_. []) 1 w')"
proof -
  have ev: "pending_events (w_db events_world) = [demo_event 41 1 0, demo_event 43 3 0]"
    by (simp add: events_world_def eval_inbox pending_events_def demo_event_def)
  have "quiet events_world" "0 < w_now events_world" "milestone_typed (w_now events_world) (w_redis events_world)"
    "0 < notificationTTL plain_milestones" "distinct (map meEventID (milestone_events (w_db events_world)))"
    by (simp_all add: events_world_def eval_inbox quiet_def milestone_typed_def live_def plain_milestones_def demo_event_def
        split: if_splits)
  from recovery_reaches_authors [OF this, of 3 1 plain_service "\<lambda>_. []"] show ?thesis
    by (auto simp: ev demo_event_def int64_range_def)
qed

end
