(* ===== verification/Firing.thy ===== *)
theory Firing
  imports Recovery
begin

text \<open>
  A counter that passes a threshold gives its author exactly one notification: a check adds an event for every
  matching rule that has none and announces it, and the next check finds nothing to do.
\<close>

section \<open>The rules\<close>

definition enabled_rules :: "string \<Rightarrow> database \<Rightarrow> MilestoneRule list" where
  "enabled_rules metricKey d = sort_key (\<lambda>r. (mrThreshold r, mrRuleID r))
     (filter (\<lambda>r. mrMetricKey r = metricKey \<and> mrRuleEnabled r) (milestone_rules d))"

definition cache_agrees :: "string \<Rightarrow> world \<Rightarrow> bool" where
  "cache_agrees metricKey w \<longleftrightarrow>
     cached_rules metricKey (w_now w) (w_rule_cache w) \<in> {None, Some (enabled_rules metricKey (w_db w))}"

lemma get_rules_run:
  assumes "quiet w" "cache_agrees k w"
  shows "\<exists>c. run_state (GetEnabledRules s k) w = (Inr (enabled_rules k (w_db w)), w\<lparr>w_rule_cache := c\<rparr>) \<and>
    cache_agrees k (w\<lparr>w_rule_cache := c\<rparr>)"
proof (cases "cached_rules k (w_now w) (w_rule_cache w)")
  case None
  let ?c = "AList.update k (enabled_rules k (w_db w), w_now w + ruleCacheTTL s) (w_rule_cache w)"
  have "run_state (GetEnabledRules s k) w = (Inr (enabled_rules k (w_db w)), w\<lparr>w_rule_cache := ?c\<rparr>)"
    using assms(1) None by (simp add: GetEnabledRules_def quiet_now ListEnabledRulesByMetric_def quiet_query and_then_def enabled_rules_def)
  moreover have "cache_agrees k (w\<lparr>w_rule_cache := ?c\<rparr>)"
    by (simp add: cache_agrees_def cached_rules_def update_conv)
  ultimately show ?thesis by blast
next
  case (Some r)
  then show ?thesis using assms
    by (intro exI [of _ "w_rule_cache w"]) (simp add: GetEnabledRules_def quiet_now cache_agrees_def)
qed

section \<open>The events of one check\<close>

definition milestone_text :: "MilestoneService \<Rightarrow> int \<Rightarrow> int \<Rightarrow> ItemContext \<Rightarrow> MilestoneRule \<Rightarrow> string res" where
  "milestone_text s itemID currentCount ctx rule = renderContent s (mrContentTemplate rule)
     \<lparr>tdItemID = itemID, tdThreshold = mrThreshold rule, tdCounterValue = currentCount,
      tdItemSummary = prepareItemSummary (icItemSummary ctx) (summaryMaxRunes s)\<rparr>"

definition event_for :: "MilestoneService \<Rightarrow> int \<Rightarrow> string \<Rightarrow> int \<Rightarrow> ItemContext \<Rightarrow> int \<Rightarrow> int \<times> MilestoneRule \<Rightarrow> MilestoneEvent" where
  "event_for s itemID metricKey currentCount ctx now = (\<lambda>(eventID, rule).
     new_event eventID itemID (icAuthorAgentID ctx) metricKey currentCount (value_or [] (milestone_text s itemID currentCount ctx rule)) now rule)"

definition fresh_events :: "MilestoneService \<Rightarrow> int \<Rightarrow> string \<Rightarrow> int \<Rightarrow> ItemContext \<Rightarrow> int \<Rightarrow> MilestoneEvent list \<Rightarrow> int list \<Rightarrow>
    MilestoneRule list \<Rightarrow> MilestoneEvent list" where
  "fresh_events s itemID metricKey currentCount ctx now old ids rules =
     map (event_for s itemID metricKey currentCount ctx now)
       (filter (\<lambda>(eventID, rule). (itemID, mrRuleID rule) \<notin> event_pair ` set old) (zip ids rules))"

lemma event_for_simps [simp]:
  "meEventID (event_for s i k c ctx now (e, r)) = e" "event_pair (event_for s i k c ctx now (e, r)) = (i, mrRuleID r)"
  "meAuthorAgentID (event_for s i k c ctx now (e, r)) = icAuthorAgentID ctx"
  "meItemID (event_for s i k c ctx now (e, r)) = i" "meRuleID (event_for s i k c ctx now (e, r)) = mrRuleID r"
  "meNotificationStatus (event_for s i k c ctx now (e, r)) = 0" "meQueuedAt (event_for s i k c ctx now (e, r)) = now"
  by (simp_all add: event_for_def new_event_def event_pair_def)

lemma fresh_events_later:
  assumes "mrRuleID r \<notin> mrRuleID ` set rules"
  shows "fresh_events s i k c ctx now (old @ [event_for s i k c ctx now (e, r)]) ids rules = fresh_events s i k c ctx now old ids rules"
proof -
  have "filter (\<lambda>(e', q). (i, mrRuleID q) \<notin> event_pair ` set (old @ [event_for s i k c ctx now (e, r)])) (zip ids rules) =
      filter (\<lambda>(e', q). (i, mrRuleID q) \<notin> event_pair ` set old) (zip ids rules)"
    using assms by (intro filter_cong refl) (auto dest!: set_zip_rightD, metis image_eqI)
  then show ?thesis by (simp add: fresh_events_def)
qed

text \<open>The rows an event refers to are there, and the identifier is new.\<close>

definition insertable :: "MilestoneEvent \<Rightarrow> database \<Rightarrow> bool" where
  "insertable e d \<longleftrightarrow> meEventID e \<noteq> 0 \<and> meEventID e \<notin> meEventID ` set (milestone_events d) \<and> meItemID e \<in> iItemID ` set (raw_items d) \<and>
     meAuthorAgentID e \<in> aAgentID ` set (agents d) \<and> meRuleID e \<in> mrRuleID ` set (milestone_rules d)"

lemma fire_rule_run:
  assumes w: "quiet w" "milestone_typed (w_now w) (w_redis w)" "0 < notificationTTL s"
    and ids: "w_event_ids w = Inr i # rest" and content: "milestone_text s itemID c ctx rule = Inr body"
    and e: "e = event_for s itemID k c ctx (w_now w) (i, rule)" "insertable e (w_db w)"
    and F: "F = (if event_pair e \<in> event_pair ` set (milestone_events (w_db w)) then [] else [e])"
  shows "\<exists>rs. run_state (fire_rule s itemID k c ctx rule) w = (Inr (), w\<lparr>w_event_ids := rest,
      w_db := (w_db w)\<lparr>milestone_events := milestone_events (w_db w) @ F\<rparr>, w_redis := rs\<rparr>) \<and> milestone_typed (w_now w) rs \<and>
    (\<forall>x \<in> set F. announced (w_now w) rs x) \<and>
    (\<forall>x. meEventID x \<noteq> i \<longrightarrow> announced (w_now w) (w_redis w) x \<longrightarrow> announced (w_now w) rs x) \<and> (F = [] \<longrightarrow> rs = w_redis w)"
proof -
  let ?w1 = "w\<lparr>w_event_ids := rest\<rparr>" and ?d = "(w_db w)\<lparr>milestone_events := milestone_events (w_db w) @ [e]\<rparr>"
  have e': "new_event i itemID (icAuthorAgentID ctx) k c body (w_now w) rule = e" by (simp add: e(1) event_for_def content value_or_def)
  have author: "meAuthorAgentID e = icAuthorAgentID ctx" by (simp add: e(1))
  have run: "run_state (fire_rule s itemID k c ctx rule) w = run_state (and_then (InsertEventIfAbsent e) (\<lambda>inserted.
      if \<not> inserted then ret (Inr ()) else NotificationStore_Put (notificationTTL s) (icAuthorAgentID ctx) (NotificationFromEvent e))) ?w1"
    using content by (simp add: fire_rule_def quiet_now next_event_id_def ids milestone_text_def e' and_then_def)
  show ?thesis
  proof (cases "event_pair e \<in> event_pair ` set (milestone_events (w_db w))")
    case True
    then have "run_state (InsertEventIfAbsent e) ?w1 = (Inr False, ?w1)"
      using w(1) e(2) by (simp add: InsertEventIfAbsent_def quiet_def quiet_db_stmt insert_event_def insertable_def)
    then show ?thesis using True F w(2) run by (intro exI [of _ "w_redis w"]) (simp add: and_then_def)
  next
    case False
    then have ins: "run_state (InsertEventIfAbsent e) ?w1 = (Inr True, ?w1\<lparr>w_db := ?d\<rparr>)"
      using w(1) e(2) by (simp add: InsertEventIfAbsent_def quiet_def quiet_db_stmt insert_event_def insertable_def)
    obtain rs where "run_state (NotificationStore_Put (notificationTTL s) (icAuthorAgentID ctx) (NotificationFromEvent e)) (?w1\<lparr>w_db := ?d\<rparr>) =
        (Inr (), ?w1\<lparr>w_db := ?d\<rparr>\<lparr>w_redis := rs\<rparr>)" "milestone_typed (w_now w) rs" "announced (w_now w) rs e"
      "\<forall>x. meEventID x \<noteq> meEventID e \<longrightarrow> announced (w_now w) (w_redis w) x \<longrightarrow> announced (w_now w) rs x"
      using store_put_run [of "?w1\<lparr>w_db := ?d\<rparr>" "notificationTTL s" e] w by (auto simp: author)
    then show ?thesis using False F run ins by (intro exI [of _ rs]) (simp add: e(1) and_then_def)
  qed
qed


text \<open>What a check of an item needs of the tables and of the templates.\<close>

definition ready :: "MilestoneService \<Rightarrow> int \<Rightarrow> int \<Rightarrow> ItemContext \<Rightarrow> MilestoneRule list \<Rightarrow> database \<Rightarrow> bool" where
  "ready s itemID c ctx rules d \<longleftrightarrow> itemID \<in> iItemID ` set (raw_items d) \<and> icAuthorAgentID ctx \<in> aAgentID ` set (agents d) \<and>
     mrRuleID ` set rules \<subseteq> mrRuleID ` set (milestone_rules d) \<and> distinct (map mrRuleID rules) \<and>
     (\<forall>rule \<in> set rules. \<exists>t. milestone_text s itemID c ctx rule = Inr t)"

definition new_ids :: "int list \<Rightarrow> database \<Rightarrow> bool" where
  "new_ids ids d \<longleftrightarrow> distinct ids \<and> 0 \<notin> set ids \<and> set ids \<inter> meEventID ` set (milestone_events d) = {}"

lemma fire_rules_run:
  assumes "quiet w" "milestone_typed (w_now w) (w_redis w)" "0 < notificationTTL s"
    and "w_event_ids w = map Inr ids @ rest" "length ids = length rules"
    and "ready s itemID c ctx rules (w_db w)" "new_ids ids (w_db w)"
    and "F = fresh_events s itemID k c ctx (w_now w) (milestone_events (w_db w)) ids rules"
  shows "\<exists>rs. run_state (fire_rules s itemID k c ctx rules) w = (Inr (), w\<lparr>w_event_ids := rest,
      w_db := (w_db w)\<lparr>milestone_events := milestone_events (w_db w) @ F\<rparr>, w_redis := rs\<rparr>) \<and> milestone_typed (w_now w) rs \<and>
    (\<forall>x \<in> set F. announced (w_now w) rs x) \<and>
    (\<forall>x. meEventID x \<notin> set ids \<longrightarrow> announced (w_now w) (w_redis w) x \<longrightarrow> announced (w_now w) rs x) \<and> (F = [] \<longrightarrow> rs = w_redis w)"
  using assms
proof (induction rules arbitrary: ids w F)
  case Nil
  then show ?case by (intro exI [of _ "w_redis w"]) (simp add: fresh_events_def)
next
  case (Cons rule rules)
  then obtain i js where ids: "ids = i # js" by (cases ids) auto
  define e where "e = event_for s itemID k c ctx (w_now w) (i, rule)"
  define G where "G = (if event_pair e \<in> event_pair ` set (milestone_events (w_db w)) then [] else [e])"
  let ?H = "fresh_events s itemID k c ctx (w_now w) (milestone_events (w_db w)) js rules"
  have F: "F = G @ ?H" by (simp add: Cons.prems(8) ids fresh_events_def G_def e_def)
  obtain body where body: "milestone_text s itemID c ctx rule = Inr body" using Cons.prems(6) by (auto simp: ready_def)
  have "insertable e (w_db w)" using Cons.prems(6,7) by (auto simp: insertable_def ready_def new_ids_def e_def ids)
  then obtain rs1 where one: "run_state (fire_rule s itemID k c ctx rule) w = (Inr (), w\<lparr>w_event_ids := map Inr js @ rest,
      w_db := (w_db w)\<lparr>milestone_events := milestone_events (w_db w) @ G\<rparr>, w_redis := rs1\<rparr>)"
    "milestone_typed (w_now w) rs1" "\<forall>x \<in> set G. announced (w_now w) rs1 x"
    "\<forall>x. meEventID x \<noteq> i \<longrightarrow> announced (w_now w) (w_redis w) x \<longrightarrow> announced (w_now w) rs1 x" "G = [] \<longrightarrow> rs1 = w_redis w"
    using fire_rule_run [OF Cons.prems(1-3) _ body e_def _ G_def, of "map Inr js @ rest"] Cons.prems(4) ids by auto
  define w1 where "w1 = w\<lparr>w_event_ids := map Inr js @ rest,
      w_db := (w_db w)\<lparr>milestone_events := milestone_events (w_db w) @ G\<rparr>, w_redis := rs1\<rparr>"
  have w1: "w_now w1 = w_now w" "w_redis w1 = rs1" "quiet w1" "w_event_ids w1 = map Inr js @ rest"
    using Cons.prems(1) by (simp_all add: w1_def)
  have H: "fresh_events s itemID k c ctx (w_now w) (milestone_events (w_db w1)) js rules = ?H"
    using Cons.prems(6) by (auto simp: w1_def G_def e_def ready_def intro: fresh_events_later)
  have "ready s itemID c ctx rules (w_db w1)" "new_ids js (w_db w1)"
    using Cons.prems(6,7) by (auto simp: ready_def new_ids_def ids w1_def G_def e_def)
  then obtain rs where rs: "run_state (fire_rules s itemID k c ctx rules) w1 = (Inr (), w1\<lparr>w_event_ids := rest,
      w_db := (w_db w1)\<lparr>milestone_events := milestone_events (w_db w1) @ ?H\<rparr>, w_redis := rs\<rparr>)"
    "milestone_typed (w_now w) rs" "\<forall>x \<in> set ?H. announced (w_now w) rs x"
    "\<forall>x. meEventID x \<notin> set js \<longrightarrow> announced (w_now w) rs1 x \<longrightarrow> announced (w_now w) rs x" "?H = [] \<longrightarrow> rs = rs1"
    using Cons.IH [of w1 js ?H] Cons.prems(3,5) one(2) H w1 ids by auto
  have "\<forall>x \<in> set G. meEventID x \<notin> set js" using Cons.prems(7) by (auto simp: G_def e_def new_ids_def ids)
  then show ?case
    using one rs F ids by (intro exI [of _ rs]) (auto simp: and_then_def w1_def)
qed

section \<open>Checks\<close>

definition matched :: "string \<Rightarrow> int \<Rightarrow> database \<Rightarrow> MilestoneRule list" where
  "matched k c d = filter (\<lambda>r. c \<ge> mrThreshold r) (enabled_rules k d)"

lemma check_run:
  assumes w: "quiet w" "milestone_typed (w_now w) (w_redis w)" "0 < notificationTTL s" "IsValidMetricKey k" "cache_agrees k w"
    and ids: "w_event_ids w = map Inr ids @ rest" "length ids = length (matched k c (w_db w))"
    and item: "item_contexts itemID (w_db w) = Some ctx" "ready s itemID c ctx (matched k c (w_db w)) (w_db w)" "new_ids ids (w_db w)"
    and F: "F = fresh_events s itemID k c ctx (w_now w) (milestone_events (w_db w)) ids (matched k c (w_db w))"
  shows "\<exists>rs cache. run_state (Check s itemID k c) w = (Inr (), w\<lparr>w_event_ids := rest, w_rule_cache := cache,
      w_db := (w_db w)\<lparr>milestone_events := milestone_events (w_db w) @ F\<rparr>, w_redis := rs\<rparr>) \<and> milestone_typed (w_now w) rs \<and>
    cache_agrees k (w\<lparr>w_rule_cache := cache\<rparr>) \<and> (\<forall>x \<in> set F. announced (w_now w) rs x) \<and>
    (\<forall>x. meEventID x \<notin> set ids \<longrightarrow> announced (w_now w) (w_redis w) x \<longrightarrow> announced (w_now w) rs x) \<and> (F = [] \<longrightarrow> rs = w_redis w)"
proof -
  obtain cache where cache: "run_state (GetEnabledRules s k) w = (Inr (enabled_rules k (w_db w)), w\<lparr>w_rule_cache := cache\<rparr>)"
    "cache_agrees k (w\<lparr>w_rule_cache := cache\<rparr>)" using get_rules_run [OF w(1,5)] by blast
  let ?w1 = "w\<lparr>w_rule_cache := cache\<rparr>" and ?M = "matched k c (w_db w)"
  obtain rs where rs: "run_state (fire_rules s itemID k c ctx ?M) ?w1 = (Inr (), ?w1\<lparr>w_event_ids := rest,
      w_db := (w_db w)\<lparr>milestone_events := milestone_events (w_db w) @ F\<rparr>, w_redis := rs\<rparr>)" "milestone_typed (w_now w) rs"
    "\<forall>x \<in> set F. announced (w_now w) rs x"
    "\<forall>x. meEventID x \<notin> set ids \<longrightarrow> announced (w_now w) (w_redis w) x \<longrightarrow> announced (w_now w) rs x" "F = [] \<longrightarrow> rs = w_redis w"
    using fire_rules_run [of ?w1 s ids rest ?M itemID c ctx F k] w ids item F by auto
  have "run_state (Check s itemID k c) w = run_state (fire_rules s itemID k c ctx ?M) ?w1"
  proof (cases "?M = []")
    case True
    then show ?thesis using w(4) cache(1) by (simp add: Check_def and_then_def matched_def)
  next
    case False
    have "run_state (GetItemContext itemID) ?w1 = (Inr ctx, ?w1)"
      using w(1) item(1) by (simp add: GetItemContext_def first_or_err_def quiet_query and_then_def)
    then show ?thesis using False w(4) cache(1) by (simp add: Check_def and_then_def matched_def Let_def)
  qed
  then show ?thesis using rs cache(2) by (intro exI [of _ rs] exI [of _ cache]) auto
qed

lemma check_again:
  assumes "length ids = length rules"
  shows "fresh_events s i k c ctx now (old @ fresh_events s i k c ctx now old ids rules) ids' rules = []"
proof -
  have "(i, mrRuleID r) \<in> event_pair ` set (old @ fresh_events s i k c ctx now old ids rules)" if r: "r \<in> set rules" for r
  proof -
    obtain n where "n < length rules" "rules ! n = r" using r by (auto simp: in_set_conv_nth)
    then have "(ids ! n, r) \<in> set (zip ids rules)" using assms by (auto simp: in_set_zip)
    then have "(i, mrRuleID r) \<in> event_pair ` set old \<or> event_for s i k c ctx now (ids ! n, r) \<in> set (fresh_events s i k c ctx now old ids rules)"
      by (auto simp: fresh_events_def)
    then show ?thesis by (metis event_for_simps(2) UnCI image_eqI set_append image_Un)
  qed
  then show ?thesis by (auto simp: fresh_events_def filter_empty_conv dest!: set_zip_rightD)
qed


lemma fresh_pairs:
  assumes "length ids = length rules"
  shows "map event_pair (fresh_events s i k c ctx now old ids rules) =
    map (\<lambda>r. (i, mrRuleID r)) (filter (\<lambda>r. (i, mrRuleID r) \<notin> event_pair ` set old) rules)"
  unfolding fresh_events_def using assms by (induction ids rules rule: list_induct2) auto

lemma fresh_event:
  "e \<in> set (fresh_events s i k c ctx now old ids rules) \<Longrightarrow>
   meEventID e \<in> set ids \<and> meAuthorAgentID e = icAuthorAgentID ctx \<and> meNotificationStatus e = 0 \<and> meQueuedAt e = now"
  by (auto simp: fresh_events_def dest!: set_zip_leftD)

text \<open>C17: when no command fails, a check of a counter adds exactly one pending event for each enabled rule
  whose threshold it has reached and that has no event for the item, the author is shown the notification of every
  new event, and a second check of the same counter changes neither the tables nor the notifications.\<close>

theorem milestone_fires_once:
  assumes w: "quiet w" "0 < w_now w" "milestone_typed (w_now w) (w_redis w)" "0 < notificationTTL s" "IsValidMetricKey k" "cache_agrees k w"
    and item: "item_contexts itemID (w_db w) = Some ctx" "0 < icAuthorAgentID ctx" "ready s itemID c ctx (matched k c (w_db w)) (w_db w)"
    and ids: "w_event_ids w = map Inr (ids @ ids') @ rest" "length ids = length (matched k c (w_db w))"
      "length ids' = length (matched k c (w_db w))" "new_ids (ids @ ids') (w_db w)" "\<forall>i \<in> set ids. int64_range i"
  shows "\<exists>w1 w2 new. run_state (Check s itemID k c) w = (Inr (), w1) \<and> run_state (Check s itemID k c) w1 = (Inr (), w2) \<and>
    milestone_events (w_db w1) = milestone_events (w_db w) @ new \<and>
    map event_pair new = map (\<lambda>r. (itemID, mrRuleID r))
      (filter (\<lambda>r. (itemID, mrRuleID r) \<notin> event_pair ` set (milestone_events (w_db w))) (matched k c (w_db w))) \<and>
    (\<forall>e \<in> set new. meAuthorAgentID e = icAuthorAgentID ctx \<and> meNotificationStatus e = 0 \<and>
      plain_pending (meEventID e) SourceTypeMilestone ''milestone'' (meNotificationContent e) (w_now w)
        \<in> list_all_pending sv vars (icAuthorAgentID ctx) w1) \<and>
    w_db w2 = w_db w1 \<and> w_redis w2 = w_redis w1"
proof -
  let ?M = "matched k c (w_db w)" and ?old = "milestone_events (w_db w)"
  let ?F = "fresh_events s itemID k c ctx (w_now w) ?old ids ?M"
  have new1: "new_ids ids (w_db w)" using ids(4) by (auto simp: new_ids_def)
  obtain rs cache where one: "run_state (Check s itemID k c) w = (Inr (), w\<lparr>w_event_ids := map Inr ids' @ rest, w_rule_cache := cache,
      w_db := (w_db w)\<lparr>milestone_events := ?old @ ?F\<rparr>, w_redis := rs\<rparr>)" "milestone_typed (w_now w) rs"
    "cache_agrees k (w\<lparr>w_rule_cache := cache\<rparr>)" "\<forall>x \<in> set ?F. announced (w_now w) rs x"
    using check_run [OF w(1,3-6) _ ids(2) item(1,3) new1 refl, of "map Inr ids' @ rest"] ids(1) by auto
  define w1 where "w1 = w\<lparr>w_event_ids := map Inr ids' @ rest, w_rule_cache := cache,
      w_db := (w_db w)\<lparr>milestone_events := ?old @ ?F\<rparr>, w_redis := rs\<rparr>"
  have w1: "quiet w1" "w_now w1 = w_now w" "w_redis w1 = rs" "milestone_events (w_db w1) = ?old @ ?F" "matched k c (w_db w1) = ?M"
    "item_contexts itemID (w_db w1) = Some ctx" "ready s itemID c ctx ?M (w_db w1)" "cache_agrees k w1"
    using w(1) item(1,3) one(3)
    by (simp_all add: w1_def matched_def enabled_rules_def item_contexts_def ready_def cache_agrees_def)
  have new2: "new_ids ids' (w_db w1)" using ids(4) w1(4) by (auto simp: new_ids_def dest!: fresh_event)
  have none: "fresh_events s itemID k c ctx (w_now w) (?old @ ?F) ids' ?M = []" by (rule check_again [OF ids(2)])
  obtain w2 where two: "run_state (Check s itemID k c) w1 = (Inr (), w2)" "w_db w2 = w_db w1" "w_redis w2 = w_redis w1"
    using check_run [OF w1(1) _ w(4,5) w1(8) _ _ w1(6) _ new2 refl, of rest c] one(2) w1 none ids(3) by (auto simp: w1_def)
  have shown: "plain_pending (meEventID e) SourceTypeMilestone ''milestone'' (meNotificationContent e) (w_now w)
      \<in> list_all_pending sv vars (icAuthorAgentID ctx) w1" if "e \<in> set ?F" for e
    using announced_shown [of w1 e] fresh_event [OF that] one(4) that ids(5) list_all_shown [of w1 "icAuthorAgentID ctx" sv vars] w1 w(2) item(2)
    by (simp add: shown_def)
  show ?thesis
    using one(1) two w1(4) fresh_pairs [OF ids(2)] shown fresh_event
    by (intro exI [of _ w1] exI [of _ w2] exI [of _ ?F]) (auto simp: w1_def)
qed


text \<open>Item 7 of agent 1 has had its event for the first rule; its counter passes the threshold of the second.\<close>

definition demo_rule :: "int \<Rightarrow> int \<Rightarrow> MilestoneRule" where
  "demo_rule i threshold = \<lparr>mrRuleID = i, mrMetricKey = ''consumed'', mrThreshold = threshold, mrRuleEnabled = True,
     mrContentTemplate = ''reached'', mrCreatedAt = 0, mrUpdatedAt = 0\<rparr>"

definition author_row :: AgentRow where
  "author_row = \<lparr>aAgentID = 1, aShortID = [], aEmail = [], aEmailKind = [], aAgentName = [], aAgentNameEn = [], aBio = [],
     aEmailVerifiedAt = None, aProfileCompletedAt = None, aIsOfficial = False, aActive = True\<rparr>"

definition counter_row :: "int \<Rightarrow> ItemStats" where
  "counter_row i = \<lparr>isItemID = i, isAuthorAgentID = 1, isConsumedCount = 120, isScoreNeg1Count = 0, isScore0Count = 0, isScore1Count = 0,
     isScore2Count = 0, isTotalScore = 0, isCreatedAt = 0, isUpdatedAt = 0\<rparr>"

definition counter_world :: world where
  "counter_world = inbox_world\<lparr>w_event_ids := map Inr [51, 52, 53, 54],
     w_db := empty_db\<lparr>milestone_events := [demo_event 42 1 1], raw_items := [\<lparr>iItemID = 7, iAuthorAgentID = 1\<rparr>],
       item_stats := [counter_row 7], agents := [author_row],
       milestone_rules := [demo_rule 1 50, demo_rule 2 100, demo_rule 3 200]\<rparr>\<rparr>"

lemmas eval_counter = counter_world_def counter_row_def eval_inbox demo_rule_def author_row_def demo_event_def plain_milestones_def

lemma counter_matched: "matched ''consumed'' 120 (w_db counter_world) = [demo_rule 1 50, demo_rule 2 100]"
  by (simp add: eval_counter matched_def enabled_rules_def)

theorem milestone_fires_once_witness:
  "\<exists>w1 w2 new. run_state (Check plain_milestones 7 ''consumed'' 120) counter_world = (Inr (), w1) \<and>
     run_state (Check plain_milestones 7 ''consumed'' 120) w1 = (Inr (), w2) \<and>
     milestone_events (w_db w1) = [demo_event 42 1 1] @ new \<and> map event_pair new = [(7, 2)] \<and> w_db w2 = w_db w1"
proof -
  let ?ctx = "\<lparr>icItemID = 7, icAuthorAgentID = 1, icItemSummary = []\<rparr>"
  have w: "quiet counter_world" "0 < w_now counter_world" "milestone_typed (w_now counter_world) (w_redis counter_world)"
    "0 < notificationTTL plain_milestones" "IsValidMetricKey ''consumed''" "cache_agrees ''consumed'' counter_world"
    "item_contexts 7 (w_db counter_world) = Some ?ctx" "0 < icAuthorAgentID ?ctx"
    by (simp_all add: eval_counter quiet_def milestone_typed_def live_def IsValidMetricKey_def cache_agrees_def cached_rules_def
        item_contexts_def split: if_splits)
  have r: "ready plain_milestones 7 120 ?ctx (matched ''consumed'' 120 (w_db counter_world)) (w_db counter_world)"
    unfolding counter_matched by (simp add: eval_counter ready_def milestone_text_def)
  have pairs: "map (\<lambda>r. (7, mrRuleID r)) (filter (\<lambda>r. (7, mrRuleID r) \<notin> event_pair ` set [demo_event 42 1 1])
      [demo_rule 1 50, demo_rule 2 100]) = [(7, 2)]"
    by (simp add: eval_counter event_pair_def)
  have old: "milestone_events (w_db counter_world) = [demo_event 42 1 1]" by (simp add: counter_world_def)
  have ids: "w_event_ids counter_world = map Inr ([51, 52] @ [53, 54]) @ []"
    "length [51, 52 :: int] = length (matched ''consumed'' 120 (w_db counter_world))"
    "length [53, 54 :: int] = length (matched ''consumed'' 120 (w_db counter_world))"
    "new_ids ([51, 52] @ [53, 54]) (w_db counter_world)" "\<forall>i \<in> set [51, 52]. int64_range i"
    unfolding counter_matched by (simp_all add: eval_counter new_ids_def int64_range_def)
  show ?thesis
    using milestone_fires_once [OF w r ids, of plain_service "\<lambda>_. []", unfolded counter_matched old pairs] by (elim exE conjE) (intro exI conjI)
qed

end
