(* ===== verification/Tally.thy ===== *)
theory Tally
  imports Stats Delivery Firing
begin

text \<open>
  The counters of an item against the log of feedback: whatever fails, is delivered twice or runs at the same time, each
  counter is the number of logged reports, and each report is a message of the stream, counted once. Counting of
  consumption has no such log, and a retry counts again.
\<close>

section \<open>Counters and log\<close>

definition reported :: "FeedbackLog list \<Rightarrow> int \<Rightarrow> int \<Rightarrow> int" where
  "reported logs itemID score = int (length (filter (\<lambda>l. flItemID l = itemID \<and> flScore l = score) logs))"

definition counts_match :: "FeedbackLog list \<Rightarrow> ItemStats \<Rightarrow> bool" where
  "counts_match logs st \<longleftrightarrow> isScoreNeg1Count st = reported logs (isItemID st) (-1) \<and> isScore0Count st = reported logs (isItemID st) 0 \<and>
     isScore1Count st = reported logs (isItemID st) 1 \<and> isScore2Count st = reported logs (isItemID st) 2 \<and>
     isTotalScore st = reported logs (isItemID st) 1 + 2 * reported logs (isItemID st) 2"

text \<open>A row of the log is the report of a message.\<close>

definition reports :: "XMessage \<Rightarrow> FeedbackLog \<Rightarrow> bool" where
  "reports m l \<longleftrightarrow> xID m = flStreamMessageID l \<and> (\<exists>ev. ParseEvent (xValues m) = Inr ev \<and> evEventType ev = EventTypeFeedback \<and>
     evAgentID ev = flAgentID l \<and> evItemID ev = flItemID l \<and> evScore ev = flScore l \<and> evClientKey ev = flClientKey l)"

definition log_unique :: "FeedbackLog list \<Rightarrow> bool" where
  "log_unique logs \<longleftrightarrow> sorted_wrt (\<lambda>r l. \<not> log_conflict l r) logs"

definition log_sound :: "XMessage set \<Rightarrow> database \<Rightarrow> bool" where
  "log_sound E d \<longleftrightarrow> log_unique (feedback_logs d) \<and> (\<forall>l \<in> set (feedback_logs d). \<exists>m \<in> E. reports m l)"

definition tally :: "XMessage set \<Rightarrow> database \<Rightarrow> bool" where
  "tally E d \<longleftrightarrow> log_sound E d \<and> (\<forall>st \<in> set (item_stats d). counts_match (feedback_logs d) st)"

lemma tally_same: "tally E d \<Longrightarrow> item_stats d' = item_stats d \<Longrightarrow> feedback_logs d' = feedback_logs d \<Longrightarrow> tally E d'"
  by (simp add: tally_def log_sound_def)

lemma reported_snoc: "reported (logs @ [l]) i s = reported logs i s + (if flItemID l = i \<and> flScore l = s then 1 else 0)"
  by (simp add: reported_def)

text \<open>Inside the transaction, between the log and the counter.\<close>

definition pending_score :: "XMessage set \<Rightarrow> FeedbackLog \<Rightarrow> database \<Rightarrow> bool" where
  "pending_score E l d \<longleftrightarrow> log_sound E d \<and>
     (\<exists>logs. feedback_logs d = logs @ [l] \<and> (\<forall>st \<in> set (item_stats d). counts_match logs st))"

lemma insert_log_effect:
  assumes "tally E d" "insert_log l d = (Inr x, d')" "m \<in> E" "reports m l"
  shows "if x then pending_score E l d' else d' = d"
  using assms
  by (auto simp: insert_log_def tally_def log_sound_def log_unique_def pending_score_def sorted_wrt_append list_ex_iff split: if_splits)

lemma add_score_effect:
  assumes "pending_score E l d" "update_stats (flItemID l) (add_score (flScore l) t) d = (Inr u, d')" "flScore l \<in> {-1, 0, 1, 2}"
  shows "tally E d'"
proof -
  obtain logs where logs: "feedback_logs d = logs @ [l]" "\<forall>st \<in> set (item_stats d). counts_match logs st"
    using assms(1) by (auto simp: pending_score_def)
  have d': "d' = d\<lparr>item_stats := update_where (\<lambda>st. isItemID st = flItemID l) (add_score (flScore l) t) (item_stats d)\<rparr>"
    using assms(2) by (simp add: update_stats_def Let_def split: if_splits)
  have hit: "counts_match (logs @ [l]) (add_score (flScore l) t st)" if "counts_match logs st" "isItemID st = flItemID l" for st
  proof -
    consider "flScore l = -1" | "flScore l = 0" | "flScore l = 1" | "flScore l = 2" using assms(3) by auto
    then show ?thesis using that by cases (simp_all add: counts_match_def reported_snoc add_score_def)
  qed
  have "reported (logs @ [l]) i s = reported logs i s" if "i \<noteq> flItemID l" for i s using that by (auto simp: reported_snoc)
  then have miss: "counts_match (logs @ [l]) st" if "counts_match logs st" "isItemID st \<noteq> flItemID l" for st
    using that by (simp add: counts_match_def)
  have "\<forall>st \<in> set (item_stats d'). counts_match (logs @ [l]) st"
    using logs hit miss unfolding d' update_where_def by auto
  then show ?thesis using assms(1) logs(1) by (simp add: tally_def pending_score_def log_sound_def d')
qed

section \<open>The handler\<close>

lemma persist_valid:
  assumes "m \<in> E" "reports m l" "flScore l \<in> {-1, 0, 1, 2}"
  shows "tx_valid (tally E) (persist_tx l (flItemID l) (flScore l)) (\<lambda>_. tally E)"
proof -
  have ins: "tx_valid (tally E) (insertFeedbackLog l) (\<lambda>x d. if x then pending_score E l d else tally E d)"
    unfolding insertFeedbackLog_def
    by (rule tx_weaken [OF tx_db_stmt]) (use insert_log_effect assms(1,2) in \<open>fastforce split: if_splits\<close>)
  have inc: "tx_valid (pending_score E l) (IncrementItemScore (flItemID l) (flScore l)) (\<lambda>_. tally E)"
    unfolding IncrementItemScore_def using assms(3)
    by (intro tx_frame io_intros keeps_tx_prims) (auto intro!: tx_weaken [OF tx_db_stmt] add_score_effect)
  show ?thesis
    unfolding persist_tx_def
  proof (rule tx_and_then [OF ins])
    fix x
    show "tx_valid (\<lambda>d. if x then pending_score E l d else tally E d)
        (if \<not> x then ret (Inr False) else and_then (IncrementItemScore (flItemID l) (flScore l)) (\<lambda>_. ret (Inr True))) (\<lambda>_. tally E)"
      by (cases x) (auto intro: tx_return tx_and_then [OF inc])
  qed
qed

lemma persist_keeps:
  assumes "m \<in> E" "ParseEvent (xValues m) = Inr ev" "evEventType ev = EventTypeFeedback"
  shows "preserves (on_stores (\<lambda>d rs. tally E d)) (persistFeedbackEvent (xID m) ev)"
proof -
  have score: "evScore ev \<in> {-1, 0, 1, 2}"
    using assms(2,3) by (auto simp: ParseEvent_def Let_def split: if_splits sum.splits)
  have "preserves (on_stores (\<lambda>d rs. tally E d)) (transaction (persist_tx (newFeedbackLog (xID m) ev t) (evItemID ev) (evScore ev)))" for t
  proof (rule preserves_transaction)
    show "tx_valid (\<lambda>d. tally E d) (persist_tx (newFeedbackLog (xID m) ev t) (evItemID ev) (evScore ev)) (\<lambda>_. tally E)"
      using persist_valid [OF assms(1), of "newFeedbackLog (xID m) ev t"] score assms(2,3) by (simp add: reports_def newFeedbackLog_def)
  qed (auto simp: persist_tx_def insertFeedbackLog_def IncrementItemScore_def intro!: io_intros keeps_tx_prims intro: tally_same)
  then show ?thesis unfolding persistFeedbackEvent_def by (intro io_intros)
qed

lemma check_keeps: "preserves (on_stores (\<lambda>d rs. tally E d)) (checkMilestone c i k f)"
proof -
  have ev: "insert_event e d = (Inr x, d') \<Longrightarrow> tally E d \<Longrightarrow> tally E d'" for e d x d'
    by (auto simp: insert_event_def split: if_splits intro: tally_same)
  have ids: "preserves (on_stores (\<lambda>d rs. tally E d)) next_event_id"
    by (auto simp: next_event_id_def preserves_def split: list.splits)
  have "preserves (on_stores (\<lambda>d rs. tally E d)) (fire_rules s i k n ctx rules)" for s n ctx rules
    by (induction rules) (auto simp: fire_rule_def InsertEventIfAbsent_def Let_def NotificationStore_Put_def
        intro!: io_intros preserves_db_stmt preserves_redis_cmd ids ev)
  then show ?thesis
    unfolding checkMilestone_def Check_def GetEnabledRules_def ListEnabledRulesByMetric_def GetItemContext_def GetItemStatsByID_def
      first_or_err_def Let_def
    by (intro io_intros preserves_db_stmt) (auto simp: preserves_def)
qed

lemma handle_keeps:
  assumes "m \<in> E"
  shows "preserves (on_stores (\<lambda>d rs. tally E d)) (handle_stats c (xID m) (xValues m))"
proof -
  have inc: "preserves (on_stores (\<lambda>d rs. tally E d)) (IncrementConsumedCount i)" for i
  proof -
    have stmt: "tally E d'" if "tally E d" "update_stats i (\<lambda>st. st\<lparr>isConsumedCount := isConsumedCount st + 1, isUpdatedAt := t\<rparr>) d = (Inr u, d')" for t d u d'
    proof -
      have "counts_match logs (st\<lparr>isConsumedCount := n, isUpdatedAt := t\<rparr>) = counts_match logs st" for logs st n by (simp add: counts_match_def)
      moreover have "d' = d\<lparr>item_stats := update_where (\<lambda>st. isItemID st = i) (\<lambda>st. st\<lparr>isConsumedCount := isConsumedCount st + 1, isUpdatedAt := t\<rparr>) (item_stats d)\<rparr>"
        using that(2) by (simp add: update_stats_def Let_def split: if_splits)
      ultimately show ?thesis using that(1) by (auto simp: tally_def log_sound_def update_where_def)
    qed
    show ?thesis unfolding IncrementConsumedCount_def by (intro io_intros preserves_db_stmt) (rule stmt)
  qed
  have spawned: "preserves (on_stores (\<lambda>d rs. tally E d)) (spawn t)" for t by (simp add: preserves_def spawn_def)
  have "preserves (on_stores (\<lambda>d rs. tally E d)) (handleEventDefault c (xID m) ev)" if "ParseEvent (xValues m) = Inr ev" for ev
    unfolding handleEventDefault_def using persist_keeps [OF assms that]
    by (intro io_intros inc check_keeps spawned)
  then show ?thesis
    unfolding handle_stats_def by (cases "ParseEvent (xValues m)") (auto intro!: io_intros)
qed

lemma handle_apart: "keeps w_mq (handle_stats c i vs)"
proof -
  have "keeps w_mq (fire_rules s j k n ctx rules)" for s j k n ctx rules
    by (induction rules) (auto simp: fire_rule_def InsertEventIfAbsent_def NotificationStore_Put_def Let_def intro!: io_intros keeps_mq_prims keeps_mq_more)
  then have "keeps w_mq (checkMilestone c j k f)" for j k f
    unfolding checkMilestone_def Check_def GetEnabledRules_def ListEnabledRulesByMetric_def GetItemContext_def GetItemStatsByID_def
      first_or_err_def Let_def
    by (intro io_intros keeps_mq_prims keeps_mq_more keeps_gets)
  then show ?thesis
    unfolding handle_stats_def handleEventDefault_def IncrementConsumedCount_def persistFeedbackEvent_def persist_tx_def insertFeedbackLog_def
      IncrementItemScore_def
    by (cases "ParseEvent vs") (auto intro!: io_intros keeps_mq_prims keeps_mq_more)
qed

text \<open>The other services create the counters of a new item before anyone reports on it, or leave both tables alone.\<close>

definition stats_others :: "world \<Rightarrow> world \<Rightarrow> bool" where
  "stats_others w w' \<longleftrightarrow> w_mq w' = w_mq w \<and>
     ((\<exists>i a r. run_state (CreateItemStats i a) w = (r, w') \<and> i \<notin> flItemID ` set (feedback_logs (w_db w))) \<or>
      item_stats (w_db w') = item_stats (w_db w) \<and> feedback_logs (w_db w') = feedback_logs (w_db w))"

lemma create_tally:
  assumes "tally E d" "insert_stats i a t d = (Inr u, d')" "i \<notin> flItemID ` set (feedback_logs d)"
  shows "tally E d'"
proof -
  have "reported (feedback_logs d) i s = 0" for s using assms(3) by (auto simp: reported_def filter_empty_conv image_iff)
  then show ?thesis using assms(1,2) by (auto simp: insert_stats_def tally_def log_sound_def counts_match_def split: if_splits)
qed

interpretation stats: table_handler "handle_stats c" tally stats_others
  for c :: ItemStatsConsumer
proof unfold_locales
  fix m :: XMessage and E E' :: "XMessage set" and d :: database and i :: nat and vs :: "(string \<times> string) list" and w w' :: world and r
  show "tally E (w_db w')" if "m \<in> E" "tally E (w_db w)" "run_state (handle_stats c (xID m) (xValues m)) w = (r, w')"
    using preserves_run [OF handle_keeps [OF that(1)], of w c] that(2,3) by simp
  show "tally E' d" if "tally E d" "E \<subseteq> E'" using that unfolding tally_def log_sound_def by blast
  show "w_mq w' = w_mq w" if "run_state (handle_stats c i vs) w = (r, w')" using handle_apart that by (rule keepsD)
  show "w_mq w' = w_mq w \<and> (tally E (w_db w) \<longrightarrow> tally E (w_db w'))" if other: "stats_others w w'"
  proof (intro conjI impI)
    show "w_mq w' = w_mq w" using other by (simp add: stats_others_def)
    assume t: "tally E (w_db w)"
    show "tally E (w_db w')"
    proof (cases "item_stats (w_db w') = item_stats (w_db w) \<and> feedback_logs (w_db w') = feedback_logs (w_db w)")
      case True
      then show ?thesis using t tally_same by blast
    next
      case False
      then obtain i a r where run: "run_state (db_stmt (insert_stats i a (w_now w))) w = (r, w')" "i \<notin> flItemID ` set (feedback_logs (w_db w))"
        using other by (auto simp: stats_others_def CreateItemStats_def now_ms_def)
      then show ?thesis using t create_tally
        by (cases rule: run_db_stmt [of "insert_stats i a (w_now w)" w]) auto
    qed
  qed
qed

lemma log_unique_distinct:
  assumes "log_unique logs"
  shows "distinct (map flStreamMessageID logs)" "distinct (map (\<lambda>l. (flAgentID l, flClientKey l)) (filter (\<lambda>l. flClientKey l \<noteq> []) logs))"
  using assms by (induction logs) (auto simp: log_unique_def log_conflict_def)

text \<open>C5: however many instances of the statistics consumer run, in any interleaving, with crashes, lost commands, lost
  replies and messages delivered again: the score counters of every item are the numbers of reports in the log and
  the total score their weighted sum, each row of the log is the report of a message of the stream, and no message and no
  named key of an agent has two rows.\<close>

theorem scores_match_log:
  assumes "reachable enc sc stats_others w0 (w, xs)" "scHandle sc = handle_stats c"
    and "feedback_logs (w_db w0) = []" "\<forall>st \<in> set (item_stats (w_db w0)). isScoreNeg1Count st = 0 \<and> isScore0Count st = 0 \<and>
      isScore1Count st = 0 \<and> isScore2Count st = 0 \<and> isTotalScore st = 0"
  shows "(\<forall>st \<in> set (item_stats (w_db w)). counts_match (feedback_logs (w_db w)) st) \<and>
    (\<forall>l \<in> set (feedback_logs (w_db w)). \<exists>m \<in> set (b_entries (w_mq w)). reports m l) \<and>
    distinct (map flStreamMessageID (feedback_logs (w_db w))) \<and>
    distinct (map (\<lambda>l. (flAgentID l, flClientKey l)) (filter (\<lambda>l. flClientKey l \<noteq> []) (feedback_logs (w_db w))))"
proof -
  have "tally E (w_db w0)" for E
    using assms(3,4) by (simp add: tally_def log_sound_def log_unique_def counts_match_def reported_def)
  then have ok: "tally (set (b_entries (w_mq w))) (w_db w)"
    using stats.reachable_tables [OF assms(1,2)] by (auto simp: stats.tables_ok_def)
  then show ?thesis using log_unique_distinct by (simp add: tally_def log_sound_def)
qed

section \<open>A report\<close>

text \<open>Agent 5 finds item 7, of agent 1, very helpful.\<close>

definition demo_feedback :: Feedback where
  "demo_feedback = \<lparr>fbAgentID = 5, fbItemID = 7, fbScore = 2, fbImpressionID = [], fbClientKey = ''k'', fbImpressionSource = [],
     fbContractVersion = [], fbSurfaced = Some True\<rparr>"

definition fresh_stats :: ItemStats where
  "fresh_stats = \<lparr>isItemID = 7, isAuthorAgentID = 1, isConsumedCount = 0, isScoreNeg1Count = 0, isScore0Count = 0, isScore1Count = 0,
     isScore2Count = 0, isTotalScore = 0, isCreatedAt = 10, isUpdatedAt = 10\<rparr>"

definition stats_world :: world where
  "stats_world = empty_world\<lparr>w_now := 100, w_db := empty_db\<lparr>item_stats := [fresh_stats]\<rparr>\<rparr>"

definition stats_consumer :: "ItemStatsConsumer \<Rightarrow> StreamConsumer" where
  "stats_consumer c = \<lparr>scConsumerName = ''item-stats-worker-1'', scBatchSize = 10, scMaxRetries = 3, scRetryMinIdle = 1000,
     scDeadLetterStream = [], scHandle = handle_stats c\<rparr>"

definition no_milestones :: ItemStatsConsumer where
  "no_milestones = \<lparr>milestoneSvc = None\<rparr>"

text \<open>C33: what \<open>PublishFeedback\<close> and \<open>PublishConsumed\<close> put on the stream, \<open>ParseEvent\<close> reads back, optional fields included,
  for every score the interface accepts.\<close>

theorem event_round_trip:
  assumes "int64_range (fbAgentID f)" "int64_range (fbItemID f)" "-1 \<le> fbScore f" "fbScore f \<le> 2"
  shows "ParseEvent (feedback_values f) = Inr \<lparr>evEventType = EventTypeFeedback, evAgentID = fbAgentID f, evItemID = fbItemID f,
      evScore = fbScore f, evImpressionID = fbImpressionID f, evClientKey = fbClientKey f, evImpressionSource = fbImpressionSource f,
      evContractVersion = fbContractVersion f, evSurfaced = fbSurfaced f\<rparr> \<and>
    ParseEvent (consumed_values (fbAgentID f) (fbItemID f)) = Inr \<lparr>evEventType = EventTypeConsumed, evAgentID = fbAgentID f,
      evItemID = fbItemID f, evScore = 0, evImpressionID = [], evClientKey = [], evImpressionSource = [], evContractVersion = [],
      evSurfaced = None\<rparr>"
proof -
  have range: "int64_range (fbScore f)" using assms(3,4) by (simp add: int64_range_def)
  have fs: "text_of (feedback_values f) ''event_type'' = EventTypeFeedback" "text_of (feedback_values f) ''agent_id'' = itoa (fbAgentID f)"
    "text_of (feedback_values f) ''item_id'' = itoa (fbItemID f)" "text_of (feedback_values f) ''score'' = itoa (fbScore f)"
    "text_of (feedback_values f) ''impression_id'' = fbImpressionID f" "text_of (feedback_values f) ''client_key'' = fbClientKey f"
    "text_of (feedback_values f) ''impression_source'' = fbImpressionSource f" "text_of (feedback_values f) ''contract_version'' = fbContractVersion f"
    by (auto simp: text_of_def feedback_values_def split: option.splits)
  have surfaced: "Option.bind (map_of (feedback_values f) ''surfaced'') ParseBool = fbSurfaced f"
    by (auto simp: feedback_values_def FormatBool_def ParseBool_def split: option.splits)
  have cs: "text_of (consumed_values a i) ''event_type'' = EventTypeConsumed" "text_of (consumed_values a i) ''agent_id'' = itoa a"
    "text_of (consumed_values a i) ''item_id'' = itoa i" for a i by (simp_all add: text_of_def consumed_values_def)
  show ?thesis using assms range by (simp add: ParseEvent_def fs cs surfaced parse_number_def Let_def)
qed

theorem event_round_trip_witness:
  "ParseEvent (feedback_values demo_feedback) = Inr \<lparr>evEventType = ''feedback'', evAgentID = 5, evItemID = 7, evScore = 2,
     evImpressionID = [], evClientKey = ''k'', evImpressionSource = [], evContractVersion = [], evSurfaced = Some True\<rparr>"
  using event_round_trip [of demo_feedback] by (simp add: demo_feedback_def int64_range_def)

lemma persist_run:
  assumes w: "quiet w" and log: "insert_log l (w_db w) = (Inr True, d)" and st: "update_stats i (add_score s (w_now w)) d = (Inr u, d')"
    and s: "s \<in> {-1, 0, 1, 2}"
  shows "run_state (transaction (persist_tx l i s)) w = (Inr True, w\<lparr>w_db := d', w_locks := []\<rparr>)"
  using assms by (simp add: quiet_def transaction_def persist_tx_def insertFeedbackLog_def IncrementItemScore_def and_then_def
      run_rules now_ms_def)

lemma demo_reported:
  assumes "run_state (handle_stats no_milestones 1 (feedback_values demo_feedback)) (stats_world\<lparr>w_mq := b\<rparr>) = (r, w)"
  shows "feedback_logs (w_db w) \<noteq> []" "map isScore2Count (item_stats (w_db w)) = [1]"
proof -
  let ?w = "stats_world\<lparr>w_mq := b\<rparr>"
  define ev where "ev = \<lparr>evEventType = ''feedback'', evAgentID = 5, evItemID = 7, evScore = 2,
     evImpressionID = [], evClientKey = ''k'', evImpressionSource = [], evContractVersion = [], evSurfaced = Some True\<rparr>"
  define l where "l = newFeedbackLog 1 ev 100"
  have parse: "ParseEvent (feedback_values demo_feedback) = Inr ev" unfolding ev_def by code_simp
  have "log_fits l" unfolding l_def ev_def by code_simp
  then have log: "insert_log l (w_db ?w) = (Inr True, (w_db ?w)\<lparr>feedback_logs := [l]\<rparr>)"
    by (simp add: insert_log_def stats_world_def empty_db_def)
  let ?d = "(w_db ?w)\<lparr>feedback_logs := [l], item_stats := [add_score 2 100 fresh_stats]\<rparr>"
  have st: "update_stats 7 (add_score 2 (w_now ?w)) ((w_db ?w)\<lparr>feedback_logs := [l]\<rparr>) = (Inr (), ?d)"
    by (simp add: update_stats_def stats_world_def empty_db_def fresh_stats_def add_score_def counters_sane_def update_where_def)
  have q: "quiet ?w" "w_now ?w = 100" by (simp_all add: stats_world_def empty_world_def quiet_def)
  have "run_state (persistFeedbackEvent 1 ev) ?w = (Inr True, ?w\<lparr>w_db := ?d, w_locks := []\<rparr>)"
    using persist_run [OF q(1) log st] q(2) by (simp add: persistFeedbackEvent_def now_ms_def l_def ev_def)
  then have "w_db w = ?d"
    using assms parse by (simp add: handle_stats_def handleEventDefault_def ev_def and_then_def checkMilestone_def no_milestones_def spawn_def) auto
  then show "feedback_logs (w_db w) \<noteq> []" "map isScore2Count (item_stats (w_db w)) = [1]"
    by (simp_all add: add_score_def fresh_stats_def)
qed

theorem scores_match_log_witness:
  "\<exists>w xs. reachable \<lparr>enSha256 = id, enMarshal = (\<lambda>fs. [])\<rparr> (stats_consumer no_milestones) stats_others stats_world (w, xs) \<and>
    feedback_logs (w_db w) \<noteq> [] \<and> map isScore2Count (item_stats (w_db w)) = [1] \<and>
    (\<forall>st \<in> set (item_stats (w_db w)). counts_match (feedback_logs (w_db w)) st)"
proof -
  let ?vs = "feedback_values demo_feedback" and ?enc = "\<lparr>enSha256 = id, enMarshal = (\<lambda>fs. [])\<rparr>"
  let ?b = "first_broker ?vs [\<lparr>xpID = 1, xpConsumer = ''a'', xpDelivered = w_now stats_world, xpRetryCount = 1\<rparr>]"
  obtain r w where run: "run_state (handle_stats no_milestones 1 ?vs) (stats_world\<lparr>w_mq := ?b\<rparr>) = (r, w)" by force
  have "quiet stats_world" "w_mq stats_world = fresh_broker" by (simp_all add: stats_world_def empty_world_def quiet_def fresh_broker_def)
  then have reach: "reachable ?enc (stats_consumer no_milestones) stats_others stats_world
      (w, [(new_instance ''a'')\<lparr>in_tasks := [(first_message ?vs, Some r)]\<rparr>])"
    using run by (intro first_handled) (simp_all add: stats_consumer_def)
  moreover have "\<forall>st \<in> set (item_stats (w_db w)). counts_match (feedback_logs (w_db w)) st"
    using scores_match_log [OF reach, of no_milestones] by (simp add: stats_consumer_def stats_world_def empty_db_def fresh_stats_def)
  ultimately show ?thesis using demo_reported [OF run] by (intro exI conjI)
qed

section \<open>Counting consumption twice\<close>

text \<open>C38: an event of consumption whose milestone check fails is left for a retry although the item has already
  been counted: when it is delivered again and nothing fails, the counter stands at two.\<close>

theorem consumed_counted_twice:
  "\<exists>w w1 w2. map isConsumedCount (item_stats (w_db w)) = [0] \<and>
     run_state (handle_stats \<lparr>milestoneSvc = Some plain_milestones\<rparr> 1 (consumed_values 5 7)) w = (HandleRetry, w1) \<and>
     run_state (handle_stats \<lparr>milestoneSvc = Some plain_milestones\<rparr> 1 (consumed_values 5 7)) w1 = (HandleSuccess, w2) \<and>
     map isConsumedCount (item_stats (w_db w2)) = [2]"
proof -
  let ?c = "\<lparr>milestoneSvc = Some plain_milestones\<rparr>" and ?vs = "consumed_values 5 7"
  let ?st = "\<lambda>n. fresh_stats\<lparr>isConsumedCount := n, isUpdatedAt := 100\<rparr>"
  let ?w = "\<lambda>n c. stats_world\<lparr>w_db := empty_db\<lparr>item_stats := [?st n]\<rparr>, w_rule_cache := c\<rparr>"
  let ?start = "stats_world\<lparr>w_env := [(0, Fine), (0, Lost ''connection reset'')]\<rparr>"
  define ev where "ev = \<lparr>evEventType = ''consumed'', evAgentID = 5, evItemID = 7, evScore = 0, evImpressionID = [], evClientKey = [],
    evImpressionSource = [], evContractVersion = [], evSurfaced = None\<rparr>"
  have parse: "ParseEvent ?vs = Inr ev" unfolding ev_def by code_simp
  have inc: "update_stats 7 (\<lambda>st. st\<lparr>isConsumedCount := isConsumedCount st + 1, isUpdatedAt := 100\<rparr>) (empty_db\<lparr>item_stats := [st]\<rparr>)
      = (Inr (), empty_db\<lparr>item_stats := [st\<lparr>isConsumedCount := isConsumedCount st + 1, isUpdatedAt := 100\<rparr>]\<rparr>)"
    if "isItemID st = 7" "isConsumedCount st \<in> {0, 1}" "isScore1Count st = 0" "isScore2Count st = 0" for st
    using that by (auto simp: update_stats_def counters_sane_def update_where_def)
  have first: "run_state (handle_stats ?c 1 ?vs) ?start = (HandleRetry, ?w 1 [])"
    using inc [of fresh_stats]
    by (simp add: handle_stats_def parse handleEventDefault_def ev_def and_then_def IncrementConsumedCount_def now_ms_def db_stmt_def db_query_def
        io_step_def checkMilestone_def GetItemStatsByID_def first_or_err_def stats_world_def empty_world_def fresh_stats_def)
  have q: "quiet (?w 1 [])" "w_now (?w 1 []) = 100" by (simp_all add: stats_world_def empty_world_def quiet_def)
  have again: "run_state (IncrementConsumedCount 7) (?w 1 []) = (Inr (), ?w 2 [])"
    using inc [of "?st 1"] quiet_stmt [OF q(1), of "update_stats 7 (\<lambda>st. st\<lparr>isConsumedCount := isConsumedCount st + 1, isUpdatedAt := 100\<rparr>)"] q(2)
    by (simp add: IncrementConsumedCount_def quiet_now fresh_stats_def)
  have "quiet (?w 2 [])" "w_now (?w 2 []) = 100" by (simp_all add: stats_world_def empty_world_def quiet_def)
  then have "run_state (checkMilestone ?c 7 ''consumed'' isConsumedCount) (?w 2 []) = (Inr (), ?w 2 [(''consumed'', [], 60100)])"
    by (simp add: checkMilestone_def GetItemStatsByID_def first_or_err_def quiet_query and_then_def Check_def IsValidMetricKey_def GetEnabledRules_def
        cached_rules_def ListEnabledRulesByMetric_def quiet_now fresh_stats_def empty_db_def plain_milestones_def stats_world_def empty_world_def Let_def)
  with again have "run_state (handle_stats ?c 1 ?vs) (?w 1 []) = (HandleSuccess, ?w 2 [(''consumed'', [], 60100)])"
    by (simp add: handle_stats_def parse handleEventDefault_def ev_def and_then_def)
  with first show ?thesis by (intro exI [of _ ?start] exI [of _ "?w 1 []"] exI conjI) (auto simp: stats_world_def fresh_stats_def)
qed

end
