(* ===== verification/Spec2Isabelle.thy ===== *)
theory Spec2Isabelle
  imports Answers Artifacts JournalReopen Orders RateWindow Reading Snowflake Tally
begin

text \<open>
  \<^bold>\<open>A verification of the messaging, notification and login services of EigenFlux, of the stream consumers behind them, and of the journal of its client.\<close>

  EigenFlux connects agents. The services verified here are the private messaging service
  (\<open>src/rpc/pm\<close>), the notification service (\<open>src/rpc/notification\<close>), which lists what the messaging
  service and the milestones write for an agent, the login service (\<open>src/rpc/auth\<close>), the consumers of
  Redis streams that feed the notifications and the statistics of items (\<open>src/pipeline/consumer\<close>), and the
  packages they rest on: streams (\<open>src/pkg/mq\<close>), the milestones (\<open>src/pkg/milestone\<close>), the identifier generator (\<open>src/pkg/idgen\<close>), the public identity of agents
  (\<open>src/pkg/agentidentity\<close>), the text guard (\<open>src/pkg/textguard\<close>), the cache
  (\<open>src/pkg/cache\<close>) and the event publishers (\<open>src/pkg/activity\<close>, \<open>src/pkg/agentcard\<close>); and, in the
  command-line client, the journal of the dispatcher (\<open>src/cli/internal/dispatch\<close>), which hands messages, hints and
  commissions to an agent. Each
  service is a set of RPC handlers over one Postgres database and one Redis; they interact only
  through the two stores, and every theorem about all worlds is about all contents of the stores,
  all timings and all failures of every single command.

  \<^bold>\<open>Effects.\<close> A handler is a program of the library's state monad over the record \<open>world\<close> of
  \<open>Store\<close>: the tables (one list of rows per table), the Redis keyspace with expiry times, the clock, the
  identifiers the generators will return, random tokens, the goroutines started and not yet run, the
  messages published, the mails sent and one stream with its consumer group. Every statement and every command first takes an entry of \<open>w_env\<close>,
  which says how much time passes and whether the command works, is lost, or works while its reply is
  lost. A transaction restores the tables when its body fails; after a failed statement the other
  statements of the transaction fail too. Errors are values (\<open>res\<close>, left is the error), and every
  early return of the code is a branch of its definition.

  \<^bold>\<open>Theories and sources.\<close>
  \<^item> \<open>Prelude\<close>: Hoare triples (\<open>valid\<close>), frames (\<open>keeps\<close>) and invariants (\<open>preserves\<close>) for effects with the
    rules collected in \<open>io_intros\<close>; decimal text.
  \<^item> \<open>PMTypes\<close>, \<open>Store\<close>: rows, requests, responses and errors; Redis commands, statements, transactions, and
    the wrappers of \<open>pkg/cache\<close>; \<open>render_key\<close> gives the names of \<open>pkg/cache/keys\<close>.
  \<^item> \<open>GoText\<close>: \<open>unicode/utf8\<close> as the code uses it, \<open>pkg/textguard/message.go\<close>, the weighted truncation.
  \<^item> \<open>PMDal\<close>, \<open>RelDal\<close>, \<open>AuthDal\<close>: \<open>rpc/pm/dal/db.go\<close>, \<open>rpc/pm/dal/relations.go\<close>, \<open>rpc/auth/dal/db.go\<close>, a
    definition per SQL statement, with the constraints of \<open>migrations\<close>.
  \<^item> \<open>RelCache\<close>, \<open>IceBreak\<close>, \<open>SendGuard\<close>, \<open>RateLimit\<close>, \<open>Validator\<close>, \<open>Notify\<close>: the packages \<open>relations\<close>,
    \<open>icebreak\<close>, \<open>sendguard\<close>, \<open>ratelimit\<close>, \<open>validator\<close> and \<open>notifyutil\<close> under \<open>rpc/pm\<close>, and the event publishers.
  \<^item> \<open>Snowflake\<close>, \<open>Identity\<close>: \<open>pkg/idgen\<close> on 64-bit words, \<open>pkg/agentidentity\<close>.
  \<^item> \<open>PMSend\<close>, \<open>PMRead\<close>, \<open>PMFriends\<close>: the handlers of \<open>rpc/pm/handler.go\<close>; \<open>Auth\<close>: those of
    \<open>rpc/auth/handler.go\<close>. The body of a transaction is a definition of its own.
  \<^item> \<open>Inbox\<close>: \<open>rpc/notification/dal\<close> and \<open>pkg/notificationpayload/commission_moderation.go\<close>; \<open>Notifications\<close>: the handlers
    of \<open>rpc/notification/handler.go\<close> with \<open>pkg/audience\<close>; \<open>Milestones\<close>: \<open>pkg/milestone\<close> with its tables.
  \<^item> \<open>ServiceInv\<close>, \<open>HandlersInv\<close>, \<open>Invariants\<close>, \<open>Service\<close>: the interface \<open>service_invariant\<close>, its proof for every
    handler and goroutine, its two instances, and the runs of the service.
  \<^item> \<open>Exclusion\<close>, \<open>Answers\<close>, \<open>Pages\<close>, \<open>Reading\<close>: friendship against blocking, answers to requests, keyset
    pagination (interface \<open>keyset\<close>), the queue of unread messages.
  \<^item> \<open>Challenges\<close>, \<open>Sessions\<close>, \<open>Logins\<close>, \<open>RateWindow\<close>: the life of a challenge under any
    interleaving, cached sessions, whole logins, and the counters with a fixed window (interface
    \<open>fixed_window\<close>).
  \<^item> \<open>Pending\<close>, \<open>Recovery\<close>, \<open>Firing\<close>: the list of pending notifications (an instance of \<open>keyset\<close>, as are the pages of
    pending events), acknowledgements, the recovery and the creation of milestone events.
  \<^item> \<open>Streams\<close>: \<open>pkg/mq/redis.go\<close> and the runtime of every consumer, \<open>stream_consumer.go\<close> and \<open>stream_lease.go\<close> in
    \<open>pipeline/consumer\<close>; \<open>Consumers\<close>: the two handlers that fill the inbox; \<open>Stats\<close>: the statistics of items
    (\<open>pkg/itemstats\<close>, \<open>item_stats_consumer.go\<close>, \<open>feedback_log_dal.go\<close> and the counters of \<open>rpc/item/dal/db.go\<close>).
  \<^item> \<open>Delivery\<close>: any number of instances of a consumer as a step relation, one step per command, with crashes; the
    interfaces \<open>stream_handler\<close> (no message is lost) and \<open>table_handler\<close> (an invariant of the tables over all
    interleavings). \<open>Orders\<close>, \<open>Tally\<close>: their instances for the notifications and for the statistics.
  \<^item> \<open>JournalTypes\<close>, \<open>Journal\<close>, \<open>JournalOps\<close>: the dispatcher's data and checks, \<open>journal.go\<close>, and the operations for commissions
    (\<open>commission_*.go\<close>), as functions on a record of the state in memory and the file. \<open>JournalSpec\<close>: the operations as a datatype,
    runs of them, and the life of a job as a specification; \<open>JournalInv\<close>, \<open>JournalSteps\<close>, \<open>JournalMoves\<close>: lists of jobs as maps and
    each operation against the specification; \<open>JournalRuns\<close>: the invariant and the interface \<open>task_store\<close>; \<open>JournalSample\<close>,
    \<open>JournalLaws\<close>: a codec for the witnesses and the laws; \<open>JournalReopen\<close>: what is saved can be read; \<open>Artifacts\<close>: the paths of artifacts.

  \<^bold>\<open>What is shown.\<close>
  \<^item> Of the tables: in every world a run of the messaging service reaches, messages and conversations agree
    with each other and with the cache, relations are stored once and friendships in both
    directions; the handlers that check the block table keep friendship and blocking apart.
  \<^item> Of concurrency: at most one send of a fingerprint holds its lease; a login challenge is consumed at most
    once; generators with different workers share no identifier.
  \<^item> Of results: walks over pages deliver every row once and in order, \<open>FetchPM\<close> is a dequeue, a repeated send
    is answered with the first result, a login gives a token that validates until its logout, and
    only the right agent answers a friend request.
  \<^item> Of notifications: what has been written is listed until it is acknowledged, an acknowledgement is all or
    nothing, a counter that passes a threshold notifies its author once, and the recovery brings back what is
    not acknowledged.
  \<^item> Of streams: whatever the interleaving of the instances, their crashes and lost commands, no order event that the stream keeps is
    lost, a message left by a crashed instance reaches its recipient, and the score counters of an item agree with the
    log of reports, each message counted once.
  \<^item> Of the journal: whatever crashes and whatever write fails, every operation moves every job along its life cycle, a job is
    handed out twice only when something allows it, accepted messages are kept, the choice of the next job is that of
    a reference definition, the journal stays within its bounds, and what it saves it can read again; the paths of artifacts
    stay below their directory.
  \<^item> Refinements and equivalences: the ice-break script refines a counter machine, the rate limits a
    fixed-window limiter, the two-sided conversation query the plain one, and message content is accepted exactly
    when it is an encoding of scalar values.
  \<^item> Of errors: runs in which the code does not do what it means to, each a theorem about a
    concrete world (a second block that hides the first, a friendship despite a block, a cached check that
    races an expiry, a logout that races a validation, a counter whose expiry is lost, a rollback that forgets
    the counter, a cursor that the service that made it rejects, a consumption that a retry counts twice, a notification
    after which the journal cannot be opened).

  \<^bold>\<open>Parameters.\<close> SHA-256, the Unicode case and script tables, \<open>path.Match\<close>, the etcd transaction, the
  decoding and encoding of JSON documents, text templates and the expression language of audiences are
  arguments of the definitions that use them; for the journal they are the fields of the record \<open>json_codec\<close>. Hypotheses about them are
  named in the statements: \<open>collision_free\<close> (the digests that name jobs differ), \<open>reads_back\<close>, \<open>keeps_data\<close> and \<open>json_laws\<close> (what is decoded is what
  was encoded, as far as it matters).

  \<^bold>\<open>Fuel.\<close> The loop over the pages of pending events has an explicit bound on its pages: a bound greater than the number
  of pending events is enough (\<open>recovery_reaches_authors\<close>), since each page but the last is not empty. The other loops
  of the code without a bound of their own are the check of nested JSON, whose depth is the number of tokens, of which each call takes one or
  more, and the waiting loops of the identifier generator, whose clock is a list of readings: a call that still waits at the end of the
  list has the value \<open>None\<close>, and \<open>next_id_returns\<close> shows when it returns. The retries of the send guard are
  counted in the code, and the loop over random bytes of a short ID consumes its blocks.

  \<^bold>\<open>Not modelled.\<close> Log lines and metrics; reading configuration files; gRPC and HTTP transport with its
  generated code (\<open>kitex_gen\<close>, \<open>api\<close>, \<open>console\<close>); the search of messages (\<open>rpc/pm/search.go\<close>); delivery of pushes
  to sockets (\<open>ws\<close>); feed and sort services and the processing of items, which rest on language models and
  search engines outside the repository; the command-line client (\<open>cli\<close>) but for the journal of its dispatcher, of which the diagnostics
  of commissions are left out. A handler runs without other
  handlers between its commands, except where a theorem quantifies over interleavings (send guard,
  challenges, cached checks, logout) and in the stream consumers, where a handler is one step between the commands of
  other instances. Durations of blocking reads, timers and the jobs that expire old inbox rows are left out.
\<close>

end
